(* ===== verification/Zst_Prelude.thy ===== *)
theory Zst_Prelude
  imports Main "HOL-Library.Word" "HOL-Library.List_Lexorder" "HOL-Library.Product_Lexorder"
    "HOL-Library.Sublist"
begin

text \<open>
  The shared base of the development: the collections of simplification rules the component
  theories add to, C strings and bytes as the C++ code reads them, fixed-width arithmetic of
  \<open>size_t\<close>, and generic lemmas on lists, options and maps.
\<close>

named_theorems zst_frame
  \<comment> \<open>which fields an operation leaves alone\<close>
named_theorems zst_defs
  \<comment> \<open>definitions that are unfolded when an operation is evaluated or analysed\<close>

section \<open>Exceptions\<close>

text \<open>
  The exceptions the modelled code raises, and, as \<open>UndefinedBehaviour\<close>, the reads and writes
  outside an object that C++ leaves undefined. A function that may raise returns
  \<open>zst_exn + 'a\<close>.
\<close>

datatype zst_exn =
    RangeError            \<comment> \<open>\<open>std::range_error\<close>\<close>
  | OutOfRange            \<comment> \<open>\<open>std::out_of_range\<close>\<close>
  | InvalidArgument       \<comment> \<open>\<open>std::invalid_argument\<close>\<close>
  | RuntimeError          \<comment> \<open>\<open>std::runtime_error\<close>\<close>
  | FutureError           \<comment> \<open>\<open>std::future_error\<close>\<close>
  | NullDereference       \<comment> \<open>a member call through a null pointer\<close>
  | UndefinedBehaviour    \<comment> \<open>an access outside an array, or to an indeterminate value\<close>

section \<open>Fixed-width arithmetic\<close>

type_synonym u64 = "64 word"
type_synonym i32 = "32 word"

text \<open>\<open>size_t\<close> values are natural numbers below \<open>2 ^ 64\<close>; their subtraction wraps around.\<close>

definition size_t_sub :: "nat \<Rightarrow> nat \<Rightarrow> nat" where
  "size_t_sub a b = (a + 2 ^ 64 - b mod 2 ^ 64) mod 2 ^ 64"

lemma size_t_sub_le:
  assumes "b \<le> a" and "a < 2 ^ 64"
  shows "size_t_sub a b = a - b"
proof -
  have "a + 2 ^ 64 - b = (a - b) + 2 ^ 64" using assms by simp
  moreover have "((a - b) + 2 ^ 64) mod 2 ^ 64 = a - b" using assms by (simp only: mod_add_self2) simp
  ultimately show ?thesis using assms by (simp add: size_t_sub_def)
qed

lemma size_t_sub_gt:
  assumes "a < b" and "b < 2 ^ 64"
  shows "size_t_sub a b = 2 ^ 64 - (b - a)"
  using assms by (simp add: size_t_sub_def)

section \<open>Bytes and C strings\<close>

text \<open>
  A \<open>char\<close> array is a list of bytes. Functions of \<open>string.h\<close> read up to the first NUL:
  \<open>cstr\<close> is what they see of a buffer. \<open>char\<close> is the signed 8-bit type of the x86-64 ABI, so
  comparing and converting a \<open>char\<close> goes through its signed value \<open>schar\<close>; \<open>std::string\<close>
  compares its bytes as unsigned values (\<open>char_traits<char>::compare\<close>).
\<close>

abbreviation NUL :: char where
  "NUL \<equiv> CHR 0x00"

definition cstr :: "string \<Rightarrow> string" where
  "cstr s = takeWhile (\<lambda>c. c \<noteq> NUL) s"

definition strlen :: "string \<Rightarrow> nat" where
  "strlen s = length (cstr s)"

definition strcmp_eq :: "string \<Rightarrow> string \<Rightarrow> bool" where
  "strcmp_eq a b \<longleftrightarrow> cstr a = cstr b"

definition uchar :: "char \<Rightarrow> int" where
  "uchar c = of_char c"

definition schar :: "char \<Rightarrow> int" where
  "schar c = (let n = of_char c in if n < 128 then n else n - 256)"

lemma uchar_range: "0 \<le> uchar c \<and> uchar c < 256"
proof -
  have "(of_char c :: int) = of_nat (of_char c)" by (simp add: of_nat_of_char)
  moreover have "(of_char c :: nat) < 256" by (rule nat_of_char_less_256)
  ultimately show ?thesis by (simp add: uchar_def)
qed

lemma inj_uchar: "inj uchar"
  by (auto simp: uchar_def inj_def)

lemma schar_eq_iff [simp]: "schar c = schar d \<longleftrightarrow> c = d"
  using uchar_range [of c] uchar_range [of d]
  by (auto simp: schar_def uchar_def Let_def split: if_splits)

lemma inj_schar: "inj schar"
  by (auto simp: inj_def)

lemma schar_range: "- 128 \<le> schar c \<and> schar c < 128"
  using uchar_range [of c] by (auto simp: schar_def uchar_def Let_def)

lemma map_schar_eq_iff [simp]: "map schar xs = map schar ys \<longleftrightarrow> xs = ys"
  by (simp add: inj_map_eq_map inj_schar)

text \<open>\<open>nul_free s\<close>: the buffer holds no NUL, so that C sees all of it.\<close>

definition nul_free :: "string \<Rightarrow> bool" where
  "nul_free s \<longleftrightarrow> NUL \<notin> set s"

lemma cstr_nul_free [simp]: "nul_free s \<Longrightarrow> cstr s = s"
  by (auto simp: cstr_def nul_free_def takeWhile_eq_all_conv)

lemma nul_free_cstr [simp]: "nul_free (cstr s)"
  by (auto simp: cstr_def nul_free_def dest: set_takeWhileD)

lemma cstr_idem [simp]: "cstr (cstr s) = cstr s"
  by simp

lemma cstr_Nil [simp]: "cstr [] = []"
  by (simp add: cstr_def)

lemma nul_free_simps [simp]:
  "nul_free []"
  "nul_free (c # s) \<longleftrightarrow> c \<noteq> NUL \<and> nul_free s"
  "nul_free (s @ t) \<longleftrightarrow> nul_free s \<and> nul_free t"
  by (auto simp: nul_free_def)

lemma nul_free_take [intro]: "nul_free s \<Longrightarrow> nul_free (take n s)"
  by (auto simp: nul_free_def dest: in_set_takeD)

lemma nul_free_drop [intro]: "nul_free s \<Longrightarrow> nul_free (drop n s)"
  by (auto simp: nul_free_def dest: in_set_dropD)

section \<open>Lists, options and maps\<close>

definition list_index :: "'a list \<Rightarrow> nat \<Rightarrow> zst_exn + 'a" where
  \<comment> \<open>\<open>std::vector::at\<close>\<close>
  "list_index xs i = (if i < length xs then Inr (xs ! i) else Inl OutOfRange)"

lemma list_index_Inr [simp]: "list_index xs i = Inr x \<longleftrightarrow> i < length xs \<and> x = xs ! i"
  by (auto simp: list_index_def)

lemma list_index_Inl [simp]: "list_index xs i = Inl e \<longleftrightarrow> length xs \<le> i \<and> e = OutOfRange"
  by (auto simp: list_index_def)

text \<open>\<open>map_sum\<close> over a list that stops at the first exception.\<close>

fun map_exn :: "('a \<Rightarrow> zst_exn + 'b) \<Rightarrow> 'a list \<Rightarrow> zst_exn + 'b list" where
  "map_exn f [] = Inr []"
| "map_exn f (x # xs) =
     (case f x of Inl e \<Rightarrow> Inl e
      | Inr y \<Rightarrow> (case map_exn f xs of Inl e \<Rightarrow> Inl e | Inr ys \<Rightarrow> Inr (y # ys)))"

lemma map_exn_total: "(\<And>x. x \<in> set xs \<Longrightarrow> f x = Inr (g x)) \<Longrightarrow> map_exn f xs = Inr (map g xs)"
  by (induction xs) auto

lemma map_exn_length: "map_exn f xs = Inr ys \<Longrightarrow> length ys = length xs"
  by (induction xs arbitrary: ys) (auto split: sum.splits)

lemma prefix_nth:
  "prefix xs ys \<longleftrightarrow> length xs \<le> length ys \<and> (\<forall>i<length xs. xs ! i = ys ! i)"
proof
  assume "prefix xs ys"
  then show "length xs \<le> length ys \<and> (\<forall>i<length xs. xs ! i = ys ! i)"
    by (auto simp: prefix_def nth_append)
next
  assume "length xs \<le> length ys \<and> (\<forall>i<length xs. xs ! i = ys ! i)"
  then have "xs = take (length xs) ys" by (intro nth_equalityI) auto
  then show "prefix xs ys" by (metis take_is_prefix)
qed

lemma option_eq_by_Some: "(\<And>z. a = Some z \<longleftrightarrow> b = Some z) \<Longrightarrow> a = b"
  by (cases a; cases b) auto

lemma dom_eq_None: "dom f = dom g \<Longrightarrow> f x = None \<longleftrightarrow> g x = None"
  by (metis domIff)

lemma fold_invariant:
  assumes "I s" and "\<And>x s. x \<in> set xs \<Longrightarrow> I s \<Longrightarrow> I (f x s)"
  shows "I (fold f xs s)"
  using assms by (induction xs arbitrary: s) auto

lemma fold_frame:
  assumes "\<And>x s. x \<in> set xs \<Longrightarrow> g (f x s) = g s"
  shows "g (fold f xs s) = g s"
  using assms by (induction xs arbitrary: s) auto

end
