(* ===== verification/Zst_Ordered_Set.thy ===== *)
theory Zst_Ordered_Set
  imports Zst_Prelude
begin

text \<open>
  \<open>std::set<K, Compare>\<close> as the sorted list its iteration visits. The C++ standard asks of
  \<open>Compare\<close> to be a strict weak order; the locale \<open>strict_weak_order\<close> states that contract and
  carries what the container then promises. The comparators of the program
  (\<open>ZstURI::operator<\<close>, \<open>ZstCableAddress::operator<\<close>, the order of \<open>ZstServerAddress\<close>) compare
  through a key; \<open>keyed_order\<close> is that special case, and gives the general contract.
\<close>

fun oset_insert :: "('a \<Rightarrow> 'a \<Rightarrow> bool) \<Rightarrow> 'a \<Rightarrow> 'a list \<Rightarrow> 'a list" where
  "oset_insert lt x [] = [x]"
| "oset_insert lt x (y # ys) =
     (if lt x y then x # y # ys
      else if lt y x then y # oset_insert lt x ys
      else y # ys)"

fun oset_find :: "('a \<Rightarrow> 'a \<Rightarrow> bool) \<Rightarrow> 'a \<Rightarrow> 'a list \<Rightarrow> 'a option" where
  "oset_find lt x [] = None"
| "oset_find lt x (y # ys) =
     (if lt x y then None else if lt y x then oset_find lt x ys else Some y)"

fun oset_erase :: "('a \<Rightarrow> 'a \<Rightarrow> bool) \<Rightarrow> 'a \<Rightarrow> 'a list \<Rightarrow> 'a list" where
  "oset_erase lt x [] = []"
| "oset_erase lt x (y # ys) =
     (if lt x y then y # ys else if lt y x then y # oset_erase lt x ys else ys)"

abbreviation oset_member :: "('a \<Rightarrow> 'a \<Rightarrow> bool) \<Rightarrow> 'a \<Rightarrow> 'a list \<Rightarrow> bool" where
  "oset_member lt x xs \<equiv> oset_find lt x xs \<noteq> None"

locale strict_weak_order =
  fixes lt :: "'a \<Rightarrow> 'a \<Rightarrow> bool"
  assumes lt_irrefl: "\<not> lt x x"
    and lt_trans: "lt x y \<Longrightarrow> lt y z \<Longrightarrow> lt x z"
    and incomparable_trans:
      "\<not> lt x y \<Longrightarrow> \<not> lt y x \<Longrightarrow> \<not> lt y z \<Longrightarrow> \<not> lt z y \<Longrightarrow> \<not> lt x z \<and> \<not> lt z x"
begin

definition equivalent :: "'a \<Rightarrow> 'a \<Rightarrow> bool" where
  "equivalent x y \<longleftrightarrow> \<not> lt x y \<and> \<not> lt y x"

lemma equivalent_refl [simp]: "equivalent x x"
  by (simp add: equivalent_def lt_irrefl)

lemma equivalent_sym: "equivalent x y \<Longrightarrow> equivalent y x"
  by (simp add: equivalent_def)

lemma equivalent_trans: "equivalent x y \<Longrightarrow> equivalent y z \<Longrightarrow> equivalent x z"
  unfolding equivalent_def using incomparable_trans by blast

lemma lt_asym: "lt x y \<Longrightarrow> \<not> lt y x"
  using lt_irrefl lt_trans by blast

lemma lt_equivalent_left: "equivalent x y \<Longrightarrow> lt y z \<Longrightarrow> lt x z"
  unfolding equivalent_def by (meson incomparable_trans lt_trans)

lemma lt_equivalent_right: "lt x y \<Longrightarrow> equivalent y z \<Longrightarrow> lt x z"
  unfolding equivalent_def by (meson incomparable_trans lt_trans)

lemma set_oset_insert_subset: "set (oset_insert lt x xs) \<subseteq> insert x (set xs)"
  by (induction xs) auto

lemma subset_set_oset_insert: "set xs \<subseteq> set (oset_insert lt x xs)"
  by (induction xs) auto

lemma sorted_oset_insert: "sorted_wrt lt xs \<Longrightarrow> sorted_wrt lt (oset_insert lt x xs)"
proof (induction xs)
  case Nil
  then show ?case by simp
next
  case (Cons y ys)
  then show ?case
    using set_oset_insert_subset [of x ys] by (auto intro: lt_trans)
qed

lemma set_oset_erase_subset: "set (oset_erase lt x xs) \<subseteq> set xs"
  by (induction xs) auto

lemma sorted_oset_erase: "sorted_wrt lt xs \<Longrightarrow> sorted_wrt lt (oset_erase lt x xs)"
proof (induction xs)
  case Nil
  then show ?case by simp
next
  case (Cons y ys)
  then show ?case using set_oset_erase_subset [of x ys] by auto
qed

text \<open>In a sorted list, everything behind an element at least as big as \<open>x\<close> is bigger than \<open>x\<close>.\<close>

lemma tail_not_equivalent:
  assumes "sorted_wrt lt (z # zs)" and "\<not> lt z x" and "w \<in> set zs"
  shows "lt x w" and "\<not> equivalent x w"
proof -
  have zw: "lt z w" using assms by simp
  show "lt x w"
  proof (cases "lt x z")
    case True
    with zw show ?thesis by (rule lt_trans [rotated])
  next
    case False
    with assms(2) have "equivalent x z" by (simp add: equivalent_def)
    then show ?thesis using zw by (rule lt_equivalent_left)
  qed
  then show "\<not> equivalent x w" by (simp add: equivalent_def)
qed

lemma oset_find_Some:
  assumes "sorted_wrt lt xs"
  shows "oset_find lt x xs = Some y \<longleftrightarrow> y \<in> set xs \<and> equivalent x y"
  using assms
proof (induction xs)
  case Nil
  then show ?case by simp
next
  case (Cons z zs)
  show ?case
  proof (cases "lt z x")
    case True
    then have "\<not> lt x z" and "\<not> equivalent x z" by (auto simp: equivalent_def lt_asym)
    with True Cons show ?thesis by auto
  next
    case False
    note tail = tail_not_equivalent(2) [OF Cons.prems False]
    show ?thesis
    proof (cases "lt x z")
      case True
      then have "\<not> equivalent x z" by (simp add: equivalent_def)
      with True tail show ?thesis by auto
    next
      case False
      with \<open>\<not> lt z x\<close> have "equivalent x z" by (simp add: equivalent_def)
      with False \<open>\<not> lt z x\<close> tail show ?thesis by auto
    qed
  qed
qed

lemma oset_find_None:
  assumes "sorted_wrt lt xs"
  shows "oset_find lt x xs = None \<longleftrightarrow> (\<forall>y\<in>set xs. \<not> equivalent x y)"
proof -
  have "oset_find lt x xs = None \<longleftrightarrow> (\<forall>y. oset_find lt x xs \<noteq> Some y)" by auto
  then show ?thesis by (auto simp: oset_find_Some [OF assms])
qed

lemma mem_oset_insert:
  assumes "sorted_wrt lt xs"
  shows "y \<in> set (oset_insert lt x xs) \<longleftrightarrow>
           y \<in> set xs \<or> (y = x \<and> (\<forall>z\<in>set xs. \<not> equivalent x z))"
  using assms
proof (induction xs)
  case Nil
  then show ?case by auto
next
  case (Cons z zs)
  show ?case
  proof (cases "lt z x")
    case True
    then have "\<not> lt x z" and "\<not> equivalent x z" by (auto simp: equivalent_def lt_asym)
    with True Cons show ?thesis by auto
  next
    case False
    note tail = tail_not_equivalent(2) [OF Cons.prems False]
    have "equivalent x z \<longleftrightarrow> \<not> lt x z" using False by (simp add: equivalent_def)
    with False tail show ?thesis by auto
  qed
qed

lemma mem_oset_erase:
  assumes "sorted_wrt lt xs"
  shows "y \<in> set (oset_erase lt x xs) \<longleftrightarrow> y \<in> set xs \<and> \<not> equivalent x y"
  using assms
proof (induction xs)
  case Nil
  then show ?case by simp
next
  case (Cons z zs)
  show ?case
  proof (cases "lt z x")
    case True
    then have "\<not> lt x z" and "\<not> equivalent x z" by (auto simp: equivalent_def lt_asym)
    with True Cons show ?thesis by auto
  next
    case False
    note tail = tail_not_equivalent(2) [OF Cons.prems False]
    have "equivalent x z \<longleftrightarrow> \<not> lt x z" using False by (simp add: equivalent_def)
    with False tail show ?thesis by auto
  qed
qed

lemma oset_unique:
  "sorted_wrt lt xs \<Longrightarrow> x \<in> set xs \<Longrightarrow> y \<in> set xs \<Longrightarrow> equivalent x y \<Longrightarrow> x = y"
  using oset_find_Some by (metis equivalent_refl option.inject)

lemma oset_insert_present:
  "sorted_wrt lt xs \<Longrightarrow> oset_find lt x xs = Some y \<Longrightarrow> oset_insert lt x xs = xs"
  by (induction xs) (auto split: if_splits)

lemma oset_distinct: "sorted_wrt lt xs \<Longrightarrow> distinct xs"
  by (induction xs) (auto simp: lt_irrefl)

end

locale keyed_order =
  fixes lt :: "'a \<Rightarrow> 'a \<Rightarrow> bool" and key :: "'a \<Rightarrow> 'k::linorder"
  assumes lt_key: "lt x y \<longleftrightarrow> key x < key y"

sublocale keyed_order \<subseteq> strict_weak_order lt
  by unfold_locales (auto simp: lt_key)

context keyed_order
begin

lemma equivalent_key: "equivalent x y \<longleftrightarrow> key x = key y"
  by (auto simp: equivalent_def lt_key)

lemma find_insert:
  "sorted_wrt lt xs \<Longrightarrow> oset_find lt y (oset_insert lt x xs) =
    (if key y = key x \<and> oset_find lt x xs = None then Some x else oset_find lt y xs)"
  by (induction xs) (auto simp: lt_key)

lemma find_erase:
  assumes "sorted_wrt lt xs"
  shows "oset_find lt y (oset_erase lt x xs) =
    (if key y = key x then None else oset_find lt y xs)"
  using assms
  by (intro option_eq_by_Some)
     (auto simp: oset_find_Some sorted_oset_erase mem_oset_erase equivalent_key)

lemma keys_distinct: "sorted_wrt lt xs \<Longrightarrow> distinct (map key xs)"
  by (induction xs) (auto simp: lt_key)

end

end
