(* ===== verification/Zst_URI.thy ===== *)
theory Zst_URI
  imports Zst_Ordered_Set
begin

text \<open>
  \<open>ZstURI\<close> (\<open>src/src/core/ZstURI.cpp\<close>, \<open>src/include/showtime/ZstURI.h\<close>): the slash-separated
  paths that name every entity of a performance. A URI owns the bytes of its path and a table of
  its components, which \<open>init\<close> fills by one scan of the path.

  The model keeps the source's representation (\<open>pstr\<close> with its length, the original path and the
  component table), and the theorems relate it to the reference function \<open>split_delim\<close>. The
  component table of the source is an array of \<open>MAX_PATH_LEN\<close> entries that \<open>init\<close> writes without
  a check: \<open>uri_init_checked\<close> is the same scan with the writes outside of the array made visible. The other
  theories build URIs with the unchecked scan \<open>uri_of\<close>, which is the constructor for paths of up to 254 slashes.
\<close>

section \<open>Data\<close>

abbreviation DELIM :: char where
  "DELIM \<equiv> CHR ''/''"

definition MAX_PATH_LEN :: nat where
  "MAX_PATH_LEN = 255"

text \<open>
  A length-prefixed string. \<open>pstr_cstr\<close> lists the \<open>pstr_length\<close> bytes of the buffer; the
  terminating NUL that \<open>create_pstr\<close> writes behind them is what \<open>pstr_at\<close> reads there.
\<close>

record pstr =
  pstr_length :: nat
  pstr_cstr :: string

record ZstURI =
  m_original_path :: pstr
  m_components :: "pstr list"

definition create_pstr_n :: "string \<Rightarrow> nat \<Rightarrow> pstr" where
  "create_pstr_n p l = \<lparr>pstr_length = l, pstr_cstr = take l p\<rparr>"

definition create_pstr :: "string \<Rightarrow> pstr" where
  "create_pstr p = create_pstr_n p (strlen p)"

definition pstr_at :: "pstr \<Rightarrow> nat \<Rightarrow> char" where
  "pstr_at p i = (if i < length (pstr_cstr p) then pstr_cstr p ! i else NUL)"

section \<open>Construction\<close>

text \<open>
  The loop of \<open>init\<close>: \<open>rest\<close> is the part of the path the index \<open>i\<close> has not reached, \<open>len\<close> and
  \<open>word_offset\<close> are the source's variables, \<open>comps\<close> the entries written so far.
\<close>

fun uri_init_loop :: "string \<Rightarrow> string \<Rightarrow> nat \<Rightarrow> nat \<Rightarrow> pstr list \<Rightarrow> pstr list" where
  "uri_init_loop orig [] len word_offset comps =
     comps @ [create_pstr_n (drop word_offset orig) len]"
| "uri_init_loop orig (c # rest) len word_offset comps =
     (if c = DELIM
      then uri_init_loop orig rest 0 (word_offset + (len + 1))
             (comps @ [create_pstr_n (drop word_offset orig) len])
      else uri_init_loop orig rest (len + 1) word_offset comps)"

definition uri_init :: "pstr \<Rightarrow> ZstURI" where
  "uri_init p =
     \<lparr>m_original_path = p,
      m_components =
        (if pstr_at p 0 = NUL then []
         else uri_init_loop (pstr_cstr p) (pstr_cstr p) 0 0 [])\<rparr>"

definition uri_empty :: ZstURI where
  "uri_empty = \<lparr>m_original_path = create_pstr '''', m_components = []\<rparr>"

definition uri_of :: "string \<Rightarrow> ZstURI" where
  "uri_of path = uri_init (create_pstr path)"

definition uri_of_len :: "string \<Rightarrow> nat \<Rightarrow> ZstURI" where
  "uri_of_len path len = uri_init (create_pstr_n path len)"

definition uri_copy :: "ZstURI \<Rightarrow> ZstURI" where
  "uri_copy u =
     uri_init (create_pstr_n (pstr_cstr (m_original_path u)) (pstr_length (m_original_path u)))"

text \<open>The move assignment hands the source's memory over and leaves it without a path.\<close>

definition uri_move :: "ZstURI \<Rightarrow> ZstURI \<times> ZstURI" where
  "uri_move source =
     (\<lparr>m_original_path = m_original_path source, m_components = m_components source\<rparr>,
      \<lparr>m_original_path = \<lparr>pstr_length = 0, pstr_cstr = []\<rparr>, m_components = []\<rparr>)"

text \<open>
  The same scan with the writes to the component array checked: the entry \<open>m_component_count\<close> is
  written, which has to be below \<open>MAX_PATH_LEN\<close>.
\<close>

fun uri_init_loop_checked ::
  "string \<Rightarrow> string \<Rightarrow> nat \<Rightarrow> nat \<Rightarrow> pstr list \<Rightarrow> zst_exn + pstr list" where
  "uri_init_loop_checked orig [] len word_offset comps =
     (if length comps < MAX_PATH_LEN
      then Inr (comps @ [create_pstr_n (drop word_offset orig) len])
      else Inl UndefinedBehaviour)"
| "uri_init_loop_checked orig (c # rest) len word_offset comps =
     (if c = DELIM
      then (if length comps < MAX_PATH_LEN
            then uri_init_loop_checked orig rest 0 (word_offset + (len + 1))
                   (comps @ [create_pstr_n (drop word_offset orig) len])
            else Inl UndefinedBehaviour)
      else uri_init_loop_checked orig rest (len + 1) word_offset comps)"

definition uri_init_checked :: "pstr \<Rightarrow> zst_exn + ZstURI" where
  "uri_init_checked p =
     (if pstr_at p 0 = NUL then Inr \<lparr>m_original_path = p, m_components = []\<rparr>
      else map_sum id (\<lambda>cs. \<lparr>m_original_path = p, m_components = cs\<rparr>)
             (uri_init_loop_checked (pstr_cstr p) (pstr_cstr p) 0 0 []))"

section \<open>Observers\<close>

definition uri_path :: "ZstURI \<Rightarrow> string" where
  "uri_path u = cstr (pstr_cstr (m_original_path u))"

definition uri_size :: "ZstURI \<Rightarrow> nat" where
  "uri_size u = length (m_components u)"

definition uri_full_size :: "ZstURI \<Rightarrow> nat" where
  "uri_full_size u = strlen (pstr_cstr (m_original_path u))"

definition uri_is_empty :: "ZstURI \<Rightarrow> bool" where
  "uri_is_empty u \<longleftrightarrow> uri_size u < 1"

definition uri_segment :: "ZstURI \<Rightarrow> nat \<Rightarrow> zst_exn + string" where
  "uri_segment u index =
     (if uri_size u \<le> index then Inl RangeError
      else Inr (cstr (pstr_cstr (m_components u ! index))))"

definition uri_first :: "ZstURI \<Rightarrow> zst_exn + ZstURI" where
  "uri_first u =
     (if uri_size u < 1 then Inl OutOfRange else Inr (uri_of (pstr_cstr (m_components u ! 0))))"

definition uri_last :: "ZstURI \<Rightarrow> zst_exn + ZstURI" where
  "uri_last u =
     (if uri_size u < 1 then Inl OutOfRange
      else Inr (uri_of (pstr_cstr (m_components u ! (uri_size u - 1)))))"

section \<open>Composition\<close>

definition uri_append :: "ZstURI \<Rightarrow> ZstURI \<Rightarrow> ZstURI" where
  "uri_append a b =
     (let new_path = cstr (pstr_cstr (m_original_path a)) @ ''/''
                     @ cstr (take (pstr_length (m_original_path b)) (pstr_cstr (m_original_path b)))
      in uri_of new_path)"

text \<open>
  \<open>range(start, end)\<close>. The guard subtracts two \<open>size_t\<close>, so that \<open>end < start\<close> wraps to a huge
  number and is refused; indices that pass the guard but lie outside the component table make one of
  the two loops read entries that \<open>init\<close> never wrote.
\<close>

definition uri_range :: "ZstURI \<Rightarrow> nat \<Rightarrow> nat \<Rightarrow> zst_exn + ZstURI" where
  "uri_range u start end' =
     (if size_t_sub end' start > uri_size u then Inl RangeError
      else if uri_size u \<le> end' \<or> uri_size u < start then Inl UndefinedBehaviour
      else
        let comp_len = (\<lambda>index. pstr_length (m_components u ! index));
            start_position = (\<Sum>index\<leftarrow>[0..<start]. comp_len index + 1);
            len = (\<Sum>index\<leftarrow>[start..<end' + 1]. comp_len index) + (end' - start)
        in Inr (uri_of_len (drop start_position (pstr_cstr (m_original_path u))) len))"

definition uri_parent :: "ZstURI \<Rightarrow> zst_exn + ZstURI" where
  "uri_parent u =
     (let parent_index = int (uri_size u) - 2
      in if parent_index < 0 then Inr uri_empty else uri_range u 0 (nat parent_index))"

section \<open>Comparison\<close>

fun uri_contains_loop :: "pstr list \<Rightarrow> pstr list \<Rightarrow> nat \<Rightarrow> nat \<Rightarrow> bool" where
  "uri_contains_loop (c # cs) (t # ts) contiguous shortest =
     (if strcmp_eq (pstr_cstr c) (pstr_cstr t)
      then (if contiguous + 1 = shortest then True
            else uri_contains_loop cs ts (contiguous + 1) shortest)
      else uri_contains_loop cs ts contiguous shortest)"
| "uri_contains_loop _ _ contiguous shortest = False"

definition uri_contains :: "ZstURI \<Rightarrow> ZstURI \<Rightarrow> bool" where
  "uri_contains u compare =
     (if uri_size compare > uri_size u then False
      else uri_contains_loop (m_components compare) (m_components u) 0
             (min (uri_size compare) (uri_size u)))"

definition uri_equal :: "ZstURI \<Rightarrow> ZstURI \<Rightarrow> bool" where
  "uri_equal a b \<longleftrightarrow>
     strcmp_eq (pstr_cstr (m_original_path a)) (pstr_cstr (m_original_path b))"

text \<open>\<open>std::lexicographical_compare\<close> over the whole buffers, on the signed values of the bytes.\<close>

fun lexicographical_compare :: "string \<Rightarrow> string \<Rightarrow> bool" where
  "lexicographical_compare _ [] \<longleftrightarrow> False"
| "lexicographical_compare [] (_ # _) \<longleftrightarrow> True"
| "lexicographical_compare (a # as) (b # bs) \<longleftrightarrow>
     (if schar a < schar b then True
      else if schar b < schar a then False
      else lexicographical_compare as bs)"

definition uri_less :: "ZstURI \<Rightarrow> ZstURI \<Rightarrow> bool" where
  "uri_less a b \<longleftrightarrow>
     lexicographical_compare (pstr_cstr (m_original_path a)) (pstr_cstr (m_original_path b))"

text \<open>\<open>ZstURIHash\<close>: the \<open>char\<close> is converted to \<open>size_t\<close> with its sign.\<close>

definition uri_hash :: "ZstURI \<Rightarrow> u64" where
  "uri_hash k = fold (\<lambda>c result. word_of_int (schar c) + result * 31) (uri_path k) 0"

section \<open>Reference functions\<close>

fun split_delim :: "string \<Rightarrow> string list" where
  "split_delim [] = [[]]"
| "split_delim (c # s) =
     (if c = DELIM then [] # split_delim s
      else (case split_delim s of [] \<Rightarrow> [[c]] | w # ws \<Rightarrow> (c # w) # ws))"

fun join_delim :: "string list \<Rightarrow> string" where
  "join_delim [] = []"
| "join_delim [w] = w"
| "join_delim (w # v # ws) = w @ DELIM # join_delim (v # ws)"

text \<open>The components of a path: none for the empty path, otherwise what \<open>/\<close> separates.\<close>

definition path_components :: "string \<Rightarrow> string list" where
  "path_components s = (if s = [] then [] else split_delim s)"

definition uri_segments :: "ZstURI \<Rightarrow> string list" where
  "uri_segments u = map pstr_cstr (m_components u)"

text \<open>
  \<open>uri_ok u\<close>: the URI is what the constructor builds from a C string. Every constructor, the copy
  and every operation below gives such a URI.
\<close>

definition uri_ok :: "ZstURI \<Rightarrow> bool" where
  "uri_ok u \<longleftrightarrow>
     nul_free (pstr_cstr (m_original_path u)) \<and> u = uri_of (pstr_cstr (m_original_path u))"

definition delim_free :: "string \<Rightarrow> bool" where
  "delim_free w \<longleftrightarrow> DELIM \<notin> set w"

section \<open>Splitting and joining\<close>

lemma split_delim_nonempty [simp]: "split_delim s \<noteq> []"
  by (induction s) (auto split: list.splits)

lemma split_delim_cases:
  obtains w ws where "split_delim s = w # ws"
  by (cases "split_delim s") auto

lemma join_delim_Cons: "ws \<noteq> [] \<Longrightarrow> join_delim (w # ws) = w @ DELIM # join_delim ws"
  by (cases ws) auto

lemma join_delim_Cons_Cons [simp]: "join_delim ((c # w) # ws) = c # join_delim (w # ws)"
  by (cases ws) auto

lemma join_split [simp]: "join_delim (split_delim s) = s"
proof (induction s)
  case Nil
  then show ?case by simp
next
  case (Cons c s)
  obtain w ws where "split_delim s = w # ws" by (rule split_delim_cases)
  with Cons show ?case by (auto simp: join_delim_Cons)
qed

lemma split_delim_delim_free: "w \<in> set (split_delim s) \<Longrightarrow> delim_free w"
proof (induction s arbitrary: w)
  case Nil
  then show ?case by (simp add: delim_free_def)
next
  case (Cons c s)
  obtain v vs where "split_delim s = v # vs" by (rule split_delim_cases)
  with Cons show ?case by (auto simp: delim_free_def split: if_splits)
qed

lemma split_delim_append:
  "delim_free w \<Longrightarrow> split_delim (w @ s) = (w @ hd (split_delim s)) # tl (split_delim s)"
  by (induction w) (auto simp: delim_free_def)

lemma split_delim_word [simp]: "delim_free w \<Longrightarrow> split_delim w = [w]"
  using split_delim_append [of w "[]"] by simp

lemma split_join:
  assumes "ws \<noteq> []" and "\<forall>w\<in>set ws. delim_free w"
  shows "split_delim (join_delim ws) = ws"
  using assms
proof (induction ws rule: join_delim.induct)
  case 1
  then show ?case by simp
next
  case (2 w)
  then show ?case by simp
next
  case (3 w v ws)
  then show ?case by (simp add: split_delim_append)
qed

lemma split_delim_length: "length (split_delim s) = Suc (count_list s DELIM)"
proof (induction s)
  case Nil
  then show ?case by simp
next
  case (Cons c s)
  obtain w ws where "split_delim s = w # ws" by (rule split_delim_cases)
  with Cons show ?case by auto
qed

lemma join_delim_append:
  "xs \<noteq> [] \<Longrightarrow> ys \<noteq> [] \<Longrightarrow> join_delim (xs @ ys) = join_delim xs @ DELIM # join_delim ys"
  by (induction xs rule: join_delim.induct) (auto simp: join_delim_Cons)

lemma length_join_delim:
  "ws \<noteq> [] \<Longrightarrow> length (join_delim ws) = sum_list (map length ws) + (length ws - 1)"
  by (induction ws rule: join_delim.induct) auto

lemma nul_free_join: "nul_free (join_delim ws) \<longleftrightarrow> (\<forall>w\<in>set ws. nul_free w)"
  by (induction ws rule: join_delim.induct) auto

lemma nul_free_split: "nul_free s \<Longrightarrow> w \<in> set (split_delim s) \<Longrightarrow> nul_free w"
  by (metis join_split nul_free_join)

section \<open>The scan of the constructor\<close>

abbreviation pstr_of :: "string \<Rightarrow> pstr" where
  "pstr_of s \<equiv> \<lparr>pstr_length = length s, pstr_cstr = s\<rparr>"

lemma create_pstr_eq: "create_pstr s = pstr_of (cstr s)"
  by (simp add: create_pstr_def create_pstr_n_def strlen_def cstr_def takeWhile_eq_take [symmetric])

lemma create_pstr_n_eq: "l \<le> length s \<Longrightarrow> create_pstr_n s l = pstr_of (take l s)"
  by (simp add: create_pstr_n_def)

lemma pstr_at_0: "pstr_at p 0 = NUL \<longleftrightarrow> pstr_cstr p = [] \<or> hd (pstr_cstr p) = NUL"
  by (cases "pstr_cstr p") (auto simp: pstr_at_def)

lemma uri_init_loop_split:
  assumes "delim_free word" and "orig = pre @ word @ rest"
    and "len = length word" and "word_offset = length pre"
  shows "uri_init_loop orig rest len word_offset comps =
     comps @ map pstr_of ((word @ hd (split_delim rest)) # tl (split_delim rest))"
  using assms
proof (induction rest arbitrary: word pre len word_offset comps)
  case Nil
  then show ?case by (simp add: create_pstr_n_def)
next
  case (Cons c rest)
  obtain w ws where sp: "split_delim rest = w # ws" by (rule split_delim_cases)
  show ?case
  proof (cases "c = DELIM")
    case True
    have "uri_init_loop orig rest 0 (word_offset + (len + 1)) cs =
        cs @ map pstr_of (([] @ hd (split_delim rest)) # tl (split_delim rest))" for cs
      using Cons.prems True
      by (intro Cons.IH [where pre = "pre @ word @ [DELIM]"]) (auto simp: delim_free_def)
    with True Cons.prems sp show ?thesis by (simp add: create_pstr_n_def)
  next
    case False
    have "uri_init_loop orig rest (len + 1) word_offset comps =
        comps @ map pstr_of (((word @ [c]) @ hd (split_delim rest)) # tl (split_delim rest))"
      using Cons.prems False by (intro Cons.IH [where pre = pre]) (auto simp: delim_free_def)
    with False sp show ?thesis by simp
  qed
qed

lemma uri_init_loop_start: "uri_init_loop s s 0 0 [] = map pstr_of (split_delim s)"
  using uri_init_loop_split [of "[]" s "[]" s 0 0 "[]"]
  by (cases "split_delim s") (auto simp: delim_free_def)

lemma uri_of_eq:
  "uri_of s = \<lparr>m_original_path = pstr_of (cstr s),
               m_components = map pstr_of (path_components (cstr s))\<rparr>"
proof -
  have "cstr s \<noteq> [] \<Longrightarrow> hd (cstr s) \<noteq> NUL"
    using nul_free_cstr [of s] by (cases "cstr s") (auto simp del: nul_free_cstr)
  then show ?thesis
    by (simp add: uri_of_def uri_init_def create_pstr_eq pstr_at_0 uri_init_loop_start
        path_components_def)
qed

lemma uri_path_of [simp]: "uri_path (uri_of s) = cstr s"
  by (simp add: uri_path_def uri_of_eq)

lemma uri_segments_of [simp]: "uri_segments (uri_of s) = path_components (cstr s)"
  by (simp add: uri_segments_def uri_of_eq comp_def)

lemma uri_size_of [simp]: "uri_size (uri_of s) = length (path_components (cstr s))"
  by (simp add: uri_size_def uri_of_eq)

lemma uri_of_cstr [simp]: "uri_of (cstr s) = uri_of s"
  by (simp add: uri_of_eq)

lemma uri_ok_of [simp]: "uri_ok (uri_of s)"
  by (simp add: uri_ok_def uri_of_eq)

lemma uri_ok_empty [simp]: "uri_ok uri_empty"
  by (simp add: uri_ok_def uri_of_eq uri_empty_def create_pstr_eq path_components_def)

lemma uri_okE:
  assumes "uri_ok u"
  obtains s where "nul_free s" and "u = uri_of s" and "s = uri_path u"
  using assms by (metis uri_ok_def uri_path_def cstr_nul_free)

lemma uri_of_path [simp]: "uri_ok u \<Longrightarrow> uri_of (uri_path u) = u"
  by (auto elim: uri_okE)

lemma uri_ok_eq_iff: "uri_ok u \<Longrightarrow> uri_ok v \<Longrightarrow> u = v \<longleftrightarrow> uri_path u = uri_path v"
  by (metis uri_of_path)

lemma uri_of_len_eq:
  assumes "nul_free s" and "l \<le> length s"
  shows "uri_of_len s l = uri_of (take l s)"
proof -
  have "nul_free (take l s)" using assms(1) by blast
  moreover from this have "take l s \<noteq> [] \<Longrightarrow> hd (take l s) \<noteq> NUL"
    by (cases "take l s") auto
  ultimately show ?thesis
    using assms(2)
    by (simp add: uri_of_len_def uri_of_eq uri_init_def create_pstr_n_eq pstr_at_0
        uri_init_loop_start path_components_def del: take_eq_Nil)
qed

lemma uri_copy_id: "uri_ok u \<Longrightarrow> uri_copy u = u"
proof (elim uri_okE)
  fix s assume "nul_free s" "u = uri_of s"
  then show "uri_copy u = u"
    using uri_of_len_eq [of s "length s"] by (simp add: uri_copy_def uri_of_len_def uri_of_eq)
qed

lemma uri_empty_of: "uri_empty = uri_of []"
  by (simp add: uri_empty_def uri_of_eq create_pstr_eq path_components_def)

lemma path_components_join [simp]: "join_delim (path_components s) = s"
  by (simp add: path_components_def)

lemma path_components_eq_Nil [simp]: "path_components s = [] \<longleftrightarrow> s = []"
  by (simp add: path_components_def)

lemma components_of_path: "uri_ok u \<Longrightarrow> m_components u = map pstr_of (path_components (uri_path u))"
  by (auto simp: uri_of_eq elim: uri_okE)

lemma segments_of_path: "uri_ok u \<Longrightarrow> uri_segments u = path_components (uri_path u)"
  by (auto elim: uri_okE)

lemma uri_size_path: "uri_ok u \<Longrightarrow> uri_size u = length (path_components (uri_path u))"
  by (auto elim: uri_okE)

lemma buffer_of_path: "uri_ok u \<Longrightarrow> pstr_cstr (m_original_path u) = uri_path u"
  by (auto simp: uri_of_eq elim: uri_okE)

section \<open>Ranges, parents and last components\<close>

lemma join_drop_prefix:
  assumes "k < length ws"
  shows "drop (\<Sum>i\<leftarrow>[0..<k]. length (ws ! i) + 1) (join_delim ws) = join_delim (drop k ws)"
  using assms
proof (induction k arbitrary: ws)
  case 0
  then show ?case by simp
next
  case (Suc k)
  from Suc.prems obtain w vs where ws: "ws = w # vs" and vs: "k < length vs"
    by (cases ws) auto
  then have "vs \<noteq> []" by auto
  have "(\<Sum>i\<leftarrow>[0..<Suc k]. length (ws ! i) + 1) =
        Suc (length w) + (\<Sum>i\<leftarrow>[0..<k]. length (vs ! i) + 1)"
    unfolding ws by (subst upt_conv_Cons) (simp_all add: map_Suc_upt [symmetric] comp_def del: upt_Suc)
  with Suc.IH [OF vs] \<open>vs \<noteq> []\<close> show ?case by (simp add: ws join_delim_Cons del: upt_Suc)
qed

lemma length_join_take:
  assumes "k < length ws"
  shows "length (join_delim (take (Suc k) ws)) = (\<Sum>i\<leftarrow>[0..<Suc k]. length (ws ! i)) + k"
proof -
  have "map (\<lambda>i. length (ws ! i)) [0..<Suc k] = map length (take (Suc k) ws)"
    using assms by (intro nth_equalityI) (auto simp del: upt_Suc)
  then show ?thesis using assms by (subst length_join_delim) (auto simp: min_def simp del: upt_Suc)
qed

lemma join_take_prefix:
  assumes "k < length ws"
  obtains rest where "join_delim ws = join_delim (take (Suc k) ws) @ rest"
proof (cases "drop (Suc k) ws = []")
  case True
  then show ?thesis using that [of "[]"] by simp
next
  case False
  with assms have "join_delim (take (Suc k) ws @ drop (Suc k) ws) =
      join_delim (take (Suc k) ws) @ DELIM # join_delim (drop (Suc k) ws)"
    by (intro join_delim_append) auto
  then show ?thesis using that by simp
qed

lemma uri_of_len_join:
  assumes "k < length ws" and "nul_free (join_delim ws)"
  shows "uri_of_len (join_delim ws) ((\<Sum>i\<leftarrow>[0..<Suc k]. length (ws ! i)) + k) =
         uri_of (join_delim (take (Suc k) ws))"
proof -
  obtain rest where "join_delim ws = join_delim (take (Suc k) ws) @ rest"
    using assms(1) by (rule join_take_prefix)
  then show ?thesis
    using uri_of_len_eq [OF assms(2), of "length (join_delim (take (Suc k) ws))"]
    unfolding length_join_take [OF assms(1), symmetric] by simp
qed

lemma sum_list_upt_shift:
  "(\<Sum>i\<leftarrow>[a..<a + n]. f i) = (\<Sum>i\<leftarrow>[0..<n]. f (a + i))"
proof -
  have "[a..<a + n] = map (\<lambda>i. i + a) [0..<n]" by (simp add: map_add_upt add.commute)
  then show ?thesis by (simp only: map_map comp_def add.commute)
qed

lemma uri_range_segments:
  assumes "uri_ok u" and "start \<le> end'" and "end' < uri_size u" and "uri_size u < 2 ^ 64"
  shows "uri_range u start end' =
    Inr (uri_of (join_delim (take (Suc end' - start) (drop start (uri_segments u)))))"
proof -
  define ws where "ws = uri_segments u"
  define k where "k = end' - start"
  have end': "end' = start + k" using assms(2) by (simp add: k_def)
  have sz: "length ws = uri_size u" by (simp add: ws_def uri_segments_def uri_size_def)
  have k: "k < length (drop start ws)" using assms(3) by (simp add: sz end')
  have js: "uri_path u = join_delim ws"
    using assms(1) by (simp add: ws_def segments_of_path)
  have cl: "i < length ws \<Longrightarrow> pstr_length (m_components u ! i) = length (ws ! i)" for i
    using assms(1) sz by (auto simp: components_of_path ws_def segments_of_path)
  have starts: "(\<Sum>i\<leftarrow>[0..<start]. pstr_length (m_components u ! i) + 1) =
      (\<Sum>i\<leftarrow>[0..<start]. length (ws ! i) + 1)"
    using assms sz by (intro arg_cong [where f = sum_list] map_cong) (auto simp: cl)
  have lens: "(\<Sum>i\<leftarrow>[start..<end' + 1]. pstr_length (m_components u ! i)) =
      (\<Sum>i\<leftarrow>[0..<Suc k]. length (drop start ws ! i))"
    using sum_list_upt_shift [of "\<lambda>i. pstr_length (m_components u ! i)" start "Suc k"] k sz
    by (auto simp: cl end' simp del: upt_Suc intro!: arg_cong [where f = sum_list])
  have dr: "drop (\<Sum>i\<leftarrow>[0..<start]. length (ws ! i) + 1) (join_delim ws) = join_delim (drop start ws)"
    using join_drop_prefix [of start ws] assms sz by simp
  have nf: "nul_free (join_delim (drop start ws))"
    unfolding dr [symmetric] js [symmetric] by (simp add: uri_path_def nul_free_drop)
  have guard: "\<not> size_t_sub end' start > uri_size u"
    using assms by (simp add: size_t_sub_le)
  show ?thesis
    using guard assms(2,3) uri_of_len_join [OF k nf]
    unfolding uri_range_def Let_def starts lens buffer_of_path [OF assms(1)] js dr
      ws_def [symmetric]
    by (simp add: end' Suc_diff_le)
qed

lemma uri_append_ok: "uri_ok a \<Longrightarrow> uri_ok b \<Longrightarrow> uri_append a b = uri_of (uri_path a @ DELIM # uri_path b)"
  by (auto simp: uri_append_def uri_of_eq uri_path_def Let_def elim!: uri_okE)

lemma uri_ok_append [simp]: "uri_ok (uri_append a b)"
  by (simp add: uri_append_def Let_def)

lemma uri_parent_segments:
  assumes "uri_ok u" and "uri_size u < 2 ^ 64"
  shows "uri_parent u = Inr (uri_of (join_delim (butlast (uri_segments u))))"
proof (cases "uri_size u < 2")
  case True
  then have "butlast (uri_segments u) = []"
    by (simp add: uri_segments_def uri_size_def butlast_conv_take)
  with True show ?thesis by (simp add: uri_parent_def uri_empty_of)
next
  case False
  have "nat (int (uri_size u) - 2) = uri_size u - 2" by simp
  moreover have "uri_range u 0 (uri_size u - 2) = Inr (uri_of (join_delim (take (uri_size u - 1) (uri_segments u))))"
    using uri_range_segments [of u 0 "uri_size u - 2"] assms False by (simp add: Suc_diff_Suc numeral_2_eq_2)
  ultimately show ?thesis using False
    by (simp add: uri_parent_def butlast_conv_take uri_segments_def uri_size_def)
qed

lemma uri_last_segments:
  assumes "uri_ok u" and "\<not> uri_is_empty u"
  shows "uri_last u = Inr (uri_of (last (uri_segments u)))"
  using assms
  by (auto simp: uri_last_def uri_is_empty_def uri_segments_def uri_size_def last_conv_nth
      Suc_le_eq)

lemma uri_first_segments:
  assumes "uri_ok u" and "\<not> uri_is_empty u"
  shows "uri_first u = Inr (uri_of (hd (uri_segments u)))"
  using assms
  by (cases "m_components u") (auto simp: uri_first_def uri_is_empty_def uri_segments_def uri_size_def)

lemma segment_path:
  assumes "uri_ok u" and "w \<in> set (uri_segments u)"
  shows "nul_free w" and "delim_free w"
  using assms nul_free_split [of "uri_path u" w] split_delim_delim_free [of w "uri_path u"]
  by (auto simp: segments_of_path path_components_def uri_path_def split: if_splits)

section \<open>Order, equality and hash\<close>

lemma lexicographical_compare_less:
  "lexicographical_compare xs ys \<longleftrightarrow> map schar xs < map schar ys"
  by (induction xs ys rule: lexicographical_compare.induct) (auto simp: not_less)

interpretation uri_set: keyed_order uri_less "\<lambda>u. map schar (pstr_cstr (m_original_path u))"
  by unfold_locales (simp add: uri_less_def lexicographical_compare_less)

lemma uri_equal_path: "uri_equal a b \<longleftrightarrow> uri_path a = uri_path b"
  by (simp add: uri_equal_def uri_path_def strcmp_eq_def)

text \<open>
  \<open>std::unordered_map\<close> and \<open>std::unordered_set\<close> ask of their key type that equality is an
  equivalence and that equal keys have equal hashes; then a lookup depends on the equality class
  alone, and the table can be described as a map from the classes.
\<close>

locale hashed_key =
  fixes eq :: "'k \<Rightarrow> 'k \<Rightarrow> bool" and hash :: "'k \<Rightarrow> u64" and canon :: "'k \<Rightarrow> 'c"
  assumes eq_canon: "eq a b \<longleftrightarrow> canon a = canon b"
    and hash_eq: "eq a b \<Longrightarrow> hash a = hash b"
begin

definition bucket_find :: "nat \<Rightarrow> (nat \<Rightarrow> ('k \<times> 'v) list) \<Rightarrow> 'k \<Rightarrow> 'v option" where
  "bucket_find n table k =
     map_option snd (find (\<lambda>(k', _). eq k' k) (table (unat (hash k) mod n)))"

lemma bucket_find_canon: "canon a = canon b \<Longrightarrow> bucket_find n table a = bucket_find n table b"
  using hash_eq [of a b] by (simp add: bucket_find_def eq_canon)

end

interpretation uri_table: hashed_key uri_equal uri_hash uri_path
  by unfold_locales (simp_all add: uri_equal_path uri_hash_def)

lemma uri_less_of: "uri_less (uri_of s) (uri_of t) \<longleftrightarrow> lexicographical_compare (cstr s) (cstr t)"
  by (simp add: uri_less_def uri_of_eq)

section \<open>Containment\<close>

lemma uri_contains_loop_prefix:
  assumes "length cs \<le> length ts" and "contiguous < shortest" and "length cs + contiguous \<le> shortest"
  shows "uri_contains_loop cs ts contiguous shortest \<longleftrightarrow>
    length cs + contiguous = shortest \<and>
    (\<forall>i<length cs. cstr (pstr_cstr (cs ! i)) = cstr (pstr_cstr (ts ! i)))"
  using assms
proof (induction cs ts contiguous shortest rule: uri_contains_loop.induct)
  case (1 c cs t ts contiguous shortest)
  then show ?case
    by (cases "contiguous + 1 = shortest") (auto simp: strcmp_eq_def All_less_Suc2 nth_Cons')
qed auto

lemma uri_contains_segments:
  assumes "uri_ok u" and "uri_ok v"
  shows "uri_contains u v \<longleftrightarrow> \<not> uri_is_empty v \<and> prefix (uri_segments v) (uri_segments u)"
proof -
  let ?us = "uri_segments u" and ?vs = "uri_segments v"
  have nf: "w \<in> set ?us \<union> set ?vs \<Longrightarrow> cstr w = w" for w
    using segment_path(1) assms by auto
  have len: "uri_size u = length ?us" "uri_size v = length ?vs"
    by (simp_all add: uri_size_def uri_segments_def)
  have nth: "i < length ?vs \<Longrightarrow> length ?vs \<le> length ?us \<Longrightarrow>
     cstr (pstr_cstr (m_components v ! i)) = ?vs ! i \<and> cstr (pstr_cstr (m_components u ! i)) = ?us ! i" for i
    using nf [of "?vs ! i"] nf [of "?us ! i"] by (auto simp: uri_segments_def)
  note pre = prefix_nth [of ?vs ?us]
  show ?thesis
  proof (cases "length ?vs \<le> length ?us \<and> ?vs \<noteq> []")
    case True
    then have "uri_contains u v \<longleftrightarrow> (\<forall>i<length ?vs. ?vs ! i = ?us ! i)"
      using uri_contains_loop_prefix [of "m_components v" "m_components u" 0 "uri_size v"] nth
      by (simp add: uri_contains_def len min_def) (simp add: uri_segments_def)
    with True pre show ?thesis by (simp add: uri_is_empty_def len Suc_le_eq)
  next
    case False
    then show ?thesis
      using pre by (auto simp: uri_contains_def uri_is_empty_def len uri_segments_def uri_size_def not_le)
  qed
qed

section \<open>The array bound\<close>

lemma uri_init_loop_checked_eq:
  "length comps \<le> MAX_PATH_LEN \<Longrightarrow>
   uri_init_loop_checked orig rest len word_offset comps =
     (if length comps + count_list rest DELIM < MAX_PATH_LEN
      then Inr (uri_init_loop orig rest len word_offset comps)
      else Inl UndefinedBehaviour)"
  by (induction orig rest len word_offset comps rule: uri_init_loop_checked.induct) auto

lemma uri_init_checked_eq:
  "uri_init_checked (create_pstr s) =
     (if cstr s = [] \<or> count_list (cstr s) DELIM < MAX_PATH_LEN then Inr (uri_of s)
      else Inl UndefinedBehaviour)"
proof -
  have "cstr s \<noteq> [] \<Longrightarrow> hd (cstr s) \<noteq> NUL"
    using nul_free_cstr [of s] by (cases "cstr s") (auto simp del: nul_free_cstr)
  then show ?thesis
    using uri_init_loop_checked_eq [of "[]" "cstr s" "cstr s" 0 0]
    by (auto simp: uri_init_checked_def uri_of_def uri_init_def create_pstr_eq pstr_at_0)
qed

section \<open>Properties\<close>

text \<open>
  C39. The scan of the constructor computes the reference splitting. For every C string on which it stays inside
  its array (\<open>uri_init_checked\<close> succeeds, which is the case up to 254 slashes), the path of the URI is
  that string, its component table holds exactly the pieces of the path between slashes, in order and with
  their lengths, and no component for the empty path; joined by slashes again they give the path.
\<close>

theorem uri_of_components:
  assumes "uri_init_checked (create_pstr s) = Inr u"
  shows "uri_path u = cstr s \<and>
    m_components u = map (\<lambda>w. \<lparr>pstr_length = length w, pstr_cstr = w\<rparr>) (path_components (cstr s)) \<and>
    join_delim (path_components (cstr s)) = cstr s"
proof -
  have "u = uri_of s" using assms unfolding uri_init_checked_eq by (simp split: if_splits)
  moreover have "join_delim (path_components (cstr s)) = cstr s" by (simp add: path_components_def)
  moreover have "uri_path (uri_of s) = cstr s" by simp
  ultimately show ?thesis using uri_of_eq [of s] by simp
qed

theorem uri_of_components_witness:
  "\<exists>u. uri_init_checked (create_pstr ''perf//plug'') = Inr u \<and>
    map pstr_cstr (m_components u) = [''perf'', '''', ''plug''] \<and> map pstr_length (m_components u) = [4, 0, 4]"
proof -
  have "uri_init_checked (create_pstr ''perf//plug'') = Inr (uri_of ''perf//plug'')"
    unfolding uri_init_checked_eq by (simp add: cstr_def MAX_PATH_LEN_def)
  from uri_of_components [OF this] this show ?thesis by (simp add: path_components_def cstr_def)
qed

text \<open>
  Joining and splitting are inverse: a URI built from the slash-joined path of non-degenerate
  segments has exactly these segments, and the path of a URI is the join of its segments.
\<close>

theorem uri_segments_roundtrip:
  assumes "ws \<noteq> []" and "ws \<noteq> [[]]" and "\<forall>w\<in>set ws. delim_free w \<and> nul_free w"
  shows "uri_segments (uri_of (join_delim ws)) = ws \<and> uri_path (uri_of (join_delim ws)) = join_delim ws"
proof -
  have "nul_free (join_delim ws)" using assms(3) by (simp add: nul_free_join)
  moreover have "join_delim ws \<noteq> []" using assms(1,2) by (cases ws rule: join_delim.cases) auto
  ultimately show ?thesis using assms split_join by (simp add: path_components_def)
qed

theorem uri_segments_roundtrip_witness:
  "uri_segments (uri_of (join_delim [''perf'', '''', ''plug''])) = [''perf'', '''', ''plug''] \<and>
   uri_path (uri_of (join_delim [''perf'', '''', ''plug''])) = ''perf//plug''"
  using uri_segments_roundtrip [of "[''perf'', '''', ''plug'']"] by (simp add: delim_free_def)

text \<open>
  \<open>range\<close> on every pair of indices: inside the component table it is the URI of the components
  \<open>start\<close> to \<open>end\<close>; outside, the guard raises \<open>std::range_error\<close> only when the wrapped difference
  exceeds the number of components, and otherwise the loops read entries that were never written.
\<close>

theorem uri_range_cases:
  assumes "uri_ok u" and "uri_size u < 2 ^ 63" and "start < 2 ^ 64" and "end' < 2 ^ 64"
  shows "uri_range u start end' =
    (if start \<le> end' \<and> end' < uri_size u
     then Inr (uri_of (join_delim (take (Suc end' - start) (drop start (uri_segments u)))))
     else if size_t_sub end' start > uri_size u then Inl RangeError
     else Inl UndefinedBehaviour)"
proof (cases "start \<le> end' \<and> end' < uri_size u")
  case True
  then show ?thesis using uri_range_segments [of u start end'] assms by simp
next
  case False
  have "uri_size u \<le> end' \<or> uri_size u < start" if "\<not> size_t_sub end' start > uri_size u"
  proof (rule ccontr)
    assume "\<not> ?thesis"
    with False have "end' < start" "start \<le> uri_size u" by auto
    with assms have "size_t_sub end' start = 2 ^ 64 - (start - end')" by (intro size_t_sub_gt) auto
    with \<open>start \<le> uri_size u\<close> that assms(2) show False by simp
  qed
  with False show ?thesis by (auto simp: uri_range_def)
qed

theorem uri_range_cases_witness:
  "uri_range (uri_of ''a/b/c'') 1 2 = Inr (uri_of ''b/c'') \<and>
   uri_range (uri_of ''a/b/c'') 2 1 = Inl RangeError \<and>
   uri_range (uri_of ''a/b/c'') 1 3 = Inl UndefinedBehaviour"
  using uri_range_cases [of "uri_of ''a/b/c''" 1 2] uri_range_cases [of "uri_of ''a/b/c''" 2 1]
    uri_range_cases [of "uri_of ''a/b/c''" 1 3]
  by (simp add: path_components_def cstr_def size_t_sub_def)

text \<open>
  \<open>parent\<close> and \<open>last\<close> take a URI apart and \<open>+\<close> puts it together again: \<open>parent\<close> never raises,
  \<open>last\<close> raises only on the empty URI, and for two or more components \<open>parent + last\<close> is the URI.
\<close>

theorem uri_parent_last_append:
  assumes "uri_ok u" and "2 \<le> uri_size u" and "uri_size u < 2 ^ 31"
  shows "\<exists>p l. uri_parent u = Inr p \<and> uri_last u = Inr l \<and> uri_size p < uri_size u \<and>
    uri_append p l = u"
proof -
  let ?ws = "uri_segments u"
  have len: "length ?ws = uri_size u" by (simp add: uri_segments_def uri_size_def)
  with assms(2) have ne: "?ws \<noteq> []" "butlast ?ws \<noteq> []" by (auto simp: butlast_conv_take)
  then have p: "uri_parent u = Inr (uri_of (join_delim (butlast ?ws)))"
    and l: "uri_last u = Inr (uri_of (last ?ws))"
    using assms uri_parent_segments uri_last_segments by (auto simp: uri_is_empty_def)
  have nf: "\<forall>w\<in>set ?ws. nul_free w" using segment_path(1) [OF assms(1)] by blast
  then have nfp: "nul_free (join_delim (butlast ?ws))" "nul_free (last ?ws)"
    using ne by (auto simp: nul_free_join dest: in_set_butlastD)
  have "uri_append (uri_of (join_delim (butlast ?ws))) (uri_of (last ?ws)) =
        uri_of (join_delim (butlast ?ws) @ DELIM # last ?ws)"
    using nfp by (simp add: uri_append_ok)
  also have "join_delim (butlast ?ws) @ DELIM # last ?ws = join_delim (butlast ?ws @ [last ?ws])"
    using ne by (subst join_delim_append) auto
  also have "\<dots> = uri_path u" using ne assms(1) by (simp add: segments_of_path)
  finally have "uri_append (uri_of (join_delim (butlast ?ws))) (uri_of (last ?ws)) = u"
    using assms(1) by simp
  moreover have "\<forall>w\<in>set (butlast ?ws). delim_free w"
    using segment_path(2) [OF assms(1)] by (auto dest: in_set_butlastD)
  then have "uri_size (uri_of (join_delim (butlast ?ws))) < uri_size u"
    using ne nfp len assms(2) by (auto simp: path_components_def split_join)
  ultimately show ?thesis using p l by blast
qed

theorem uri_parent_last_append_witness:
  "\<exists>p l. uri_parent (uri_of ''a/b/c'') = Inr p \<and> uri_last (uri_of ''a/b/c'') = Inr l \<and>
     uri_size p < uri_size (uri_of ''a/b/c'') \<and> uri_append p l = uri_of ''a/b/c''"
proof (rule uri_parent_last_append)
  show "2 \<le> uri_size (uri_of ''a/b/c'')" "uri_size (uri_of ''a/b/c'') < 2 ^ 31"
    by (simp_all add: path_components_def cstr_def)
qed simp

text \<open>
  Appending a single-component name and taking it off again: \<open>parent (u + n) = u\<close> and
  \<open>last (u + n) = n\<close>, for every \<open>u\<close>, the empty URI included.
\<close>

theorem uri_append_parent_last:
  assumes "uri_ok u" and "uri_ok n" and "delim_free (uri_path n)"
    and "uri_size (uri_append u n) < 2 ^ 31"
  shows "uri_parent (uri_append u n) = Inr u \<and> uri_last (uri_append u n) = Inr n"
proof -
  let ?v = "uri_append u n"
  have "uri_segments ?v = split_delim (uri_path u) @ [uri_path n]"
  proof -
    have "split_delim (s @ DELIM # w) = split_delim s @ split_delim w" for s w
    proof (induction s)
      case (Cons c s)
      then show ?case by (cases "split_delim s") auto
    qed simp
    then show ?thesis
      using assms(1-3) by (simp add: uri_append_ok path_components_def uri_path_def)
  qed
  moreover have "\<not> uri_is_empty ?v"
    using calculation by (auto simp: uri_is_empty_def uri_segments_def uri_size_def)
  ultimately show ?thesis
    using assms uri_parent_segments [of ?v] uri_last_segments [of ?v] by simp
qed

theorem uri_append_parent_last_witness:
  "uri_parent (uri_append (uri_of ''a/b'') (uri_of ''c'')) = Inr (uri_of ''a/b'') \<and>
   uri_last (uri_append (uri_of ''a/b'') (uri_of ''c'')) = Inr (uri_of ''c'')"
proof -
  have "uri_append (uri_of ''a/b'') (uri_of ''c'') = uri_of ''a/b/c''"
    by (simp add: uri_append_ok cstr_def)
  then show ?thesis
    using uri_append_parent_last [of "uri_of ''a/b''" "uri_of ''c''"]
    by (simp add: path_components_def cstr_def delim_free_def)
qed

text \<open>
  \<open>contains\<close> decides containment in the hierarchy: a URI contains another one exactly when the
  other is not empty and its segments are a prefix of the first one's segments. In particular
  no URI contains the empty URI.
\<close>

theorem uri_contains_prefix:
  assumes "uri_ok u" and "uri_ok v"
  shows "uri_contains u v \<longleftrightarrow>
    \<not> uri_is_empty v \<and> prefix (uri_segments v) (uri_segments u)"
  using assms by (rule uri_contains_segments)

theorem uri_contains_prefix_witness:
  "uri_contains (uri_of ''a/b/c'') (uri_of ''a/b'') \<and> \<not> uri_contains (uri_of ''a/bc'') (uri_of ''a/b'')"
  using uri_contains_prefix [of "uri_of ''a/b/c''" "uri_of ''a/b''"]
    uri_contains_prefix [of "uri_of ''a/bc''" "uri_of ''a/b''"]
  by (simp add: path_components_def cstr_def uri_is_empty_def)

text \<open>
  The order of \<open>std::set<ZstURI>\<close> is a strict total order on the URIs the constructors build,
  and agrees with \<open>operator==\<close>: of two URIs exactly one is less, or they are equal, and equal URIs
  hash to the same 64-bit value.
\<close>

theorem uri_less_total_order:
  assumes "uri_ok a" and "uri_ok b" and "uri_ok c"
  shows "(uri_less a b \<and> uri_less b c \<longrightarrow> uri_less a c) \<and>
    (uri_equal a b \<longleftrightarrow> \<not> uri_less a b \<and> \<not> uri_less b a) \<and>
    \<not> (uri_less a b \<and> uri_less b a) \<and>
    (uri_equal a b \<longrightarrow> a = b \<and> uri_hash a = uri_hash b)"
proof (intro conjI)
  have eq: "uri_equal a b \<longleftrightarrow> a = b" using assms by (simp add: uri_equal_path uri_ok_eq_iff)
  then show "uri_equal a b \<longrightarrow> a = b \<and> uri_hash a = uri_hash b" by simp
  have "\<not> uri_less a b \<and> \<not> uri_less b a \<longleftrightarrow> uri_path a = uri_path b"
    using uri_set.equivalent_key [of a b] assms
    by (simp add: uri_set.equivalent_def buffer_of_path)
  then show "uri_equal a b \<longleftrightarrow> \<not> uri_less a b \<and> \<not> uri_less b a" by (simp add: uri_equal_path)
  show "uri_less a b \<and> uri_less b c \<longrightarrow> uri_less a c" using uri_set.lt_trans by blast
  show "\<not> (uri_less a b \<and> uri_less b a)" using uri_set.lt_asym by blast
qed

theorem uri_less_total_order_witness:
  "uri_less (uri_of ''a'') (uri_of ''a/b'') \<and> \<not> uri_equal (uri_of ''a'') (uri_of ''a/b'') \<and>
   \<not> uri_less (uri_of ''a/b'') (uri_of ''a'')"
proof -
  have "uri_less (uri_of ''a'') (uri_of ''a/b'')" by (simp add: uri_less_of cstr_def)
  then show ?thesis
    using uri_less_total_order [of "uri_of ''a''" "uri_of ''a/b''" "uri_of ''b''"] by simp
qed

text \<open>
  C40. The component array of \<open>MAX_PATH_LEN\<close> entries is large enough exactly for the paths with
  fewer than 255 slashes: then the checked scan returns what the unchecked one does; any other path
  writes outside the array.
\<close>

theorem uri_init_in_bounds:
  "uri_init_checked (create_pstr s) =
     (if cstr s = [] \<or> count_list (cstr s) DELIM < MAX_PATH_LEN then Inr (uri_of s)
      else Inl UndefinedBehaviour)"
  by (rule uri_init_checked_eq)

end
