(* ===== verification/Zst_CableAddress.thy ===== *)
theory Zst_CableAddress
  imports Zst_URI
begin

text \<open>
  \<open>ZstCableAddress\<close> (\<open>src/src/core/ZstCableAddress.cpp\<close>): the pair of plug URIs that names a cable,
  its comparison, its hash and its table in the messages; and \<open>ZstServerAddress\<close>, whose order looks
  at the server's name alone. The flatbuffers table \<open>CableData\<close> is the record of the fields the
  source writes with \<open>CreateCableData\<close> and reads with the accessors; its byte layout belongs to the
  flatbuffers library.
\<close>

unbundle bit_operations_syntax

record ZstCableAddress =
  m_input_URI :: ZstURI
  m_output_URI :: ZstURI

record CableData =
  cable_input_URI :: string
  cable_output_URI :: string

definition address_empty :: ZstCableAddress where
  "address_empty = \<lparr>m_input_URI = uri_empty, m_output_URI = uri_empty\<rparr>"

definition cable_address :: "ZstURI \<Rightarrow> ZstURI \<Rightarrow> ZstCableAddress" where
  "cable_address input_URI output_URI =
     \<lparr>m_input_URI = uri_copy input_URI, m_output_URI = uri_copy output_URI\<rparr>"

definition address_eq :: "ZstCableAddress \<Rightarrow> ZstCableAddress \<Rightarrow> bool" where
  "address_eq a b \<longleftrightarrow>
     uri_equal (m_input_URI a) (m_input_URI b) \<and> uri_equal (m_output_URI a) (m_output_URI b)"

text \<open>\<open>std::tie(..) < std::tie(..)\<close> asks of each position first the one order, then the other.\<close>

definition address_less :: "ZstCableAddress \<Rightarrow> ZstCableAddress \<Rightarrow> bool" where
  "address_less a b \<longleftrightarrow>
     (if uri_less (m_input_URI a) (m_input_URI b) then True
      else if uri_less (m_input_URI b) (m_input_URI a) then False
      else uri_less (m_output_URI a) (m_output_URI b))"

definition address_hash :: "ZstCableAddress \<Rightarrow> u64" where
  "address_hash k =
     (let h1 = uri_hash (m_output_URI k); h2 = uri_hash (m_input_URI k)
      in h1 XOR push_bit 1 h2)"

definition address_to_string :: "ZstCableAddress \<Rightarrow> string" where
  "address_to_string a = uri_path (m_output_URI a) @ '' :~~> '' @ uri_path (m_input_URI a)"

definition address_serialize :: "ZstCableAddress \<Rightarrow> CableData" where
  "address_serialize a =
     \<lparr>cable_input_URI = take (uri_full_size (m_input_URI a)) (uri_path (m_input_URI a)),
      cable_output_URI = take (uri_full_size (m_output_URI a)) (uri_path (m_output_URI a))\<rparr>"

definition address_deserialize :: "CableData option \<Rightarrow> ZstCableAddress \<Rightarrow> ZstCableAddress" where
  "address_deserialize buffer a =
     (case buffer of
        None \<Rightarrow> a
      | Some b \<Rightarrow>
          \<lparr>m_input_URI = uri_of_len (cable_input_URI b) (length (cable_input_URI b)),
           m_output_URI = uri_of_len (cable_output_URI b) (length (cable_output_URI b))\<rparr>)"

record ZstServerAddress =
  server_name :: string
  server_address :: string

fun string_less :: "string \<Rightarrow> string \<Rightarrow> bool" where
  \<comment> \<open>\<open>operator<\<close> of \<open>std::string\<close>\<close>
  "string_less _ [] \<longleftrightarrow> False"
| "string_less [] (_ # _) \<longleftrightarrow> True"
| "string_less (a # as) (b # bs) \<longleftrightarrow>
     (if uchar a < uchar b then True else if uchar b < uchar a then False else string_less as bs)"

definition server_address_less :: "ZstServerAddress \<Rightarrow> ZstServerAddress \<Rightarrow> bool" where
  "server_address_less lhs rhs \<longleftrightarrow> string_less (server_name lhs) (server_name rhs)"

section \<open>Orders and hashes\<close>

definition address_ok :: "ZstCableAddress \<Rightarrow> bool" where
  "address_ok a \<longleftrightarrow> uri_ok (m_input_URI a) \<and> uri_ok (m_output_URI a)"

definition address_key :: "ZstCableAddress \<Rightarrow> int list \<times> int list" where
  "address_key a = (map schar (pstr_cstr (m_original_path (m_input_URI a))),
                    map schar (pstr_cstr (m_original_path (m_output_URI a))))"

lemma uri_less_key:
  "uri_less a b \<longleftrightarrow>
     map schar (pstr_cstr (m_original_path a)) < map schar (pstr_cstr (m_original_path b))"
  by (rule uri_set.lt_key)

interpretation cable_set: keyed_order address_less address_key
  by unfold_locales (auto simp: address_less_def address_key_def uri_less_key less_prod_def not_less)

interpretation cable_table: hashed_key address_eq address_hash
  "\<lambda>a. (uri_path (m_input_URI a), uri_path (m_output_URI a))"
  by unfold_locales (auto simp: address_eq_def uri_equal_path address_hash_def uri_hash_def)

lemma string_less_key: "string_less a b \<longleftrightarrow> map uchar a < map uchar b"
  by (induction a b rule: string_less.induct) (auto simp: uchar_def)

interpretation server_set: keyed_order server_address_less "\<lambda>s. map uchar (server_name s)"
  by unfold_locales (simp add: server_address_less_def string_less_key)

lemma address_ok_cable_address [simp]:
  "uri_ok i \<Longrightarrow> uri_ok out \<Longrightarrow> address_ok (cable_address i out)"
  by (simp add: cable_address_def address_ok_def uri_copy_id)

lemma cable_address_ok:
  "uri_ok i \<Longrightarrow> uri_ok out \<Longrightarrow> cable_address i out = \<lparr>m_input_URI = i, m_output_URI = out\<rparr>"
  by (simp add: cable_address_def uri_copy_id)

lemma address_key_eq:
  "address_ok a \<Longrightarrow> address_ok b \<Longrightarrow> address_key a = address_key b \<longleftrightarrow> a = b"
  by (cases a; cases b) (auto simp: address_ok_def address_key_def buffer_of_path uri_ok_eq_iff)

lemma address_eq_ok: "address_ok a \<Longrightarrow> address_ok b \<Longrightarrow> address_eq a b \<longleftrightarrow> a = b"
  by (cases a; cases b) (auto simp: address_eq_def address_ok_def uri_equal_path uri_ok_eq_iff)

lemma address_equivalent_ok:
  "address_ok a \<Longrightarrow> address_ok b \<Longrightarrow> \<not> address_less a b \<and> \<not> address_less b a \<longleftrightarrow> a = b"
  using cable_set.equivalent_key [of a b]
  by (simp add: cable_set.equivalent_def address_key_eq)

section \<open>Properties\<close>

text \<open>
  The order of \<open>ZstCableSet\<close> is a strict total order on addresses of constructed URIs that agrees
  with \<open>operator==\<close>, and equal addresses have the same hash: the cable set and the hashed sets of
  addresses hold at most one entry per pair of plugs.
\<close>

theorem address_less_total_order:
  assumes "address_ok a" and "address_ok b" and "address_ok c"
  shows "(address_less a b \<and> address_less b c \<longrightarrow> address_less a c) \<and>
    (address_eq a b \<longleftrightarrow> \<not> address_less a b \<and> \<not> address_less b a) \<and>
    \<not> (address_less a b \<and> address_less b a) \<and>
    (address_eq a b \<longrightarrow> a = b \<and> address_hash a = address_hash b)"
proof (intro conjI)
  show "address_less a b \<and> address_less b c \<longrightarrow> address_less a c"
    using cable_set.lt_trans by blast
  show "\<not> (address_less a b \<and> address_less b a)" using cable_set.lt_asym by blast
qed (use assms address_equivalent_ok address_eq_ok in simp_all)

theorem address_less_total_order_witness:
  "\<not> address_eq (cable_address (uri_of ''a/in'') (uri_of ''b/out''))
                (cable_address (uri_of ''b/out'') (uri_of ''a/in''))"
proof -
  have "address_less (cable_address (uri_of ''a/in'') (uri_of ''b/out''))
                     (cable_address (uri_of ''b/out'') (uri_of ''a/in''))"
    by (simp add: address_less_def cable_address_ok uri_less_of cstr_def schar_def)
  then show ?thesis
    using address_less_total_order
      [of "cable_address (uri_of ''a/in'') (uri_of ''b/out'')"
          "cable_address (uri_of ''b/out'') (uri_of ''a/in'')"
          "cable_address (uri_of ''b/out'') (uri_of ''a/in'')"] by simp
qed

text \<open>
  Reading back the table a cable address was written to gives the address, whatever the address
  that is overwritten; a missing table leaves it alone.
\<close>

theorem address_serialize_roundtrip:
  assumes "address_ok a"
  shows "address_deserialize (Some (address_serialize a)) b = a \<and> address_deserialize None b = b"
proof -
  have "uri_of_len (take (uri_full_size u) (uri_path u)) (length (take (uri_full_size u) (uri_path u))) = u"
    if "uri_ok u" for u
    using that uri_of_len_eq [of "uri_path u" "length (uri_path u)"]
    by (auto simp: uri_full_size_def strlen_def uri_path_def [symmetric] nul_free_def [symmetric])
       (metis nul_free_cstr uri_of_path uri_path_def)
  then show ?thesis
    using assms by (cases a) (simp add: address_deserialize_def address_serialize_def address_ok_def)
qed

theorem address_serialize_roundtrip_witness:
  "address_deserialize (Some (address_serialize (cable_address (uri_of ''a/in'') (uri_of ''b/out''))))
     address_empty = cable_address (uri_of ''a/in'') (uri_of ''b/out'')"
  using address_serialize_roundtrip [of "cable_address (uri_of ''a/in'') (uri_of ''b/out'')"] by simp

end
