(* ===== verification/Zst_Value.thy ===== *)
theory Zst_Value
  imports Zst_Prelude
begin

text \<open>
  \<open>ZstValue\<close> (\<open>src/src/core/ZstValue.cpp\<close>): the list of variants a plug carries, with the
  conversions of the three visitors, and its table in the messages.

  An \<open>int\<close> is a 32-bit word read as signed, a \<open>float\<close> the 32-bit pattern of IEEE-754 binary32.
  The casts between the two, \<open>std::stoi\<close> and \<open>std::to_string(int)\<close> are written out. The textual
  format of a \<open>float\<close> depends on the locale of the process: \<open>std::stof\<close> and
  \<open>std::to_string(float)\<close> are the two fields of \<open>float_text\<close>, an argument of the operations that
  need them. The mutex of a value only serialises its operations, each of which is one step here.
\<close>

section \<open>Data\<close>

type_synonym float32 = "32 word"

datatype ZstValueVariant = VInt i32 | VFloat float32 | VStr string

datatype ZstValueType = VT_NONE | VT_IntList | VT_FloatList | VT_StrList | VT_PlugHandshake

record ZstValue =
  m_values :: "ZstValueVariant list"
  m_default_type :: ZstValueType

text \<open>The table \<open>PlugValue\<close>: the union of the value lists; \<open>PV_Unknown\<close> is any other union tag.\<close>

datatype PlugValue =
    PV_NONE
  | PV_IntList "i32 list"
  | PV_FloatList "float32 list"
  | PV_StrList "string list"
  | PV_PlugHandshake
  | PV_Unknown

record float_text =
  stof :: "string \<Rightarrow> zst_exn + float32"
  to_string_float :: "float32 \<Rightarrow> string"

section \<open>Conversions of the C++ library\<close>

definition is_digit :: "char \<Rightarrow> bool" where
  "is_digit c \<longleftrightarrow> 48 \<le> uchar c \<and> uchar c \<le> 57"

definition is_space :: "char \<Rightarrow> bool" where
  "is_space c \<longleftrightarrow> uchar c = 32 \<or> (9 \<le> uchar c \<and> uchar c \<le> 13)"

definition digits_value :: "string \<Rightarrow> int" where
  "digits_value ds = fold (\<lambda>c n. n * 10 + (uchar c - 48)) ds 0"

text \<open>\<open>std::stoi\<close>: white space, a sign, then the longest run of digits; the rest is ignored.\<close>

definition stoi :: "string \<Rightarrow> zst_exn + i32" where
  "stoi str =
     (let s = dropWhile is_space str;
          neg = (s \<noteq> [] \<and> hd s = CHR ''-'');
          t = (if s \<noteq> [] \<and> (hd s = CHR ''-'' \<or> hd s = CHR ''+'') then tl s else s);
          ds = takeWhile is_digit t;
          n = (if neg then - digits_value ds else digits_value ds)
      in if ds = [] then Inl InvalidArgument
         else if n < - (2 ^ 31) \<or> 2 ^ 31 \<le> n then Inl OutOfRange
         else Inr (word_of_int n))"

fun digits_of :: "nat \<Rightarrow> string" where
  "digits_of n =
     (if n < 10 then [char_of (48 + n)] else digits_of (n div 10) @ [char_of (48 + n mod 10)])"

declare digits_of.simps [simp del]

definition to_string_int :: "i32 \<Rightarrow> string" where
  "to_string_int i =
     (if sint i < 0 then CHR ''-'' # digits_of (nat (- sint i)) else digits_of (nat (sint i)))"

text \<open>\<open>float(i)\<close>: to the nearest of 24 significant bits, ties to the even one.\<close>

fun bit_length :: "nat \<Rightarrow> nat" where
  "bit_length n = (if n = 0 then 0 else Suc (bit_length (n div 2)))"

declare bit_length.simps [simp del]

definition round_24 :: "nat \<Rightarrow> nat \<times> nat" where
  \<comment> \<open>significand of 24 bits and biased exponent of \<open>n > 0\<close>\<close>
  "round_24 n =
     (let len = bit_length n
      in if len \<le> 24 then (n * 2 ^ (24 - len), len + 126)
         else
           let shift = len - 24;
               q = n div 2 ^ shift;
               r = n mod 2 ^ shift;
               half = 2 ^ (shift - 1);
               q' = (if r > half \<or> (r = half \<and> odd q) then q + 1 else q)
           in if q' = 2 ^ 24 then (2 ^ 23, len + 127) else (q', len + 126))"

definition int_to_float :: "i32 \<Rightarrow> float32" where
  "int_to_float i =
     (let n = nat \<bar>sint i\<bar>; s = (if sint i < 0 then 1 else 0)
      in if n = 0 then 0
         else case round_24 n of (m, e) \<Rightarrow> of_nat (s * 2 ^ 31 + e * 2 ^ 23 + (m - 2 ^ 23)))"

text \<open>\<open>int(f)\<close>: truncation; the conversion of a value outside of \<open>int\<close> is undefined.\<close>

definition float_to_int :: "float32 \<Rightarrow> zst_exn + i32" where
  "float_to_int f =
     (let b = unat f;
          s = b div 2 ^ 31;
          e = (b div 2 ^ 23) mod 2 ^ 8;
          m = 2 ^ 23 + b mod 2 ^ 23;
          t = (if e = 0 then 0
               else if 150 \<le> e then m * 2 ^ (e - 150) else m div 2 ^ (150 - e));
          v = (if s = 0 then int t else - int t)
      in if e = 255 \<or> v < - (2 ^ 31) \<or> 2 ^ 31 \<le> v then Inl UndefinedBehaviour
         else Inr (word_of_int v))"

section \<open>Visitors\<close>

fun ZstValueIntVisitor :: "ZstValueVariant \<Rightarrow> zst_exn + i32" where
  "ZstValueIntVisitor (VInt i) = Inr i"
| "ZstValueIntVisitor (VFloat f) = float_to_int f"
| "ZstValueIntVisitor (VStr str) = stoi str"

fun ZstValueFloatVisitor :: "float_text \<Rightarrow> ZstValueVariant \<Rightarrow> zst_exn + float32" where
  "ZstValueFloatVisitor ft (VInt i) = Inr (int_to_float i)"
| "ZstValueFloatVisitor ft (VFloat f) = Inr f"
| "ZstValueFloatVisitor ft (VStr str) = stof ft str"

fun ZstValueStrVisitor :: "float_text \<Rightarrow> ZstValueVariant \<Rightarrow> string" where
  "ZstValueStrVisitor ft (VInt i) = to_string_int i"
| "ZstValueStrVisitor ft (VFloat f) = to_string_float ft f"
| "ZstValueStrVisitor ft (VStr str) = str"

section \<open>Operations\<close>

definition value_new :: "ZstValueType \<Rightarrow> ZstValue" where
  "value_new t = \<lparr>m_values = [], m_default_type = t\<rparr>"

definition value_default :: ZstValue where
  "value_default = value_new VT_IntList"

definition value_copy :: "ZstValue \<Rightarrow> ZstValue \<Rightarrow> ZstValue" where
  "value_copy other v = v\<lparr>m_values := m_values other\<rparr>"

definition value_clear :: "ZstValue \<Rightarrow> ZstValue" where
  "value_clear v = v\<lparr>m_values := []\<rparr>"

definition value_append_int :: "i32 \<Rightarrow> ZstValue \<Rightarrow> ZstValue" where
  "value_append_int value v = v\<lparr>m_values := m_values v @ [VInt value]\<rparr>"

definition value_append_float :: "float32 \<Rightarrow> ZstValue \<Rightarrow> ZstValue" where
  "value_append_float value v = v\<lparr>m_values := m_values v @ [VFloat value]\<rparr>"

definition value_append_char :: "string \<Rightarrow> ZstValue \<Rightarrow> ZstValue" where
  "value_append_char value v = v\<lparr>m_values := m_values v @ [VStr (cstr value)]\<rparr>"

definition value_size :: "ZstValue \<Rightarrow> nat" where
  "value_size v = length (m_values v)"

definition value_int_at :: "ZstValue \<Rightarrow> nat \<Rightarrow> zst_exn + i32" where
  "value_int_at v position =
     (case list_index (m_values v) position of Inl e \<Rightarrow> Inl e | Inr x \<Rightarrow> ZstValueIntVisitor x)"

definition value_float_at :: "float_text \<Rightarrow> ZstValue \<Rightarrow> nat \<Rightarrow> zst_exn + float32" where
  "value_float_at ft v position =
     (case list_index (m_values v) position of Inl e \<Rightarrow> Inl e | Inr x \<Rightarrow> ZstValueFloatVisitor ft x)"

text \<open>\<open>char_at\<close> gives the bytes it copies into the caller's buffer, \<open>None\<close> when it copies none.\<close>

definition value_char_at :: "float_text \<Rightarrow> ZstValue \<Rightarrow> nat \<Rightarrow> zst_exn + string option" where
  "value_char_at ft v position =
     (if position < size_t_sub (value_size v) 1 then Inr None
      else case list_index (m_values v) position of
             Inl e \<Rightarrow> Inl e | Inr x \<Rightarrow> Inr (Some (ZstValueStrVisitor ft x)))"

definition value_size_at :: "float_text \<Rightarrow> ZstValue \<Rightarrow> nat \<Rightarrow> zst_exn + nat" where
  "value_size_at ft v position =
     (case list_index (m_values v) position of
        Inl e \<Rightarrow> Inl e
      | Inr x \<Rightarrow>
          Inr (if m_default_type v = VT_IntList then 4
               else if m_default_type v = VT_FloatList then 4
               else if m_default_type v = VT_StrList then length (ZstValueStrVisitor ft x)
               else 0))"

definition as_int_vector :: "ZstValue \<Rightarrow> zst_exn + i32 list" where
  "as_int_vector v = map_exn ZstValueIntVisitor (m_values v)"

definition as_float_vector :: "float_text \<Rightarrow> ZstValue \<Rightarrow> zst_exn + float32 list" where
  "as_float_vector ft v = map_exn (ZstValueFloatVisitor ft) (m_values v)"

definition as_string_vector :: "float_text \<Rightarrow> ZstValue \<Rightarrow> string list" where
  "as_string_vector ft v = map (ZstValueStrVisitor ft) (m_values v)"

text \<open>\<open>serialize_partial\<close> leaves the offset unset, \<open>None\<close>, for the two types without a list.\<close>

definition value_serialize :: "float_text \<Rightarrow> ZstValue \<Rightarrow> zst_exn + PlugValue option" where
  "value_serialize ft v =
     (case m_default_type v of
        VT_IntList \<Rightarrow> map_sum id (\<lambda>xs. Some (PV_IntList xs)) (as_int_vector v)
      | VT_FloatList \<Rightarrow> map_sum id (\<lambda>xs. Some (PV_FloatList xs)) (as_float_vector ft v)
      | VT_StrList \<Rightarrow> Inr (Some (PV_StrList (as_string_vector ft v)))
      | VT_PlugHandshake \<Rightarrow> Inr None
      | VT_NONE \<Rightarrow> Inr None)"

definition value_deserialize :: "PlugValue option \<Rightarrow> ZstValue \<Rightarrow> zst_exn + ZstValue" where
  "value_deserialize buffer v =
     (case buffer of
        None \<Rightarrow> Inr v
      | Some PV_Unknown \<Rightarrow> Inl OutOfRange
      | Some (PV_IntList xs) \<Rightarrow> Inr \<lparr>m_values = map VInt xs, m_default_type = VT_IntList\<rparr>
      | Some (PV_FloatList xs) \<Rightarrow> Inr \<lparr>m_values = map VFloat xs, m_default_type = VT_FloatList\<rparr>
      | Some (PV_StrList xs) \<Rightarrow> Inr \<lparr>m_values = map VStr xs, m_default_type = VT_StrList\<rparr>
      | Some PV_PlugHandshake \<Rightarrow> Inr (v\<lparr>m_default_type := VT_PlugHandshake\<rparr>)
      | Some PV_NONE \<Rightarrow> Inr (v\<lparr>m_default_type := VT_NONE\<rparr>))"

section \<open>Decimal text of an int\<close>

lemma uchar_digit: "d < 10 \<Longrightarrow> uchar (char_of (48 + d :: nat)) = 48 + int d"
proof -
  assume "d < 10"
  then have "of_char (char_of (48 + d)) = 48 + d" by (simp add: of_char_of)
  moreover have "uchar (char_of (48 + d)) = int (of_char (char_of (48 + d)))"
    unfolding uchar_def by (simp only: of_nat_of_char)
  ultimately show ?thesis by simp
qed

lemma digits_of_digit: "c \<in> set (digits_of n) \<Longrightarrow> is_digit c"
proof (induction n rule: digits_of.induct)
  case (1 n)
  show ?case
  proof (cases "n < 10")
    case True
    then show ?thesis using 1(2) uchar_digit [of n] by (subst (asm) digits_of.simps) (simp add: is_digit_def)
  next
    case False
    then show ?thesis
      using 1 uchar_digit [of "n mod 10"] by (subst (asm) digits_of.simps) (auto simp: is_digit_def)
  qed
qed

lemma digits_of_nonempty [simp]: "digits_of n \<noteq> []"
  by (subst digits_of.simps) simp

lemma digits_value_snoc: "digits_value (ds @ [c]) = digits_value ds * 10 + (uchar c - 48)"
  by (simp add: digits_value_def)

lemma digits_value_of: "digits_value (digits_of n) = int n"
proof (induction n rule: digits_of.induct)
  case (1 n)
  show ?case
  proof (cases "n < 10")
    case True
    then show ?thesis using uchar_digit [of n] by (subst digits_of.simps) (simp add: digits_value_def)
  next
    case False
    then have "digits_of n = digits_of (n div 10) @ [char_of (48 + n mod 10)]"
      by (subst digits_of.simps) simp
    then show ?thesis
      using 1 False uchar_digit [of "n mod 10"] by (simp add: digits_value_snoc)
        (metis of_nat_add of_nat_mult of_nat_numeral div_mult_mod_eq)
  qed
qed

lemma digit_not_special: "is_digit c \<Longrightarrow> \<not> is_space c \<and> c \<noteq> CHR ''-'' \<and> c \<noteq> CHR ''+''"
  by (auto simp: is_digit_def is_space_def uchar_def)

lemma takeWhile_digits [simp]: "takeWhile is_digit (digits_of n) = digits_of n"
  using digits_of_digit by (auto simp: takeWhile_eq_all_conv)

lemma hd_digits_of: "is_digit (hd (digits_of n))"
  by (rule digits_of_digit [of _ n]) simp

lemma stoi_digits: "int n < 2 ^ 31 \<Longrightarrow> stoi (digits_of n) = Inr (word_of_int (int n))"
proof -
  have "dropWhile is_space (digits_of n) = digits_of n"
    using digit_not_special [OF hd_digits_of [of n]] by (cases "digits_of n") auto
  then show "int n < 2 ^ 31 \<Longrightarrow> ?thesis"
    using digit_not_special [OF hd_digits_of [of n]] by (simp add: stoi_def Let_def digits_value_of)
qed

lemma stoi_neg_digits: "int n \<le> 2 ^ 31 \<Longrightarrow> stoi (CHR ''-'' # digits_of n) = Inr (word_of_int (- int n))"
  by (simp add: stoi_def Let_def is_space_def uchar_def digits_value_of)

lemma stoi_to_string: "stoi (to_string_int i) = Inr i"
proof (cases "sint i < 0")
  case True
  have "- sint i \<le> 2 ^ 31" using sint_greater_eq [of i] by simp
  with True show ?thesis
    using stoi_neg_digits [of "nat (- sint i)"] by (simp add: to_string_int_def)
next
  case False
  have "sint i < 2 ^ 31" using sint_lt [of i] by simp
  with False show ?thesis
    using stoi_digits [of "nat (sint i)"] by (simp add: to_string_int_def)
qed

section \<open>Casts between int and float\<close>

lemma bit_length_bounds: "0 < n \<Longrightarrow> 2 ^ (bit_length n - 1) \<le> n \<and> n < 2 ^ bit_length n \<and> 0 < bit_length n"
proof (induction n rule: bit_length.induct)
  case (1 n)
  show ?case
  proof (cases "n = 1")
    case True
    then show ?thesis by (simp add: bit_length.simps)
  next
    case False
    let ?m = "n div 2"
    have m: "0 < ?m" using False 1(2) by simp
    then have IH: "2 ^ (bit_length ?m - 1) \<le> ?m" "?m < 2 ^ bit_length ?m" "0 < bit_length ?m"
      using 1 by auto
    obtain k where k: "bit_length ?m = Suc k" using IH(3) by (cases "bit_length ?m") auto
    have "bit_length n = Suc (Suc k)" using 1(2) k by (subst bit_length.simps) simp
    moreover have "2 ^ Suc k \<le> n" using IH(1) k by simp
    moreover have "n < 2 ^ Suc (Suc k)" using IH(2) k by simp
    ultimately show ?thesis by simp
  qed
qed

lemma bit_length_le: "0 < n \<Longrightarrow> n < 2 ^ k \<Longrightarrow> bit_length n \<le> k"
proof (rule ccontr)
  assume "0 < n" "n < 2 ^ k" "\<not> bit_length n \<le> k"
  then have "2 ^ k \<le> (2::nat) ^ (bit_length n - 1)" by (intro power_increasing) auto
  also have "\<dots> \<le> n" using bit_length_bounds [OF \<open>0 < n\<close>] by blast
  finally show False using \<open>n < 2 ^ k\<close> by simp
qed

text \<open>The three fields of a bit pattern, and the value they stand for.\<close>

lemma float_fields:
  fixes s e m :: nat
  assumes "s < 2" and "e < 2 ^ 8" and "m < 2 ^ 23"
  defines "b \<equiv> s * 2 ^ 31 + e * 2 ^ 23 + m"
  shows "unat (of_nat b :: float32) = b" and "b div 2 ^ 31 = s"
    and "b div 2 ^ 23 mod 2 ^ 8 = e" and "b mod 2 ^ 23 = m"
proof -
  have b: "b = (s * 2 ^ 8 + e) * 2 ^ 23 + m" by (simp add: b_def)
  have "b < 2 ^ 32" using assms(1-3) by (simp add: b_def)
  then show "unat (of_nat b :: float32) = b" by (simp add: unat_of_nat)
  show "b div 2 ^ 31 = s" using assms(1-3) by (simp add: b_def)
  show "b mod 2 ^ 23 = m" unfolding b mod_mult_self3 using assms(3) by simp
  have "b div 2 ^ 23 = s * 2 ^ 8 + e" unfolding b using assms(3) by simp
  then show "b div 2 ^ 23 mod 2 ^ 8 = e" using assms(2) by simp
qed

lemma round_24_exact:
  assumes "0 < n" and "n < 2 ^ 24"
  shows "\<exists>m e. round_24 n = (m, e) \<and> 2 ^ 23 \<le> m \<and> m < 2 ^ 24 \<and> 127 \<le> e \<and> e \<le> 150 \<and>
    m div 2 ^ (150 - e) = n"
proof -
  let ?l = "bit_length n"
  have l: "0 < ?l" "?l \<le> 24" "2 ^ (?l - 1) \<le> n" "n < 2 ^ ?l"
    using bit_length_bounds [OF assms(1)] bit_length_le [OF assms] by auto
  have "2 ^ (?l - 1) * 2 ^ (24 - ?l) \<le> n * 2 ^ (24 - ?l)" using l by simp
  moreover have "(2::nat) ^ (?l - 1) * 2 ^ (24 - ?l) = 2 ^ 23"
    using l by (simp flip: power_add)
  moreover have "n * 2 ^ (24 - ?l) < 2 ^ ?l * 2 ^ (24 - ?l)" using l by simp
  moreover have "(2::nat) ^ ?l * 2 ^ (24 - ?l) = 2 ^ 24" using l by (simp flip: power_add)
  ultimately have "2 ^ 23 \<le> n * 2 ^ (24 - ?l) \<and> n * 2 ^ (24 - ?l) < 2 ^ 24" by metis
  moreover have "n * 2 ^ (24 - ?l) div 2 ^ (150 - (?l + 126)) = n" using l by simp
  moreover have "round_24 n = (n * 2 ^ (24 - ?l), ?l + 126)" using l by (simp add: round_24_def Let_def)
  moreover have "127 \<le> ?l + 126" "?l + 126 \<le> 150" using l by auto
  ultimately show ?thesis by blast
qed

lemma int_float_int:
  assumes "\<bar>sint i\<bar> < 2 ^ 24"
  shows "float_to_int (int_to_float i) = Inr i"
proof (cases "sint i = 0")
  case True
  then have "i = 0" by (metis signed_0 signed_word_eqI)
  then show ?thesis by (simp add: int_to_float_def float_to_int_def)
next
  case False
  define n where "n = nat \<bar>sint i\<bar>"
  define s :: nat where "s = (if sint i < 0 then 1 else 0)"
  have n: "0 < n" "n < 2 ^ 24" using False assms by (auto simp: n_def nat_less_iff)
  obtain m e where r: "round_24 n = (m, e)" and m: "2 ^ 23 \<le> m" "m < 2 ^ 24"
    and e: "127 \<le> e" "e \<le> 150" and val: "m div 2 ^ (150 - e) = n"
    using round_24_exact [OF n] by blast
  have "int_to_float i = of_nat (s * 2 ^ 31 + e * 2 ^ 23 + (m - 2 ^ 23))"
    using n r by (simp add: int_to_float_def s_def n_def Let_def)
  moreover have "s < 2" "e < 2 ^ 8" "m - 2 ^ 23 < 2 ^ 23" using m e by (auto simp: s_def)
  note f = float_fields [OF this]
  have "(if 150 \<le> e then m * 2 ^ (e - 150) else m div 2 ^ (150 - e)) = n" using e val by auto
  then have "float_to_int (of_nat (s * 2 ^ 31 + e * 2 ^ 23 + (m - 2 ^ 23))) =
     Inr (word_of_int (if s = 0 then int n else - int n))"
    unfolding float_to_int_def Let_def f using m e n by (auto simp: s_def)
  moreover have "(if s = 0 then int n else - int n) = sint i" by (simp add: s_def n_def)
  ultimately show ?thesis by simp
qed

section \<open>Typed values\<close>

fun variant_has_type :: "ZstValueType \<Rightarrow> ZstValueVariant \<Rightarrow> bool" where
  "variant_has_type VT_IntList (VInt _) = True"
| "variant_has_type VT_FloatList (VFloat _) = True"
| "variant_has_type VT_StrList (VStr _) = True"
| "variant_has_type _ _ = False"

definition list_type :: "ZstValueType \<Rightarrow> bool" where
  "list_type t \<longleftrightarrow> t = VT_IntList \<or> t = VT_FloatList \<or> t = VT_StrList"

definition value_typed :: "ZstValue \<Rightarrow> bool" where
  "value_typed v \<longleftrightarrow>
     list_type (m_default_type v) \<and> (\<forall>x\<in>set (m_values v). variant_has_type (m_default_type v) x)"

lemma variant_has_typeE:
  "variant_has_type VT_IntList x \<Longrightarrow> \<exists>i. x = VInt i"
  "variant_has_type VT_FloatList x \<Longrightarrow> \<exists>f. x = VFloat f"
  "variant_has_type VT_StrList x \<Longrightarrow> \<exists>s. x = VStr s"
  by (cases x; simp)+

lemma typed_list:
  "\<forall>x\<in>set vs. variant_has_type VT_IntList x \<Longrightarrow> \<exists>is. vs = map VInt is"
  "\<forall>x\<in>set vs. variant_has_type VT_FloatList x \<Longrightarrow> \<exists>fs. vs = map VFloat fs"
  "\<forall>x\<in>set vs. variant_has_type VT_StrList x \<Longrightarrow> \<exists>ss. vs = map VStr ss"
proof -
  show "\<forall>x\<in>set vs. variant_has_type VT_IntList x \<Longrightarrow> \<exists>is. vs = map VInt is"
    using variant_has_typeE(1) by (metis ex_map_conv)
  show "\<forall>x\<in>set vs. variant_has_type VT_FloatList x \<Longrightarrow> \<exists>fs. vs = map VFloat fs"
    using variant_has_typeE(2) by (metis ex_map_conv)
  show "\<forall>x\<in>set vs. variant_has_type VT_StrList x \<Longrightarrow> \<exists>ss. vs = map VStr ss"
    using variant_has_typeE(3) by (metis ex_map_conv)
qed

lemma visitors_typed [simp]:
  "map_exn ZstValueIntVisitor (map VInt is) = Inr is"
  "map_exn (ZstValueFloatVisitor ft) (map VFloat fs) = Inr fs"
  "map (ZstValueStrVisitor ft) (map VStr ss) = ss"
proof -
  show "map_exn ZstValueIntVisitor (map VInt is) = Inr is" by (induction "is") auto
  show "map_exn (ZstValueFloatVisitor ft) (map VFloat fs) = Inr fs" by (induction fs) auto
  show "map (ZstValueStrVisitor ft) (map VStr ss) = ss" by (induction ss) auto
qed

lemma value_typedE:
  assumes "value_typed v"
  obtains (ints) "is" where "v = \<lparr>m_values = map VInt is, m_default_type = VT_IntList\<rparr>"
  | (floats) fs where "v = \<lparr>m_values = map VFloat fs, m_default_type = VT_FloatList\<rparr>"
  | (strs) ss where "v = \<lparr>m_values = map VStr ss, m_default_type = VT_StrList\<rparr>"
  using assms typed_list [of "m_values v"]
  by (cases v) (auto simp: value_typed_def list_type_def)

lemma value_typedI:
  "value_typed \<lparr>m_values = map VInt is, m_default_type = VT_IntList\<rparr>"
  "value_typed \<lparr>m_values = map VFloat fs, m_default_type = VT_FloatList\<rparr>"
  "value_typed \<lparr>m_values = map VStr ss, m_default_type = VT_StrList\<rparr>"
  by (auto simp: value_typed_def list_type_def)

section \<open>Properties\<close>

lemma serialize_typed:
  assumes "value_typed v"
  shows "\<exists>b. value_serialize ft v = Inr (Some b) \<and> b \<noteq> PV_PlugHandshake \<and> (\<forall>w. value_deserialize (Some b) w = Inr v)"
  using assms
  by (cases v rule: value_typedE)
     (auto simp: value_serialize_def value_deserialize_def as_int_vector_def as_float_vector_def
       as_string_vector_def simp del: list.map_comp map_map)

text \<open>
  A value whose variants have its default type is written to a table without an exception and
  read back unchanged, whatever value the reader held before.
\<close>

theorem value_serialize_roundtrip:
  assumes "value_typed v"
  shows "\<exists>b. value_serialize ft v = Inr (Some b) \<and> value_deserialize (Some b) w = Inr v"
  using serialize_typed [OF assms] by blast

theorem value_serialize_roundtrip_witness:
  "\<exists>b. value_serialize \<lparr>stof = (\<lambda>_. Inl InvalidArgument), to_string_float = (\<lambda>_. ''0.000000'')\<rparr>
          (value_append_char ''on'' (value_append_char ''cue'' (value_new VT_StrList))) = Inr (Some b) \<and>
       value_deserialize (Some b) value_default =
         Inr (value_append_char ''on'' (value_append_char ''cue'' (value_new VT_StrList)))"
  by (rule value_serialize_roundtrip)
     (simp add: value_append_char_def value_new_def value_typed_def list_type_def)

text \<open>
  Sending a value of mixed variants normalises it: whenever the conversions of the visitors
  succeed, the receiver holds a typed value of the same default type and the same number of entries,
  and sending that value again produces the same table.
\<close>

theorem value_serialize_normalises:
  assumes "value_serialize ft v = Inr (Some b)"
  shows "\<exists>v'. value_deserialize (Some b) w = Inr v' \<and> value_typed v' \<and>
    m_default_type v' = m_default_type v \<and> value_size v' = value_size v \<and>
    value_serialize ft v' = Inr (Some b)"
proof (cases "m_default_type v")
  case VT_IntList
  with assms obtain xs where "b = PV_IntList xs" "map_exn ZstValueIntVisitor (m_values v) = Inr xs"
    by (auto simp: value_serialize_def as_int_vector_def map_sum_def split: sum.splits)
  then show ?thesis using VT_IntList
    by (auto simp: value_deserialize_def value_serialize_def as_int_vector_def value_typedI value_size_def
        dest: map_exn_length)
next
  case VT_FloatList
  with assms obtain xs where "b = PV_FloatList xs" "map_exn (ZstValueFloatVisitor ft) (m_values v) = Inr xs"
    by (auto simp: value_serialize_def as_float_vector_def map_sum_def split: sum.splits)
  then show ?thesis using VT_FloatList
    by (auto simp: value_deserialize_def value_serialize_def as_float_vector_def value_typedI value_size_def
        dest: map_exn_length)
next
  case VT_StrList
  with assms have "b = PV_StrList (map (ZstValueStrVisitor ft) (m_values v))"
    by (auto simp: value_serialize_def as_string_vector_def)
  then show ?thesis using VT_StrList value_typedI(3) [of "map (ZstValueStrVisitor ft) (m_values v)"]
    by (auto simp: value_deserialize_def value_serialize_def as_string_vector_def value_size_def)
qed (use assms in \<open>auto simp: value_serialize_def\<close>)

theorem value_serialize_normalises_witness:
  "\<exists>v'. value_deserialize (Some (PV_IntList [7, - 12])) value_default = Inr v' \<and> value_typed v' \<and>
     m_default_type v' = VT_IntList \<and> value_size v' = Suc (Suc 0) \<and>
     value_serialize \<lparr>stof = (\<lambda>_. Inl InvalidArgument), to_string_float = (\<lambda>_. ''0.000000'')\<rparr> v' = Inr (Some (PV_IntList [7, - 12]))"
  using value_serialize_normalises
    [of "\<lparr>stof = (\<lambda>_. Inl InvalidArgument), to_string_float = (\<lambda>_. ''0.000000'')\<rparr>"
        "value_append_char '' -12mm'' (value_append_int 7 value_default)" "PV_IntList [7, - 12]" value_default]
  by (simp add: value_serialize_def as_int_vector_def value_append_int_def value_append_char_def
      value_default_def value_new_def value_size_def cstr_def stoi_def is_space_def uchar_def
      is_digit_def digits_value_def)

text \<open>
  An integer that travels through a string plug comes back unchanged: \<open>std::stoi\<close> inverts
  \<open>std::to_string\<close> on all 32-bit integers, so the integer view of the string view of a list of
  integers is the list.
\<close>

theorem int_string_roundtrip:
  "map_exn ZstValueIntVisitor
     (map (\<lambda>x. VStr (ZstValueStrVisitor ft x)) (map VInt is)) = Inr is"
  by (induction "is") (simp_all add: stoi_to_string)

text \<open>
  An integer of at most 24 significant bits that travels through a float plug comes back
  unchanged; the cast to float rounds only beyond.
\<close>

theorem int_float_roundtrip:
  assumes "\<forall>i\<in>set is. \<bar>sint i\<bar> < 2 ^ 24"
  shows "as_float_vector ft \<lparr>m_values = map VInt is, m_default_type = VT_FloatList\<rparr> =
      Inr (map int_to_float is) \<and>
    map_exn ZstValueIntVisitor (map VFloat (map int_to_float is)) = Inr is"
  using assms by (induction "is") (auto simp: as_float_vector_def int_float_int)

theorem int_float_roundtrip_witness:
  "as_float_vector \<lparr>stof = (\<lambda>_. Inl InvalidArgument), to_string_float = (\<lambda>_. ''0.000000'')\<rparr>
     \<lparr>m_values = map VInt [5, - 3], m_default_type = VT_FloatList\<rparr> = Inr (map int_to_float [5, - 3]) \<and>
   map_exn ZstValueIntVisitor (map VFloat (map int_to_float [5, - 3])) = Inr [5, - 3]"
  by (rule int_float_roundtrip) simp

text \<open>
  \<open>char_at\<close> copies a string only for the last entry: for every earlier position it returns
  without touching the buffer, and for positions behind the end of a non-empty value it raises
  \<open>std::out_of_range\<close>; on an empty value it silently accepts every position.
\<close>

theorem value_char_at_last_only:
  assumes "value_size v < 2 ^ 63" and "position < 2 ^ 63"
  shows "value_char_at ft v position =
    (if value_size v = 0 \<or> position < value_size v - 1 then Inr None
     else if position = value_size v - 1 then Inr (Some (ZstValueStrVisitor ft (last (m_values v))))
     else Inl OutOfRange)"
proof (cases "value_size v = 0")
  case True
  then show ?thesis using assms by (simp add: value_char_at_def size_t_sub_def)
next
  case False
  then have "size_t_sub (value_size v) 1 = value_size v - 1"
    using assms by (intro size_t_sub_le) auto
  then show ?thesis
    using False by (auto simp: value_char_at_def value_size_def list_index_def last_conv_nth)
qed

theorem value_char_at_last_only_witness:
  "value_char_at \<lparr>stof = (\<lambda>_. Inl InvalidArgument), to_string_float = (\<lambda>_. ''0.000000'')\<rparr> (value_append_char ''b'' (value_append_char ''a'' value_default)) 0 = Inr None"
  using value_char_at_last_only
    [of "value_append_char ''b'' (value_append_char ''a'' value_default)" 0
        "\<lparr>stof = (\<lambda>_. Inl InvalidArgument), to_string_float = (\<lambda>_. ''0.000000'')\<rparr>"]
  by (simp add: value_append_char_def value_default_def value_new_def value_size_def)

end
