(* ===== verification/Zst_Dispatcher.thy ===== *)
theory Zst_Dispatcher
  imports Zst_Prelude
begin

text \<open>
  \<open>ZstEventDispatcher\<close> (\<open>src/src/core/ZstEventDispatcher.hpp\<close>): the adaptors that listen to a
  component and the queue of deferred events, which every module of the program drains in its
  \<open>process_events\<close>.

  The closures of the source are values of an event type \<open>'e\<close> that each component defines; \<open>run\<close> is
  what the closure does with one adaptor (its Boolean is \<open>False\<close> when the closure raised a
  \<open>std::exception\<close>, which \<open>process\<close> catches) and \<open>complete\<close> is the completion callback. A dispatcher
  is a field of the state of its owner, read with \<open>get\<close> and changed with \<open>upd\<close>, the record update
  of that field, because events may defer further events to the queue that is being drained.
  \<open>alive\<close> says which weak pointers to adaptors can still be locked. The semaphore that wakes the
  thread of the owner is in \<open>Zst_Wakeup\<close>.

  The adaptors are kept in the order in which they were added, where the \<open>std::set\<close> of the source has the order
  of their addresses, and the queue is a list, where the concurrent queue keeps the order of each thread only.
\<close>

datatype ZstEventStatus = EV_FAILED | EV_SUCCESS

record ('a, 'e) dispatcher =
  m_adaptors :: "'a list"
  m_has_event :: bool
  m_events :: "'e list"

definition dispatcher_new :: "'a \<Rightarrow> ('a, 'e) dispatcher" where
  "dispatcher_new default_adaptor =
     \<lparr>m_adaptors = [default_adaptor], m_has_event = False, m_events = []\<rparr>"

definition add_adaptor :: "'a \<Rightarrow> ('a, 'e) dispatcher \<Rightarrow> ('a, 'e) dispatcher" where
  "add_adaptor a d = d\<lparr>m_adaptors := (if a \<in> set (m_adaptors d) then m_adaptors d else m_adaptors d @ [a])\<rparr>"

definition remove_adaptor :: "'a \<Rightarrow> ('a, 'e) dispatcher \<Rightarrow> ('a, 'e) dispatcher" where
  "remove_adaptor a d = d\<lparr>m_adaptors := removeAll a (m_adaptors d)\<rparr>"

definition contains_adaptor :: "'a \<Rightarrow> ('a, 'e) dispatcher \<Rightarrow> bool" where
  "contains_adaptor a d \<longleftrightarrow> a \<in> set (m_adaptors d)"

definition num_adaptors :: "('a, 'e) dispatcher \<Rightarrow> nat" where
  "num_adaptors d = length (m_adaptors d)"

definition remove_all_adaptors :: "('a, 'e) dispatcher \<Rightarrow> ('a, 'e) dispatcher" where
  "remove_all_adaptors d = (fold remove_adaptor (m_adaptors d) d)\<lparr>m_adaptors := []\<rparr>"

definition prune_missing_adaptors :: "('a \<Rightarrow> bool) \<Rightarrow> ('a, 'e) dispatcher \<Rightarrow> ('a, 'e) dispatcher" where
  "prune_missing_adaptors alive d =
     fold (\<lambda>a d. if \<not> alive a then d\<lparr>m_adaptors := removeAll a (m_adaptors d)\<rparr> else d) (m_adaptors d) d"

definition defer_event :: "'e \<Rightarrow> ('a, 'e) dispatcher \<Rightarrow> ('a, 'e) dispatcher" where
  "defer_event e d = d\<lparr>m_events := m_events d @ [e], m_has_event := True\<rparr>"

definition flush_events :: "('a, 'e) dispatcher \<Rightarrow> ('a, 'e) dispatcher" where
  "flush_events d = d\<lparr>m_events := [], m_has_event := False\<rparr>"

text \<open>\<open>invoke\<close> runs a closure on every adaptor at once.\<close>

definition invoke :: "('a \<Rightarrow> bool) \<Rightarrow> ('a \<Rightarrow> 's \<Rightarrow> 's) \<Rightarrow> ('a, 'e) dispatcher \<Rightarrow> 's \<Rightarrow> 's" where
  "invoke alive event d s = fold (\<lambda>a s. if alive a then event a s else s) (m_adaptors d) s"

text \<open>\<open>process\<close> runs one event on every adaptor, then its completion callback.\<close>

definition run_adaptor ::
  "('a \<Rightarrow> bool) \<Rightarrow> ('e \<Rightarrow> 'a \<Rightarrow> 's \<Rightarrow> 's \<times> bool) \<Rightarrow> 'e \<Rightarrow> 'a \<Rightarrow> 's \<times> bool \<Rightarrow> 's \<times> bool" where
  "run_adaptor alive run e a st =
     (if alive a then (fst (run e a (fst st)), snd st \<and> snd (run e a (fst st))) else st)"

definition process_event ::
  "('a \<Rightarrow> bool) \<Rightarrow> ('e \<Rightarrow> 'a \<Rightarrow> 's \<Rightarrow> 's \<times> bool) \<Rightarrow> ('e \<Rightarrow> ZstEventStatus \<Rightarrow> 's \<Rightarrow> 's) \<Rightarrow>
   'a list \<Rightarrow> 'e \<Rightarrow> 's \<Rightarrow> 's" where
  "process_event alive run complete adaptors e s =
     (let st = fold (run_adaptor alive run e) adaptors (s, True)
      in complete e (if snd st then EV_SUCCESS else EV_FAILED) (fst st))"

text \<open>
  The loop of \<open>process_events\<close>: it ends when the queue is empty, which no bound on the queue at the
  start gives when events defer events; \<open>None\<close> is a loop that is still running after \<open>n\<close> events.
\<close>

fun process_events ::
  "('s \<Rightarrow> ('a, 'e) dispatcher) \<Rightarrow> ((('a, 'e) dispatcher \<Rightarrow> ('a, 'e) dispatcher) \<Rightarrow> 's \<Rightarrow> 's) \<Rightarrow>
   ('a \<Rightarrow> bool) \<Rightarrow> ('e \<Rightarrow> 'a \<Rightarrow> 's \<Rightarrow> 's \<times> bool) \<Rightarrow> ('e \<Rightarrow> ZstEventStatus \<Rightarrow> 's \<Rightarrow> 's) \<Rightarrow>
   nat \<Rightarrow> 's \<Rightarrow> 's option" where
  "process_events get upd alive run complete n s =
     (case m_events (get s) of
        [] \<Rightarrow> Some (upd (m_has_event_update (\<lambda>_. False)) s)
      | e # es \<Rightarrow>
          (case n of
             0 \<Rightarrow> None
           | Suc n' \<Rightarrow>
               process_events get upd alive run complete n'
                 (process_event alive run complete (m_adaptors (get s)) e
                    (upd (m_events_update (\<lambda>_. es)) s))))"

declare process_events.simps [simp del]

text \<open>\<open>ZstBlockingEventDispatcher::process_events\<close> handles at most one event per call.\<close>

definition process_one_event ::
  "('s \<Rightarrow> ('a, 'e) dispatcher) \<Rightarrow> ((('a, 'e) dispatcher \<Rightarrow> ('a, 'e) dispatcher) \<Rightarrow> 's \<Rightarrow> 's) \<Rightarrow>
   ('a \<Rightarrow> bool) \<Rightarrow> ('e \<Rightarrow> 'a \<Rightarrow> 's \<Rightarrow> 's \<times> bool) \<Rightarrow> ('e \<Rightarrow> ZstEventStatus \<Rightarrow> 's \<Rightarrow> 's) \<Rightarrow> 's \<Rightarrow> 's" where
  "process_one_event get upd alive run complete s =
     (case m_events (get s) of
        [] \<Rightarrow> s
      | e # es \<Rightarrow>
          process_event alive run complete (m_adaptors (get s)) e (upd (m_events_update (\<lambda>_. es)) s))"

section \<open>Adaptors\<close>

lemma contains_add_adaptor [simp]:
  "contains_adaptor b (add_adaptor a d) \<longleftrightarrow> b = a \<or> contains_adaptor b d"
  by (auto simp: contains_adaptor_def add_adaptor_def)

lemma contains_remove_adaptor [simp]:
  "contains_adaptor b (remove_adaptor a d) \<longleftrightarrow> b \<noteq> a \<and> contains_adaptor b d"
  by (auto simp: contains_adaptor_def remove_adaptor_def)

lemma distinct_add_adaptor: "distinct (m_adaptors d) \<Longrightarrow> distinct (m_adaptors (add_adaptor a d))"
  by (simp add: add_adaptor_def)

lemma prune_missing: "m_adaptors (prune_missing_adaptors alive d) = filter alive (m_adaptors d)"
proof -
  have "m_adaptors (fold (\<lambda>a d. if \<not> alive a then d\<lparr>m_adaptors := removeAll a (m_adaptors d)\<rparr> else d) xs d) =
        filter (\<lambda>a. alive a \<or> a \<notin> set xs) (m_adaptors d)" for xs
    by (induction xs arbitrary: d) (auto simp: removeAll_filter_not_eq intro: filter_cong)
  then show ?thesis by (auto simp: prune_missing_adaptors_def intro: filter_cong)
qed

lemma defer_event_simps [simp]:
  "m_events (defer_event e d) = m_events d @ [e]"
  "m_adaptors (defer_event e d) = m_adaptors d"
  "m_has_event (defer_event e d)"
  by (simp_all add: defer_event_def)

lemma add_adaptor_simps [simp]:
  "m_events (add_adaptor a d) = m_events d" "m_has_event (add_adaptor a d) = m_has_event d"
  by (simp_all add: add_adaptor_def)

section \<open>Draining a queue\<close>

text \<open>An invariant of the owner that every event keeps holds after each event and after draining.\<close>

lemma process_event_invariant:
  assumes "I s" and "\<And>e a s. I s \<Longrightarrow> I (fst (run e a s))" and "\<And>e st s. I s \<Longrightarrow> I (complete e st s)"
  shows "I (process_event alive run complete adaptors e s)"
proof -
  have "I (fst st) \<Longrightarrow> I (fst (fold (run_adaptor alive run e) adaptors st))" for st
    by (induction adaptors arbitrary: st) (simp_all add: run_adaptor_def assms(2))
  then show ?thesis using assms(1,3) by (simp add: process_event_def Let_def)
qed

lemma process_events_invariant:
  assumes "process_events get upd alive run complete n s = Some s'"
    and "I s" and "\<And>f s. I s \<Longrightarrow> I (upd f s)"
    and "\<And>e a s. I s \<Longrightarrow> I (fst (run e a s))" and "\<And>e st s. I s \<Longrightarrow> I (complete e st s)"
  shows "I s'"
proof -
  have ev: "I (process_event alive run complete adaptors e s)" if "I s" for adaptors e s
    using that assms(4,5) by (rule process_event_invariant)
  from assms(1,2) show ?thesis
  proof (induction n arbitrary: s)
    case 0
    then show ?case using assms(3) by (subst (asm) process_events.simps) (auto split: list.splits)
  next
    case (Suc n)
    show ?case
    proof (cases "m_events (get s)")
      case Nil
      then have "s' = upd (m_has_event_update (\<lambda>_. False)) s"
        using Suc.prems(1) by (subst (asm) process_events.simps) simp
      then show ?thesis using Suc.prems(2) assms(3) by simp
    next
      case (Cons e es)
      then have "process_events get upd alive run complete n
          (process_event alive run complete (m_adaptors (get s)) e (upd (m_events_update (\<lambda>_. es)) s)) = Some s'"
        using Suc.prems(1) by (subst (asm) process_events.simps) simp
      then show ?thesis using Suc.IH ev assms(3) Suc.prems(2) by blast
    qed
  qed
qed

text \<open>
  The contract between a dispatcher and its owner: \<open>get\<close> and \<open>upd\<close> access one field, and the events
  and callbacks of this dispatcher leave that field alone, so that nothing is deferred to it while it
  is drained. Then draining it terminates and runs the queued events in the order they were deferred.
\<close>

locale quiet_dispatcher =
  fixes get :: "'s \<Rightarrow> ('a, 'e) dispatcher"
    and upd :: "(('a, 'e) dispatcher \<Rightarrow> ('a, 'e) dispatcher) \<Rightarrow> 's \<Rightarrow> 's"
    and alive :: "'a \<Rightarrow> bool"
    and run :: "'e \<Rightarrow> 'a \<Rightarrow> 's \<Rightarrow> 's \<times> bool"
    and complete :: "'e \<Rightarrow> ZstEventStatus \<Rightarrow> 's \<Rightarrow> 's"
  assumes get_upd: "get (upd f s) = f (get s)"
    and run_quiet: "get (fst (run e a s)) = get s"
    and complete_quiet: "get (complete e st s) = get s"
begin

lemma process_event_quiet: "get (process_event alive run complete adaptors e s) = get s"
proof -
  have "get (fst (fold (run_adaptor alive run e) adaptors st)) = get (fst st)" for st
    by (induction adaptors arbitrary: st) (simp_all add: run_adaptor_def run_quiet)
  then show ?thesis by (simp add: process_event_def Let_def complete_quiet)
qed

lemma process_events_fifo:
  "length (m_events (get s)) \<le> n \<Longrightarrow>
   \<exists>s'. process_events get upd alive run complete n s = Some s' \<and>
     m_events (get s') = [] \<and> \<not> m_has_event (get s') \<and> m_adaptors (get s') = m_adaptors (get s)"
proof (induction n arbitrary: s)
  case 0
  then show ?case by (subst process_events.simps) (simp add: get_upd)
next
  case (Suc n)
  show ?case
  proof (cases "m_events (get s)")
    case Nil
    then show ?thesis by (subst process_events.simps) (simp add: get_upd)
  next
    case (Cons e es)
    let ?s = "process_event alive run complete (m_adaptors (get s)) e (upd (m_events_update (\<lambda>_. es)) s)"
    have q: "get ?s = (get s)\<lparr>m_events := es\<rparr>" by (simp add: process_event_quiet get_upd)
    with Cons Suc.prems have "length (m_events (get ?s)) \<le> n" by simp
    from Suc.IH [OF this] obtain s' where
      "process_events get upd alive run complete n ?s = Some s'" "m_events (get s') = []"
      "\<not> m_has_event (get s')" "m_adaptors (get s') = m_adaptors (get ?s)" by blast
    moreover have "process_events get upd alive run complete (Suc n) s =
        process_events get upd alive run complete n ?s"
      using Cons by (subst process_events.simps) simp
    ultimately show ?thesis using q by simp
  qed
qed

end

end
