(* ===== verification/Zst_Synchronisable.thy ===== *)
theory Zst_Synchronisable
  imports Zst_Dispatcher
begin

text \<open>
  \<open>ZstSynchronisable\<close> (\<open>src/src/core/ZstSynchronisable.cpp\<close>), the base of entities and cables: the
  activation state machine and the queue of its deferred notifications; and the queues of
  \<open>ZstSynchronisableModule\<close> and \<open>ZstReaper\<close>, the parts of a module that drain them.

  The modules of a process that listen to a synchronisable are the hierarchy and the session; an
  adaptor of a dispatcher is the dispatcher's own default adaptor, which only forwards to callbacks
  of the application, or one of these modules. \<open>notify\<close> results say whether the adaptors are told
  \<open>synchronisable_has_event\<close>. A derived class extends the record, so that the operations here apply
  to entities and cables alike.
\<close>

section \<open>Data\<close>

datatype ZstSyncStatus =
  DEACTIVATED | ACTIVATING | ACTIVATION_QUEUED | ACTIVATED | DEACTIVATING | DEACTIVATION_QUEUED |
  DESTROYED | ERR

datatype ZstSyncError = NO_ERR | PERFORMER_NOT_FOUND | PARENT_NOT_FOUND | ENTITY_ALREADY_EXISTS

datatype adaptor = DefaultAdaptor | HierarchyModule | SessionModule | ClientModule

text \<open>The closures a synchronisable defers to its own dispatcher.\<close>

datatype sync_event = SE_Activated | SE_Deactivated | SE_Destroyed | SE_Updated

type_synonym instance_id = "32 word"

record ZstSynchronisable =
  m_is_destroyed :: bool
  m_sync_status :: ZstSyncStatus
  m_sync_error :: ZstSyncError
  m_is_proxy :: bool
  m_synchronisable_events :: "(adaptor, sync_event) dispatcher"
  m_instance_id :: instance_id

section \<open>Operations\<close>

text \<open>The constructor takes the next value of the process-wide counter, which wraps.\<close>

definition synchronisable_new :: "instance_id \<Rightarrow> ZstSynchronisable \<times> instance_id" where
  "synchronisable_new s_instance_id_counter =
     (let i = s_instance_id_counter + 1
      in (\<lparr>m_is_destroyed = False, m_sync_status = DEACTIVATED, m_sync_error = NO_ERR,
           m_is_proxy = False, m_synchronisable_events = dispatcher_new DefaultAdaptor,
           m_instance_id = i\<rparr>, i))"

definition set_activation_status ::
  "ZstSyncStatus \<Rightarrow> 'a ZstSynchronisable_scheme \<Rightarrow> 'a ZstSynchronisable_scheme" where
  "set_activation_status status s = s\<lparr>m_sync_status := status\<rparr>"

definition set_activated :: "'a ZstSynchronisable_scheme \<Rightarrow> 'a ZstSynchronisable_scheme" where
  "set_activated = set_activation_status ACTIVATED"

definition set_activating :: "'a ZstSynchronisable_scheme \<Rightarrow> 'a ZstSynchronisable_scheme" where
  "set_activating = set_activation_status ACTIVATING"

definition set_deactivating :: "'a ZstSynchronisable_scheme \<Rightarrow> 'a ZstSynchronisable_scheme" where
  "set_deactivating = set_activation_status DEACTIVATING"

definition set_deactivated :: "'a ZstSynchronisable_scheme \<Rightarrow> 'a ZstSynchronisable_scheme" where
  "set_deactivated = set_activation_status DEACTIVATED"

definition set_destroyed :: "'a ZstSynchronisable_scheme \<Rightarrow> 'a ZstSynchronisable_scheme" where
  "set_destroyed = set_activation_status DESTROYED"

definition set_error :: "ZstSyncError \<Rightarrow> 'a ZstSynchronisable_scheme \<Rightarrow> 'a ZstSynchronisable_scheme" where
  "set_error e s = s\<lparr>m_sync_status := ERR, m_sync_error := e\<rparr>"

definition set_proxy :: "'a ZstSynchronisable_scheme \<Rightarrow> 'a ZstSynchronisable_scheme" where
  "set_proxy s = s\<lparr>m_is_proxy := True\<rparr>"

definition is_activated :: "'a ZstSynchronisable_scheme \<Rightarrow> bool" where
  "is_activated s \<longleftrightarrow> m_sync_status s = ACTIVATED"

definition is_deactivated :: "'a ZstSynchronisable_scheme \<Rightarrow> bool" where
  "is_deactivated s \<longleftrightarrow> m_sync_status s = DEACTIVATED"

definition sync_defer :: "sync_event \<Rightarrow> 'a ZstSynchronisable_scheme \<Rightarrow> 'a ZstSynchronisable_scheme" where
  "sync_defer e s = s\<lparr>m_synchronisable_events := defer_event e (m_synchronisable_events s)\<rparr>"

definition enqueue_activation ::
  "'a ZstSynchronisable_scheme \<Rightarrow> 'a ZstSynchronisable_scheme \<times> bool" where
  "enqueue_activation s =
     (if m_sync_status s = ACTIVATING
      then (sync_defer SE_Activated (set_activation_status ACTIVATION_QUEUED s), True)
      else (s, False))"

definition enqueue_deactivation ::
  "'a ZstSynchronisable_scheme \<Rightarrow> 'a ZstSynchronisable_scheme \<times> bool" where
  "enqueue_deactivation s =
     (if m_sync_status s = DESTROYED then (s, False)
      else if m_sync_status s = ACTIVATED \<or> m_sync_status s = DEACTIVATING
      then (sync_defer SE_Destroyed
              (sync_defer SE_Deactivated (set_activation_status DEACTIVATION_QUEUED s)), True)
      else (s, False))"

definition announce_update ::
  "'a ZstSynchronisable_scheme \<Rightarrow> 'a ZstSynchronisable_scheme \<times> bool" where
  "announce_update s = (sync_defer SE_Updated s, True)"

definition sync_add_adaptor ::
  "adaptor \<Rightarrow> 'a ZstSynchronisable_scheme \<Rightarrow> 'a ZstSynchronisable_scheme" where
  "sync_add_adaptor a s = s\<lparr>m_synchronisable_events := add_adaptor a (m_synchronisable_events s)\<rparr>"

definition sync_remove_adaptor ::
  "adaptor \<Rightarrow> 'a ZstSynchronisable_scheme \<Rightarrow> 'a ZstSynchronisable_scheme" where
  "sync_remove_adaptor a s = s\<lparr>m_synchronisable_events := remove_adaptor a (m_synchronisable_events s)\<rparr>"

text \<open>What the closure of an event does to the status, before it calls the adaptor.\<close>

fun sync_event_status ::
  "sync_event \<Rightarrow> 'a ZstSynchronisable_scheme \<Rightarrow> 'a ZstSynchronisable_scheme" where
  "sync_event_status SE_Activated s = set_activation_status ACTIVATED s"
| "sync_event_status SE_Deactivated s = set_activation_status DEACTIVATED s"
| "sync_event_status SE_Destroyed s = s"
| "sync_event_status SE_Updated s = s"

lemmas sync_status_defs =
  set_activation_status_def set_activated_def set_activating_def set_deactivating_def
  set_deactivated_def set_destroyed_def set_error_def set_proxy_def

section \<open>Modules\<close>

text \<open>
  \<open>ZstSynchronisableModule\<close>: the queue of synchronisables with events, each with the instance id it
  had when it announced itself, the set of ids that died meanwhile, and the reaper's queue of
  cleanup operations and set of objects to delete. \<open>'p\<close> are pointers to synchronisables and \<open>'c\<close> the
  closures of the reaper.
\<close>

record ('p, 'c) sync_module =
  m_module_events :: "(adaptor, 'p \<times> instance_id) dispatcher"
  m_dead_syncronisable_IDS :: "instance_id set"
  m_cleanup_callbacks :: "'c list"
  m_items_to_reap :: "'p list"

definition sync_module_new :: "adaptor \<Rightarrow> ('p, 'c) sync_module" where
  \<comment> \<open>the constructor, and \<open>init_adaptors\<close> adding the module itself\<close>
  "sync_module_new self =
     \<lparr>m_module_events = add_adaptor self (dispatcher_new DefaultAdaptor),
      m_dead_syncronisable_IDS = {}, m_cleanup_callbacks = [], m_items_to_reap = []\<rparr>"

definition add_dead_synchronisable_ID ::
  "instance_id \<Rightarrow> ('p, 'c) sync_module \<Rightarrow> ('p, 'c) sync_module" where
  "add_dead_synchronisable_ID i m =
     m\<lparr>m_dead_syncronisable_IDS := insert i (m_dead_syncronisable_IDS m)\<rparr>"

definition already_removed_synchronisable :: "('p, 'c) sync_module \<Rightarrow> instance_id \<Rightarrow> bool" where
  "already_removed_synchronisable m i \<longleftrightarrow> i \<in> m_dead_syncronisable_IDS m"

definition synchronisable_has_event ::
  "'p \<Rightarrow> instance_id \<Rightarrow> ('p, 'c) sync_module \<Rightarrow> ('p, 'c) sync_module" where
  "synchronisable_has_event p i m =
     m\<lparr>m_module_events := defer_event (p, i) (m_module_events m)\<rparr>"

definition add_cleanup_op :: "'c \<Rightarrow> ('p, 'c) sync_module \<Rightarrow> ('p, 'c) sync_module" where
  "add_cleanup_op c m = m\<lparr>m_cleanup_callbacks := m_cleanup_callbacks m @ [c]\<rparr>"

definition reaper_add :: "'p \<Rightarrow> ('p, 'c) sync_module \<Rightarrow> ('p, 'c) sync_module" where
  "reaper_add p m =
     m\<lparr>m_items_to_reap := (if p \<in> set (m_items_to_reap m) then m_items_to_reap m
                           else m_items_to_reap m @ [p])\<rparr>"

section \<open>The state machine\<close>

text \<open>
  The calls that reach a synchronisable, from its owner, from the liaisons and from the module that
  drains its queue: \<open>OP_process\<close> takes the oldest deferred event and runs its effect on the status.
\<close>

datatype sync_op =
    OP_set_status ZstSyncStatus | OP_set_error ZstSyncError | OP_set_proxy
  | OP_enqueue_activation | OP_enqueue_deactivation | OP_announce_update
  | OP_add_adaptor adaptor | OP_remove_adaptor adaptor | OP_process

definition sync_process_one :: "'a ZstSynchronisable_scheme \<Rightarrow> 'a ZstSynchronisable_scheme" where
  "sync_process_one s =
     (case m_events (m_synchronisable_events s) of
        [] \<Rightarrow> s
      | e # es \<Rightarrow>
          sync_event_status e
            (s\<lparr>m_synchronisable_events := (m_synchronisable_events s)\<lparr>m_events := es\<rparr>\<rparr>))"

fun sync_apply :: "sync_op \<Rightarrow> 'a ZstSynchronisable_scheme \<Rightarrow> 'a ZstSynchronisable_scheme" where
  "sync_apply (OP_set_status st) s = set_activation_status st s"
| "sync_apply (OP_set_error e) s = set_error e s"
| "sync_apply OP_set_proxy s = set_proxy s"
| "sync_apply OP_enqueue_activation s = fst (enqueue_activation s)"
| "sync_apply OP_enqueue_deactivation s = fst (enqueue_deactivation s)"
| "sync_apply OP_announce_update s = fst (announce_update s)"
| "sync_apply (OP_add_adaptor a) s = sync_add_adaptor a s"
| "sync_apply (OP_remove_adaptor a) s = sync_remove_adaptor a s"
| "sync_apply OP_process s = sync_process_one s"

inductive sync_step :: "ZstSynchronisable \<Rightarrow> sync_op \<Rightarrow> ZstSynchronisable \<Rightarrow> bool" where
  sync_stepI: "sync_step s op (sync_apply op s)"

inductive sync_reachable :: "instance_id \<Rightarrow> ZstSynchronisable \<Rightarrow> bool" for c where
  sync_start: "sync_reachable c (fst (synchronisable_new c))"
| sync_next: "sync_reachable c s \<Longrightarrow> sync_step s op s' \<Longrightarrow> sync_reachable c s'"

inductive_cases sync_stepE: "sync_step s op s'"
inductive_simps sync_step_simps: "sync_step s op s'"

text \<open>
  \<open>teardown_paired q\<close>: every deactivation in the queue is directly followed by its destruction.
\<close>

fun teardown_paired :: "sync_event list \<Rightarrow> bool" where
  "teardown_paired [] = True"
| "teardown_paired [e] = (e \<noteq> SE_Deactivated)"
| "teardown_paired (e # f # es) = ((e = SE_Deactivated \<longrightarrow> f = SE_Destroyed) \<and> teardown_paired (f # es))"

lemma teardown_paired_append:
  "teardown_paired q \<Longrightarrow> teardown_paired r \<Longrightarrow> teardown_paired (q @ r)"
proof (induction q rule: teardown_paired.induct)
  case (2 e)
  then show ?case by (cases r) auto
qed auto

lemma teardown_paired_tl: "teardown_paired (e # es) \<Longrightarrow> teardown_paired es"
  by (cases es) auto

lemma sync_event_status_frame [simp]:
  "m_is_destroyed (sync_event_status e s) = m_is_destroyed s"
  "m_is_proxy (sync_event_status e s) = m_is_proxy s"
  "m_instance_id (sync_event_status e s) = m_instance_id s"
  "m_synchronisable_events (sync_event_status e s) = m_synchronisable_events s"
  by (cases e; simp add: sync_status_defs)+

lemmas sync_op_defs =
  enqueue_activation_def enqueue_deactivation_def announce_update_def sync_add_adaptor_def
  sync_remove_adaptor_def sync_defer_def sync_process_one_def sync_status_defs

lemma sync_apply_is_destroyed [simp]: "m_is_destroyed (sync_apply op s) = m_is_destroyed s"
  by (cases op) (simp_all add: sync_op_defs split: list.split)

lemma sync_apply_instance_id [simp]: "m_instance_id (sync_apply op s) = m_instance_id s"
  by (cases op) (simp_all add: sync_op_defs split: list.split)

lemma sync_apply_is_proxy: "m_is_proxy s \<Longrightarrow> m_is_proxy (sync_apply op s)"
  by (cases op) (simp_all add: sync_op_defs split: list.split)

lemma sync_apply_paired:
  "teardown_paired (m_events (m_synchronisable_events s)) \<Longrightarrow>
   teardown_paired (m_events (m_synchronisable_events (sync_apply op s)))"
  by (cases op)
     (auto simp: sync_op_defs remove_adaptor_def intro: teardown_paired_append
       dest: teardown_paired_tl split: list.split)

section \<open>Properties\<close>

text \<open>
  C31. Whatever sequence of calls a synchronisable receives from its construction on, it keeps its
  instance id, every deactivation it queues is followed by its destruction notice, and
  \<open>is_destroyed()\<close> stays false: no operation ever sets \<open>m_is_destroyed\<close>, so the guards on it in
  the component and entity code never fire.
\<close>

theorem sync_reachable_invariant:
  assumes "sync_reachable c s"
  shows "m_instance_id s = c + 1 \<and> \<not> m_is_destroyed s \<and>
    teardown_paired (m_events (m_synchronisable_events s))"
  using assms
proof induction
  case sync_start
  then show ?case by (simp add: synchronisable_new_def Let_def dispatcher_new_def)
next
  case (sync_next s op s')
  then show ?case by (auto simp: sync_apply_paired elim: sync_stepE)
qed

theorem sync_reachable_invariant_witness:
  "\<not> m_is_destroyed (sync_apply (OP_set_status DESTROYED) (fst (synchronisable_new 0)))"
  using sync_reachable_invariant [OF sync_next [OF sync_start sync_stepI]] by blast

text \<open>
  The enqueue operations are idempotent and guarded: activation is queued only from
  \<open>ACTIVATING\<close>, deactivation only from \<open>ACTIVATED\<close> or \<open>DEACTIVATING\<close>; a second call before the
  queue is drained changes nothing and notifies nobody, so that a synchronisable is never torn down
  twice.
\<close>

theorem enqueue_guards:
  "enqueue_activation (fst (enqueue_activation s)) = (fst (enqueue_activation s), False) \<and>
   enqueue_deactivation (fst (enqueue_deactivation s)) = (fst (enqueue_deactivation s), False) \<and>
   (snd (enqueue_activation s) \<longleftrightarrow> m_sync_status s = ACTIVATING) \<and>
   (snd (enqueue_deactivation s) \<longleftrightarrow> m_sync_status s = ACTIVATED \<or> m_sync_status s = DEACTIVATING) \<and>
   (\<not> snd (enqueue_activation s) \<longrightarrow> fst (enqueue_activation s) = s) \<and>
   (\<not> snd (enqueue_deactivation s) \<longrightarrow> fst (enqueue_deactivation s) = s)"
  by (auto simp: sync_op_defs)

theorem enqueue_guards_witness:
  "snd (enqueue_activation (set_activating (fst (synchronisable_new 0)))) \<and>
   \<not> snd (enqueue_deactivation (fst (synchronisable_new 0)))"
  using enqueue_guards [of "set_activating (fst (synchronisable_new 0))"]
    enqueue_guards [of "fst (synchronisable_new 0)"]
  by (simp add: sync_status_defs synchronisable_new_def Let_def)

end
