(* ===== verification/Zst_Entity.thy ===== *)
theory Zst_Entity
  imports Zst_CableAddress Zst_Value Zst_Synchronisable
begin

text \<open>
  The entity classes (\<open>src/src/core/entities\<close>, \<open>src/src/server/ZstPerformerStageProxy.cpp\<close>): their
  fields, constructors, own operations and tables in the messages. What an entity does through the
  hierarchy it is registered with (parents, children, names, lookups) is in \<open>Zst_Tree\<close>.

  The class hierarchy of the source is one record: the fields of all classes, and the dynamic type of
  the object in \<open>m_class\<close>, which \<open>dynamic_cast\<close> and virtual calls look at. Fields of other classes
  keep the value of \<open>entity_init\<close>. \<open>std::set\<close> members are sorted lists, the sets of adaptors keep the
  modules that are attached besides the default adaptor.
\<close>

section \<open>Data\<close>

type_synonym ref = nat
type_synonym uuid = "128 word"
type_synonym transport = nat
type_synonym creator = nat

datatype entity_class =
  EC_Entity | EC_Component | EC_Performer | EC_PerformerStageProxy | EC_InputPlug | EC_OutputPlug |
  EC_Factory

datatype ZstEntityType = ET_NONE | ET_COMPONENT | ET_PERFORMER | ET_PLUG | ET_FACTORY

datatype ZstPlugDirection = PD_NONE | IN_JACK | OUT_JACK

text \<open>What a factory defers to its own dispatcher.\<close>

datatype factory_event = FE_CreatablesUpdated | FE_EntityCreated ref

record entity = ZstSynchronisable +
  m_class :: entity_class
  m_parent :: ZstURI
  m_entity_type :: ZstEntityType
  m_uri :: ZstURI
  m_current_owner :: ZstURI
  m_registered :: bool
  m_hierarchy_adaptors :: "adaptor list"
  m_entity_adaptors :: "adaptor list"
  m_session_adaptors :: "adaptor list"
  m_children :: "ZstURI list"
  m_component_type :: string
  m_heartbeat_active :: bool
  m_missed_heartbeats :: int
  m_value :: ZstValue
  m_direction :: ZstPlugDirection
  m_max_connected_cables :: int
  m_plug_cables :: "ZstCableAddress list"
  m_graph_adaptors :: "transport list"
  m_reliable :: bool
  m_can_fire :: bool
  m_creatables :: "(ZstURI \<times> creator) list"
  m_factory_events :: "factory_event list"
  m_owned_entities :: "ref list"
  m_reliable_address :: string
  m_unreliable_address :: string
  m_connected_subscriber_peers :: "string set"
  m_origin_endpoint_UUID :: uuid
  m_origin_transport :: transport

text \<open>The dynamic types below each class, as \<open>dynamic_cast\<close> sees them.\<close>

definition is_component :: "'a entity_scheme \<Rightarrow> bool" where
  "is_component e \<longleftrightarrow> m_class e \<in> {EC_Component, EC_Performer, EC_PerformerStageProxy}"

definition is_performer :: "'a entity_scheme \<Rightarrow> bool" where
  "is_performer e \<longleftrightarrow> m_class e \<in> {EC_Performer, EC_PerformerStageProxy}"

definition is_stage_proxy :: "'a entity_scheme \<Rightarrow> bool" where
  "is_stage_proxy e \<longleftrightarrow> m_class e = EC_PerformerStageProxy"

definition is_input_plug :: "'a entity_scheme \<Rightarrow> bool" where
  "is_input_plug e \<longleftrightarrow> m_class e = EC_InputPlug"

definition is_output_plug :: "'a entity_scheme \<Rightarrow> bool" where
  "is_output_plug e \<longleftrightarrow> m_class e = EC_OutputPlug"

definition is_plug :: "'a entity_scheme \<Rightarrow> bool" where
  "is_plug e \<longleftrightarrow> is_input_plug e \<or> is_output_plug e"

definition is_factory :: "'a entity_scheme \<Rightarrow> bool" where
  "is_factory e \<longleftrightarrow> m_class e = EC_Factory"

section \<open>Constructors\<close>

text \<open>\<open>entity_init\<close> is the constructor of \<open>ZstEntityBase\<close> on top of that of the synchronisable.\<close>

definition PLUG_DEFAULT_MAX_CABLES :: int where
  "PLUG_DEFAULT_MAX_CABLES = - 1"

definition entity_init :: "ZstSynchronisable \<Rightarrow> entity_class \<Rightarrow> ZstURI \<Rightarrow> entity" where
  "entity_init s cls uri =
     ZstSynchronisable.extend s
       \<lparr>m_class = cls, m_parent = uri_empty, m_entity_type = ET_NONE, m_uri = uri,
        m_current_owner = uri_of '''', m_registered = False,
        m_hierarchy_adaptors = [], m_entity_adaptors = [], m_session_adaptors = [],
        m_children = [], m_component_type = '''',
        m_heartbeat_active = False, m_missed_heartbeats = 0,
        m_value = value_default, m_direction = PD_NONE,
        m_max_connected_cables = PLUG_DEFAULT_MAX_CABLES, m_plug_cables = [],
        m_graph_adaptors = [], m_reliable = True, m_can_fire = False,
        m_creatables = [], m_factory_events = [], m_owned_entities = [],
        m_reliable_address = '''', m_unreliable_address = '''', m_connected_subscriber_peers = {},
        m_origin_endpoint_UUID = 0, m_origin_transport = 0\<rparr>"

definition set_entity_type :: "ZstEntityType \<Rightarrow> entity \<Rightarrow> entity" where
  "set_entity_type t e = e\<lparr>m_entity_type := t\<rparr>"

definition set_component_type :: "string \<Rightarrow> entity \<Rightarrow> entity" where
  "set_component_type t e = e\<lparr>m_component_type := t\<rparr>"

definition component_new :: "ZstSynchronisable \<Rightarrow> string \<Rightarrow> string \<Rightarrow> entity" where
  "component_new s component_type path =
     set_component_type (cstr component_type)
       (set_entity_type ET_COMPONENT (entity_init s EC_Component (uri_of path)))"

definition performer_new :: "ZstSynchronisable \<Rightarrow> string \<Rightarrow> entity" where
  "performer_new s name =
     set_entity_type ET_PERFORMER ((component_new s '''' name)\<lparr>m_class := EC_Performer\<rparr>)"

definition plug_new ::
  "ZstSynchronisable \<Rightarrow> entity_class \<Rightarrow> string \<Rightarrow> ZstValueType \<Rightarrow> ZstPlugDirection \<Rightarrow> int \<Rightarrow> entity" where
  "plug_new s cls name t direction max_cables =
     set_entity_type ET_PLUG
       ((entity_init s cls (uri_of name))
          \<lparr>m_value := value_new t, m_direction := direction, m_max_connected_cables := max_cables\<rparr>)"

definition input_plug_new :: "ZstSynchronisable \<Rightarrow> string \<Rightarrow> ZstValueType \<Rightarrow> int \<Rightarrow> entity" where
  "input_plug_new s name t max_cables = plug_new s EC_InputPlug name t IN_JACK max_cables"

text \<open>Without the draft API of ZeroMQ an output plug falls back to the reliable transport.\<close>

definition output_plug_new ::
  "bool \<Rightarrow> ZstSynchronisable \<Rightarrow> string \<Rightarrow> ZstValueType \<Rightarrow> bool \<Rightarrow> entity" where
  "output_plug_new draft_api s name t reliable =
     (plug_new s EC_OutputPlug name t OUT_JACK (- 1))
       \<lparr>m_reliable := (if \<not> draft_api \<and> \<not> reliable then True else reliable), m_can_fire := False\<rparr>"

definition factory_new :: "ZstSynchronisable \<Rightarrow> string \<Rightarrow> entity" where
  "factory_new s name = set_entity_type ET_FACTORY (entity_init s EC_Factory (uri_of name))"

section \<open>Own operations\<close>

definition set_heartbeat_active :: "entity \<Rightarrow> entity" where
  "set_heartbeat_active e = e\<lparr>m_heartbeat_active := True, m_missed_heartbeats := 0\<rparr>"

definition clear_active_hearbeat :: "entity \<Rightarrow> entity" where
  "clear_active_hearbeat e = e\<lparr>m_heartbeat_active := False\<rparr>"

definition set_heartbeat_inactive :: "entity \<Rightarrow> entity" where
  "set_heartbeat_inactive e = e\<lparr>m_missed_heartbeats := m_missed_heartbeats e + 1\<rparr>"

definition num_cables :: "entity \<Rightarrow> nat" where
  "num_cables e = length (m_plug_cables e)"

text \<open>The \<open>int\<close> is returned as a \<open>size_t\<close>: the default of \<open>-1\<close> is the largest one.\<close>

definition max_connected_cables :: "entity \<Rightarrow> nat" where
  "max_connected_cables e = nat (m_max_connected_cables e mod 2 ^ 64)"

definition is_connected_to :: "entity \<Rightarrow> entity \<Rightarrow> bool" where
  "is_connected_to self plug \<longleftrightarrow>
     list_ex (\<lambda>c. (uri_equal (m_input_URI c) (m_uri self) \<and> uri_equal (m_output_URI c) (m_uri plug)) \<or>
                  (uri_equal (m_input_URI c) (m_uri plug) \<and> uri_equal (m_output_URI c) (m_uri self)))
       (m_plug_cables self)"

definition plug_add_cable :: "ZstCableAddress \<Rightarrow> entity \<Rightarrow> entity" where
  "plug_add_cable a e = e\<lparr>m_plug_cables := oset_insert address_less a (m_plug_cables e)\<rparr>"

definition plug_remove_cable :: "ZstCableAddress \<Rightarrow> entity \<Rightarrow> entity" where
  "plug_remove_cable a e = e\<lparr>m_plug_cables := oset_erase address_less a (m_plug_cables e)\<rparr>"

definition set_can_fire :: "bool \<Rightarrow> entity \<Rightarrow> entity" where
  "set_can_fire b e = e\<lparr>m_can_fire := b\<rparr>"

text \<open>The virtual \<open>on_activation\<close> and \<open>on_deactivation\<close>: output plugs and plugs override them.\<close>

definition on_activation :: "entity \<Rightarrow> entity" where
  "on_activation e = (if is_output_plug e \<and> \<not> m_is_proxy e then set_can_fire True e else e)"

definition on_deactivation :: "entity \<Rightarrow> entity" where
  "on_deactivation e = (if is_plug e then e\<lparr>m_plug_cables := []\<rparr> else e)"

definition add_subscriber :: "entity \<Rightarrow> entity \<Rightarrow> entity" where
  "add_subscriber client e =
     e\<lparr>m_connected_subscriber_peers := insert (uri_path (m_uri client)) (m_connected_subscriber_peers e)\<rparr>"

definition remove_subscriber :: "entity \<Rightarrow> entity \<Rightarrow> entity" where
  "remove_subscriber client e =
     e\<lparr>m_connected_subscriber_peers := m_connected_subscriber_peers e - {uri_path (m_uri client)}\<rparr>"

definition has_connected_subscriber :: "entity \<Rightarrow> entity \<Rightarrow> bool" where
  "has_connected_subscriber e client \<longleftrightarrow> uri_path (m_uri client) \<in> m_connected_subscriber_peers e"

text \<open>The creatables of a factory, an \<open>unordered_map\<close>: \<open>emplace\<close> keeps an entry that is there.\<close>

definition add_creatable :: "ZstURI \<Rightarrow> creator \<Rightarrow> entity \<Rightarrow> entity" where
  "add_creatable p f e =
     (if list_ex (\<lambda>(q, _). uri_equal q p) (m_creatables e) then e
      else e\<lparr>m_creatables := m_creatables e @ [(p, f)]\<rparr>)"

definition remove_creatable :: "ZstURI \<Rightarrow> entity \<Rightarrow> entity" where
  "remove_creatable p e = e\<lparr>m_creatables := filter (\<lambda>(q, _). \<not> uri_equal q p) (m_creatables e)\<rparr>"

definition clear_creatables :: "entity \<Rightarrow> entity" where
  "clear_creatables e = e\<lparr>m_creatables := []\<rparr>"

definition get_creatable_at :: "entity \<Rightarrow> nat \<Rightarrow> zst_exn + ZstURI" where
  "get_creatable_at e index = map_sum id fst (list_index (m_creatables e) index)"

text \<open>
  \<open>last()\<close> raises on the empty URI; \<open>last_uri\<close> is its value on the URIs of registered entities, which
  are not empty.
\<close>

definition last_uri :: "ZstURI \<Rightarrow> ZstURI" where
  "last_uri u = (case uri_last u of Inl _ \<Rightarrow> uri_empty | Inr l \<Rightarrow> l)"

definition update_createable_URIs :: "entity \<Rightarrow> entity" where
  "update_createable_URIs e =
     fold (\<lambda>(p, f) e'.
        let updated_c = (if uri_contains p (m_uri e) then uri_copy p
                         else uri_append (m_uri e) (last_uri p))
        in add_creatable updated_c f e') (m_creatables e) (e\<lparr>m_creatables := []\<rparr>)"

section \<open>Tables\<close>

record EntityData =
  ed_URI :: string
  ed_owner :: "string option"

record PlugData =
  pd_direction :: ZstPlugDirection
  pd_max_cables :: int
  pd_value :: "PlugValue option"

text \<open>
  The entity tables; a component type or the creatables may be absent from a message.
\<close>

datatype entity_table =
    T_Entity EntityData
  | T_Performer EntityData "string option"
  | T_Component EntityData "string option"
  | T_Plug EntityData "PlugData option"
  | T_Factory EntityData "string list option"

datatype EntityTypes = EntityTypes_NONE | EntityTypes_Component | EntityTypes_Performer |
  EntityTypes_Plug | EntityTypes_Factory

fun serialized_entity_type :: "ZstEntityType \<Rightarrow> EntityTypes" where
  "serialized_entity_type ET_NONE = EntityTypes_NONE"
| "serialized_entity_type ET_COMPONENT = EntityTypes_Component"
| "serialized_entity_type ET_PERFORMER = EntityTypes_Performer"
| "serialized_entity_type ET_PLUG = EntityTypes_Plug"
| "serialized_entity_type ET_FACTORY = EntityTypes_Factory"

text \<open>
  \<open>ZstEntityBase::serialize_partial\<close> passes the number of components of the owner's URI as the length
  of its path; the byte behind the path is its NUL.
\<close>

definition entity_serialize_partial :: "entity \<Rightarrow> EntityData" where
  "entity_serialize_partial e =
     \<lparr>ed_URI = take (uri_full_size (m_uri e)) (uri_path (m_uri e)),
      ed_owner = Some (take (uri_size (m_current_owner e)) (uri_path (m_current_owner e) @ [NUL]))\<rparr>"

definition entity_deserialize_partial :: "EntityData \<Rightarrow> entity \<Rightarrow> entity" where
  "entity_deserialize_partial buffer e =
     e\<lparr>m_uri := uri_of_len (ed_URI buffer) (length (ed_URI buffer)),
       m_current_owner :=
         (case ed_owner buffer of
            None \<Rightarrow> m_current_owner e | Some w \<Rightarrow> uri_of_len w (length w))\<rparr>"

definition component_deserialize_partial :: "string option \<Rightarrow> entity \<Rightarrow> entity" where
  "component_deserialize_partial buffer e =
     (case buffer of None \<Rightarrow> e | Some t \<Rightarrow> e\<lparr>m_component_type := t\<rparr>)"

definition plug_serialize_partial :: "float_text \<Rightarrow> entity \<Rightarrow> zst_exn + PlugData" where
  "plug_serialize_partial ft e =
     map_sum id (\<lambda>v. \<lparr>pd_direction = m_direction e, pd_max_cables = m_max_connected_cables e,
                      pd_value = v\<rparr>) (value_serialize ft (m_value e))"

definition plug_deserialize_partial :: "PlugData option \<Rightarrow> entity \<Rightarrow> zst_exn + entity" where
  "plug_deserialize_partial buffer e =
     (case buffer of
        None \<Rightarrow> Inr e
      | Some b \<Rightarrow>
          map_sum id (\<lambda>v. e\<lparr>m_value := v, m_direction := pd_direction b,
                            m_max_connected_cables := pd_max_cables b\<rparr>)
            (value_deserialize (pd_value b) (m_value e)))"

definition factory_serialize_partial :: "entity \<Rightarrow> string list" where
  "factory_serialize_partial e = map (\<lambda>(p, _). uri_path p) (m_creatables e)"

text \<open>\<open>add_creatable<ZstEntityBase>\<close> stores the creator of a plain entity, number 0.\<close>

definition factory_deserialize_partial :: "string list option \<Rightarrow> entity \<Rightarrow> entity" where
  "factory_deserialize_partial buffer e =
     (case buffer of
        None \<Rightarrow> e
      | Some cs \<Rightarrow> fold (\<lambda>c. add_creatable (uri_of_len c (length c)) 0) cs e)"

text \<open>The virtual \<open>serialize\<close> of each class.\<close>

definition entity_serialize :: "float_text \<Rightarrow> entity \<Rightarrow> zst_exn + entity_table" where
  "entity_serialize ft e =
     (case m_class e of
        EC_Component \<Rightarrow> Inr (T_Component (entity_serialize_partial e) (Some (m_component_type e)))
      | EC_Performer \<Rightarrow> Inr (T_Performer (entity_serialize_partial e) (Some (m_component_type e)))
      | EC_PerformerStageProxy \<Rightarrow>
          Inr (T_Performer (entity_serialize_partial e) (Some (m_component_type e)))
      | EC_InputPlug \<Rightarrow>
          map_sum id (\<lambda>p. T_Plug (entity_serialize_partial e) (Some p)) (plug_serialize_partial ft e)
      | EC_OutputPlug \<Rightarrow>
          map_sum id (\<lambda>p. T_Plug (entity_serialize_partial e) (Some p)) (plug_serialize_partial ft e)
      | EC_Factory \<Rightarrow>
          Inr (T_Factory (entity_serialize_partial e) (Some (factory_serialize_partial e)))
      | EC_Entity \<Rightarrow> Inr (T_Entity (entity_serialize_partial e)))"

section \<open>Entities from messages\<close>

text \<open>
  The constructors from a table. That of \<open>ZstPerformer\<close> does not initialise \<open>m_heartbeat_active\<close>:
  \<open>indeterminate\<close> is the value the memory happens to hold.
\<close>

definition performer_from :: "bool \<Rightarrow> ZstSynchronisable \<Rightarrow> EntityData \<Rightarrow> string option \<Rightarrow> entity" where
  "performer_from indeterminate s ed ct =
     entity_deserialize_partial ed
       (component_deserialize_partial ct
         ((set_entity_type ET_PERFORMER
            (set_component_type '''' (set_entity_type ET_COMPONENT (entity_init s EC_Performer (uri_of '''')))))
           \<lparr>m_heartbeat_active := indeterminate, m_missed_heartbeats := 0\<rparr>))"

definition component_from :: "ZstSynchronisable \<Rightarrow> EntityData \<Rightarrow> string option \<Rightarrow> entity" where
  "component_from s ed ct =
     component_deserialize_partial ct
       (entity_deserialize_partial ed
         (set_entity_type ET_COMPONENT (entity_init s EC_Component (uri_of ''''))))"

definition plug_from ::
  "entity_class \<Rightarrow> ZstSynchronisable \<Rightarrow> EntityData \<Rightarrow> PlugData option \<Rightarrow> zst_exn + entity" where
  "plug_from cls s ed pd =
     plug_deserialize_partial pd
       (entity_deserialize_partial ed (set_entity_type ET_PLUG (entity_init s cls (uri_of ''''))))"

definition factory_from :: "ZstSynchronisable \<Rightarrow> EntityData \<Rightarrow> string list option \<Rightarrow> entity" where
  "factory_from s ed cs =
     entity_deserialize_partial ed
       (factory_deserialize_partial cs
         (set_entity_type ET_FACTORY (entity_init s EC_Factory (uri_of ''''))))"

definition stage_proxy_new ::
  "bool \<Rightarrow> ZstSynchronisable \<Rightarrow> EntityData \<Rightarrow> string option \<Rightarrow> string \<Rightarrow> string \<Rightarrow> uuid \<Rightarrow> transport \<Rightarrow> entity" where
  "stage_proxy_new indeterminate s ed ct reliable_address unreliable_address origin_endpoint_UUID origin_transport =
     set_proxy (set_activated
       ((performer_from indeterminate s ed ct)
          \<lparr>m_class := EC_PerformerStageProxy, m_reliable_address := reliable_address,
           m_unreliable_address := unreliable_address, m_origin_endpoint_UUID := origin_endpoint_UUID,
           m_origin_transport := origin_transport\<rparr>))"

section \<open>Identity\<close>

text \<open>What no operation on an object changes: its class, its instance id and, for a client, its endpoint.\<close>

definition identity :: "entity \<Rightarrow> entity_class \<times> instance_id \<times> uuid \<times> transport" where
  "identity e = (m_class e, m_instance_id e, m_origin_endpoint_UUID e, m_origin_transport e)"

lemma identity_fields [simp]:
  "identity (e\<lparr>m_sync_status := st\<rparr>) = identity e" "identity (e\<lparr>m_sync_error := er\<rparr>) = identity e"
  "identity (e\<lparr>m_is_proxy := b\<rparr>) = identity e" "identity (e\<lparr>m_synchronisable_events := d\<rparr>) = identity e"
  "identity (e\<lparr>m_parent := u\<rparr>) = identity e" "identity (e\<lparr>m_uri := u\<rparr>) = identity e"
  "identity (e\<lparr>m_current_owner := u\<rparr>) = identity e" "identity (e\<lparr>m_registered := b\<rparr>) = identity e"
  "identity (e\<lparr>m_hierarchy_adaptors := as\<rparr>) = identity e" "identity (e\<lparr>m_entity_adaptors := as\<rparr>) = identity e"
  "identity (e\<lparr>m_session_adaptors := as\<rparr>) = identity e" "identity (e\<lparr>m_children := cs\<rparr>) = identity e"
  "identity (e\<lparr>m_heartbeat_active := b\<rparr>) = identity e" "identity (e\<lparr>m_missed_heartbeats := i\<rparr>) = identity e"
  "identity (e\<lparr>m_value := v\<rparr>) = identity e" "identity (e\<lparr>m_plug_cables := ks\<rparr>) = identity e"
  "identity (e\<lparr>m_can_fire := b\<rparr>) = identity e" "identity (e\<lparr>m_creatables := fs\<rparr>) = identity e"
  "identity (e\<lparr>m_factory_events := es\<rparr>) = identity e" "identity (e\<lparr>m_owned_entities := rs\<rparr>) = identity e"
  "identity (e\<lparr>m_connected_subscriber_peers := ps\<rparr>) = identity e"
  by (simp_all add: identity_def)

lemma identity_sync [simp]:
  "identity (set_activation_status st e) = identity e" "identity (set_proxy e) = identity e"
  "identity (sync_add_adaptor a e) = identity e" "identity (sync_event_status ev e) = identity e"
  "identity (fst (enqueue_activation e)) = identity e" "identity (fst (enqueue_deactivation e)) = identity e"
  "identity (set_activating e) = identity e" "identity (set_deactivating e) = identity e"
  "identity (set_destroyed e) = identity e"
  by (cases ev; simp add: sync_status_defs sync_add_adaptor_def enqueue_activation_def enqueue_deactivation_def
      sync_defer_def)+

lemma identity_operations [simp]:
  "identity (set_can_fire b e) = identity e" "identity (on_activation e) = identity e"
  "identity (on_deactivation e) = identity e" "identity (plug_add_cable a e) = identity e"
  "identity (plug_remove_cable a e) = identity e" "identity (add_subscriber c e) = identity e"
  "identity (set_heartbeat_active e) = identity e" "identity (clear_active_hearbeat e) = identity e"
  "identity (set_heartbeat_inactive e) = identity e" "identity (clear_creatables e) = identity e"
  "identity (add_creatable p f e) = identity e"
  by (simp_all add: set_can_fire_def on_activation_def on_deactivation_def plug_add_cable_def plug_remove_cable_def
      add_subscriber_def set_heartbeat_active_def clear_active_hearbeat_def set_heartbeat_inactive_def
      clear_creatables_def add_creatable_def)

lemma identity_fold_creatables [simp]:
  "identity (fold (\<lambda>c. add_creatable (g c) (k c)) cs e) = identity e"
  "identity (fold (\<lambda>(p, f). add_creatable (g' p) f) fs e) = identity e"
  by (rule fold_frame; auto)+

lemma identity_creatables [simp]:
  "identity (update_createable_URIs e) = identity e" "identity (factory_deserialize_partial cs e) = identity e"
  by (simp_all add: update_createable_URIs_def factory_deserialize_partial_def split: option.split)

section \<open>Lemmas\<close>

lemmas entity_new_defs =
  entity_init_def set_entity_type_def set_component_type_def component_new_def performer_new_def
  plug_new_def input_plug_new_def output_plug_new_def factory_new_def ZstSynchronisable.defs

lemmas entity_class_defs =
  is_component_def is_performer_def is_stage_proxy_def is_input_plug_def is_output_plug_def
  is_plug_def is_factory_def

lemma uri_full_path [simp]: "take (uri_full_size u) (uri_path u) = uri_path u"
  by (simp add: uri_full_size_def strlen_def uri_path_def)

lemma uri_of_len_path: "uri_ok u \<Longrightarrow> uri_of_len (uri_path u) (length (uri_path u)) = u"
proof -
  assume "uri_ok u"
  moreover have "nul_free (uri_path u)" by (simp add: uri_path_def)
  ultimately show ?thesis using uri_of_len_eq [of "uri_path u" "length (uri_path u)"] by simp
qed

lemma uri_ok_last_uri [simp]: "uri_ok (last_uri u)"
  by (simp add: last_uri_def uri_last_def)

lemma uri_append_contains:
  assumes "uri_ok u" and "uri_ok v" and "\<not> uri_is_empty u"
  shows "uri_contains (uri_append u v) u"
proof -
  have ne: "uri_path u \<noteq> []"
    using assms by (auto simp: uri_is_empty_def uri_size_path)
  have sp: "split_delim (s @ DELIM # w) = split_delim s @ split_delim w" for s w
  proof (induction s)
    case (Cons c s)
    then show ?case by (cases "split_delim s") auto
  qed simp
  have "nul_free (uri_path u @ DELIM # uri_path v)" by (simp add: uri_path_def)
  then have "uri_segments (uri_append u v) = uri_segments u @ split_delim (uri_path v)"
    using assms ne sp by (simp add: uri_append_ok segments_of_path path_components_def)
  then show ?thesis
    using assms uri_contains_segments [of "uri_append u v" u] by simp
qed

lemma add_creatable_set:
  "set (m_creatables (add_creatable p f e)) \<subseteq> insert (p, f) (set (m_creatables e))"
  by (auto simp: add_creatable_def)

lemma add_creatable_mem: "\<exists>q g. (q, g) \<in> set (m_creatables (add_creatable p f e)) \<and> uri_equal q p"
  by (auto simp: add_creatable_def list_ex_iff uri_equal_path)

lemma add_creatable_frame [simp]: "m_uri (add_creatable p f e) = m_uri e"
  by (simp add: add_creatable_def)

lemma update_createable_only:
  "\<exists>cs. update_createable_URIs e = e\<lparr>m_creatables := cs\<rparr>"
proof -
  have "\<exists>cs. fold (\<lambda>(p, f). add_creatable (g p) f) ps (e\<lparr>m_creatables := ds\<rparr>) = e\<lparr>m_creatables := cs\<rparr>" for g ps ds
  proof (induction ps arbitrary: ds)
    case (Cons c ps)
    obtain p f where "c = (p, f)" by (cases c)
    moreover have "\<exists>ds'. add_creatable (g p) f (e\<lparr>m_creatables := ds\<rparr>) = e\<lparr>m_creatables := ds'\<rparr>"
      by (auto simp: add_creatable_def)
    ultimately show ?case using Cons.IH by auto
  qed auto
  from this [of "\<lambda>p. if uri_contains p (m_uri e) then uri_copy p else uri_append (m_uri e) (last_uri p)"
      "m_creatables e" "[]"]
  show ?thesis unfolding update_createable_URIs_def Let_def .
qed

lemma update_createable_frame [simp]:
  "m_uri (update_createable_URIs e) = m_uri e"
  "m_hierarchy_adaptors (update_createable_URIs e) = m_hierarchy_adaptors e"
  "m_parent (update_createable_URIs e) = m_parent e"
  "m_class (update_createable_URIs e) = m_class e"
  "m_sync_status (update_createable_URIs e) = m_sync_status e"
  "m_is_proxy (update_createable_URIs e) = m_is_proxy e"
  "m_entity_type (update_createable_URIs e) = m_entity_type e"
  "m_registered (update_createable_URIs e) = m_registered e"
  "m_synchronisable_events (update_createable_URIs e) = m_synchronisable_events e"
  "m_instance_id (update_createable_URIs e) = m_instance_id e"
  using update_createable_only [of e] by auto

lemma update_createable_fold:
  assumes "\<forall>(p, f)\<in>set cs. uri_ok p" and "uri_ok u" and "\<not> uri_is_empty u"
    and "\<forall>(p, f)\<in>set (m_creatables e). uri_contains p u"
  shows "\<forall>(p, f)\<in>set (m_creatables (fold (\<lambda>(p, f) e'.
        add_creatable (if uri_contains p u then uri_copy p else uri_append u (last_uri p)) f e') cs e)).
      uri_contains p u"
  using assms
proof (induction cs arbitrary: e)
  case (Cons c cs)
  obtain p f where c: "c = (p, f)" by (cases c)
  let ?q = "if uri_contains p u then uri_copy p else uri_append u (last_uri p)"
  have "uri_contains ?q u" using Cons.prems c by (simp add: uri_copy_id uri_append_contains)
  then have "\<forall>(p, f)\<in>set (m_creatables (add_creatable ?q f e)). uri_contains p u"
    using Cons.prems(4) add_creatable_set [of ?q f e] by blast
  then show ?case using Cons c by simp
qed simp

section \<open>Properties\<close>

text \<open>
  After a factory moved to a new URI, \<open>update_createable_URIs\<close> has re-rooted its creatables:
  the path of every creatable is contained in the factory's URI, which is what \<open>create_entity\<close>
  relies on when it finds the factory as the parent of the creatable.
\<close>

theorem creatables_below_factory:
  assumes "\<forall>(p, f)\<in>set (m_creatables e). uri_ok p" and "uri_ok (m_uri e)" and "\<not> uri_is_empty (m_uri e)"
  shows "\<forall>(p, f)\<in>set (m_creatables (update_createable_URIs e)). uri_contains p (m_uri e)"
  using update_createable_fold [of "m_creatables e" "m_uri e" "e\<lparr>m_creatables := []\<rparr>"] assms
  unfolding update_createable_URIs_def Let_def by simp

theorem creatables_below_factory_witness:
  "list_all (\<lambda>(p, f). uri_contains p (uri_of ''kit''))
     (m_creatables (update_createable_URIs
        ((factory_new (fst (synchronisable_new 0)) ''kit'')\<lparr>m_creatables := [(uri_of ''old/drum'', 7)]\<rparr>)))"
  using creatables_below_factory
    [of "(factory_new (fst (synchronisable_new 0)) ''kit'')\<lparr>m_creatables := [(uri_of ''old/drum'', 7)]\<rparr>"]
  by (simp add: list_all_iff entity_new_defs uri_is_empty_def cstr_def path_components_def)

text \<open>
  The tables of the entities round-trip for plugs: the proxy that is built from the table of a
  plug has its URI, value, direction and cable limit, provided that its value is typed.
\<close>

theorem plug_table_roundtrip:
  assumes "uri_ok (m_uri e)" and "value_typed (m_value e)" and "is_plug e"
  shows "\<exists>ed pd p. entity_serialize ft e = Inr (T_Plug ed (Some pd)) \<and>
    plug_from cls s ed (Some pd) = Inr p \<and> m_uri p = m_uri e \<and> m_value p = m_value e \<and>
    m_direction p = m_direction e \<and> m_max_connected_cables p = m_max_connected_cables e \<and>
    m_entity_type p = ET_PLUG \<and> m_class p = cls"
proof -
  obtain b where b: "value_serialize ft (m_value e) = Inr (Some b)"
      "\<And>w. value_deserialize (Some b) w = Inr (m_value e)"
    using assms(2)
    by (cases "m_value e" rule: value_typedE)
       (auto simp: value_serialize_def value_deserialize_def as_int_vector_def as_float_vector_def
         as_string_vector_def simp del: list.map_comp map_map)
  have "m_class e = EC_InputPlug \<or> m_class e = EC_OutputPlug"
    using assms(3) by (simp add: entity_class_defs)
  then have "entity_serialize ft e = Inr (T_Plug (entity_serialize_partial e)
      (Some \<lparr>pd_direction = m_direction e, pd_max_cables = m_max_connected_cables e, pd_value = Some b\<rparr>))"
    by (auto simp: entity_serialize_def plug_serialize_partial_def b)
  then show ?thesis
    using assms(1)
    by (simp add: plug_from_def plug_deserialize_partial_def b entity_deserialize_partial_def
        entity_serialize_partial_def uri_of_len_path entity_new_defs)
qed

theorem plug_table_roundtrip_witness:
  "\<exists>ed pd p. entity_serialize \<lparr>stof = (\<lambda>_. Inl InvalidArgument), to_string_float = (\<lambda>_. '''')\<rparr>
       (input_plug_new (fst (synchronisable_new 0)) ''p/in'' VT_IntList 2) = Inr (T_Plug ed (Some pd)) \<and>
     plug_from EC_InputPlug (fst (synchronisable_new 1)) ed (Some pd) = Inr p \<and>
     m_uri p = uri_of ''p/in'' \<and> m_max_connected_cables p = 2"
  using plug_table_roundtrip
    [of "input_plug_new (fst (synchronisable_new 0)) ''p/in'' VT_IntList 2"
        "\<lparr>stof = (\<lambda>_. Inl InvalidArgument), to_string_float = (\<lambda>_. '''')\<rparr>" EC_InputPlug
        "fst (synchronisable_new 1)"]
  by (auto simp: entity_new_defs entity_class_defs value_typed_def list_type_def value_new_def)

text \<open>
  The owner of an entity does not survive the table: \<open>serialize_partial\<close> writes only as many
  bytes of the owner's path as the owner's URI has components, so the receiver gets the owner back
  exactly when its path has one byte per component.
\<close>

theorem owner_truncated:
  assumes "uri_ok (m_current_owner e)"
  shows "m_current_owner (entity_deserialize_partial (entity_serialize_partial e) e') = m_current_owner e
    \<longleftrightarrow> length (uri_path (m_current_owner e)) = uri_size (m_current_owner e)"
proof -
  let ?o = "m_current_owner e" and ?p = "uri_path (m_current_owner e)"
  let ?w = "take (uri_size ?o) (?p @ [NUL])"
  have "m_original_path (uri_of_len ?w (length ?w)) = \<lparr>pstr_length = length ?w, pstr_cstr = ?w\<rparr>"
    by (simp only: uri_of_len_def uri_init_def create_pstr_n_def ZstURI.simps take_all order_refl)
  moreover have "m_original_path ?o = \<lparr>pstr_length = length ?p, pstr_cstr = ?p\<rparr>"
    using assms by (metis ZstURI.select_convs(1) cstr_idem uri_of_eq uri_of_path uri_path_def)
  ultimately have "uri_of_len ?w (length ?w) = ?o \<Longrightarrow> length ?w = length ?p \<and> ?w = ?p"
    by (metis pstr.ext_inject)
  moreover have "length ?w = length ?p \<and> ?w = ?p \<Longrightarrow> length ?p = uri_size ?o"
  proof -
    assume "length ?w = length ?p \<and> ?w = ?p"
    then have "min (length (?p @ [NUL])) (uri_size ?o) = length ?p" by (metis length_take)
    then show ?thesis by (simp add: min_def split: if_splits)
  qed
  moreover have "length ?p = uri_size ?o \<Longrightarrow> uri_of_len ?w (length ?w) = ?o"
    using uri_of_len_path [OF assms] by simp
  ultimately show ?thesis
    by (auto simp: entity_deserialize_partial_def entity_serialize_partial_def)
qed

theorem owner_truncated_witness:
  "m_current_owner (entity_deserialize_partial
      (entity_serialize_partial
         ((factory_new (fst (synchronisable_new 0)) ''kit'')\<lparr>m_current_owner := uri_of ''alice''\<rparr>))
      (factory_new (fst (synchronisable_new 0)) ''kit'')) \<noteq> uri_of ''alice''"
  using owner_truncated
    [of "(factory_new (fst (synchronisable_new 0)) ''kit'')\<lparr>m_current_owner := uri_of ''alice''\<rparr>"
        "factory_new (fst (synchronisable_new 0)) ''kit''"]
  by (simp add: cstr_def path_components_def)

end
