(* ===== verification/Zst_Message.thy ===== *)
theory Zst_Message
  imports Zst_Entity
begin

text \<open>
  The messages between the stage and its clients. The schema of the messages is not part of the
  repository; a message is a value with the fields the source writes with the \<open>Create...\<close> functions of
  the generated code and reads with its accessors. \<open>ZstTransportArgs\<close> is
  \<open>src/src/core/transports/ZstTransportHelpers.h\<close>; the closures that handle a response are values of
  \<open>response_action\<close>, which the modules that set them interpret. An incoming message is
  \<open>ZstStageMessage\<close> (\<open>src/src/core/ZstStageMessage.cpp\<close>).
\<close>

type_synonym cable_ref = nat

datatype ZstTransportRequestBehaviour = PUBLISH | SYNC_REPLY | ASYNC_REPLY

datatype Signal =
    Signal_EMPTY | Signal_OK | Signal_CLIENT_SYNC | Signal_CLIENT_HEARTBEAT
  | Signal_ERR_STAGE_TIMEOUT | Signal_ERR_STAGE_PERFORMER_NOT_FOUND
  | Signal_ERR_STAGE_PERFORMER_ALREADY_EXISTS | Signal_ERR_STAGE_PERFORMER_ALREADY_CONNECTED
  | Signal_ERR_STAGE_BAD_CABLE_CONNECT_REQUEST | Signal_ERR_CABLE_PLUGS_NOT_FOUND
  | Signal_ERR_ENTITY_NOT_FOUND | Signal_ERR_MSG_MALFORMED

datatype ClientLeaveReason = ClientLeaveReason_QUIT | ClientLeaveReason_other nat

datatype ServerStatus = ServerStatus_QUIT

datatype message_content =
    Content_SignalMessage Signal
  | Content_ClientJoinRequest EntityData "string option" "string option" "string option"
  | Content_ClientLeaveRequest string ClientLeaveReason
  | Content_EntityCreateRequest EntityTypes entity_table
  | Content_EntityUpdateRequest EntityTypes entity_table string
  | Content_EntityDestroyRequest string
  | Content_EntityObserveRequest string
  | Content_EntityTakeOwnershipRequest string string
  | Content_FactoryCreateEntityRequest string string
  | Content_FactoryCreateEntityACK string
  | Content_CableCreateRequest CableData
  | Content_CableDestroyRequest CableData
  | Content_ClientGraphHandshakeListen string string
  | Content_ClientGraphHandshakeStart string string
  | Content_ClientGraphHandshakeStop string
  | Content_ServerStatusMessage ServerStatus

text \<open>
  The response callbacks of the stage: of a request that was forwarded to a factory, and of the
  handshake between two clients with the callback that follows it.
\<close>

datatype connect_action =
    CA_None
  | CA_CableConnected cable_ref ref uuid
  | CA_Observed ref uuid

text \<open>
  The response callbacks of a client. An activation that a factory request caused carries the id of
  that request; a heartbeat carries the time at which it was sent.
\<close>

datatype client_action =
    CL_EntityActivated ref "uuid option"
  | CL_EntityDestroyed ref
  | CL_EntityCreated ref
  | CL_CableConnected cable_ref
  | CL_CableDestroyed cable_ref
  | CL_EntityObserved ref
  | CL_OwnershipAcknowledged
  | CL_Joined ZstServerAddress
  | CL_GraphSynchronised
  | CL_Heartbeat int

datatype response_action =
    RA_None
  | RA_Client client_action
  | RA_FactoryCreated "ref option" ZstURI uuid
  | RA_ClientsConnected ref ref connect_action

record ZstTransportArgs =
  target_endpoint_UUID :: uuid
  msg_send_behaviour :: ZstTransportRequestBehaviour
  msg_ID :: uuid
  on_recv_response :: response_action

definition transport_args :: ZstTransportArgs where
  "transport_args = \<lparr>target_endpoint_UUID = 0, msg_send_behaviour = PUBLISH, msg_ID = 0, on_recv_response = RA_None\<rparr>"

record outgoing =
  out_transport :: transport
  out_content :: message_content
  out_args :: ZstTransportArgs

text \<open>An incoming message: the fields \<open>init\<close> sets.\<close>

record ZstStageMessage =
  m_origin_UUID :: uuid
  m_id :: uuid
  m_owning_transport :: transport
  m_buffer :: message_content

text \<open>\<open>get_signal\<close> and \<open>verify_signal\<close> of \<open>ZstStageTransport\<close>; a missing message is a request that timed out.\<close>

definition get_signal :: "ZstStageMessage option \<Rightarrow> Signal" where
  "get_signal msg =
     (case msg of
        None \<Rightarrow> Signal_EMPTY
      | Some m \<Rightarrow> (case m_buffer m of Content_SignalMessage s \<Rightarrow> s | _ \<Rightarrow> Signal_EMPTY))"

definition verify_signal :: "ZstStageMessage option \<Rightarrow> Signal \<Rightarrow> bool" where
  "verify_signal msg expected \<longleftrightarrow> msg \<noteq> None \<and> get_signal msg = expected"

end
