(* ===== verification/Zst_Tree.thy ===== *)
theory Zst_Tree
  imports Zst_Message
begin

text \<open>
  The tree of entities: the state of \<open>ZstHierarchy\<close> (\<open>src/src/core/ZstHierarchy.cpp\<close>) and the
  operations of \<open>ZstEntityBase\<close>, \<open>ZstComponent\<close> and \<open>ZstPerformer\<close> that go through it: parents,
  children, names, registration and the lookup table.

  Objects live in \<open>heap\<close> under the addresses \<open>ref\<close>; an address without an object is a deleted one.
  Messages that are sent are appended to \<open>m_outbox\<close>.
  The lookup table, an \<open>unordered_map\<close> on URIs, is a map on their paths (\<open>uri_table\<close> in \<open>Zst_URI\<close>).
  The virtual functions of the module that entities call back are the fields of
  \<open>hierarchy_virtuals\<close>; the stage and the client fill them in. Components re-parent their children
  recursively: the recursion follows the tree of entities downwards and is bounded by \<open>n\<close>, the number
  of levels that are visited.
\<close>

section \<open>State\<close>

text \<open>The closures deferred to the dispatcher of the hierarchy.\<close>

datatype hierarchy_event =
    HE_PerformerArriving ref | HE_EntityArriving ref | HE_FactoryArriving ref
  | HE_EntityUpdated ref
  | HE_PerformerLeaving ZstURI | HE_EntityLeaving ZstURI | HE_FactoryLeaving ZstURI

record hierarchy =
  heap :: "ref \<Rightarrow> entity option"
  next_ref :: ref
  s_instance_id_counter :: instance_id
  m_entity_lookup :: "string \<Rightarrow> ref option"
  m_proxies :: "ref list"
  m_hierarchy_events :: "(adaptor, hierarchy_event) dispatcher"
  h_module :: "(ref, ref \<times> instance_id) sync_module"
  m_outbox :: "outgoing list"

record 's hierarchy_virtuals =
  v_find_entity :: "'s \<Rightarrow> ZstURI \<Rightarrow> ref option"
  v_update_entity_URI :: "ref \<Rightarrow> ZstURI \<Rightarrow> 's \<Rightarrow> 's"
  v_request_entity_registration :: "ref \<Rightarrow> 's \<Rightarrow> 's"
  v_request_entity_activation :: "ref \<Rightarrow> 's \<Rightarrow> 's"
  v_publish_entity_update :: "ref \<Rightarrow> ZstURI \<Rightarrow> 's \<Rightarrow> 's"
  v_activate_entity :: "ref \<Rightarrow> ZstTransportRequestBehaviour \<Rightarrow> 's \<Rightarrow> 's"
  v_deactivate_entity :: "ref \<Rightarrow> ZstTransportRequestBehaviour \<Rightarrow> 's \<Rightarrow> 's"
  v_get_local_performer :: "'s \<Rightarrow> ref option"

definition upd_entity ::
  "ref \<Rightarrow> (entity \<Rightarrow> entity) \<Rightarrow> 'z hierarchy_scheme \<Rightarrow> 'z hierarchy_scheme" where
  "upd_entity r f h = h\<lparr>heap := (heap h)(r := map_option f (heap h r))\<rparr>"

definition entity_test :: "(entity \<Rightarrow> bool) \<Rightarrow> 'z hierarchy_scheme \<Rightarrow> ref \<Rightarrow> bool" where
  "entity_test P h r = (case heap h r of None \<Rightarrow> False | Some e \<Rightarrow> P e)"

definition uri_at :: "'z hierarchy_scheme \<Rightarrow> ref \<Rightarrow> ZstURI" where
  "uri_at h r = (case heap h r of None \<Rightarrow> uri_empty | Some e \<Rightarrow> m_uri e)"

text \<open>\<open>new\<close>: the object gets the next address and the next instance id.\<close>

definition alloc_entity ::
  "(ZstSynchronisable \<Rightarrow> entity) \<Rightarrow> 'z hierarchy_scheme \<Rightarrow> ref \<times> 'z hierarchy_scheme" where
  "alloc_entity mk h =
     (let (s, c) = synchronisable_new (s_instance_id_counter h); r = next_ref h
      in (r, h\<lparr>heap := (heap h)(r \<mapsto> mk s), next_ref := r + 1, s_instance_id_counter := c\<rparr>))"

section \<open>Lookup table\<close>

definition add_entity_to_lookup :: "ref \<Rightarrow> 'z hierarchy_scheme \<Rightarrow> 'z hierarchy_scheme" where
  "add_entity_to_lookup r h =
     h\<lparr>m_entity_lookup := (m_entity_lookup h)(uri_path (uri_at h r) \<mapsto> r)\<rparr>"

definition remove_entity_from_lookup :: "ZstURI \<Rightarrow> 'z hierarchy_scheme \<Rightarrow> 'z hierarchy_scheme" where
  "remove_entity_from_lookup u h =
     h\<lparr>m_entity_lookup := (m_entity_lookup h)(uri_path u := None)\<rparr>"

text \<open>The test for a missing parent has an empty body: the entity is added in either case.\<close>

definition update_entity_in_lookup :: "ref \<Rightarrow> ZstURI \<Rightarrow> 'z hierarchy_scheme \<Rightarrow> 'z hierarchy_scheme" where
  "update_entity_in_lookup r original_path h =
     add_entity_to_lookup r (remove_entity_from_lookup original_path h)"

definition find_entity :: "'z hierarchy_scheme \<Rightarrow> ZstURI \<Rightarrow> ref option" where
  "find_entity h path = m_entity_lookup h (uri_path path)"

definition set_registered :: "entity \<Rightarrow> entity" where
  "set_registered e = (if m_registered e then e else e\<lparr>m_registered := True\<rparr>)"

definition attach_adaptor :: "adaptor \<Rightarrow> adaptor list \<Rightarrow> adaptor list" where
  "attach_adaptor a as = (if a \<in> set as then as else as @ [a])"

definition attach_hierarchy :: "entity \<Rightarrow> entity" where
  "attach_hierarchy e =
     sync_add_adaptor HierarchyModule
       (e\<lparr>m_hierarchy_adaptors := attach_adaptor HierarchyModule (m_hierarchy_adaptors e),
          m_entity_adaptors := attach_adaptor HierarchyModule (m_entity_adaptors e)\<rparr>)"

definition register_entity :: "ref \<Rightarrow> 'z hierarchy_scheme \<Rightarrow> 'z hierarchy_scheme" where
  "register_entity r h =
     upd_entity r set_registered (add_entity_to_lookup r (upd_entity r attach_hierarchy h))"

section \<open>Entities and their parents\<close>

definition hierarchy_attached :: "'z hierarchy_scheme \<Rightarrow> ref \<Rightarrow> bool" where
  "hierarchy_attached h r = entity_test (\<lambda>e. HierarchyModule \<in> set (m_hierarchy_adaptors e)) h r"

definition entity_adaptor_attached :: "'z hierarchy_scheme \<Rightarrow> ref \<Rightarrow> bool" where
  "entity_adaptor_attached h r = entity_test (\<lambda>e. HierarchyModule \<in> set (m_entity_adaptors e)) h r"

definition entity_parent ::
  "('z hierarchy_scheme) hierarchy_virtuals \<Rightarrow> 'z hierarchy_scheme \<Rightarrow> ref \<Rightarrow> ref option" where
  "entity_parent V h r =
     (case heap h r of
        None \<Rightarrow> None
      | Some e \<Rightarrow>
          if uri_is_empty (m_parent e) then None
          else if \<not> m_registered e then None
          else if hierarchy_attached h r then v_find_entity V h (m_parent e) else None)"

definition get_child_by_URI ::
  "('z hierarchy_scheme) hierarchy_virtuals \<Rightarrow> 'z hierarchy_scheme \<Rightarrow> ref \<Rightarrow> ZstURI \<Rightarrow> ref option" where
  "get_child_by_URI V h r path = (if hierarchy_attached h r then v_find_entity V h path else None)"

text \<open>\<open>update_URI\<close> is virtual: factories re-root their creatables.\<close>

definition update_URI ::
  "('z hierarchy_scheme) hierarchy_virtuals \<Rightarrow> ref \<Rightarrow> ZstURI \<Rightarrow> 'z hierarchy_scheme \<Rightarrow> 'z hierarchy_scheme" where
  "update_URI V r original_path h =
     (let h1 = (if hierarchy_attached h r then v_update_entity_URI V r original_path h else h)
      in if entity_test is_factory h1 r then upd_entity r update_createable_URIs h1 else h1)"

definition reparented_uri :: "ZstURI \<Rightarrow> ZstURI \<Rightarrow> ZstURI" where
  "reparented_uri parent_uri uri =
     (if uri_is_empty parent_uri then last_uri uri
      else if \<not> uri_contains uri parent_uri then uri_append parent_uri (last_uri uri)
      else uri)"

definition base_set_parent ::
  "('z hierarchy_scheme) hierarchy_virtuals \<Rightarrow> ref \<Rightarrow> ref option \<Rightarrow> 'z hierarchy_scheme \<Rightarrow> 'z hierarchy_scheme" where
  "base_set_parent V r p h =
     (let orig_path = uri_at h r;
          parent_uri = (case p of None \<Rightarrow> uri_empty | Some q \<Rightarrow> uri_at h q)
      in update_URI V r orig_path
           (upd_entity r (\<lambda>e. e\<lparr>m_parent := parent_uri, m_uri := reparented_uri parent_uri (m_uri e)\<rparr>) h))"

section \<open>Children\<close>

definition matches_filter :: "ZstEntityType \<Rightarrow> entity \<Rightarrow> bool" where
  "matches_filter flt e \<longleftrightarrow> flt = ET_NONE \<or> m_entity_type e = flt"

definition base_child_entities :: "'z hierarchy_scheme \<Rightarrow> ref \<Rightarrow> bool \<Rightarrow> ZstEntityType \<Rightarrow> ref list" where
  "base_child_entities h r include_parent flt =
     (if include_parent \<and> entity_test (matches_filter flt) h r then [r] else [])"

fun get_child_entities ::
  "('z hierarchy_scheme) hierarchy_virtuals \<Rightarrow> nat \<Rightarrow> 'z hierarchy_scheme \<Rightarrow> ref \<Rightarrow> bool \<Rightarrow> bool \<Rightarrow>
   ZstEntityType \<Rightarrow> ref list" where
  "get_child_entities V 0 h r include_parent recursive flt = base_child_entities h r include_parent flt"
| "get_child_entities V (Suc n) h r include_parent recursive flt =
     base_child_entities h r include_parent flt @
     (case heap h r of
        None \<Rightarrow> []
      | Some e \<Rightarrow>
          if \<not> is_component e then []
          else concat (map (\<lambda>child_path.
                 case get_child_by_URI V h r child_path of
                   None \<Rightarrow> []
                 | Some c \<Rightarrow>
                     if recursive then get_child_entities V n h c True recursive flt
                     else base_child_entities h c True flt) (m_children e)))"

text \<open>
  \<open>add_child\<close> and \<open>remove_child\<close>, with the virtual \<open>set_parent\<close> of the child as an argument: the base
  version, the component's, and the dispatch on the class of the parent. A performer treats
  factories apart, by a call of the component's version with the default of \<open>auto_activate\<close>.
\<close>

definition component_add_child ::
  "(ref \<Rightarrow> ref option \<Rightarrow> 'z hierarchy_scheme \<Rightarrow> 'z hierarchy_scheme) \<Rightarrow> ('z hierarchy_scheme) hierarchy_virtuals \<Rightarrow>
   ref \<Rightarrow> ref \<Rightarrow> bool \<Rightarrow> 'z hierarchy_scheme \<Rightarrow> 'z hierarchy_scheme" where
  "component_add_child child_set_parent V r c auto_activate h =
     (if entity_test m_is_destroyed h r then h
      else if entity_test (\<lambda>e. oset_member uri_less (uri_at h c) (m_children e)) h r then h
      else
        let h1 = child_set_parent c (Some r) h;
            h2 = upd_entity r (\<lambda>e. e\<lparr>m_children := oset_insert uri_less (uri_at h1 c) (m_children e)\<rparr>) h1;
            h3 = (if entity_test m_registered h2 r \<and> \<not> entity_test m_registered h2 c \<and>
                     entity_adaptor_attached h2 r
                  then v_request_entity_registration V c h2 else h2)
        in if entity_test is_activated h3 r \<and> \<not> entity_test m_is_proxy h3 c \<and> auto_activate \<and>
              entity_adaptor_attached h3 r
           then v_request_entity_activation V c h3 else h3)"

definition add_child ::
  "(ref \<Rightarrow> ref option \<Rightarrow> 'z hierarchy_scheme \<Rightarrow> 'z hierarchy_scheme) \<Rightarrow> ('z hierarchy_scheme) hierarchy_virtuals \<Rightarrow>
   ref \<Rightarrow> ref \<Rightarrow> bool \<Rightarrow> 'z hierarchy_scheme \<Rightarrow> 'z hierarchy_scheme" where
  "add_child child_set_parent V r c auto_activate h =
     (if entity_test is_performer h r \<and> entity_test (\<lambda>e. m_entity_type e = ET_FACTORY) h c
      then (if entity_test m_is_destroyed h r then h
            else component_add_child child_set_parent V r c True h)
      else if entity_test is_component h r
      then component_add_child child_set_parent V r c auto_activate h
      else if entity_test m_is_destroyed h r then h
      else child_set_parent c (Some r) h)"

definition component_remove_child ::
  "(ref \<Rightarrow> ref option \<Rightarrow> 'z hierarchy_scheme \<Rightarrow> 'z hierarchy_scheme) \<Rightarrow>
   ref \<Rightarrow> ref \<Rightarrow> 'z hierarchy_scheme \<Rightarrow> 'z hierarchy_scheme" where
  "component_remove_child child_set_parent r c h =
     (if entity_test m_is_destroyed h r then h
      else child_set_parent c None
             (upd_entity r (\<lambda>e. e\<lparr>m_children := oset_erase uri_less (uri_at h c) (m_children e)\<rparr>) h))"

definition remove_child ::
  "(ref \<Rightarrow> ref option \<Rightarrow> 'z hierarchy_scheme \<Rightarrow> 'z hierarchy_scheme) \<Rightarrow>
   ref \<Rightarrow> ref \<Rightarrow> 'z hierarchy_scheme \<Rightarrow> 'z hierarchy_scheme" where
  "remove_child child_set_parent r c h =
     (if entity_test is_component h r then component_remove_child child_set_parent r c h
      else child_set_parent c None h)"

text \<open>The loop of \<open>ZstComponent::set_parent\<close> and \<open>set_name\<close> over the children.\<close>

definition reparent_children ::
  "(ref \<Rightarrow> ref option \<Rightarrow> 'z hierarchy_scheme \<Rightarrow> 'z hierarchy_scheme) \<Rightarrow> ('z hierarchy_scheme) hierarchy_virtuals \<Rightarrow>
   ref \<Rightarrow> ref list \<Rightarrow> 'z hierarchy_scheme \<Rightarrow> 'z hierarchy_scheme" where
  "reparent_children child_set_parent V r bundle h =
     fold (\<lambda>c h. add_child child_set_parent V r c True (remove_child child_set_parent r c h)) bundle h"

fun set_parent ::
  "('z hierarchy_scheme) hierarchy_virtuals \<Rightarrow> nat \<Rightarrow> ref \<Rightarrow> ref option \<Rightarrow> 'z hierarchy_scheme \<Rightarrow> 'z hierarchy_scheme" where
  "set_parent V n r p h =
     (if \<not> entity_test is_component h r then base_set_parent V r p h
      else if entity_test m_is_destroyed h r then h
      else
        let h1 = base_set_parent V r p h
        in case n of
             0 \<Rightarrow> h1
           | Suc m \<Rightarrow>
               reparent_children (set_parent V m) V r
                 (get_child_entities V 1 h1 r False False ET_NONE) h1)"

declare set_parent.simps [simp del]

text \<open>\<open>tree_depth\<close>: no path has more levels than a URI has components.\<close>

definition tree_depth :: nat where
  "tree_depth = MAX_PATH_LEN"

definition parent_uri :: "ZstURI \<Rightarrow> ZstURI" where
  "parent_uri u = (case uri_parent u of Inl _ \<Rightarrow> uri_empty | Inr p \<Rightarrow> p)"

definition base_set_name ::
  "('z hierarchy_scheme) hierarchy_virtuals \<Rightarrow> ref \<Rightarrow> string \<Rightarrow> 'z hierarchy_scheme \<Rightarrow> 'z hierarchy_scheme" where
  "base_set_name V r name h =
     (let orig_path = uri_at h r;
          new_uri = (if entity_parent V h r \<noteq> None then uri_append (parent_uri orig_path) (uri_of name)
                     else uri_of name);
          h1 = update_URI V r orig_path (upd_entity r (\<lambda>e. e\<lparr>m_uri := new_uri\<rparr>) h);
          h2 = (case entity_parent V h1 r of
                  None \<Rightarrow> h1
                | Some p \<Rightarrow>
                    add_child (set_parent V tree_depth) V p r True
                      (remove_child (set_parent V tree_depth) p r h1))
      in if entity_adaptor_attached h2 r then v_publish_entity_update V r orig_path h2 else h2)"

definition set_name ::
  "('z hierarchy_scheme) hierarchy_virtuals \<Rightarrow> ref \<Rightarrow> string \<Rightarrow> 'z hierarchy_scheme \<Rightarrow> 'z hierarchy_scheme" where
  "set_name V r name h =
     (if \<not> entity_test is_component h r then base_set_name V r name h
      else if entity_test m_is_destroyed h r then h
      else
        let bundle = get_child_entities V 1 h r False False ET_NONE
        in reparent_children (set_parent V tree_depth) V r bundle (base_set_name V r name h))"

section \<open>Activation requests and ownership\<close>

definition entity_activate ::
  "('z hierarchy_scheme) hierarchy_virtuals \<Rightarrow> ref \<Rightarrow> ZstTransportRequestBehaviour \<Rightarrow>
   'z hierarchy_scheme \<Rightarrow> 'z hierarchy_scheme" where
  "entity_activate V r sendtype h =
     (if \<not> entity_test m_registered h r then h
      else if hierarchy_attached h r then v_activate_entity V r sendtype h else h)"

definition entity_deactivate ::
  "('z hierarchy_scheme) hierarchy_virtuals \<Rightarrow> ref \<Rightarrow> 'z hierarchy_scheme \<Rightarrow> 'z hierarchy_scheme" where
  "entity_deactivate V r h =
     (if entity_test m_is_destroyed h r then h
      else if \<not> entity_test m_registered h r \<or> \<not> entity_test is_activated h r then h
      else if hierarchy_attached h r then v_deactivate_entity V r SYNC_REPLY h else h)"

definition entity_deactivate_async ::
  "('z hierarchy_scheme) hierarchy_virtuals \<Rightarrow> ref \<Rightarrow> 'z hierarchy_scheme \<Rightarrow> 'z hierarchy_scheme" where
  "entity_deactivate_async V r h =
     (if \<not> entity_test m_registered h r then h
      else if hierarchy_attached h r then v_deactivate_entity V r ASYNC_REPLY h else h)"

text \<open>
  \<open>ZstOutputPlug::set_owner\<close> asks every adaptor for the local performer and keeps the last answer;
  the default adaptor answers with a null pointer. \<open>default_last\<close> is whether the default adaptor
  comes last in the set of adaptors, which is ordered by the addresses of their control blocks.
\<close>

definition entity_set_owner ::
  "('z hierarchy_scheme) hierarchy_virtuals \<Rightarrow> bool \<Rightarrow> ref \<Rightarrow> ZstURI \<Rightarrow> 'z hierarchy_scheme \<Rightarrow> 'z hierarchy_scheme" where
  "entity_set_owner V default_last r owner h =
     (let h1 = upd_entity r (\<lambda>e. e\<lparr>m_current_owner := owner\<rparr>) h;
          performer = (if hierarchy_attached h1 r \<and> \<not> default_last then v_get_local_performer V h1 else None)
      in if \<not> entity_test is_output_plug h1 r then h1
         else upd_entity r
                (set_can_fire (case performer of None \<Rightarrow> False | Some p \<Rightarrow> uri_equal (uri_at h1 p) owner)) h1)"

section \<open>Synchronisation\<close>

text \<open>\<open>synchronisable_has_event\<close> on the modules attached to an entity.\<close>

definition entity_notify :: "ref \<Rightarrow> 'z hierarchy_scheme \<Rightarrow> 'z hierarchy_scheme" where
  "entity_notify r h =
     (case heap h r of
        None \<Rightarrow> h
      | Some e \<Rightarrow>
          if HierarchyModule \<in> set (m_adaptors (m_synchronisable_events e))
          then h\<lparr>h_module := synchronisable_has_event r (m_instance_id e) (h_module h)\<rparr>
          else h)"

definition entity_sync_op ::
  "(entity \<Rightarrow> entity \<times> bool) \<Rightarrow> ref \<Rightarrow> 'z hierarchy_scheme \<Rightarrow> 'z hierarchy_scheme" where
  "entity_sync_op f r h =
     (case heap h r of
        None \<Rightarrow> h
      | Some e \<Rightarrow>
          (case f e of (e', notify) \<Rightarrow>
             let h' = upd_entity r (\<lambda>_. e') h in if notify then entity_notify r h' else h'))"

definition entity_enqueue_activation :: "ref \<Rightarrow> 'z hierarchy_scheme \<Rightarrow> 'z hierarchy_scheme" where
  "entity_enqueue_activation = entity_sync_op enqueue_activation"

definition entity_enqueue_deactivation :: "ref \<Rightarrow> 'z hierarchy_scheme \<Rightarrow> 'z hierarchy_scheme" where
  "entity_enqueue_deactivation = entity_sync_op enqueue_deactivation"

definition update_creatables ::
  "('z hierarchy_scheme) hierarchy_virtuals \<Rightarrow> ref \<Rightarrow> 'z hierarchy_scheme \<Rightarrow> 'z hierarchy_scheme" where
  "update_creatables V r h =
     (let h1 = (if \<not> entity_test m_is_proxy h r
                then (let h0 = upd_entity r update_createable_URIs h
                      in if entity_adaptor_attached h0 r then v_publish_entity_update V r (uri_at h0 r) h0 else h0)
                else h)
      in entity_notify r
           (upd_entity r (\<lambda>e. e\<lparr>m_factory_events := m_factory_events e @ [FE_CreatablesUpdated]\<rparr>) h1))"

lemma sync_op_lookup [simp]: "m_entity_lookup (entity_sync_op f r h) = m_entity_lookup h"
  by (simp add: entity_sync_op_def entity_notify_def upd_entity_def Let_def split: option.split prod.split)

section \<open>Parents of URIs\<close>

lemma parent_uri_eq:
  assumes "uri_ok u" and "uri_size u < 2 ^ 31"
  shows "parent_uri u = uri_of (join_delim (butlast (uri_segments u)))"
  using uri_parent_segments [OF assms(1)] assms(2) by (simp add: parent_uri_def)

lemma uri_contains_parent:
  assumes "uri_ok u" and "uri_size u < 2 ^ 31" and "\<not> uri_is_empty (parent_uri u)"
  shows "uri_contains u (parent_uri u)"
proof -
  let ?ws = "butlast (uri_segments u)"
  have nf: "nul_free (join_delim ?ws)"
    using segment_path(1) [OF assms(1)] by (auto simp: nul_free_join dest: in_set_butlastD)
  have ne: "join_delim ?ws \<noteq> []"
    using assms(3) nf by (auto simp: parent_uri_eq [OF assms(1,2)] uri_is_empty_def)
  then have "?ws \<noteq> []" by auto
  then have "uri_segments (parent_uri u) = ?ws"
    using segment_path(2) [OF assms(1)] ne nf
    by (auto simp: parent_uri_eq [OF assms(1,2)] path_components_def dest: in_set_butlastD intro!: split_join)
  then show ?thesis
    using assms uri_contains_segments [of u "parent_uri u"]
    by (simp add: parent_uri_eq [OF assms(1,2)] butlast_conv_take take_is_prefix)
qed

section \<open>The invariant of the lookup table\<close>

text \<open>
  \<open>hierarchy_ok\<close>: an entry of the lookup table points to a live entity that has the URI of the entry
  and is attached to the hierarchy; addresses in use are below \<open>next_ref\<close>; the proxies the hierarchy
  owns are live and owned once.
\<close>

definition lookup_sound :: "'z hierarchy_scheme \<Rightarrow> bool" where
  "lookup_sound h \<longleftrightarrow>
     (\<forall>p r. m_entity_lookup h p = Some r \<longrightarrow>
        (\<exists>e. heap h r = Some e \<and> uri_path (m_uri e) = p \<and> HierarchyModule \<in> set (m_hierarchy_adaptors e)))"

definition hierarchy_ok :: "'z hierarchy_scheme \<Rightarrow> bool" where
  "hierarchy_ok h \<longleftrightarrow>
     lookup_sound h \<and> (\<forall>r. heap h r \<noteq> None \<longrightarrow> r < next_ref h) \<and>
     (\<forall>r\<in>set (m_proxies h). heap h r \<noteq> None) \<and> distinct (m_proxies h)"

text \<open>
  \<open>preserves h h'\<close>: the step from \<open>h\<close> to \<open>h'\<close> keeps the invariant, creates and deletes nothing, changes
  the identity of no object, detaches none from the hierarchy and leaves alone what a derived module
  adds to the state.
\<close>

definition same_objects :: "'z hierarchy_scheme \<Rightarrow> 'z hierarchy_scheme \<Rightarrow> bool" where
  "same_objects h h' \<longleftrightarrow>
     (\<forall>r. map_option identity (heap h' r) = map_option identity (heap h r)) \<and>
     (\<forall>r. hierarchy_attached h r \<longrightarrow> hierarchy_attached h' r)"

definition preserves :: "'z hierarchy_scheme \<Rightarrow> 'z hierarchy_scheme \<Rightarrow> bool" where
  "preserves h h' \<longleftrightarrow>
     (hierarchy_ok h \<longrightarrow> hierarchy_ok h') \<and> dom (heap h') = dom (heap h) \<and> m_proxies h' = m_proxies h \<and>
     same_objects h h' \<and> hierarchy.more h' = hierarchy.more h"

lemma same_objects_heap [simp]: "heap h' = heap h \<Longrightarrow> same_objects h h'"
  by (simp add: same_objects_def hierarchy_attached_def entity_test_def)

lemma same_objects_trans: "same_objects h h' \<Longrightarrow> same_objects h' h'' \<Longrightarrow> same_objects h h''"
  by (simp add: same_objects_def)

lemma preserves_refl [simp, intro]: "preserves h h"
  by (simp add: preserves_def)

lemma preserves_trans: "preserves h h' \<Longrightarrow> preserves h' h'' \<Longrightarrow> preserves h h''"
  by (auto simp: preserves_def intro: same_objects_trans)

lemma preserves_live: "preserves h h' \<Longrightarrow> heap h' r = None \<longleftrightarrow> heap h r = None"
  unfolding preserves_def by (blast intro: dom_eq_None [THEN iffD1] dom_eq_None [THEN iffD2])

lemma preserves_ok: "preserves h h' \<Longrightarrow> hierarchy_ok h \<Longrightarrow> hierarchy_ok h'"
  by (simp add: preserves_def)

lemma preserves_objects: "preserves h h' \<Longrightarrow> same_objects h h'"
  by (simp add: preserves_def)

lemma preserves_attached: "preserves h h' \<Longrightarrow> hierarchy_attached h r \<Longrightarrow> hierarchy_attached h' r"
  by (simp add: preserves_def same_objects_def)

lemma preserves_more: "preserves h h' \<Longrightarrow> hierarchy.more h' = hierarchy.more h"
  by (simp add: preserves_def)

lemma entity_test_live: "entity_test P h r \<Longrightarrow> heap h r \<noteq> None"
  by (auto simp: entity_test_def split: option.splits)

lemma upd_entity_heap [simp]:
  "heap (upd_entity r f h) r' = (if r' = r then map_option f (heap h r) else heap h r')"
  by (simp add: upd_entity_def)

lemma upd_entity_frame [simp]:
  "m_entity_lookup (upd_entity r f h) = m_entity_lookup h"
  "m_proxies (upd_entity r f h) = m_proxies h"
  "next_ref (upd_entity r f h) = next_ref h"
  "m_hierarchy_events (upd_entity r f h) = m_hierarchy_events h"
  "h_module (upd_entity r f h) = h_module h"
  "hierarchy.more (upd_entity r f h) = hierarchy.more h"
  by (simp_all add: upd_entity_def)

lemma dom_upd_entity [simp]: "dom (heap (upd_entity r f h)) = dom (heap h)"
  by (auto simp: dom_def)

lemma add_lookup_frame [simp]:
  "heap (add_entity_to_lookup r h) = heap h"
  "m_proxies (add_entity_to_lookup r h) = m_proxies h"
  "next_ref (add_entity_to_lookup r h) = next_ref h"
  "m_hierarchy_events (add_entity_to_lookup r h) = m_hierarchy_events h"
  "h_module (add_entity_to_lookup r h) = h_module h"
  "hierarchy.more (add_entity_to_lookup r h) = hierarchy.more h"
  by (simp_all add: add_entity_to_lookup_def)

lemma remove_lookup_frame [simp]:
  "heap (remove_entity_from_lookup u h) = heap h"
  "m_proxies (remove_entity_from_lookup u h) = m_proxies h"
  "next_ref (remove_entity_from_lookup u h) = next_ref h"
  "m_hierarchy_events (remove_entity_from_lookup u h) = m_hierarchy_events h"
  "h_module (remove_entity_from_lookup u h) = h_module h"
  "hierarchy.more (remove_entity_from_lookup u h) = hierarchy.more h"
  by (simp_all add: remove_entity_from_lookup_def)

lemma lookup_uri:
  "hierarchy_ok h \<Longrightarrow> m_entity_lookup h p = Some r \<Longrightarrow>
   p = uri_path (uri_at h r) \<and> heap h r \<noteq> None \<and> hierarchy_attached h r"
  unfolding hierarchy_ok_def lookup_sound_def uri_at_def hierarchy_attached_def entity_test_def
  by force

lemma find_entity_live:
  "hierarchy_ok h \<Longrightarrow> find_entity h u = Some r \<Longrightarrow> \<exists>e. heap h r = Some e \<and> uri_path (m_uri e) = uri_path u"
  unfolding find_entity_def hierarchy_ok_def lookup_sound_def by blast

lemma remove_lookup_le: "m_entity_lookup (remove_entity_from_lookup u h) \<subseteq>\<^sub>m m_entity_lookup h"
  by (auto simp: remove_entity_from_lookup_def map_le_def)

lemma hierarchy_ok_frame:
  assumes "hierarchy_ok h" and "lookup_sound h'" and "dom (heap h') = dom (heap h)"
    and "next_ref h' = next_ref h" and "m_proxies h' = m_proxies h"
  shows "hierarchy_ok h'"
proof -
  have "heap h' r = None \<longleftrightarrow> heap h r = None" for r using assms(3) by (rule dom_eq_None)
  with assms show ?thesis by (simp add: hierarchy_ok_def)
qed

text \<open>Changes that leave URI and adaptors alone, or only attach more adaptors.\<close>

lemma preserves_upd:
  assumes "\<And>e. m_uri (f e) = m_uri e"
    and "\<And>e. HierarchyModule \<in> set (m_hierarchy_adaptors e) \<Longrightarrow>
      HierarchyModule \<in> set (m_hierarchy_adaptors (f e))"
    and "\<And>e. identity (f e) = identity e"
  shows "preserves h (upd_entity r f h)"
proof -
  have "same_objects h (upd_entity r f h)"
    using assms(2,3)
    by (auto simp: same_objects_def option.map_comp comp_def hierarchy_attached_def entity_test_def split: option.split)
  moreover have "lookup_sound h \<Longrightarrow> lookup_sound (upd_entity r f h)"
    using assms(1,2) by (fastforce simp: lookup_sound_def)
  ultimately show ?thesis
    by (auto simp: preserves_def intro!: hierarchy_ok_frame [of h] simp: hierarchy_ok_def)
qed

lemma preserves_remove_lookup: "preserves h (remove_entity_from_lookup u h)"
proof -
  have "lookup_sound h \<Longrightarrow> lookup_sound (remove_entity_from_lookup u h)"
    by (auto simp: lookup_sound_def remove_entity_from_lookup_def)
  then show ?thesis
    by (auto simp: preserves_def intro!: hierarchy_ok_frame [of h] simp: hierarchy_ok_def)
qed

lemma preserves_add_lookup:
  assumes "hierarchy_attached h r"
  shows "preserves h (add_entity_to_lookup r h)"
proof -
  obtain e where "heap h r = Some e" "HierarchyModule \<in> set (m_hierarchy_adaptors e)"
    using assms by (auto simp: hierarchy_attached_def entity_test_def split: option.splits)
  then have "lookup_sound h \<Longrightarrow> lookup_sound (add_entity_to_lookup r h)"
    by (auto simp: lookup_sound_def add_entity_to_lookup_def uri_at_def)
  then show ?thesis
    by (auto simp: preserves_def intro!: hierarchy_ok_frame [of h] simp: hierarchy_ok_def)
qed

lemma sync_add_adaptor_frame [simp]:
  "m_uri (sync_add_adaptor a e) = m_uri e"
  "m_hierarchy_adaptors (sync_add_adaptor a e) = m_hierarchy_adaptors e"
  "m_registered (sync_add_adaptor a e) = m_registered e"
  by (simp_all add: sync_add_adaptor_def)

lemma attach_hierarchy_frame [simp]:
  "m_uri (attach_hierarchy e) = m_uri e"
  "HierarchyModule \<in> set (m_hierarchy_adaptors (attach_hierarchy e))"
  "identity (attach_hierarchy e) = identity e"
  by (simp_all add: attach_hierarchy_def attach_adaptor_def)

lemma set_registered_frame [simp]:
  "m_uri (set_registered e) = m_uri e"
  "m_hierarchy_adaptors (set_registered e) = m_hierarchy_adaptors e"
  "m_registered (set_registered e)"
  "identity (set_registered e) = identity e"
  by (simp_all add: set_registered_def)

lemma preserves_register:
  assumes "heap h r \<noteq> None"
  shows "preserves h (register_entity r h)"
  unfolding register_entity_def
proof (intro preserves_trans [OF preserves_upd preserves_trans [OF preserves_add_lookup preserves_upd]])
  show "hierarchy_attached (upd_entity r attach_hierarchy h) r"
    using assms by (auto simp: hierarchy_attached_def entity_test_def split: option.splits)
qed auto

text \<open>An entity that changes its URI and is moved in the lookup table, if it is in it at all.\<close>

lemma preserves_move:
  assumes "\<And>e. m_hierarchy_adaptors (f e) = m_hierarchy_adaptors e" and "orig = uri_at h r"
    and "heap h r \<noteq> None" and "\<And>e. identity (f e) = identity e"
  shows "preserves h (if hierarchy_attached h r
           then update_entity_in_lookup r orig (upd_entity r f h) else upd_entity r f h)"
proof -
  obtain e where e: "heap h r = Some e" using assms(3) by auto
  have "lookup_sound h \<Longrightarrow> lookup_sound (if hierarchy_attached h r
           then update_entity_in_lookup r orig (upd_entity r f h) else upd_entity r f h)"
    using e assms(1,2)
    by (fastforce simp: lookup_sound_def update_entity_in_lookup_def add_entity_to_lookup_def
        remove_entity_from_lookup_def uri_at_def hierarchy_attached_def entity_test_def)
  moreover have "dom (heap (if hierarchy_attached h r
           then update_entity_in_lookup r orig (upd_entity r f h) else upd_entity r f h)) = dom (heap h)"
    by (auto simp: update_entity_in_lookup_def split: if_splits)
  moreover have "same_objects h (if hierarchy_attached h r
           then update_entity_in_lookup r orig (upd_entity r f h) else upd_entity r f h)"
    using assms(1,4)
    by (auto simp: same_objects_def update_entity_in_lookup_def option.map_comp comp_def hierarchy_attached_def
        entity_test_def split: option.split)
  ultimately show ?thesis
    by (auto simp: preserves_def update_entity_in_lookup_def intro!: hierarchy_ok_frame [of h]
        simp: hierarchy_ok_def split: if_splits)
qed

section \<open>What the tree asks of the module\<close>

text \<open>
  The contract of the virtual functions: \<open>update_entity_URI\<close> moves the entry of the entity in the
  lookup table, \<open>find_entity\<close> answers with a live entity of the URI it is asked for, and the other
  callbacks keep the invariant and neither create nor delete entities. Under it every operation of the
  tree keeps the invariant, for every bound on the recursion.
\<close>

locale hierarchy_module =
  fixes V :: "('z hierarchy_scheme) hierarchy_virtuals"
  assumes find_live: "hierarchy_ok h \<Longrightarrow> v_find_entity V h u = Some r \<Longrightarrow>
      \<exists>e. heap h r = Some e \<and> uri_path (m_uri e) = uri_path u"
    and update_lookup: "v_update_entity_URI V r orig h = update_entity_in_lookup r orig h"
    and registration_ok: "heap h r \<noteq> None \<Longrightarrow> preserves h (v_request_entity_registration V r h)"
    and activation_ok: "heap h r \<noteq> None \<Longrightarrow> preserves h (v_request_entity_activation V r h)"
    and publish_ok: "heap h r \<noteq> None \<Longrightarrow> preserves h (v_publish_entity_update V r orig h)"
    and activate_ok: "heap h r \<noteq> None \<Longrightarrow> preserves h (v_activate_entity V r sendtype h)"
    and deactivate_ok: "heap h r \<noteq> None \<Longrightarrow> preserves h (v_deactivate_entity V r sendtype h)"
begin

lemma update_URI_move:
  assumes "\<And>e. m_hierarchy_adaptors (f e) = m_hierarchy_adaptors e" and "heap h r \<noteq> None"
    and "\<And>e. identity (f e) = identity e"
  shows "preserves h (update_URI V r (uri_at h r) (upd_entity r f h))"
proof -
  let ?h1 = "if hierarchy_attached h r
      then update_entity_in_lookup r (uri_at h r) (upd_entity r f h) else upd_entity r f h"
  have att: "hierarchy_attached (upd_entity r f h) r = hierarchy_attached h r"
    using assms by (auto simp: hierarchy_attached_def entity_test_def split: option.splits)
  have "preserves h ?h1" using assms by (intro preserves_move) auto
  moreover have "preserves ?h1 (upd_entity r update_createable_URIs ?h1)"
    by (rule preserves_upd) auto
  ultimately show ?thesis
    unfolding update_URI_def update_lookup att Let_def
    by (auto intro: preserves_trans split: if_splits)
qed

lemma base_set_parent_ok: "heap h r \<noteq> None \<Longrightarrow> preserves h (base_set_parent V r p h)"
  unfolding base_set_parent_def Let_def by (rule update_URI_move) auto

lemma add_child_ok:
  assumes "\<And>c p h. heap h c \<noteq> None \<Longrightarrow> preserves h (sp c p h)"
    and "heap h r \<noteq> None" and "heap h c \<noteq> None"
  shows "preserves h (add_child sp V r c auto h)"
proof -
  have comp: "preserves h (component_add_child sp V r c b h)" for b
  proof -
    define h1 where "h1 = sp c (Some r) h"
    define h2 where
      "h2 = upd_entity r (\<lambda>e. e\<lparr>m_children := oset_insert uri_less (uri_at h1 c) (m_children e)\<rparr>) h1"
    define h3 where "h3 = (if entity_test m_registered h2 r \<and> \<not> entity_test m_registered h2 c \<and>
                     entity_adaptor_attached h2 r
                  then v_request_entity_registration V c h2 else h2)"
    have p1: "preserves h h1" using assms by (simp add: h1_def)
    have p2: "preserves h h2"
      unfolding h2_def by (rule preserves_trans [OF p1 preserves_upd]) auto
    then have "heap h2 c \<noteq> None" using assms(3) by (simp add: preserves_live)
    then have p3: "preserves h h3" using p2 by (auto simp: h3_def intro: registration_ok preserves_trans)
    then have "heap h3 c \<noteq> None" using assms(3) by (simp add: preserves_live)
    with p3 show ?thesis
      unfolding component_add_child_def Let_def h1_def [symmetric] h2_def [symmetric] h3_def [symmetric]
      by (auto intro: activation_ok preserves_trans)
  qed
  then show ?thesis using assms by (auto simp: add_child_def)
qed

lemma remove_child_ok:
  assumes "\<And>c p h. heap h c \<noteq> None \<Longrightarrow> preserves h (sp c p h)" and "heap h c \<noteq> None"
  shows "preserves h (remove_child sp r c h)"
proof -
  let ?h = "upd_entity r (\<lambda>e. e\<lparr>m_children := oset_erase uri_less (uri_at h c) (m_children e)\<rparr>) h"
  have p: "preserves h ?h" by (rule preserves_upd) auto
  have "heap ?h c \<noteq> None" using assms(2) by auto
  then have "preserves ?h (sp c None ?h)" by (rule assms(1))
  with p show ?thesis
    using assms by (auto simp: remove_child_def component_remove_child_def intro: preserves_trans)
qed

lemma reparent_children_ok:
  assumes "\<And>c p h. heap h c \<noteq> None \<Longrightarrow> preserves h (sp c p h)"
    and "heap h r \<noteq> None" and "\<forall>c\<in>set cs. heap h c \<noteq> None"
  shows "preserves h (reparent_children sp V r cs h)"
  using assms(2,3)
proof (induction cs arbitrary: h)
  case Nil
  then show ?case by (simp add: reparent_children_def)
next
  case (Cons c cs)
  let ?h1 = "remove_child sp r c h" and ?h2 = "add_child sp V r c True (remove_child sp r c h)"
  have p1: "preserves h ?h1" using Cons.prems assms(1) by (intro remove_child_ok) auto
  have "preserves ?h1 ?h2"
    using Cons.prems p1 assms(1) by (intro add_child_ok) (auto simp: preserves_live)
  with p1 have p2: "preserves h ?h2" by (rule preserves_trans)
  have "preserves ?h2 (reparent_children sp V r cs ?h2)"
    using Cons.prems p2 by (intro Cons.IH) (auto simp: preserves_live)
  with p2 have "preserves h (reparent_children sp V r cs ?h2)" by (rule preserves_trans)
  then show ?case by (simp add: reparent_children_def)
qed

lemma base_child_live: "c \<in> set (base_child_entities h r inc flt) \<Longrightarrow> heap h c \<noteq> None"
  by (auto simp: base_child_entities_def dest: entity_test_live split: if_splits)

lemma child_entities_live:
  "c \<in> set (get_child_entities V n h r inc rec flt) \<Longrightarrow> heap h c \<noteq> None"
proof (induction n arbitrary: r inc c)
  case 0
  then show ?case by (simp add: base_child_live)
next
  case (Suc n)
  from Suc.prems consider "c \<in> set (base_child_entities h r inc flt)"
    | d where "c \<in> set (get_child_entities V n h d True rec flt)"
    | d where "c \<in> set (base_child_entities h d True flt)"
    by (auto split: option.splits if_splits)
  then show ?case by cases (auto dest: base_child_live Suc.IH)
qed

lemma set_parent_ok: "heap h r \<noteq> None \<Longrightarrow> preserves h (set_parent V n r p h)"
proof (induction n arbitrary: r p h)
  case 0
  then show ?case by (subst set_parent.simps) (auto simp: base_set_parent_ok)
next
  case (Suc n)
  let ?h1 = "base_set_parent V r p h"
  let ?cs = "get_child_entities V 1 ?h1 r False False ET_NONE"
  have p1: "preserves h ?h1" using Suc.prems by (rule base_set_parent_ok)
  have "preserves ?h1 (reparent_children (set_parent V n) V r ?cs ?h1)"
  proof (rule reparent_children_ok)
    show "heap ?h1 r \<noteq> None" using p1 Suc.prems by (simp add: preserves_live)
    show "\<forall>c\<in>set ?cs. heap ?h1 c \<noteq> None" using child_entities_live by blast
  qed (rule Suc.IH)
  with p1 have "preserves h (reparent_children (set_parent V n) V r ?cs ?h1)" by (rule preserves_trans)
  then show ?case using p1 by (subst set_parent.simps) (auto simp: Let_def)
qed

lemma parent_live: "hierarchy_ok h \<Longrightarrow> entity_parent V h r = Some p \<Longrightarrow> heap h p \<noteq> None"
  using find_live [of h _ p] by (fastforce simp: entity_parent_def split: option.splits if_splits)

lemma base_set_name_ok:
  assumes "hierarchy_ok h" and "heap h r \<noteq> None"
  shows "preserves h (base_set_name V r name h)"
proof -
  define u where "u = (if entity_parent V h r \<noteq> None
      then uri_append (parent_uri (uri_at h r)) (uri_of name) else uri_of name)"
  define h1 where "h1 = update_URI V r (uri_at h r) (upd_entity r (\<lambda>e. e\<lparr>m_uri := u\<rparr>) h)"
  define h2 where "h2 = (case entity_parent V h1 r of None \<Rightarrow> h1
      | Some p \<Rightarrow> add_child (set_parent V tree_depth) V p r True
                    (remove_child (set_parent V tree_depth) p r h1))"
  have p1: "preserves h h1" unfolding h1_def using assms(2) by (intro update_URI_move) auto
  have p2: "preserves h h2"
  proof (cases "entity_parent V h1 r")
    case None
    then show ?thesis using p1 by (simp add: h2_def)
  next
    case (Some p)
    let ?g = "remove_child (set_parent V tree_depth) p r h1"
    have live: "heap h1 p \<noteq> None" "heap h1 r \<noteq> None"
      using parent_live [OF preserves_ok [OF p1 assms(1)] Some] p1 assms(2) by (simp_all add: preserves_live)
    then have g: "preserves h1 ?g" by (intro remove_child_ok) (auto simp: set_parent_ok)
    have "heap ?g p \<noteq> None" "heap ?g r \<noteq> None" by (metis live preserves_live [OF g])+
    then have "preserves ?g h2"
      unfolding h2_def Some option.case by (intro add_child_ok set_parent_ok)
    with p1 g show ?thesis using preserves_trans by blast
  qed
  then have "heap h2 r \<noteq> None" using assms(2) by (simp add: preserves_live)
  then have "preserves h2 (v_publish_entity_update V r (uri_at h r) h2)" by (rule publish_ok)
  with p2 show ?thesis
    unfolding base_set_name_def Let_def u_def [symmetric] h1_def [symmetric] h2_def [symmetric]
    by (auto intro: preserves_trans)
qed

lemma set_name_ok:
  assumes "hierarchy_ok h" and "heap h r \<noteq> None"
  shows "preserves h (set_name V r name h)"
proof -
  let ?cs = "get_child_entities V 1 h r False False ET_NONE"
  let ?h1 = "base_set_name V r name h"
  have p1: "preserves h ?h1" using assms by (rule base_set_name_ok)
  have "preserves ?h1 (reparent_children (set_parent V tree_depth) V r ?cs ?h1)"
    using p1 assms(2) child_entities_live [of _ 1 h r False False ET_NONE]
    by (intro reparent_children_ok) (auto simp: preserves_live set_parent_ok)
  with p1 show ?thesis
    unfolding set_name_def Let_def by (auto intro: preserves_trans)
qed

lemma entity_deactivate_ok: "preserves h (entity_deactivate V r h)"
  by (auto simp: entity_deactivate_def dest: entity_test_live intro: deactivate_ok)

end

lemma preserves_h_module: "preserves h (h\<lparr>h_module := m\<rparr>)"
  by (simp add: preserves_def hierarchy_ok_def lookup_sound_def)

lemma preserves_hierarchy_events: "preserves h (h\<lparr>m_hierarchy_events := d\<rparr>)"
  by (simp add: preserves_def hierarchy_ok_def lookup_sound_def)

lemma preserves_notify: "preserves h (entity_notify r h)"
  by (auto simp: entity_notify_def preserves_h_module split: option.splits)

lemma preserves_sync_op:
  assumes "\<And>e. m_uri (fst (f e)) = m_uri e" and "\<And>e. m_hierarchy_adaptors (fst (f e)) = m_hierarchy_adaptors e"
    and "\<And>e. identity (fst (f e)) = identity e"
  shows "preserves h (entity_sync_op f r h)"
proof (cases "heap h r")
  case None
  then show ?thesis by (simp add: entity_sync_op_def)
next
  case (Some e)
  let ?h = "upd_entity r (\<lambda>_. fst (f e)) h"
  have "?h = upd_entity r (\<lambda>e. fst (f e)) h" using Some by (simp add: upd_entity_def)
  then have "preserves h ?h" using assms by (simp add: preserves_upd)
  then show ?thesis using Some preserves_trans [OF _ preserves_notify [of ?h r]]
    by (auto simp: entity_sync_op_def Let_def split: prod.splits)
qed

lemma preserves_enqueue:
  "preserves h (entity_enqueue_activation r h)" "preserves h (entity_enqueue_deactivation r h)"
  unfolding entity_enqueue_activation_def entity_enqueue_deactivation_def
  by (rule preserves_sync_op; simp add: sync_op_defs)+

section \<open>What the reaper asks of the module\<close>

text \<open>
  \<open>absent r h\<close>: no entry of the lookup table points to \<open>r\<close>. An object that is deleted has to be absent
  and to stay so while its children are deactivated. \<open>find_entity\<close> may also answer with objects that are
  not in the table, those that are \<open>pinned\<close>; none of them is ever handed to the reaper.
\<close>

definition absent :: "ref \<Rightarrow> 'z hierarchy_scheme \<Rightarrow> bool" where
  "absent r h \<longleftrightarrow> (\<forall>p. m_entity_lookup h p \<noteq> Some r)"

lemma absent_frame [simp]:
  "absent r (upd_entity c f h) = absent r h" "absent r (h\<lparr>h_module := m\<rparr>) = absent r h"
  "absent r (h\<lparr>m_hierarchy_events := d\<rparr>) = absent r h"
  by (simp_all add: absent_def)

lemma absent_add_lookup: "c \<noteq> r \<Longrightarrow> absent r h \<Longrightarrow> absent r (add_entity_to_lookup c h)"
  by (simp add: absent_def add_entity_to_lookup_def)

lemma absent_remove_lookup: "absent r h \<Longrightarrow> absent r (remove_entity_from_lookup u h)"
  by (simp add: absent_def remove_entity_from_lookup_def)

lemma absent_register: "c \<noteq> r \<Longrightarrow> absent r h \<Longrightarrow> absent r (register_entity c h)"
  by (simp add: register_entity_def absent_add_lookup)

lemma absent_removed: "hierarchy_ok h \<Longrightarrow> absent r (remove_entity_from_lookup (uri_at h r) h)"
  using lookup_uri [of h _ r] by (auto simp: absent_def remove_entity_from_lookup_def)

locale hierarchy_reaper = hierarchy_module V for V :: "('z hierarchy_scheme) hierarchy_virtuals" +
  fixes pinned :: "'z hierarchy_scheme \<Rightarrow> ref \<Rightarrow> bool"
  assumes pinned_more: "hierarchy.more h' = hierarchy.more h \<Longrightarrow> pinned h' = pinned h"
    and find_lookup: "v_find_entity V h u = Some r \<Longrightarrow> \<not> pinned h r \<Longrightarrow> find_entity h u = Some r"
    and registration_absent: "c \<noteq> r \<Longrightarrow> absent r h \<Longrightarrow> absent r (v_request_entity_registration V c h)"
    and activation_absent:
      "c \<noteq> r \<Longrightarrow> \<not> pinned h r \<Longrightarrow> absent r h \<Longrightarrow> absent r (v_request_entity_activation V c h)"
    and deactivate_absent: "heap h c \<noteq> None \<Longrightarrow> c \<noteq> r \<Longrightarrow> \<not> pinned h r \<Longrightarrow> absent r h \<Longrightarrow>
      absent r (v_deactivate_entity V c sendtype h)"
begin

lemma find_not_absent: "absent r h \<Longrightarrow> \<not> pinned h r \<Longrightarrow> v_find_entity V h u \<noteq> Some r"
  using find_lookup [of h u r] by (auto simp: absent_def find_entity_def)

lemma child_entities_not_absent:
  assumes "absent r h" and "\<not> pinned h r" and "c \<in> set (get_child_entities V n h q inc rec flt)" and "inc \<longrightarrow> q \<noteq> r"
  shows "c \<noteq> r"
  using assms(3,4)
proof (induction n arbitrary: q inc)
  case 0
  then show ?case by (auto simp: base_child_entities_def split: if_splits)
next
  case (Suc n)
  have base: "c \<noteq> r" if "c \<in> set (base_child_entities h d i flt)" "i \<longrightarrow> d \<noteq> r" for d i
    using that by (auto simp: base_child_entities_def split: if_splits)
  have found: "d \<noteq> r" if "get_child_by_URI V h q p = Some d" for d p
    using that find_not_absent [OF assms(1,2)] by (auto simp: get_child_by_URI_def split: if_splits)
  from Suc.prems(1) consider "c \<in> set (base_child_entities h q inc flt)"
    | d p where "get_child_by_URI V h q p = Some d" "c \<in> set (get_child_entities V n h d True rec flt)"
    | d p where "get_child_by_URI V h q p = Some d" "c \<in> set (base_child_entities h d True flt)"
    by (auto split: option.splits if_splits) (metis that)+
  then show ?case
  proof cases
    case 1 then show ?thesis using base Suc.prems(2) by blast
  next
    case (2 d p) then show ?thesis using Suc.IH [of d True] found [of p d] by blast
  next
    case (3 d p) then show ?thesis using base [of d True] found [of p d] by blast
  qed
qed

lemma update_URI_absent: "c \<noteq> r \<Longrightarrow> absent r h \<Longrightarrow> absent r (update_URI V c orig h)"
  by (simp add: update_URI_def update_lookup update_entity_in_lookup_def Let_def absent_add_lookup absent_remove_lookup)

lemma base_set_parent_absent: "c \<noteq> r \<Longrightarrow> absent r h \<Longrightarrow> absent r (base_set_parent V c p h)"
  by (simp add: base_set_parent_def Let_def update_URI_absent)

lemma preserves_pinned: "preserves h h' \<Longrightarrow> pinned h' = pinned h"
  by (rule pinned_more) (rule preserves_more)

text \<open>\<open>spares r h h'\<close>: the step keeps the invariant and leaves \<open>r\<close> out of the table.\<close>

definition spares :: "ref \<Rightarrow> 'z hierarchy_scheme \<Rightarrow> 'z hierarchy_scheme \<Rightarrow> bool" where
  "spares r h h' \<longleftrightarrow> preserves h h' \<and> (\<not> pinned h r \<longrightarrow> absent r h \<longrightarrow> absent r h')"

lemma spares_trans: "spares r h g \<Longrightarrow> spares r g h' \<Longrightarrow> spares r h h'"
  using preserves_trans preserves_pinned unfolding spares_def by metis

lemma spares_refl [simp]: "spares r h h"
  by (simp add: spares_def)

lemma spares_live: "spares r h h' \<Longrightarrow> heap h' c = None \<longleftrightarrow> heap h c = None"
  by (simp add: spares_def preserves_live)

lemma add_child_spares:
  assumes "\<And>c p h. heap h c \<noteq> None \<Longrightarrow> c \<noteq> r \<Longrightarrow> spares r h (sp c p h)"
    and "heap h q \<noteq> None" and "heap h c \<noteq> None" and "c \<noteq> r"
  shows "spares r h (add_child sp V q c auto h)"
proof -
  have comp: "spares r h (component_add_child sp V q c b h)" for b
  proof -
    define h1 where "h1 = sp c (Some q) h"
    define h2 where
      "h2 = upd_entity q (\<lambda>e. e\<lparr>m_children := oset_insert uri_less (uri_at h1 c) (m_children e)\<rparr>) h1"
    define h3 where "h3 = (if entity_test m_registered h2 q \<and> \<not> entity_test m_registered h2 c \<and>
                     entity_adaptor_attached h2 q
                  then v_request_entity_registration V c h2 else h2)"
    have "spares r h h1" using assms by (simp add: h1_def)
    moreover have "spares r h1 h2" unfolding h2_def spares_def by (auto intro: preserves_upd)
    ultimately have s2: "spares r h h2" by (rule spares_trans)
    then have "heap h2 c \<noteq> None" using assms(3) by (simp add: spares_live)
    then have "spares r h2 h3"
      using assms(4) by (simp add: h3_def spares_def registration_ok registration_absent)
    with s2 have s3: "spares r h h3" by (rule spares_trans)
    then have "heap h3 c \<noteq> None" using assms(3) by (simp add: spares_live)
    then have "spares r h3 (v_request_entity_activation V c h3)"
      using assms(4) by (simp add: spares_def activation_ok activation_absent)
    with s3 have "spares r h (v_request_entity_activation V c h3)" by (rule spares_trans)
    with s3 show ?thesis
      unfolding component_add_child_def Let_def h1_def [symmetric] h2_def [symmetric] h3_def [symmetric] by auto
  qed
  then show ?thesis using assms by (auto simp: add_child_def)
qed

lemma remove_child_spares:
  assumes "\<And>c p h. heap h c \<noteq> None \<Longrightarrow> c \<noteq> r \<Longrightarrow> spares r h (sp c p h)" and "heap h c \<noteq> None" and "c \<noteq> r"
  shows "spares r h (remove_child sp q c h)"
proof -
  let ?h = "upd_entity q (\<lambda>e. e\<lparr>m_children := oset_erase uri_less (uri_at h c) (m_children e)\<rparr>) h"
  have p: "spares r h ?h" unfolding spares_def by (auto intro: preserves_upd)
  have "heap ?h c \<noteq> None" using assms(2) by auto
  then have "spares r ?h (sp c None ?h)" using assms by blast
  with p have "spares r h (sp c None ?h)" by (rule spares_trans)
  then show ?thesis
    using assms by (auto simp: remove_child_def component_remove_child_def)
qed

lemma reparent_children_spares:
  assumes "\<And>c p h. heap h c \<noteq> None \<Longrightarrow> c \<noteq> r \<Longrightarrow> spares r h (sp c p h)"
    and "heap h q \<noteq> None" and "\<forall>c\<in>set cs. heap h c \<noteq> None \<and> c \<noteq> r"
  shows "spares r h (reparent_children sp V q cs h)"
  using assms(2,3)
proof (induction cs arbitrary: h)
  case Nil
  then show ?case by (simp add: reparent_children_def)
next
  case (Cons c cs)
  let ?h1 = "remove_child sp q c h" and ?h2 = "add_child sp V q c True (remove_child sp q c h)"
  have s1: "spares r h ?h1" using Cons.prems assms(1) by (intro remove_child_spares) auto
  moreover have "spares r ?h1 ?h2"
    using Cons.prems s1 assms(1) by (intro add_child_spares) (auto simp: spares_live)
  ultimately have s2: "spares r h ?h2" by (rule spares_trans)
  then have "spares r ?h2 (reparent_children sp V q cs ?h2)"
    using Cons.prems by (intro Cons.IH) (auto simp: spares_live)
  with s2 have "spares r h (reparent_children sp V q cs ?h2)" by (rule spares_trans)
  then show ?case by (simp add: reparent_children_def)
qed

lemma set_parent_spares: "heap h c \<noteq> None \<Longrightarrow> c \<noteq> r \<Longrightarrow> spares r h (set_parent V n c p h)"
proof (induction n arbitrary: c p h)
  case 0
  then show ?case by (subst set_parent.simps) (auto simp: spares_def base_set_parent_ok base_set_parent_absent)
next
  case (Suc n)
  let ?h1 = "base_set_parent V c p h"
  let ?cs = "get_child_entities V 1 ?h1 c False False ET_NONE"
  let ?h2 = "reparent_children (set_parent V n) V c ?cs ?h1"
  have s1: "spares r h ?h1"
    using Suc.prems by (simp add: spares_def base_set_parent_ok base_set_parent_absent)
  have live: "heap ?h1 c \<noteq> None" using s1 Suc.prems by (simp add: spares_live)
  have child_live: "\<forall>d\<in>set ?cs. heap ?h1 d \<noteq> None"
    using child_entities_live [of _ 1 ?h1 c False False ET_NONE] by blast
  have "spares r ?h1 ?h2"
  proof (cases "absent r ?h1 \<and> \<not> pinned ?h1 r")
    case True
    then have "\<forall>d\<in>set ?cs. heap ?h1 d \<noteq> None \<and> d \<noteq> r"
      using child_live child_entities_not_absent [of r ?h1] by blast
    then show ?thesis using live Suc.IH by (intro reparent_children_spares)
  next
    case False
    moreover have "preserves ?h1 ?h2" using live child_live set_parent_ok by (intro reparent_children_ok)
    ultimately show ?thesis unfolding spares_def by blast
  qed
  with s1 have "spares r h ?h2" by (rule spares_trans)
  then show ?case using s1 by (subst set_parent.simps) (auto simp: Let_def)
qed

lemma entity_deactivate_spares: "c \<noteq> r \<Longrightarrow> spares r h (entity_deactivate V c h)"
  by (auto simp: entity_deactivate_def spares_def dest: entity_test_live intro: deactivate_ok deactivate_absent)

end

end
