(* ===== verification/Zst_Hierarchy.thy ===== *)
theory Zst_Hierarchy
  imports Zst_Tree
begin

text \<open>
  \<open>ZstHierarchy\<close> (\<open>src/src/core/ZstHierarchy.cpp\<close>): the module that owns the proxies of remote
  entities, with their creation from messages, activation, removal and deferred deletion.

  An operation that can raise returns the state it leaves behind and the exception. A call through a
  null pointer ends the process; it is the exception \<open>NullDereference\<close> here. \<open>std::set\<close> of owned
  pointers is the list of addresses in the order of insertion. \<open>destructors\<close> of the source run in
  \<open>delete_entity\<close>.
\<close>

type_synonym 's outcome = "'s \<times> zst_exn option"

section \<open>Queries\<close>

definition get_performers ::
  "('z hierarchy_scheme) hierarchy_virtuals \<Rightarrow> 'z hierarchy_scheme \<Rightarrow> ref list" where
  "get_performers V h =
     (case v_get_local_performer V h of None \<Rightarrow> [] | Some p \<Rightarrow> [p]) @
     filter (entity_test is_performer h) (m_proxies h)"

text \<open>
  The loop of \<open>walk_child_by_URI\<close>; \<open>n\<close> bounds its iterations. Each iteration asks for the prefix of
  \<open>path\<close> that is one component longer than the URI of the previous entity.
\<close>

fun walk_child_loop ::
  "('z hierarchy_scheme) hierarchy_virtuals \<Rightarrow> nat \<Rightarrow> 'z hierarchy_scheme \<Rightarrow> ZstURI \<Rightarrow> ref \<Rightarrow> ref option" where
  "walk_child_loop V 0 h path previous = None"
| "walk_child_loop V (Suc n) h path previous =
     (case uri_range path 0 (uri_size (uri_at h previous)) of
        Inl _ \<Rightarrow> None
      | Inr next \<Rightarrow>
          (case (if entity_test is_component h previous then get_child_by_URI V h previous next else None) of
             None \<Rightarrow> None
           | Some result \<Rightarrow>
               if int (uri_size path) - int (uri_size (uri_at h result)) > 0
               then walk_child_loop V n h path result else Some result))"

definition walk_child_by_URI ::
  "('z hierarchy_scheme) hierarchy_virtuals \<Rightarrow> 'z hierarchy_scheme \<Rightarrow> ref \<Rightarrow> ZstURI \<Rightarrow> ref option" where
  "walk_child_by_URI V h r path =
     (if uri_size (uri_at h r) \<ge> uri_size path \<or> \<not> uri_contains path (uri_at h r) then None
      else walk_child_loop V (uri_size path) h path r)"

definition walk_to_entity ::
  "('z hierarchy_scheme) hierarchy_virtuals \<Rightarrow> 'z hierarchy_scheme \<Rightarrow> ZstURI \<Rightarrow> zst_exn + ref option" where
  "walk_to_entity V h path =
     (case uri_first path of
        Inl e \<Rightarrow> Inl e
      | Inr f \<Rightarrow>
          (case v_find_entity V h f of
             None \<Rightarrow> Inr None
           | Some root \<Rightarrow>
               if \<not> entity_test is_performer h root then Inr None
               else if uri_equal (uri_at h root) path then Inr (Some root)
               else Inr (walk_child_by_URI V h root path)))"

section \<open>Activation\<close>

definition base_activate_entity ::
  "ref \<Rightarrow> ZstTransportRequestBehaviour \<Rightarrow> 'z hierarchy_scheme \<Rightarrow> 'z hierarchy_scheme" where
  "base_activate_entity r sendtype h = register_entity r h"

definition base_deactivate_entity ::
  "ref \<Rightarrow> ZstTransportRequestBehaviour \<Rightarrow> 'z hierarchy_scheme \<Rightarrow> 'z hierarchy_scheme" where
  "base_deactivate_entity r sendtype h =
     (if entity_test (\<lambda>e. m_sync_status e \<noteq> DESTROYED) h r then upd_entity r set_deactivating h else h)"

definition activate_entity_complete ::
  "('z hierarchy_scheme) hierarchy_virtuals \<Rightarrow> ref \<Rightarrow> 'z hierarchy_scheme \<Rightarrow> 'z hierarchy_scheme" where
  "activate_entity_complete V r h =
     fold (\<lambda>c h. entity_enqueue_activation c (upd_entity c set_activating (add_entity_to_lookup c h)))
       (get_child_entities V tree_depth h r True True ET_NONE) h"

definition hierarchy_defer :: "hierarchy_event \<Rightarrow> 'z hierarchy_scheme \<Rightarrow> 'z hierarchy_scheme" where
  "hierarchy_defer e h = h\<lparr>m_hierarchy_events := defer_event e (m_hierarchy_events h)\<rparr>"

definition dispatch_entity_arrived_event :: "ref \<Rightarrow> 'z hierarchy_scheme \<Rightarrow> 'z hierarchy_scheme" where
  "dispatch_entity_arrived_event r h =
     (case heap h r of
        None \<Rightarrow> h
      | Some e \<Rightarrow>
          if m_entity_type e = ET_COMPONENT \<or> m_entity_type e = ET_PLUG then hierarchy_defer (HE_EntityArriving r) h
          else if m_entity_type e = ET_FACTORY then hierarchy_defer (HE_FactoryArriving r) h
          else if m_entity_type e = ET_PERFORMER then hierarchy_defer (HE_PerformerArriving r) h
          else h)"

section \<open>Proxies\<close>

fun get_entity_field :: "entity_table \<Rightarrow> zst_exn + EntityData" where
  "get_entity_field (T_Performer ed _) = Inr ed"
| "get_entity_field (T_Component ed _) = Inr ed"
| "get_entity_field (T_Plug ed _) = Inr ed"
| "get_entity_field (T_Factory ed _) = Inr ed"
| "get_entity_field (T_Entity _) = Inl RuntimeError"

text \<open>\<open>indeterminate\<close> is the heartbeat flag that the performer's constructor leaves uninitialised.\<close>

fun unpack_entity :: "bool \<Rightarrow> entity_table \<Rightarrow> ZstSynchronisable \<Rightarrow> zst_exn + entity" where
  "unpack_entity indeterminate (T_Performer ed ct) s = Inr (performer_from indeterminate s ed ct)"
| "unpack_entity indeterminate (T_Component ed ct) s = Inr (component_from s ed ct)"
| "unpack_entity indeterminate (T_Plug ed None) s = Inl NullDereference"
| "unpack_entity indeterminate (T_Plug ed (Some pd)) s =
     plug_from (if pd_direction pd = IN_JACK then EC_InputPlug else EC_OutputPlug) s ed (Some pd)"
| "unpack_entity indeterminate (T_Factory ed cs) s = Inr (factory_from s ed cs)"
| "unpack_entity indeterminate (T_Entity _) s = Inl RuntimeError"

definition table_uri :: "EntityData \<Rightarrow> ZstURI" where
  "table_uri ed = uri_of_len (ed_URI ed) (length (ed_URI ed))"

definition string_uri :: "string \<Rightarrow> ZstURI" where
  "string_uri w = uri_of_len w (length w)"

definition is_performer_table :: "entity_table \<Rightarrow> bool" where
  "is_performer_table t = (case t of T_Performer _ _ \<Rightarrow> True | _ \<Rightarrow> False)"

definition create_proxy_entity ::
  "('z hierarchy_scheme) hierarchy_virtuals \<Rightarrow> bool \<Rightarrow> entity_table \<Rightarrow> EntityData \<Rightarrow> 'z hierarchy_scheme \<Rightarrow>
   'z hierarchy_scheme \<times> (zst_exn + ref option)" where
  "create_proxy_entity V indeterminate payload entity_data h =
     (let entity_path = table_uri entity_data
      in if v_find_entity V h entity_path \<noteq> None then (h, Inr None)
         else if \<not> is_performer_table payload \<and> uri_is_empty (parent_uri entity_path) then (h, Inr None)
         else
           let (s, c) = synchronisable_new (s_instance_id_counter h)
           in case unpack_entity indeterminate payload s of
                Inl e \<Rightarrow> (h\<lparr>s_instance_id_counter := c\<rparr>, Inl e)
              | Inr e \<Rightarrow> (case alloc_entity (\<lambda>_. e) h of (r, h') \<Rightarrow> (h', Inr (Some r))))"

definition proxy_activated :: "entity \<Rightarrow> entity" where
  "proxy_activated e = set_activation_status ACTIVATED (set_proxy e)"

definition insert_proxy :: "ref \<Rightarrow> 'z hierarchy_scheme \<Rightarrow> 'z hierarchy_scheme" where
  "insert_proxy r h =
     h\<lparr>m_proxies := (if r \<in> set (m_proxies h) then m_proxies h else m_proxies h @ [r])\<rparr>"

text \<open>The tail of \<open>add_proxy_entity\<close>, once the entity has its parent.\<close>

definition adopt_proxy ::
  "('z hierarchy_scheme) hierarchy_virtuals \<Rightarrow> ref \<Rightarrow> 'z hierarchy_scheme \<Rightarrow> 'z hierarchy_scheme" where
  "adopt_proxy V r h =
     (let h1 = register_entity r h;
          h2 = fold (\<lambda>c. upd_entity c proxy_activated) (get_child_entities V tree_depth h1 r True True ET_NONE) h1
      in dispatch_entity_arrived_event r (insert_proxy r h2))"

text \<open>A parent that is not a component is a null pointer after the \<open>dynamic_cast\<close>.\<close>

definition add_proxy_entity ::
  "('z hierarchy_scheme) hierarchy_virtuals \<Rightarrow> ref option \<Rightarrow> 'z hierarchy_scheme \<Rightarrow> 'z hierarchy_scheme outcome" where
  "add_proxy_entity V entity h =
     (case entity of
        None \<Rightarrow> (h, None)
      | Some r \<Rightarrow>
          let parent = v_find_entity V h (parent_uri (uri_at h r));
              h1 = upd_entity r set_proxy h
          in case parent of
               None \<Rightarrow> (adopt_proxy V r h1, None)
             | Some p \<Rightarrow>
                 if \<not> entity_test is_component h1 p then (h1, Some NullDereference)
                 else (adopt_proxy V r (add_child (set_parent V tree_depth) V p r True h1), None))"

definition update_factory_proxy ::
  "('z hierarchy_scheme) hierarchy_virtuals \<Rightarrow> ref \<Rightarrow> string list \<Rightarrow> 'z hierarchy_scheme \<Rightarrow> 'z hierarchy_scheme" where
  "update_factory_proxy V r cs h =
     update_creatables V r
       (upd_entity r (\<lambda>e. factory_deserialize_partial (Some cs) (clear_creatables e)) h)"

definition rename_proxy ::
  "('z hierarchy_scheme) hierarchy_virtuals \<Rightarrow> ref \<Rightarrow> ZstURI \<Rightarrow> 'z hierarchy_scheme \<Rightarrow> 'z hierarchy_scheme outcome" where
  "rename_proxy V r entity_path h =
     (if uri_equal (uri_at h r) entity_path then (h, None)
      else if \<not> entity_test (\<lambda>e. uri_equal (m_parent e) (parent_uri entity_path)) h r then (h, None)
      else case uri_last entity_path of
             Inl e \<Rightarrow> (h, Some e)
           | Inr l \<Rightarrow> (hierarchy_defer (HE_EntityUpdated r) (set_name V r (uri_path l) h), None))"

definition update_proxy_entity ::
  "('z hierarchy_scheme) hierarchy_virtuals \<Rightarrow> ref \<Rightarrow> entity_table \<Rightarrow> EntityData \<Rightarrow> 'z hierarchy_scheme \<Rightarrow>
   'z hierarchy_scheme outcome" where
  "update_proxy_entity V r payload entity_data h =
     (let entity_path = table_uri entity_data
      in case payload of
           T_Factory _ cs \<Rightarrow>
             if \<not> entity_test is_factory h r then (h, None)
             else (case cs of
                     None \<Rightarrow> (upd_entity r clear_creatables h, Some NullDereference)
                   | Some cs \<Rightarrow> rename_proxy V r entity_path (update_factory_proxy V r cs h))
         | _ \<Rightarrow> rename_proxy V r entity_path h)"

section \<open>Removal\<close>

definition dispatch_leaving :: "ref \<Rightarrow> 'z hierarchy_scheme \<Rightarrow> 'z hierarchy_scheme" where
  "dispatch_leaving r h =
     (case heap h r of
        None \<Rightarrow> h
      | Some e \<Rightarrow>
          if \<not> m_is_proxy e then h
          else if m_entity_type e = ET_PERFORMER then hierarchy_defer (HE_PerformerLeaving (m_uri e)) h
          else if m_entity_type e = ET_FACTORY then hierarchy_defer (HE_FactoryLeaving (m_uri e)) h
          else if m_entity_type e = ET_COMPONENT then hierarchy_defer (HE_EntityLeaving (m_uri e)) h
          else h)"

definition destroy_entity_complete ::
  "('z hierarchy_scheme) hierarchy_virtuals \<Rightarrow> ref \<Rightarrow> 'z hierarchy_scheme \<Rightarrow> 'z hierarchy_scheme" where
  "destroy_entity_complete V r h =
     (let h1 = (case entity_parent V h r of
                  None \<Rightarrow> h | Some p \<Rightarrow> remove_child (set_parent V tree_depth) p r h);
          h2 = dispatch_leaving r h1
      in fold entity_enqueue_deactivation (get_child_entities V tree_depth h2 r True True ET_NONE) h2)"

definition remove_proxy_entity ::
  "('z hierarchy_scheme) hierarchy_virtuals \<Rightarrow> ref \<Rightarrow> 'z hierarchy_scheme \<Rightarrow> 'z hierarchy_scheme" where
  "remove_proxy_entity V r h =
     (if entity_test m_is_proxy h r then destroy_entity_complete V r h else h)"

definition on_synchronisable_destroyed ::
  "('z hierarchy_scheme) hierarchy_virtuals \<Rightarrow> ref \<Rightarrow> bool \<Rightarrow> 'z hierarchy_scheme \<Rightarrow> 'z hierarchy_scheme" where
  "on_synchronisable_destroyed V r already_removed h =
     (let h1 = (if entity_test (\<lambda>e. is_activated e \<or> m_sync_status e = DESTROYED) h r
                then v_deactivate_entity V r (if already_removed then PUBLISH else SYNC_REPLY) h else h)
      in case heap h1 r of
           None \<Rightarrow> h1
         | Some e \<Rightarrow>
             if already_removed
             then remove_entity_from_lookup (m_uri e)
                    (h1\<lparr>h_module := add_dead_synchronisable_ID (m_instance_id e) (h_module h1)\<rparr>)
             else upd_entity r set_destroyed
                    (h1\<lparr>h_module := add_cleanup_op (r, m_instance_id e) (h_module h1)\<rparr>))"

text \<open>The destructors, from \<open>ZstComponent\<close> down to \<open>ZstEntityBase\<close>, and the end of the object.\<close>

definition dispatch_destroyed ::
  "('z hierarchy_scheme) hierarchy_virtuals \<Rightarrow> ref \<Rightarrow> 'z hierarchy_scheme \<Rightarrow> 'z hierarchy_scheme" where
  "dispatch_destroyed V r h =
     (if entity_test (\<lambda>e. m_sync_status e \<noteq> DESTROYED \<and> m_registered e \<and>
                          HierarchyModule \<in> set (m_adaptors (m_synchronisable_events e))) h r
      then on_synchronisable_destroyed V r True h else h)"

definition delete_entity ::
  "('z hierarchy_scheme) hierarchy_virtuals \<Rightarrow> ref \<Rightarrow> 'z hierarchy_scheme \<Rightarrow> 'z hierarchy_scheme" where
  "delete_entity V r h =
     (let h1 = (if entity_test is_component h r
                then fold (entity_deactivate V) (get_child_entities V tree_depth h r False True ET_NONE) h
                else h);
          h2 = dispatch_destroyed V r h1
      in h2\<lparr>heap := (heap h2)(r := None)\<rparr>)"

text \<open>A cleanup operation of the reaper.\<close>

definition reap_entity ::
  "('z hierarchy_scheme) hierarchy_virtuals \<Rightarrow> ref \<times> instance_id \<Rightarrow> 'z hierarchy_scheme \<Rightarrow> 'z hierarchy_scheme" where
  "reap_entity V ri h =
     (case ri of (r, i) \<Rightarrow>
        if already_removed_synchronisable (h_module h) i then h
        else
          let h1 = remove_entity_from_lookup (uri_at h r) h
          in if entity_test m_is_proxy h1 r \<and> r \<in> set (m_proxies h1)
             then delete_entity V r (h1\<lparr>m_proxies := removeAll r (m_proxies h1)\<rparr>)
             else h1)"

section \<open>Event processing\<close>

text \<open>\<open>process_events\<close> of an entity: its deferred events, and for a factory its factory events.\<close>

definition run_sync_event ::
  "('z hierarchy_scheme) hierarchy_virtuals \<Rightarrow> ref \<Rightarrow> sync_event \<Rightarrow> adaptor \<Rightarrow> 'z hierarchy_scheme \<Rightarrow>
   'z hierarchy_scheme \<times> bool" where
  "run_sync_event V r ev a h =
     (let h1 = upd_entity r (sync_event_status ev) h
      in (if ev = SE_Destroyed \<and> a = HierarchyModule then on_synchronisable_destroyed V r False h1 else h1, True))"

definition complete_sync_event ::
  "ref \<Rightarrow> sync_event \<Rightarrow> ZstEventStatus \<Rightarrow> 'z hierarchy_scheme \<Rightarrow> 'z hierarchy_scheme" where
  "complete_sync_event r ev st h =
     (case ev of
        SE_Activated \<Rightarrow> upd_entity r on_activation h
      | SE_Deactivated \<Rightarrow> upd_entity r on_deactivation h
      | _ \<Rightarrow> h)"

definition entity_process_events ::
  "('z hierarchy_scheme) hierarchy_virtuals \<Rightarrow> ref \<Rightarrow> 'z hierarchy_scheme \<Rightarrow> 'z hierarchy_scheme" where
  "entity_process_events V r h =
     (case heap h r of
        None \<Rightarrow> h
      | Some e \<Rightarrow>
          let d = m_synchronisable_events e;
              h1 = upd_entity r (\<lambda>e. e\<lparr>m_synchronisable_events := flush_events d\<rparr>) h;
              h2 = fold (process_event (\<lambda>_. True) (run_sync_event V r) (complete_sync_event r) (m_adaptors d))
                     (m_events d) h1
          in if is_factory e then upd_entity r (\<lambda>e. e\<lparr>m_factory_events := []\<rparr>) h2 else h2)"

text \<open>\<open>ZstSynchronisableModule::process_events\<close>, with at most \<open>n\<close> queued synchronisables.\<close>

definition run_module_event ::
  "('z hierarchy_scheme) hierarchy_virtuals \<Rightarrow> ref \<times> instance_id \<Rightarrow> adaptor \<Rightarrow> 'z hierarchy_scheme \<Rightarrow>
   'z hierarchy_scheme \<times> bool" where
  "run_module_event V ri a h =
     (if snd ri \<in> m_dead_syncronisable_IDS (h_module h) then h else entity_process_events V (fst ri) h, True)"

definition upd_module_events ::
  "((adaptor, ref \<times> instance_id) dispatcher \<Rightarrow> (adaptor, ref \<times> instance_id) dispatcher) \<Rightarrow>
   'z hierarchy_scheme \<Rightarrow> 'z hierarchy_scheme" where
  "upd_module_events f h = h\<lparr>h_module := (h_module h)\<lparr>m_module_events := f (m_module_events (h_module h))\<rparr>\<rparr>"

definition reap_all ::
  "('z hierarchy_scheme) hierarchy_virtuals \<Rightarrow> 'z hierarchy_scheme \<Rightarrow> 'z hierarchy_scheme" where
  "reap_all V h =
     fold (reap_entity V) (m_cleanup_callbacks (h_module h))
       (h\<lparr>h_module := (h_module h)\<lparr>m_cleanup_callbacks := []\<rparr>\<rparr>)"

definition hierarchy_process_sync_events ::
  "('z hierarchy_scheme) hierarchy_virtuals \<Rightarrow> nat \<Rightarrow> 'z hierarchy_scheme \<Rightarrow> 'z hierarchy_scheme option" where
  "hierarchy_process_sync_events V n h =
     (case process_events (\<lambda>h. m_module_events (h_module h)) upd_module_events (\<lambda>_. True)
             (run_module_event V) (\<lambda>_ _ h. h) n h of
        None \<Rightarrow> None
      | Some h1 \<Rightarrow>
          let h2 = reap_all V h1
          in Some (h2\<lparr>h_module := (h_module h2)\<lparr>m_dead_syncronisable_IDS := {}\<rparr>\<rparr>))"

section \<open>The invariant\<close>

lemma preserves_fold:
  assumes "\<And>c h. c \<in> set cs \<Longrightarrow> preserves h (f c h)"
  shows "preserves h (fold f cs h)"
  using assms
proof (induction cs arbitrary: h)
  case (Cons c cs)
  then have "preserves h (f c h)" "preserves (f c h) (fold f cs (f c h))" by auto
  then show ?case by (simp add: preserves_trans)
qed simp

lemma preserves_defer: "preserves h (hierarchy_defer e h)"
  by (simp add: hierarchy_defer_def preserves_hierarchy_events)

lemma preserves_arrived: "preserves h (dispatch_entity_arrived_event r h)"
  by (simp add: dispatch_entity_arrived_event_def preserves_defer split: option.splits)

lemma preserves_leaving: "preserves h (dispatch_leaving r h)"
  by (simp add: dispatch_leaving_def preserves_defer split: option.splits)

lemma preserves_status:
  "preserves h (upd_entity r set_proxy h)" "preserves h (upd_entity r set_deactivating h)"
  "preserves h (upd_entity r set_destroyed h)" "preserves h (upd_entity r set_activating h)"
  "preserves h (upd_entity r proxy_activated h)" "preserves h (upd_entity r (sync_event_status ev) h)"
  "preserves h (upd_entity r on_activation h)" "preserves h (upd_entity r on_deactivation h)"
  by (rule preserves_upd;
      cases ev; simp add: sync_status_defs proxy_activated_def on_activation_def on_deactivation_def
        set_can_fire_def)+

lemma preserves_base_deactivate: "preserves h (base_deactivate_entity r sendtype h)"
  by (simp add: base_deactivate_entity_def preserves_status)

lemma insert_proxy_ok: "hierarchy_ok h \<Longrightarrow> heap h r \<noteq> None \<Longrightarrow> hierarchy_ok (insert_proxy r h)"
  by (auto simp: insert_proxy_def hierarchy_ok_def lookup_sound_def)

definition owned :: "'z hierarchy_scheme \<Rightarrow> bool" where
  "owned h \<longleftrightarrow> dom (heap h) = set (m_proxies h)"

text \<open>\<open>adopts r h h'\<close>: as \<open>preserves\<close>, but the hierarchy owns \<open>r\<close> afterwards.\<close>

definition adopts :: "ref \<Rightarrow> 'z hierarchy_scheme \<Rightarrow> 'z hierarchy_scheme \<Rightarrow> bool" where
  "adopts r h h' \<longleftrightarrow>
     (hierarchy_ok h \<longrightarrow> hierarchy_ok h') \<and> dom (heap h') = dom (heap h) \<and>
     set (m_proxies h') = insert r (set (m_proxies h)) \<and> same_objects h h' \<and>
     hierarchy.more h' = hierarchy.more h"

lemma adopts_preserves: "preserves h g \<Longrightarrow> adopts r g h' \<Longrightarrow> adopts r h h'"
  by (auto simp: adopts_def preserves_def intro: same_objects_trans)

lemma preserves_adopts: "adopts r h g \<Longrightarrow> preserves g h' \<Longrightarrow> adopts r h h'"
  by (auto simp: adopts_def preserves_def intro: same_objects_trans)

lemma insert_proxy_adopts: "heap h r \<noteq> None \<Longrightarrow> adopts r h (insert_proxy r h)"
  using insert_proxy_ok [of h r] by (auto simp: adopts_def) (auto simp: insert_proxy_def split: if_splits)

lemma alloc_entity_ok:
  assumes "hierarchy_ok h"
  shows "hierarchy_ok (snd (alloc_entity mk h)) \<and> fst (alloc_entity mk h) = next_ref h \<and>
    heap (snd (alloc_entity mk h)) (next_ref h) \<noteq> None \<and>
    m_entity_lookup (snd (alloc_entity mk h)) = m_entity_lookup h"
proof -
  have fresh: "heap h (next_ref h) = None" using assms by (auto simp: hierarchy_ok_def)
  have "lookup_sound (snd (alloc_entity mk h))"
    using assms fresh
    by (auto simp: hierarchy_ok_def lookup_sound_def alloc_entity_def Let_def split: prod.splits)
  then show ?thesis
    using assms fresh by (auto simp: hierarchy_ok_def alloc_entity_def Let_def less_SucI split: prod.splits)
qed

context hierarchy_module
begin

lemma create_proxy_ok:
  assumes "hierarchy_ok h" and "create_proxy_entity V ind payload ed h = (h', res)"
  shows "hierarchy_ok h' \<and> (\<forall>r. res = Inr (Some r) \<longrightarrow> heap h' r \<noteq> None)"
proof -
  have "hierarchy_ok (h\<lparr>s_instance_id_counter := c\<rparr>)" for c
    using assms(1) by (simp add: hierarchy_ok_def lookup_sound_def)
  then show ?thesis
    using assms alloc_entity_ok [OF assms(1)]
    by (auto simp: create_proxy_entity_def Let_def split: if_splits prod.splits sum.splits)
       (metis fst_conv snd_conv option.distinct(1))+
qed

lemma adopt_proxy_adopts:
  assumes "heap h r \<noteq> None"
  shows "adopts r h (adopt_proxy V r h)"
proof -
  let ?h1 = "register_entity r h"
  let ?h2 = "fold (\<lambda>c. upd_entity c proxy_activated) (get_child_entities V tree_depth ?h1 r True True ET_NONE) ?h1"
  have "preserves h ?h1" using assms by (rule preserves_register)
  moreover have "preserves ?h1 ?h2" by (rule preserves_fold) (rule preserves_status)
  ultimately have p: "preserves h ?h2" by (rule preserves_trans)
  moreover have "heap ?h2 r \<noteq> None" using p assms by (simp add: preserves_live)
  ultimately show ?thesis
    unfolding adopt_proxy_def Let_def
    using adopts_preserves insert_proxy_adopts preserves_adopts preserves_arrived by blast
qed

lemma add_proxy_adopts:
  assumes "heap h r \<noteq> None"
  shows "case add_proxy_entity V (Some r) h of
    (h', err) \<Rightarrow> if err = None then adopts r h h' else preserves h h'"
proof -
  let ?h1 = "upd_entity r set_proxy h"
  have p1: "preserves h ?h1" by (rule preserves_status)
  have r: "heap ?h1 r \<noteq> None" using assms by simp
  have child: "adopts r h (adopt_proxy V r (add_child (set_parent V tree_depth) V p r True ?h1))"
    if "entity_test is_component ?h1 p" for p
  proof -
    have p2: "preserves ?h1 (add_child (set_parent V tree_depth) V p r True ?h1)" (is "preserves _ ?g")
      using r that by (intro add_child_ok set_parent_ok) (auto dest: entity_test_live)
    then have "heap ?g r \<noteq> None" using r by (metis preserves_live)
    then show ?thesis by (rule adopts_preserves [OF preserves_trans [OF p1 p2] adopt_proxy_adopts])
  qed
  show ?thesis
    using p1 child adopts_preserves [OF p1 adopt_proxy_adopts [OF r]]
    by (auto simp: add_proxy_entity_def Let_def split: option.splits)
qed

lemma add_proxy_ok:
  assumes "hierarchy_ok h" and "\<forall>r. entity = Some r \<longrightarrow> heap h r \<noteq> None"
  shows "hierarchy_ok (fst (add_proxy_entity V entity h))"
    and "hierarchy.more (fst (add_proxy_entity V entity h)) = hierarchy.more h"
proof -
  have "hierarchy_ok (fst (add_proxy_entity V entity h)) \<and>
      hierarchy.more (fst (add_proxy_entity V entity h)) = hierarchy.more h"
  proof (cases entity)
    case None
    then show ?thesis using assms by (simp add: add_proxy_entity_def)
  next
    case (Some r)
    then show ?thesis
      using add_proxy_adopts [of h r] assms
      by (auto simp: adopts_def preserves_def split: prod.splits if_splits)
  qed
  then show "hierarchy_ok (fst (add_proxy_entity V entity h))"
    "hierarchy.more (fst (add_proxy_entity V entity h)) = hierarchy.more h" by auto
qed

lemma rename_proxy_ok:
  assumes "hierarchy_ok h" and "heap h r \<noteq> None"
  shows "preserves h (fst (rename_proxy V r path h))"
  using preserves_trans [OF set_name_ok [OF assms] preserves_defer]
  by (auto simp: rename_proxy_def split: sum.splits)

lemma update_creatables_ok:
  assumes "heap h r \<noteq> None"
  shows "preserves h (update_creatables V r h)"
proof -
  define h0 where "h0 = upd_entity r update_createable_URIs h"
  define h1 where "h1 = (if \<not> entity_test m_is_proxy h r
     then (if entity_adaptor_attached h0 r then v_publish_entity_update V r (uri_at h0 r) h0 else h0) else h)"
  have p0: "preserves h h0" unfolding h0_def by (rule preserves_upd) auto
  moreover have "preserves h0 (v_publish_entity_update V r (uri_at h0 r) h0)"
    using assms by (intro publish_ok) (simp add: h0_def)
  ultimately have p1: "preserves h h1" unfolding h1_def using preserves_trans by auto
  have "preserves h1 (upd_entity r (\<lambda>e. e\<lparr>m_factory_events := m_factory_events e @ [FE_CreatablesUpdated]\<rparr>) h1)"
    by (rule preserves_upd) auto
  with p1 have "preserves h (entity_notify r
      (upd_entity r (\<lambda>e. e\<lparr>m_factory_events := m_factory_events e @ [FE_CreatablesUpdated]\<rparr>) h1))"
    using preserves_notify preserves_trans by blast
  then show ?thesis
    unfolding update_creatables_def Let_def h0_def [symmetric] h1_def [symmetric] .
qed

lemma update_factory_ok:
  assumes "heap h r \<noteq> None"
  shows "preserves h (update_factory_proxy V r cs h)"
proof -
  have add: "m_uri (fold (\<lambda>c. add_creatable (uri_of_len c (length c)) 0) cs e) = m_uri e"
    "m_hierarchy_adaptors (fold (\<lambda>c. add_creatable (uri_of_len c (length c)) 0) cs e) = m_hierarchy_adaptors e"
    for e
    by (rule fold_frame; simp add: add_creatable_def)+
  let ?h1 = "upd_entity r (\<lambda>e. factory_deserialize_partial (Some cs) (clear_creatables e)) h"
  have p1: "preserves h ?h1"
    by (rule preserves_upd) (simp_all add: factory_deserialize_partial_def clear_creatables_def add)
  moreover have "preserves ?h1 (update_creatables V r ?h1)"
    using assms by (intro update_creatables_ok) simp
  ultimately show ?thesis unfolding update_factory_proxy_def by (rule preserves_trans)
qed

lemma update_proxy_ok:
  assumes "hierarchy_ok h" and "heap h r \<noteq> None"
  shows "preserves h (fst (update_proxy_entity V r payload ed h))"
proof -
  have "preserves h (fst (rename_proxy V r path (update_factory_proxy V r cs h)))" for path cs
  proof (rule preserves_trans [OF update_factory_ok [OF assms(2)] rename_proxy_ok])
    show "hierarchy_ok (update_factory_proxy V r cs h)" "heap (update_factory_proxy V r cs h) r \<noteq> None"
      using assms update_factory_ok [OF assms(2), of cs] by (auto simp: preserves_live dest: preserves_ok)
  qed
  moreover have "preserves h (upd_entity r clear_creatables h)"
    by (rule preserves_upd) (simp_all add: clear_creatables_def)
  ultimately show ?thesis
    using rename_proxy_ok [OF assms]
    by (auto simp: update_proxy_entity_def Let_def split: entity_table.splits option.splits)
qed

lemma destroy_complete_ok:
  assumes "heap h r \<noteq> None"
  shows "preserves h (destroy_entity_complete V r h)"
proof -
  let ?h1 = "case entity_parent V h r of None \<Rightarrow> h | Some p \<Rightarrow> remove_child (set_parent V tree_depth) p r h"
  have "preserves h ?h1"
    using assms by (auto intro: remove_child_ok set_parent_ok split: option.split)
  moreover have "preserves ?h1 (dispatch_leaving r ?h1)" by (rule preserves_leaving)
  moreover have "preserves g (fold entity_enqueue_deactivation cs g)" for cs g
    by (rule preserves_fold) (rule preserves_enqueue)
  ultimately show ?thesis
    unfolding destroy_entity_complete_def Let_def by (blast intro: preserves_trans)
qed

lemma remove_proxy_ok: "preserves h (remove_proxy_entity V r h)"
  by (auto simp: remove_proxy_entity_def dest: entity_test_live intro: destroy_complete_ok)

lemma sync_destroyed_ok: "preserves h (on_synchronisable_destroyed V r already h)"
proof -
  let ?h1 = "if entity_test (\<lambda>e. is_activated e \<or> m_sync_status e = DESTROYED) h r
             then v_deactivate_entity V r (if already then PUBLISH else SYNC_REPLY) h else h"
  have "preserves h ?h1" by (auto dest: entity_test_live intro: deactivate_ok)
  moreover have "preserves ?h1 (remove_entity_from_lookup u (?h1\<lparr>h_module := m\<rparr>))" for u m
    using preserves_trans [OF preserves_h_module preserves_remove_lookup] .
  moreover have "preserves ?h1 (upd_entity r set_destroyed (?h1\<lparr>h_module := m\<rparr>))" for m
    using preserves_trans [OF preserves_h_module preserves_status(3)] .
  ultimately show ?thesis
    unfolding on_synchronisable_destroyed_def Let_def by (auto intro: preserves_trans split: option.splits)
qed

lemma entity_process_ok: "preserves h (entity_process_events V r h)"
proof (cases "heap h r")
  case None
  then show ?thesis by (simp add: entity_process_events_def)
next
  case (Some e)
  define d where "d = m_synchronisable_events e"
  define h1 where "h1 = upd_entity r (\<lambda>e. e\<lparr>m_synchronisable_events := flush_events d\<rparr>) h"
  define h2 where "h2 = fold (process_event (\<lambda>_. True) (run_sync_event V r) (complete_sync_event r) (m_adaptors d))
                     (m_events d) h1"
  have p1: "preserves h h1" unfolding h1_def by (rule preserves_upd) auto
  have run: "preserves g (fst (run_sync_event V r ev a g))" for ev a g
    using preserves_trans [OF preserves_status(6) sync_destroyed_ok]
    by (auto simp: run_sync_event_def Let_def preserves_status)
  have compl: "preserves g (complete_sync_event r ev st g)" for ev st g
    by (auto simp: complete_sync_event_def preserves_status split: sync_event.split)
  have "preserves g (process_event (\<lambda>_. True) (run_sync_event V r) (complete_sync_event r) as ev g)" for as ev g
    by (rule process_event_invariant [where I = "preserves g"])
       (use run compl in \<open>blast intro: preserves_trans preserves_refl\<close>)+
  then have "preserves h1 h2" unfolding h2_def by (intro preserves_fold)
  with p1 have p2: "preserves h h2" by (rule preserves_trans)
  have "preserves h2 (upd_entity r (\<lambda>e. e\<lparr>m_factory_events := []\<rparr>) h2)" by (rule preserves_upd) auto
  with p2 show ?thesis
    unfolding entity_process_events_def Some option.case Let_def d_def [symmetric] h1_def [symmetric]
      h2_def [symmetric] by (auto intro: preserves_trans)
qed

text \<open>The operations of the hierarchy leave alone what a derived module adds to the state.\<close>

lemma create_proxy_more:
  "create_proxy_entity V ind payload ed h = (h', res) \<Longrightarrow> hierarchy.more h' = hierarchy.more h"
  by (auto simp: create_proxy_entity_def alloc_entity_def Let_def split: if_splits prod.splits sum.splits)

lemma delete_entity_more: "hierarchy.more (delete_entity V r h) = hierarchy.more h"
proof -
  have "preserves h (if entity_test is_component h r
     then fold (entity_deactivate V) (get_child_entities V tree_depth h r False True ET_NONE) h else h)" (is "preserves h ?h1")
    by (auto intro: preserves_fold entity_deactivate_ok)
  moreover have "preserves ?h1 (dispatch_destroyed V r ?h1)" by (simp add: dispatch_destroyed_def sync_destroyed_ok)
  ultimately have "preserves h (dispatch_destroyed V r ?h1)" by (rule preserves_trans)
  then show ?thesis unfolding delete_entity_def Let_def by (simp add: preserves_more)
qed

lemma reap_entity_more: "hierarchy.more (reap_entity V ri h) = hierarchy.more h"
  by (simp add: reap_entity_def Let_def delete_entity_more split: prod.splits)

lemma process_sync_more:
  assumes "hierarchy_process_sync_events V n h = Some h'"
  shows "hierarchy.more h' = hierarchy.more h"
proof -
  obtain h1 where h1: "process_events (\<lambda>h. m_module_events (h_module h)) upd_module_events (\<lambda>_. True)
      (run_module_event V) (\<lambda>_ _ h. h) n h = Some h1"
    and h': "h' = (reap_all V h1)\<lparr>h_module := (h_module (reap_all V h1))\<lparr>m_dead_syncronisable_IDS := {}\<rparr>\<rparr>"
    using assms by (auto simp: hierarchy_process_sync_events_def Let_def split: option.splits)
  have "hierarchy.more h1 = hierarchy.more h"
  proof (rule process_events_invariant [OF h1, where I = "\<lambda>g. hierarchy.more g = hierarchy.more h"])
    show "hierarchy.more (fst (run_module_event V e a s)) = hierarchy.more h"
      if "hierarchy.more s = hierarchy.more h" for e a s
      unfolding run_module_event_def using preserves_more [OF entity_process_ok] that by simp
  qed (simp_all add: upd_module_events_def)
  moreover have "hierarchy.more (fold (reap_entity V) cs g) = hierarchy.more g" for cs g
    by (rule fold_frame) (rule reap_entity_more)
  ultimately show ?thesis by (simp add: h' reap_all_def)
qed

text \<open>Every object is owned: it lives exactly as long as its pointer is in \<open>m_proxies\<close>.\<close>

lemma owned_preserves: "preserves h h' \<Longrightarrow> owned h \<Longrightarrow> owned h'"
  by (simp add: preserves_def owned_def)

lemma delete_entity_frame:
  "dom (heap (delete_entity V r h)) = dom (heap h) - {r}" "m_proxies (delete_entity V r h) = m_proxies h"
proof -
  have "preserves h (if entity_test is_component h r
     then fold (entity_deactivate V) (get_child_entities V tree_depth h r False True ET_NONE) h else h)" (is "preserves h ?h1")
    by (auto intro: preserves_fold entity_deactivate_ok)
  moreover have "preserves ?h1 (dispatch_destroyed V r ?h1)" by (simp add: dispatch_destroyed_def sync_destroyed_ok)
  ultimately have "preserves h (dispatch_destroyed V r ?h1)" by (rule preserves_trans)
  then show "dom (heap (delete_entity V r h)) = dom (heap h) - {r}" "m_proxies (delete_entity V r h) = m_proxies h"
    unfolding delete_entity_def Let_def by (simp_all add: preserves_def)
qed

lemma reap_entity_owned: "owned h \<Longrightarrow> owned (reap_entity V ri h)"
  by (auto simp: reap_entity_def Let_def owned_def delete_entity_frame split: prod.splits)

lemma process_sync_owned:
  assumes "owned h" and "hierarchy_process_sync_events V n h = Some h'"
  shows "owned h'"
proof -
  obtain h1 where h1: "process_events (\<lambda>h. m_module_events (h_module h)) upd_module_events (\<lambda>_. True)
      (run_module_event V) (\<lambda>_ _ h. h) n h = Some h1"
    and h': "h' = (reap_all V h1)\<lparr>h_module := (h_module (reap_all V h1))\<lparr>m_dead_syncronisable_IDS := {}\<rparr>\<rparr>"
    using assms(2) by (auto simp: hierarchy_process_sync_events_def Let_def split: option.splits)
  have m: "owned (g\<lparr>h_module := m\<rparr>) = owned g" for g m by (simp add: owned_def)
  have "owned (fst (run_module_event V e a g))" if "owned g" for e a g
    unfolding run_module_event_def using owned_preserves [OF entity_process_ok that] that by simp
  then have "owned h1"
    using process_events_invariant [OF h1, of owned] assms(1) by (simp add: upd_module_events_def m)
  then have "owned (reap_all V h1)"
    unfolding reap_all_def
    by (intro fold_invariant [where I = owned and f = "reap_entity V"] reap_entity_owned) (simp_all add: m)
  then show ?thesis by (simp add: h' m)
qed

lemma create_proxy_owned:
  assumes "owned h" and "create_proxy_entity V ind payload ed h = (h1, Inr entity)"
    and "add_proxy_entity V entity h1 = (h2, None)"
  shows "owned h2"
proof (cases entity)
  case None
  then show ?thesis
    using assms by (auto simp: create_proxy_entity_def add_proxy_entity_def Let_def split: if_splits prod.splits sum.splits)
next
  case (Some r)
  then have "dom (heap h1) = insert r (dom (heap h))" "m_proxies h1 = m_proxies h" "heap h1 r \<noteq> None"
    using assms(2)
    by (auto simp: create_proxy_entity_def alloc_entity_def Let_def split: if_splits prod.splits sum.splits)
  moreover from this(3) have "adopts r h1 h2" using add_proxy_adopts [of h1 r] assms(3) Some by simp
  ultimately show ?thesis using assms(1) by (simp add: owned_def adopts_def)
qed

end

context hierarchy_reaper
begin

lemma sync_destroyed_absent:
  assumes "hierarchy_ok h" and "heap h r \<noteq> None"
  shows "absent r (on_synchronisable_destroyed V r True h)"
proof -
  define h1 where "h1 = (if entity_test (\<lambda>e. is_activated e \<or> m_sync_status e = DESTROYED) h r
             then v_deactivate_entity V r PUBLISH h else h)"
  have p: "preserves h h1" using assms(2) by (simp add: h1_def deactivate_ok)
  obtain e where e: "heap h1 r = Some e" using p assms(2) by (metis preserves_live not_None_eq)
  have "hierarchy_ok (h1\<lparr>h_module := m\<rparr>)" for m
    using preserves_ok [OF preserves_h_module preserves_ok [OF p assms(1)]] .
  then have "absent r (remove_entity_from_lookup (m_uri e) (h1\<lparr>h_module := m\<rparr>))" for m
    using absent_removed [of "h1\<lparr>h_module := m\<rparr>" r] e by (simp add: uri_at_def)
  then show ?thesis
    unfolding on_synchronisable_destroyed_def Let_def if_True h1_def [symmetric] e by simp
qed

lemma delete_entity_ok:
  assumes "hierarchy_ok h" and "absent r h" and "\<not> pinned h r" and "r \<notin> set (m_proxies h)"
  shows "hierarchy_ok (delete_entity V r h)"
proof -
  define cs where "cs = get_child_entities V tree_depth h r False True ET_NONE"
  define h1 where "h1 = (if entity_test is_component h r then fold (entity_deactivate V) cs h else h)"
  define h2 where "h2 = dispatch_destroyed V r h1"
  have "\<forall>c\<in>set cs. c \<noteq> r"
    using child_entities_not_absent [OF assms(2,3)] unfolding cs_def by blast
  then have "spares r g (fold (entity_deactivate V) cs g)" for g
    by (induction cs arbitrary: g) (auto intro: spares_trans entity_deactivate_spares)
  then have s1: "spares r h h1" by (simp add: h1_def)
  then have p1: "preserves h h1" and a1: "absent r h1" using assms(2,3) by (simp_all add: spares_def)
  have "preserves h1 h2" by (simp add: h2_def dispatch_destroyed_def sync_destroyed_ok)
  with p1 have p2: "preserves h h2" by (rule preserves_trans)
  have ok2: "hierarchy_ok h2" using p2 assms(1) by (rule preserves_ok)
  have "absent r h2"
    using a1 sync_destroyed_absent [OF preserves_ok [OF p1 assms(1)]]
    by (auto simp: h2_def dispatch_destroyed_def dest: entity_test_live)
  moreover have "r \<notin> set (m_proxies h2)" using p2 assms(4) by (simp add: preserves_def)
  ultimately show ?thesis
    using ok2 unfolding delete_entity_def Let_def cs_def [symmetric] h1_def [symmetric] h2_def [symmetric]
    by (auto simp: hierarchy_ok_def lookup_sound_def absent_def)
qed

lemma destroy_complete_spares:
  assumes "heap h c \<noteq> None" and "c \<noteq> r"
  shows "spares r h (destroy_entity_complete V c h)"
proof -
  let ?h1 = "case entity_parent V h c of None \<Rightarrow> h | Some p \<Rightarrow> remove_child (set_parent V tree_depth) p c h"
  have s1: "spares r h ?h1"
    using assms by (auto intro: remove_child_spares set_parent_spares split: option.split)
  have "absent r (dispatch_leaving c ?h1) = absent r ?h1"
    by (simp add: dispatch_leaving_def hierarchy_defer_def split: option.split)
  then have "spares r ?h1 (dispatch_leaving c ?h1)" by (simp add: spares_def preserves_leaving)
  with s1 have s2: "spares r h (dispatch_leaving c ?h1)" by (rule spares_trans)
  have "m_entity_lookup (fold entity_enqueue_deactivation cs g) = m_entity_lookup g"
    for cs and g :: "'z hierarchy_scheme"
    by (rule fold_frame) (simp add: entity_enqueue_deactivation_def)
  then have "spares r g (fold entity_enqueue_deactivation cs g)" for cs g
    by (auto simp: spares_def absent_def intro: preserves_fold preserves_enqueue)
  with s2 show ?thesis unfolding destroy_entity_complete_def Let_def by (rule spares_trans)
qed

definition unpinned :: "'z hierarchy_scheme \<Rightarrow> bool" where
  "unpinned h \<longleftrightarrow> (\<forall>r\<in>set (m_proxies h). \<not> pinned h r)"

lemma unpinned_preserves: "preserves h h' \<Longrightarrow> unpinned h' = unpinned h"
  using preserves_pinned [of h h'] by (simp add: unpinned_def preserves_def)

lemma reap_entity_ok:
  assumes "hierarchy_ok h" and "unpinned h"
  shows "hierarchy_ok (reap_entity V ri h)" and "unpinned (reap_entity V ri h)"
proof -
  obtain r i where ri: "ri = (r, i)" by (cases ri)
  let ?h1 = "remove_entity_from_lookup (uri_at h r) h"
  let ?h2 = "?h1\<lparr>m_proxies := removeAll r (m_proxies ?h1)\<rparr>"
  have ok1: "hierarchy_ok ?h1" and u1: "unpinned ?h1"
    using preserves_ok [OF preserves_remove_lookup assms(1)]
      unpinned_preserves [OF preserves_remove_lookup] assms(2) by simp_all
  have pin: "pinned ?h2 = pinned h" by (rule pinned_more) simp
  have ok2: "hierarchy_ok ?h2" "absent r ?h2"
    using ok1 absent_removed [OF assms(1), of r] by (auto simp: hierarchy_ok_def lookup_sound_def distinct_removeAll absent_def)
  have "hierarchy_ok (delete_entity V r ?h2)" if "r \<in> set (m_proxies ?h1)"
    using ok2 that assms(2) pin by (intro delete_entity_ok) (auto simp: unpinned_def)
  then show "hierarchy_ok (reap_entity V ri h)" using assms(1) ok1 by (auto simp: reap_entity_def ri Let_def)
  have "pinned (delete_entity V r ?h2) = pinned h"
    by (rule pinned_more) (simp add: delete_entity_more)
  then have "unpinned (delete_entity V r ?h2)"
    using assms(2) by (simp add: unpinned_def delete_entity_frame)
  then show "unpinned (reap_entity V ri h)" using assms(2) u1 by (auto simp: reap_entity_def ri Let_def)
qed

lemma process_sync_ok:
  assumes "hierarchy_ok h" and "unpinned h" and "hierarchy_process_sync_events V n h = Some h'"
  shows "hierarchy_ok h'" and "unpinned h'"
proof -
  obtain h1 where h1: "process_events (\<lambda>h. m_module_events (h_module h)) upd_module_events (\<lambda>_. True)
      (run_module_event V) (\<lambda>_ _ h. h) n h = Some h1"
    and h': "h' = (reap_all V h1)\<lparr>h_module := (h_module (reap_all V h1))\<lparr>m_dead_syncronisable_IDS := {}\<rparr>\<rparr>"
    using assms(3) by (auto simp: hierarchy_process_sync_events_def Let_def split: option.splits)
  let ?I = "\<lambda>h. hierarchy_ok h \<and> unpinned h"
  have keep: "?I g'" if "preserves g g'" "?I g" for g g'
    using that preserves_ok unpinned_preserves by metis
  have "?I h1"
  proof (rule process_events_invariant [OF h1, where I = ?I])
    show "?I (upd_module_events f s)" if "?I s" for f s
      unfolding upd_module_events_def by (rule keep [OF preserves_h_module that])
    show "?I (fst (run_module_event V e a s))" if "?I s" for e a s
      unfolding run_module_event_def using keep [OF entity_process_ok that] that by simp
  qed (use assms(1,2) in auto)
  then have "?I (h1\<lparr>h_module := m\<rparr>)" for m by (rule keep [OF preserves_h_module])
  then have "?I (reap_all V h1)"
    unfolding reap_all_def by (intro fold_invariant [where I = ?I]) (use reap_entity_ok in blast)+
  then have "?I h'" unfolding h' by (rule keep [OF preserves_h_module])
  then show "hierarchy_ok h'" "unpinned h'" by blast+
qed

end

section \<open>The hierarchy of the stage\<close>

text \<open>
  \<open>ZstStageHierarchy\<close> overrides \<open>request_entity_registration\<close> and \<open>get_local_performer\<close>; the other
  callbacks are those of \<open>ZstHierarchy\<close>, or the empty ones of the adaptor.
\<close>

definition stage_virtuals :: "('z hierarchy_scheme) hierarchy_virtuals" where
  "stage_virtuals =
     \<lparr>v_find_entity = find_entity,
      v_update_entity_URI = update_entity_in_lookup,
      v_request_entity_registration = register_entity,
      v_request_entity_activation = (\<lambda>_ h. h),
      v_publish_entity_update = (\<lambda>_ _ h. h),
      v_activate_entity = base_activate_entity,
      v_deactivate_entity = base_deactivate_entity,
      v_get_local_performer = (\<lambda>_. None)\<rparr>"

lemma stage_virtuals_simps [simp]:
  "v_find_entity stage_virtuals = find_entity"
  "v_update_entity_URI stage_virtuals = update_entity_in_lookup"
  "v_request_entity_registration stage_virtuals = register_entity"
  "v_request_entity_activation stage_virtuals = (\<lambda>_ h. h)"
  "v_publish_entity_update stage_virtuals = (\<lambda>_ _ h. h)"
  "v_activate_entity stage_virtuals = base_activate_entity"
  "v_deactivate_entity stage_virtuals = base_deactivate_entity"
  "v_get_local_performer stage_virtuals = (\<lambda>_. None)"
  by (simp_all add: stage_virtuals_def)

interpretation stage_tree: hierarchy_reaper stage_virtuals "\<lambda>_ _. False"
proof
  fix h :: "'a hierarchy_scheme" and c r sendtype
  assume "absent r h"
  then show "absent r (v_deactivate_entity stage_virtuals c sendtype h)"
    by (simp add: base_deactivate_entity_def)
next
  fix h :: "'a hierarchy_scheme" and u r
  assume "hierarchy_ok h" "v_find_entity stage_virtuals h u = Some r"
  then show "\<exists>e. heap h r = Some e \<and> uri_path (m_uri e) = uri_path u" by (simp add: find_entity_live)
qed (simp_all add: preserves_register base_activate_entity_def preserves_base_deactivate absent_register)

lemma stage_unpinned [simp]: "stage_tree.unpinned h"
  by (simp add: stage_tree.unpinned_def)

lemma base_set_parent_attached:
  assumes "heap h r = Some e" and "HierarchyModule \<in> set (m_hierarchy_adaptors e)"
    and "new = reparented_uri (case p of None \<Rightarrow> uri_empty | Some q \<Rightarrow> uri_at h q) (m_uri e)"
  shows "m_entity_lookup (base_set_parent stage_virtuals r p h) =
      (m_entity_lookup h)(uri_path (m_uri e) := None, uri_path new \<mapsto> r)"
    and "uri_at (base_set_parent stage_virtuals r p h) r = new"
    and "entity_test (\<lambda>e. m_parent e = (case p of None \<Rightarrow> uri_empty | Some q \<Rightarrow> uri_at h q))
      (base_set_parent stage_virtuals r p h) r"
  using assms
  by (auto simp: base_set_parent_def update_URI_def Let_def hierarchy_attached_def entity_test_def
      update_entity_in_lookup_def add_entity_to_lookup_def remove_entity_from_lookup_def uri_at_def
      upd_entity_def)

section \<open>Adoption of a proxy\<close>

lemma uri_at_upd: "(\<And>e. m_uri (f e) = m_uri e) \<Longrightarrow> uri_at (upd_entity c f h) r = uri_at h r"
  by (simp add: uri_at_def split: option.split)

lemma uri_at_lookup [simp]: "uri_at (add_entity_to_lookup c h) r = uri_at h r"
  by (simp add: uri_at_def)

lemma uri_at_register [simp]: "uri_at (register_entity c h) r = uri_at h r"
  by (simp add: register_entity_def uri_at_upd)

lemma register_lookup:
  "m_entity_lookup (register_entity r h) = (m_entity_lookup h)(uri_path (uri_at h r) \<mapsto> r)"
  by (simp add: register_entity_def add_entity_to_lookup_def uri_at_upd)

lemma register_live: "heap (register_entity r h) c = None \<longleftrightarrow> heap h c = None"
  by (simp add: register_entity_def split: if_splits)

lemma fold_activated:
  "m_entity_lookup (fold (\<lambda>c. upd_entity c proxy_activated) cs h) = m_entity_lookup h"
  "uri_at (fold (\<lambda>c. upd_entity c proxy_activated) cs h) r = uri_at h r"
  "heap (fold (\<lambda>c. upd_entity c proxy_activated) cs h) r =
     (if r \<in> set cs then map_option proxy_activated (heap h r) else heap h r)"
proof -
  show "m_entity_lookup (fold (\<lambda>c. upd_entity c proxy_activated) cs h) = m_entity_lookup h"
    by (rule fold_frame) simp
  show "uri_at (fold (\<lambda>c. upd_entity c proxy_activated) cs h) r = uri_at h r"
    by (rule fold_frame) (simp add: uri_at_upd proxy_activated_def sync_status_defs)
  have idem: "proxy_activated (proxy_activated e) = proxy_activated e" for e
    by (simp add: proxy_activated_def sync_status_defs)
  show "heap (fold (\<lambda>c. upd_entity c proxy_activated) cs h) r =
     (if r \<in> set cs then map_option proxy_activated (heap h r) else heap h r)"
    by (induction cs arbitrary: h) (auto simp: option.map_comp comp_def idem)
qed

lemma arrived_frame [simp]:
  "heap (dispatch_entity_arrived_event r h) = heap h"
  "m_entity_lookup (dispatch_entity_arrived_event r h) = m_entity_lookup h"
  "m_proxies (dispatch_entity_arrived_event r h) = m_proxies h"
  by (simp_all add: dispatch_entity_arrived_event_def hierarchy_defer_def split: option.split)

lemma insert_proxy_frame [simp]:
  "heap (insert_proxy r h) = heap h" "m_entity_lookup (insert_proxy r h) = m_entity_lookup h"
  "r \<in> set (m_proxies (insert_proxy r h))"
  by (simp_all add: insert_proxy_def)

lemma self_in_children: "heap h r \<noteq> None \<Longrightarrow> r \<in> set (get_child_entities V n h r True rec ET_NONE)"
  by (cases n) (auto simp: base_child_entities_def entity_test_def matches_filter_def split: option.splits)

lemma adopt_proxy_found:
  assumes "heap h r \<noteq> None"
  shows "find_entity (adopt_proxy V r h) (uri_at h r) = Some r"
    and "r \<in> set (m_proxies (adopt_proxy V r h))"
    and "entity_test (\<lambda>e. m_is_proxy e \<and> is_activated e) (adopt_proxy V r h) r"
    and "uri_at (adopt_proxy V r h) r = uri_at h r"
proof -
  let ?h1 = "register_entity r h"
  have mem: "r \<in> set (get_child_entities V tree_depth ?h1 r True True ET_NONE)"
    using assms by (intro self_in_children) (simp add: register_live)
  have live: "heap ?h1 r \<noteq> None" using assms by (simp add: register_live)
  show "find_entity (adopt_proxy V r h) (uri_at h r) = Some r"
    by (simp add: adopt_proxy_def Let_def find_entity_def fold_activated register_lookup)
  show "r \<in> set (m_proxies (adopt_proxy V r h))" by (simp add: adopt_proxy_def Let_def)
  show "entity_test (\<lambda>e. m_is_proxy e \<and> is_activated e) (adopt_proxy V r h) r"
    using mem live
    by (auto simp: adopt_proxy_def Let_def entity_test_def fold_activated proxy_activated_def
        sync_status_defs is_activated_def)
  show "uri_at (adopt_proxy V r h) r = uri_at h r"
    using fold_activated(2) [where h = ?h1 and r = r]
    by (simp add: adopt_proxy_def Let_def uri_at_def)
       (simp add: uri_at_def [symmetric])
qed

text \<open>Adding a fresh entity to its parent leaves its URI alone when it already lies below it.\<close>

lemma add_child_fresh_uri:
  assumes "heap h r = Some e" and "m_hierarchy_adaptors e = []" and "m_children e = []" and "p \<noteq> r"
    and "reparented_uri (uri_at h p) (m_uri e) = m_uri e"
  shows "uri_at (add_child (set_parent stage_virtuals n) stage_virtuals p r auto h) r = m_uri e"
proof -
  define e1 where "e1 = (let e0 = e\<lparr>m_parent := uri_at h p\<rparr>
      in if is_factory e0 then update_createable_URIs e0 else e0)"
  have e1: "m_uri e1 = m_uri e" "m_children e1 = []"
    using assms(3) update_createable_only [of "e\<lparr>m_parent := uri_at h p\<rparr>"] by (auto simp: e1_def Let_def)
  let ?h1 = "base_set_parent stage_virtuals r (Some p) h"
  have b: "heap ?h1 r = Some e1"
    using assms by (auto simp: base_set_parent_def update_URI_def Let_def hierarchy_attached_def
        entity_test_def uri_at_def e1_def is_factory_def)
  have "get_child_entities stage_virtuals 1 ?h1 r False False ET_NONE = []"
    using b e1 by (simp add: base_child_entities_def)
  then have sp: "uri_at (set_parent stage_virtuals n r (Some p) h) r = m_uri e"
    using b e1 assms(1)
    by (subst set_parent.simps) (auto simp: uri_at_def Let_def reparent_children_def split: nat.split)
  have at: "uri_at h r = m_uri e" using assms(1) by (simp add: uri_at_def)
  have ch: "uri_at (upd_entity p (\<lambda>e. e\<lparr>m_children := cs e\<rparr>) g) r = uri_at g r" for cs g
    by (simp add: uri_at_upd)
  note if_uri = if_distrib [where f = "\<lambda>g. uri_at g r"]
  show ?thesis
    unfolding add_child_def component_add_child_def Let_def stage_virtuals_simps
    by (simp only: if_uri uri_at_register ch sp at if_cancel)
qed

section \<open>Deferred deletion\<close>

text \<open>One run over the teardown queue of an entity: it ends destroyed, with one cleanup operation.\<close>

definition torn_down :: "entity \<Rightarrow> entity" where
  "torn_down e = set_destroyed (on_deactivation (set_deactivated
     (e\<lparr>m_synchronisable_events := flush_events (m_synchronisable_events e)\<rparr>)))"

lemma upd_entity_comp: "upd_entity r f (upd_entity r g h) = upd_entity r (\<lambda>e. f (g e)) h"
  by (simp add: upd_entity_def option.map_comp comp_def)

lemma upd_entity_cong: "heap h r = Some e \<Longrightarrow> f e = g e \<Longrightarrow> upd_entity r f h = upd_entity r g h"
  by (simp add: upd_entity_def)

lemma upd_entity_module: "upd_entity r f (h\<lparr>h_module := m\<rparr>) = (upd_entity r f h)\<lparr>h_module := m\<rparr>"
  by (simp add: upd_entity_def)

lemma upd_entity_id: "(\<And>e. f e = e) \<Longrightarrow> upd_entity r f h = h"
  by (cases "heap h r") (simp_all add: upd_entity_def fun_upd_idem)

lemma process_deactivated:
  "process_event (\<lambda>_. True) (run_sync_event V r) (complete_sync_event r) [DefaultAdaptor, HierarchyModule]
     SE_Deactivated h = upd_entity r (\<lambda>e. on_deactivation (set_deactivated e)) h"
  by (simp add: process_event_def run_adaptor_def run_sync_event_def complete_sync_event_def Let_def
      upd_entity_comp sync_status_defs)

lemma process_destroyed:
  assumes "heap h r = Some e" and "m_sync_status e = DEACTIVATED"
  shows "process_event (\<lambda>_. True) (run_sync_event V r) (complete_sync_event r) [DefaultAdaptor, HierarchyModule]
     SE_Destroyed h =
     upd_entity r set_destroyed (h\<lparr>h_module := add_cleanup_op (r, m_instance_id e) (h_module h)\<rparr>)"
proof -
  have "upd_entity r (sync_event_status SE_Destroyed) h = h" by (rule upd_entity_id) simp
  then show ?thesis
    using assms
    by (simp add: process_event_def run_adaptor_def run_sync_event_def complete_sync_event_def Let_def
        on_synchronisable_destroyed_def entity_test_def is_activated_def)
qed

lemma entity_process_teardown:
  assumes "heap h r = Some e" and "m_events (m_synchronisable_events e) = [SE_Deactivated, SE_Destroyed]"
    and "m_adaptors (m_synchronisable_events e) = [DefaultAdaptor, HierarchyModule]" and "\<not> is_factory e"
  shows "entity_process_events V r h =
    (upd_entity r torn_down h)\<lparr>h_module := add_cleanup_op (r, m_instance_id e) (h_module h)\<rparr>"
proof -
  define d where "d = m_synchronisable_events e"
  define g where "g = upd_entity r (\<lambda>e. on_deactivation (set_deactivated e))
      (upd_entity r (\<lambda>e. e\<lparr>m_synchronisable_events := flush_events d\<rparr>) h)"
  let ?e = "on_deactivation (set_deactivated (e\<lparr>m_synchronisable_events := flush_events d\<rparr>))"
  have g: "heap g r = Some ?e" using assms(1) by (simp add: g_def)
  have e: "m_sync_status ?e = DEACTIVATED" "m_instance_id ?e = m_instance_id e"
    by (simp_all add: on_deactivation_def sync_status_defs)
  have "h_module g = h_module h" by (simp add: g_def)
  moreover have "entity_process_events V r h =
      upd_entity r set_destroyed (g\<lparr>h_module := add_cleanup_op (r, m_instance_id e) (h_module g)\<rparr>)"
    using assms process_destroyed [OF g e(1)] e(2)
    by (simp add: entity_process_events_def Let_def d_def [symmetric] process_deactivated g_def [symmetric])
  moreover have "upd_entity r set_destroyed g = upd_entity r torn_down h"
    unfolding g_def upd_entity_comp by (rule upd_entity_cong [OF assms(1)]) (simp add: torn_down_def d_def)
  ultimately show ?thesis by (simp add: upd_entity_module)
qed

lemma entity_process_idle:
  assumes "heap h r = Some e" and "m_synchronisable_events e = flush_events d" and "\<not> is_factory e"
  shows "entity_process_events V r h = h"
proof -
  have "upd_entity r (\<lambda>e'. e'\<lparr>m_synchronisable_events := flush_events (m_synchronisable_events e)\<rparr>) h =
      upd_entity r (\<lambda>e. e) h"
    by (rule upd_entity_cong [OF assms(1)]) (simp add: assms(2) flush_events_def)
  also have "\<dots> = h" by (rule upd_entity_id) simp
  finally show ?thesis using assms by (simp add: entity_process_events_def Let_def flush_events_def)
qed

section \<open>A sample hierarchy\<close>

text \<open>Two performers \<open>A\<close> and \<open>B\<close> and a plug, registered under \<open>B\<close> or inside \<open>A\<close>, for concrete runs.\<close>

definition sample_entity :: "entity_class \<Rightarrow> ZstEntityType \<Rightarrow> string \<Rightarrow> entity" where
  "sample_entity cls t path =
     (entity_init (fst (synchronisable_new 0)) cls (uri_of path))
       \<lparr>m_entity_type := t, m_hierarchy_adaptors := [HierarchyModule], m_registered := True\<rparr>"

definition sample_hierarchy :: hierarchy where
  "sample_hierarchy =
     \<lparr>heap = [1 \<mapsto> sample_entity EC_Performer ET_PERFORMER ''A'',
              2 \<mapsto> sample_entity EC_InputPlug ET_PLUG ''B'',
              3 \<mapsto> sample_entity EC_Performer ET_PERFORMER ''B'',
              4 \<mapsto> sample_entity EC_InputPlug ET_PLUG ''A/B''],
      next_ref = 5, s_instance_id_counter = 0,
      m_entity_lookup = [''A'' \<mapsto> 1, ''B'' \<mapsto> 3, ''A/B'' \<mapsto> 4], m_proxies = [],
      m_hierarchy_events = dispatcher_new DefaultAdaptor, h_module = sync_module_new HierarchyModule, m_outbox = []\<rparr>"

section \<open>Properties\<close>

text \<open>
  Giving a registered entity a parent moves it in the lookup table: it is found under its new
  URI, which is the parent's URI with the entity's last segment (or its URI unchanged, when it already
  lies below the parent), no longer under the old one, and no other entry changes.
\<close>

theorem set_parent_moves_entity:
  assumes "heap h r = Some e" and "HierarchyModule \<in> set (m_hierarchy_adaptors e)"
    and "\<not> is_component e" and "\<not> uri_is_empty (uri_at h q)"
    and "uri_ok (m_uri e)" and "uri_ok (uri_at h q)"
  shows "let h' = set_parent stage_virtuals n r (Some q) h; new = uri_at h' r in
    find_entity h' new = Some r \<and> uri_contains new (uri_at h q) \<and>
    (uri_contains (m_uri e) (uri_at h q) \<and> new = m_uri e \<or>
     \<not> uri_contains (m_uri e) (uri_at h q) \<and> new = uri_append (uri_at h q) (last_uri (m_uri e)) \<and>
       find_entity h' (m_uri e) = None) \<and>
    (\<forall>u. \<not> uri_equal u new \<and> \<not> uri_equal u (m_uri e) \<longrightarrow> find_entity h' u = find_entity h u)"
proof -
  define new where "new = reparented_uri (uri_at h q) (m_uri e)"
  let ?h' = "base_set_parent stage_virtuals r (Some q) h"
  have h': "set_parent stage_virtuals n r (Some q) h = ?h'"
    using assms(1,3) by (subst set_parent.simps) (simp add: entity_test_def)
  have at: "uri_at ?h' r = new"
    and lk: "m_entity_lookup ?h' = (m_entity_lookup h)(uri_path (m_uri e) := None, uri_path new \<mapsto> r)"
    using base_set_parent_attached [OF assms(1,2), of new "Some q"] by (simp_all add: new_def)
  have inside: "uri_contains new (uri_at h q)"
    using assms(4,6) uri_append_contains [of "uri_at h q" "last_uri (m_uri e)"]
    by (simp add: new_def reparented_uri_def)
  have "\<not> uri_contains (m_uri e) (uri_at h q) \<Longrightarrow> uri_path new \<noteq> uri_path (m_uri e)"
    using assms(5) inside by (metis new_def reparented_uri_def uri_of_path assms(4) uri_ok_append)
  moreover have "new = (if uri_contains (m_uri e) (uri_at h q) then m_uri e
      else uri_append (uri_at h q) (last_uri (m_uri e)))"
    using assms(4) by (simp add: new_def reparented_uri_def)
  ultimately show ?thesis
    unfolding h' Let_def at using inside
    by (cases "uri_contains (m_uri e) (uri_at h q)") (simp_all add: find_entity_def lk uri_equal_path)
qed

theorem set_parent_moves_entity_witness:
  "find_entity (set_parent stage_virtuals 1 2 (Some 1) sample_hierarchy)
     (uri_at (set_parent stage_virtuals 1 2 (Some 1) sample_hierarchy) 2) = Some 2"
  using set_parent_moves_entity [of sample_hierarchy 2 "sample_entity EC_InputPlug ET_PLUG ''B''" 1 1]
  by (simp add: sample_hierarchy_def sample_entity_def entity_new_defs entity_class_defs uri_at_def
      uri_is_empty_def cstr_def path_components_def Let_def)

text \<open>
  C25. A new proxy is adopted: when its parent, if it is known, is a component, \<open>add_proxy_entity\<close>
  succeeds; the entity is then found under its URI, owned by the hierarchy, marked as a proxy and
  activated, and the lookup table is still sound.
\<close>

theorem add_proxy_entity_found:
  assumes "hierarchy_ok h" and "heap h r = Some e" and "m_hierarchy_adaptors e = []" and "m_children e = []"
    and "uri_ok (m_uri e)" and "uri_size (m_uri e) < 2 ^ 31"
    and "\<forall>p. find_entity h (parent_uri (m_uri e)) = Some p \<longrightarrow>
      entity_test is_component h p \<and> uri_ok (uri_at h p) \<and> \<not> uri_is_empty (uri_at h p)"
  shows "\<exists>h'. add_proxy_entity stage_virtuals (Some r) h = (h', None) \<and> hierarchy_ok h' \<and>
    find_entity h' (m_uri e) = Some r \<and> r \<in> set (m_proxies h') \<and>
    entity_test (\<lambda>e. m_is_proxy e \<and> is_activated e) h' r"
proof -
  let ?h1 = "upd_entity r set_proxy h"
  have at1: "uri_at ?h1 q = uri_at h q" for q by (simp add: uri_at_upd sync_status_defs)
  have at: "uri_at h r = m_uri e" using assms(2) by (simp add: uri_at_def)
  have h1r: "heap ?h1 r = Some (set_proxy e)" using assms(2) by simp
  obtain g where g: "add_proxy_entity stage_virtuals (Some r) h = (adopt_proxy stage_virtuals r g, None)"
    and gr: "heap g r \<noteq> None" "uri_at g r = m_uri e"
  proof (cases "find_entity h (parent_uri (m_uri e))")
    case None
    then show ?thesis using that [of ?h1] assms(2) at at1 by (simp add: add_proxy_entity_def)
  next
    case (Some p)
    have lk: "uri_path (uri_at h p) = uri_path (parent_uri (m_uri e))" "hierarchy_attached h p"
      using lookup_uri [OF assms(1)] Some by (auto simp: find_entity_def)
    have "p \<noteq> r" using lk(2) assms(2,3) by (auto simp: hierarchy_attached_def entity_test_def)
    have p: "entity_test is_component h p" "uri_ok (uri_at h p)" "\<not> uri_is_empty (uri_at h p)"
      using assms(7) Some by auto
    have "uri_ok (parent_uri (m_uri e))" using assms(5,6) by (simp add: parent_uri_eq)
    then have "uri_at h p = parent_uri (m_uri e)" using p lk by (simp add: uri_ok_eq_iff)
    then have rp: "reparented_uri (uri_at ?h1 p) (m_uri e) = m_uri e"
      using p uri_contains_parent [OF assms(5,6)] by (simp add: at1 reparented_uri_def)
    let ?g = "add_child (set_parent stage_virtuals tree_depth) stage_virtuals p r True ?h1"
    have "uri_at ?g r = m_uri (set_proxy e)"
      using assms(3,4) rp \<open>p \<noteq> r\<close> by (intro add_child_fresh_uri [OF h1r]) (auto simp: sync_status_defs)
    moreover have "preserves ?h1 ?g"
      using h1r p \<open>p \<noteq> r\<close>
      by (intro stage_tree.add_child_ok stage_tree.set_parent_ok) (auto dest: entity_test_live)
    moreover have "entity_test is_component ?h1 p" using p \<open>p \<noteq> r\<close> by (simp add: entity_test_def)
    moreover from calculation(2) have "heap ?g r \<noteq> None"
      using h1r preserves_live by (metis option.distinct(1))
    ultimately show ?thesis
      using that [of ?g] Some at by (simp add: add_proxy_entity_def sync_status_defs)
  qed
  have "hierarchy_ok (fst (add_proxy_entity stage_virtuals (Some r) h))"
    using assms(1,2) by (intro stage_tree.add_proxy_ok) auto
  then show ?thesis
    using g adopt_proxy_found [OF gr(1), of stage_virtuals] gr(2) by auto
qed

theorem add_proxy_entity_found_witness:
  "\<exists>h'. add_proxy_entity stage_virtuals (Some 5)
      (sample_hierarchy\<lparr>heap := (heap sample_hierarchy)(5 \<mapsto> input_plug_new (fst (synchronisable_new 0)) ''A/in'' VT_IntList 1),
         next_ref := 6\<rparr>) = (h', None) \<and> hierarchy_ok h' \<and>
    find_entity h' (m_uri (input_plug_new (fst (synchronisable_new 0)) ''A/in'' VT_IntList 1)) = Some 5 \<and>
    5 \<in> set (m_proxies h') \<and> entity_test (\<lambda>e. m_is_proxy e \<and> is_activated e) h' 5"
proof (rule add_proxy_entity_found)
  show "hierarchy_ok (sample_hierarchy\<lparr>heap := (heap sample_hierarchy)
      (5 \<mapsto> input_plug_new (fst (synchronisable_new 0)) ''A/in'' VT_IntList 1), next_ref := 6\<rparr>)"
    by (auto simp: hierarchy_ok_def lookup_sound_def sample_hierarchy_def sample_entity_def entity_new_defs
        cstr_def split: if_splits)
  have "parent_uri (uri_of ''A/in'') = uri_of ''A''"
    by (simp add: parent_uri_eq cstr_def path_components_def)
  then show "\<forall>p. find_entity (sample_hierarchy\<lparr>heap := (heap sample_hierarchy)
      (5 \<mapsto> input_plug_new (fst (synchronisable_new 0)) ''A/in'' VT_IntList 1), next_ref := 6\<rparr>)
      (parent_uri (m_uri (input_plug_new (fst (synchronisable_new 0)) ''A/in'' VT_IntList 1))) = Some p \<longrightarrow>
      entity_test is_component (sample_hierarchy\<lparr>heap := (heap sample_hierarchy)
      (5 \<mapsto> input_plug_new (fst (synchronisable_new 0)) ''A/in'' VT_IntList 1), next_ref := 6\<rparr>) p \<and>
      uri_ok (uri_at (sample_hierarchy\<lparr>heap := (heap sample_hierarchy)
      (5 \<mapsto> input_plug_new (fst (synchronisable_new 0)) ''A/in'' VT_IntList 1), next_ref := 6\<rparr>) p) \<and>
      \<not> uri_is_empty (uri_at (sample_hierarchy\<lparr>heap := (heap sample_hierarchy)
      (5 \<mapsto> input_plug_new (fst (synchronisable_new 0)) ''A/in'' VT_IntList 1), next_ref := 6\<rparr>) p)"
    by (auto simp: find_entity_def sample_hierarchy_def sample_entity_def entity_new_defs entity_class_defs
        entity_test_def uri_at_def cstr_def uri_is_empty_def path_components_def)
qed (simp_all add: entity_new_defs cstr_def path_components_def)

text \<open>
  Removing an entity from its parent registers it under its last segment alone, whatever is
  registered there: a performer of that name is evicted from the lookup table, although the comment in
  \<open>update_entity_in_lookup\<close> says that an entity without a parent is not added.
\<close>

theorem orphan_shadows_performer:
  assumes "heap h r = Some e" and "HierarchyModule \<in> set (m_hierarchy_adaptors e)" and "\<not> is_component e"
    and "find_entity h (last_uri (m_uri e)) = Some q" and "q \<noteq> r"
  shows "find_entity (set_parent stage_virtuals n r None h) (last_uri (m_uri e)) = Some r"
proof -
  have "set_parent stage_virtuals n r None h = base_set_parent stage_virtuals r None h"
    using assms(1,3) by (subst set_parent.simps) (simp add: entity_test_def)
  moreover have "reparented_uri uri_empty (m_uri e) = last_uri (m_uri e)"
    by (simp add: reparented_uri_def uri_is_empty_def uri_size_def uri_empty_def)
  ultimately show ?thesis
    using base_set_parent_attached(1) [OF assms(1,2), of _ None] by (simp add: find_entity_def)
qed

theorem orphan_shadows_performer_witness:
  "find_entity (set_parent stage_virtuals 1 4 None sample_hierarchy)
     (last_uri (m_uri (sample_entity EC_InputPlug ET_PLUG ''A/B''))) = Some 4"
proof (rule orphan_shadows_performer)
  show "find_entity sample_hierarchy (last_uri (m_uri (sample_entity EC_InputPlug ET_PLUG ''A/B''))) = Some 3"
    by (simp add: sample_hierarchy_def sample_entity_def entity_new_defs find_entity_def last_uri_def
        uri_last_def cstr_def path_components_def) (simp add: uri_of_eq cstr_def path_components_def)
qed (simp_all add: sample_hierarchy_def sample_entity_def entity_new_defs entity_class_defs)

section \<open>Removal of a leaf\<close>

text \<open>The base version of orphaning an entity that is no factory changes its parent and URI and nothing else of it.\<close>

lemma base_set_parent_entity:
  assumes "heap h r = Some e" and "\<not> is_factory e"
  shows "heap (base_set_parent stage_virtuals r p h) r =
      Some (e\<lparr>m_parent := (case p of None \<Rightarrow> uri_empty | Some q \<Rightarrow> uri_at h q),
              m_uri := reparented_uri (case p of None \<Rightarrow> uri_empty | Some q \<Rightarrow> uri_at h q) (m_uri e)\<rparr>)"
    and "h_module (base_set_parent stage_virtuals r p h) = h_module h"
  using assms
  by (auto simp: base_set_parent_def update_URI_def Let_def update_entity_in_lookup_def entity_test_def
      is_factory_def)

text \<open>What has no children: everything but components, and components without any.\<close>

definition childless :: "entity \<Rightarrow> bool" where
  "childless e \<longleftrightarrow> (is_component e \<longrightarrow> m_children e = [])"

lemma leaf_child_entities:
  assumes "heap h r = Some e" and "childless e"
  shows "get_child_entities V n h r inc rec ET_NONE = (if inc then [r] else [])"
  using assms by (cases n) (simp_all add: base_child_entities_def entity_test_def matches_filter_def childless_def)

lemma set_parent_childless:
  assumes "heap h r = Some e" and "\<not> is_factory e" and "childless e"
  shows "set_parent stage_virtuals n r p h =
    (if is_component e \<and> m_is_destroyed e then h else base_set_parent stage_virtuals r p h)"
proof -
  let ?h1 = "base_set_parent stage_virtuals r p h"
  have "get_child_entities stage_virtuals 1 ?h1 r False False ET_NONE = []"
    using leaf_child_entities [of ?h1 r _ stage_virtuals 1 False False, OF base_set_parent_entity(1) [OF assms(1,2)]] assms(3)
    by (simp add: childless_def is_component_def)
  then show ?thesis
    using assms(1) by (subst set_parent.simps) (simp add: entity_test_def Let_def reparent_children_def split: nat.split)
qed

lemma erase_childless:
  assumes "heap h r = Some e" and "childless e" and "entity_test is_component h p"
  shows "heap (upd_entity p (\<lambda>e. e\<lparr>m_children := oset_erase uri_less u (m_children e)\<rparr>) h) r = Some e"
  using assms by (auto simp: entity_test_def childless_def)

lemma remove_child_leaf:
  assumes "heap h r = Some e" and "\<not> is_factory e" and "childless e"
  shows "\<exists>par uri. heap (remove_child (set_parent stage_virtuals n) p r h) r = Some (e\<lparr>m_parent := par, m_uri := uri\<rparr>)"
    and "h_module (remove_child (set_parent stage_virtuals n) p r h) = h_module h"
proof -
  note g = erase_childless [OF assms(1,3)]
  note sp = set_parent_childless [OF _ assms(2,3)]
  have "\<exists>par uri. e = e\<lparr>m_parent := par, m_uri := uri\<rparr>"
    by (rule exI [of _ "m_parent e"], rule exI [of _ "m_uri e"]) simp
  then show "\<exists>par uri. heap (remove_child (set_parent stage_virtuals n) p r h) r = Some (e\<lparr>m_parent := par, m_uri := uri\<rparr>)"
    using assms base_set_parent_entity [OF assms(1,2)] g base_set_parent_entity [OF g assms(2)]
    by (auto simp: remove_child_def component_remove_child_def sp [OF assms(1)] sp [OF g])
  show "h_module (remove_child (set_parent stage_virtuals n) p r h) = h_module h"
    using assms base_set_parent_entity [OF assms(1,2)] g base_set_parent_entity [OF g assms(2)]
    by (auto simp: remove_child_def component_remove_child_def sp [OF assms(1)] sp [OF g])
qed

lemma leaving_frame [simp]:
  "heap (dispatch_leaving r h) = heap h" "h_module (dispatch_leaving r h) = h_module h"
  by (simp_all add: dispatch_leaving_def hierarchy_defer_def split: option.split)

text \<open>
  The state a childless proxy other than a factory is in between two runs of the event loop, and a module with
  nothing to do.
\<close>

definition idle_leaf :: "entity \<Rightarrow> bool" where
  "idle_leaf e \<longleftrightarrow> childless e \<and> \<not> is_factory e \<and> m_is_proxy e \<and> is_activated e \<and>
     m_adaptors (m_synchronisable_events e) = [DefaultAdaptor, HierarchyModule] \<and>
     m_events (m_synchronisable_events e) = []"

definition idle_module :: "adaptor \<Rightarrow> ('p, 'c) sync_module \<Rightarrow> bool" where
  "idle_module self m \<longleftrightarrow> m_adaptors (m_module_events m) = [DefaultAdaptor, self] \<and>
     m_events (m_module_events m) = [] \<and> m_cleanup_callbacks m = [] \<and> m_items_to_reap m = [] \<and>
     m_dead_syncronisable_IDS m = {}"

lemma enqueue_deactivation_at:
  assumes "heap h r = Some e" and "m_sync_status e = ACTIVATED"
  defines "e' \<equiv> sync_defer SE_Destroyed (sync_defer SE_Deactivated (set_activation_status DEACTIVATION_QUEUED e))"
  shows "heap (entity_enqueue_deactivation r h) r = Some e'"
    and "HierarchyModule \<in> set (m_adaptors (m_synchronisable_events e)) \<Longrightarrow>
      h_module (entity_enqueue_deactivation r h) = synchronisable_has_event r (m_instance_id e) (h_module h)"
proof -
  have "enqueue_deactivation e = (e', True)"
    using assms(2) by (simp add: enqueue_deactivation_def e'_def)
  then have "entity_enqueue_deactivation r h = entity_notify r (upd_entity r (\<lambda>_. e') h)"
    using assms(1) by (simp add: entity_enqueue_deactivation_def entity_sync_op_def)
  moreover have "m_adaptors (m_synchronisable_events e') = m_adaptors (m_synchronisable_events e)"
    "m_instance_id e' = m_instance_id e"
    by (simp_all add: e'_def sync_defer_def sync_status_defs)
  ultimately show "heap (entity_enqueue_deactivation r h) r = Some e'"
    "HierarchyModule \<in> set (m_adaptors (m_synchronisable_events e)) \<Longrightarrow>
      h_module (entity_enqueue_deactivation r h) = synchronisable_has_event r (m_instance_id e) (h_module h)"
    using assms(1) by (simp_all add: entity_notify_def)
qed

lemma remove_leaf_queued:
  assumes "heap h r = Some e" and "idle_leaf e"
  shows "\<exists>e'. heap (remove_proxy_entity stage_virtuals r h) r = Some e' \<and>
      m_events (m_synchronisable_events e') = [SE_Deactivated, SE_Destroyed] \<and>
      m_adaptors (m_synchronisable_events e') = [DefaultAdaptor, HierarchyModule] \<and>
      \<not> is_factory e' \<and> childless e' \<and> m_is_proxy e' \<and>
      h_module (remove_proxy_entity stage_virtuals r h) =
        synchronisable_has_event r (m_instance_id e') (h_module h)"
proof -
  define h1 where "h1 = (case entity_parent stage_virtuals h r of None \<Rightarrow> h
    | Some p \<Rightarrow> remove_child (set_parent stage_virtuals tree_depth) p r h)"
  have leaf: "\<not> is_factory e" "childless e" "m_is_proxy e" "m_sync_status e = ACTIVATED"
    "m_adaptors (m_synchronisable_events e) = [DefaultAdaptor, HierarchyModule]"
    "m_events (m_synchronisable_events e) = []"
    using assms(2) by (simp_all add: idle_leaf_def is_activated_def)
  obtain par uri where h1: "heap h1 r = Some (e\<lparr>m_parent := par, m_uri := uri\<rparr>)" "h_module h1 = h_module h"
  proof (cases "entity_parent stage_virtuals h r")
    case None
    then show ?thesis using that [of "m_uri e" "m_parent e"] assms(1) by (simp add: h1_def)
  next
    case (Some p)
    then show ?thesis
      using that remove_child_leaf [OF assms(1) leaf(1,2), of tree_depth p] by (auto simp: h1_def)
  qed
  have "get_child_entities stage_virtuals tree_depth (dispatch_leaving r h1) r True True ET_NONE = [r]"
    using leaf_child_entities [of "dispatch_leaving r h1" r "e\<lparr>m_parent := par, m_uri := uri\<rparr>"] h1(1) leaf(2)
    by (simp add: childless_def is_component_def)
  then have rm: "remove_proxy_entity stage_virtuals r h = entity_enqueue_deactivation r (dispatch_leaving r h1)"
    using assms(1) leaf(3)
    by (simp add: remove_proxy_entity_def destroy_entity_complete_def Let_def h1_def [symmetric] entity_test_def)
  define e1 where "e1 = e\<lparr>m_parent := par, m_uri := uri\<rparr>"
  have e1: "m_sync_status e1 = ACTIVATED" "m_synchronisable_events e1 = m_synchronisable_events e"
    "m_class e1 = m_class e" "m_children e1 = m_children e" "m_is_proxy e1"
    using leaf(3,4) by (simp_all add: e1_def)
  have "heap (dispatch_leaving r h1) r = Some e1" "h_module (dispatch_leaving r h1) = h_module h"
    using h1 by (simp_all add: e1_def)
  from enqueue_deactivation_at [OF this(1) e1(1)] this(2) show ?thesis
    unfolding rm using e1 leaf by (auto simp: sync_defer_def sync_status_defs is_factory_def childless_def is_component_def)
qed

lemma process_events_single:
  assumes "m_events (get s) = [e]"
    and "m_events (get (process_event alive run complete (m_adaptors (get s)) e
           (upd (m_events_update (\<lambda>_. [])) s))) = []"
  shows "process_events get upd alive run complete (Suc n) s =
    Some (upd (m_has_event_update (\<lambda>_. False))
      (process_event alive run complete (m_adaptors (get s)) e (upd (m_events_update (\<lambda>_. [])) s)))"
  using assms by (subst process_events.simps, simp, subst process_events.simps) simp

text \<open>The module runs the queue of the leaf, which asks the reaper for its deletion.\<close>

lemma process_leaf:
  assumes "heap h r = Some e" and "m_events (m_synchronisable_events e) = [SE_Deactivated, SE_Destroyed]"
    and "m_adaptors (m_synchronisable_events e) = [DefaultAdaptor, HierarchyModule]" and "\<not> is_factory e"
    and "m_events (m_module_events (h_module h)) = [(r, m_instance_id e)]"
    and "m_adaptors (m_module_events (h_module h)) = [DefaultAdaptor, HierarchyModule]"
    and "m_cleanup_callbacks (h_module h) = []" and "m_dead_syncronisable_IDS (h_module h) = {}"
  shows "\<exists>d. process_events (\<lambda>h. m_module_events (h_module h)) upd_module_events (\<lambda>_. True)
      (run_module_event V) (\<lambda>_ _ h. h) (Suc n) h =
    Some ((upd_entity r torn_down h)
      \<lparr>h_module := (h_module h)\<lparr>m_module_events := d, m_cleanup_callbacks := [(r, m_instance_id e)]\<rparr>\<rparr>)"
proof -
  define g where "g = upd_module_events (m_events_update (\<lambda>_. [])) h"
  define g' where "g' = (upd_entity r torn_down g)\<lparr>h_module := add_cleanup_op (r, m_instance_id e) (h_module g)\<rparr>"
  have g: "heap g r = Some e" "m_dead_syncronisable_IDS (h_module g) = {}"
    using assms(1,8) by (simp_all add: g_def upd_module_events_def)
  have dead: "m_dead_syncronisable_IDS (h_module g') = {}"
    using g(2) by (simp add: g'_def add_cleanup_op_def)
  have run1: "entity_process_events V r g = g'"
    unfolding g'_def using g(1) assms(2-4) by (rule entity_process_teardown)
  have run2: "entity_process_events V r g' = g'"
  proof (rule entity_process_idle)
    show "heap g' r = Some (torn_down e)" using g(1) by (simp add: g'_def)
  qed (use assms(4) in \<open>auto simp: torn_down_def on_deactivation_def sync_status_defs is_factory_def\<close>)
  have pe: "process_event (\<lambda>_. True) (run_module_event V) (\<lambda>_ _ h. h)
      (m_adaptors (m_module_events (h_module h))) (r, m_instance_id e) g = g'"
    unfolding assms(6)
    using g(2) dead by (simp add: process_event_def run_adaptor_def run_module_event_def run1 run2)
  have idle: "m_events (m_module_events (h_module g')) = []"
    by (simp add: g'_def g_def upd_module_events_def add_cleanup_op_def)
  have "process_events (\<lambda>h. m_module_events (h_module h)) upd_module_events (\<lambda>_. True)
      (run_module_event V) (\<lambda>_ _ h. h) (Suc n) h = Some (upd_module_events (m_has_event_update (\<lambda>_. False)) g')"
    using process_events_single [where get = "\<lambda>h. m_module_events (h_module h)" and upd = upd_module_events
        and s = h and alive = "\<lambda>_. True" and run = "run_module_event V" and complete = "\<lambda>_ _ h. h", OF assms(5)]
    unfolding g_def [symmetric] pe using idle by blast
  then show ?thesis
    using assms(7)
    by (intro exI [of _ "flush_events (m_module_events (h_module h))"])
       (simp add: g'_def g_def upd_module_events_def add_cleanup_op_def upd_entity_def flush_events_def)
qed

definition sample_leaf :: entity where
  "sample_leaf = sync_add_adaptor HierarchyModule
     (proxy_activated (sample_entity EC_InputPlug ET_PLUG ''A/B''))"

lemma reap_torn_down:
  assumes "heap h r = Some (torn_down e)" and "m_is_proxy e" and "childless e" and "r \<in> set (m_proxies h)"
    and "i \<notin> m_dead_syncronisable_IDS (h_module h)"
  shows "heap (reap_entity V (r, i) h) r = None" and "r \<notin> set (m_proxies (reap_entity V (r, i) h))"
proof -
  have td: "m_is_proxy (torn_down e)" "m_sync_status (torn_down e) = DESTROYED" "childless (torn_down e)"
    using assms(2,3) by (simp_all add: torn_down_def on_deactivation_def sync_status_defs childless_def is_component_def)
  have none: "get_child_entities V tree_depth ((remove_entity_from_lookup u h)\<lparr>m_proxies := ps\<rparr>) r False True ET_NONE = []"
    for u ps using leaf_child_entities [OF _ td(3), of "(remove_entity_from_lookup u h)\<lparr>m_proxies := ps\<rparr>" r] assms(1) by simp
  show "heap (reap_entity V (r, i) h) r = None" "r \<notin> set (m_proxies (reap_entity V (r, i) h))"
    using assms td none
    by (auto simp: reap_entity_def already_removed_synchronisable_def Let_def entity_test_def delete_entity_def
        dispatch_destroyed_def)
qed

lemma remove_leaf_deleted:
  assumes "hierarchy_ok h" and "heap h r = Some e" and "idle_leaf e" and "r \<in> set (m_proxies h)"
    and "idle_module HierarchyModule (h_module h)"
  shows "\<exists>h'. hierarchy_process_sync_events stage_virtuals 1 (remove_proxy_entity stage_virtuals r h) = Some h' \<and>
    hierarchy_ok h' \<and> heap h' r = None \<and> r \<notin> set (m_proxies h') \<and> (\<forall>u. find_entity h' u \<noteq> Some r)"
proof -
  define g where "g = remove_proxy_entity stage_virtuals r h"
  obtain e' where e': "heap g r = Some e'" "m_events (m_synchronisable_events e') = [SE_Deactivated, SE_Destroyed]"
      "m_adaptors (m_synchronisable_events e') = [DefaultAdaptor, HierarchyModule]"
      "\<not> is_factory e'" "childless e'" "m_is_proxy e'"
      "h_module g = synchronisable_has_event r (m_instance_id e') (h_module h)"
    using remove_leaf_queued [OF assms(2,3)] unfolding g_def by blast
  have p: "preserves h g" unfolding g_def by (rule stage_tree.remove_proxy_ok)
  have ok: "hierarchy_ok g" and prox: "r \<in> set (m_proxies g)"
    using p assms(1,4) by (auto simp: preserves_def)
  have m: "m_events (m_module_events (h_module g)) = [(r, m_instance_id e')]"
    "m_adaptors (m_module_events (h_module g)) = [DefaultAdaptor, HierarchyModule]"
    "m_cleanup_callbacks (h_module g) = []" "m_dead_syncronisable_IDS (h_module g) = {}"
    using assms(5) by (simp_all add: e'(7) synchronisable_has_event_def idle_module_def)
  from process_leaf [OF e'(1-4) m, of stage_virtuals 0] obtain d where
    d: "process_events (\<lambda>h. m_module_events (h_module h)) upd_module_events (\<lambda>_. True)
      (run_module_event stage_virtuals) (\<lambda>_ _ h. h) 1 g =
      Some ((upd_entity r torn_down g)\<lparr>h_module := (h_module g)
        \<lparr>m_module_events := d, m_cleanup_callbacks := [(r, m_instance_id e')]\<rparr>\<rparr>)" by auto
  define k where "k = (upd_entity r torn_down g)
      \<lparr>h_module := (h_module g)\<lparr>m_module_events := d, m_cleanup_callbacks := []\<rparr>\<rparr>"
  define h' where "h' = (let k' = reap_entity stage_virtuals (r, m_instance_id e') k
      in k'\<lparr>h_module := (h_module k')\<lparr>m_dead_syncronisable_IDS := {}\<rparr>\<rparr>)"
  have res: "hierarchy_process_sync_events stage_virtuals 1 g = Some h'"
    unfolding hierarchy_process_sync_events_def d option.case by (simp add: reap_all_def h'_def k_def Let_def)
  have k: "heap k r = Some (torn_down e')" "r \<in> set (m_proxies k)"
    "m_instance_id e' \<notin> m_dead_syncronisable_IDS (h_module k)"
    using e'(1) prox m(4) by (simp_all add: k_def)
  have gone: "heap h' r = None" "r \<notin> set (m_proxies h')"
    using reap_torn_down [OF k(1) e'(6,5) k(2,3)] by (simp_all add: h'_def Let_def)
  have ok': "hierarchy_ok h'" using stage_tree.process_sync_ok(1) [OF ok stage_unpinned res] .
  then have "\<forall>u. find_entity h' u \<noteq> Some r"
    using gone(1) unfolding find_entity_def by (metis lookup_uri [OF ok'])
  then show ?thesis using res gone ok' unfolding g_def by blast
qed

text \<open>
  C26. Removing a proxy removes it for good. The proxy is a plug, or a component or performer without children
  (\<open>idle_leaf\<close>: activated, attached to the hierarchy, with no event of its own pending, and no factory), and
  the module of the hierarchy has nothing else to process. \<open>remove_proxy_entity\<close> then only queues its
  teardown, and the next \<open>process_events\<close> of the module, whose loop terminates after that one event,
  deletes the object, gives up its ownership and leaves no entry for it in the lookup table.
\<close>

theorem remove_proxy_entity_deleted:
  assumes "hierarchy_ok h" and "heap h r = Some e" and "idle_leaf e" and "r \<in> set (m_proxies h)"
    and "idle_module HierarchyModule (h_module h)"
  shows "\<exists>h'. hierarchy_process_sync_events stage_virtuals 1 (remove_proxy_entity stage_virtuals r h) = Some h' \<and>
    hierarchy_ok h' \<and> heap h' r = None \<and> r \<notin> set (m_proxies h') \<and> (\<forall>u. find_entity h' u \<noteq> Some r)"
  by (rule remove_leaf_deleted [OF assms])

theorem remove_proxy_entity_deleted_witness:
  "\<exists>h'. hierarchy_process_sync_events stage_virtuals 1 (remove_proxy_entity stage_virtuals 4
      (sample_hierarchy\<lparr>heap := (heap sample_hierarchy)(4 \<mapsto> sample_leaf), m_proxies := [4]\<rparr>)) = Some h' \<and>
    hierarchy_ok h' \<and> heap h' 4 = None \<and> 4 \<notin> set (m_proxies h') \<and> (\<forall>u. find_entity h' u \<noteq> Some 4)"
proof (rule remove_proxy_entity_deleted)
  show "hierarchy_ok (sample_hierarchy\<lparr>heap := (heap sample_hierarchy)(4 \<mapsto> sample_leaf), m_proxies := [4]\<rparr>)"
    by (auto simp: hierarchy_ok_def lookup_sound_def sample_hierarchy_def sample_leaf_def sample_entity_def
        entity_new_defs proxy_activated_def sync_status_defs cstr_def split: if_splits)
  show "idle_leaf sample_leaf"
    by (simp add: idle_leaf_def childless_def sample_leaf_def sample_entity_def entity_new_defs proxy_activated_def
        sync_status_defs sync_add_adaptor_def add_adaptor_def synchronisable_new_def dispatcher_new_def
        entity_class_defs is_activated_def)
qed (simp_all add: sample_hierarchy_def idle_module_def sync_module_new_def add_adaptor_def dispatcher_new_def)

end
