(* ===== verification/Zst_Session.thy ===== *)
theory Zst_Session
  imports Zst_Hierarchy
begin

text \<open>
  \<open>ZstSession\<close> (\<open>src/src/core/ZstSession.cpp\<close>) and \<open>ZstCable\<close> (\<open>src/src/core/ZstCable.cpp\<close>): the
  cables between plugs, their creation, lookup, destruction and deferred deletion, and what plugs do
  through the session: listing their cables and firing.

  The session owns its cables in \<open>m_cables\<close>, a \<open>std::set\<close> ordered by address; a pointer to a cable is
  its \<open>cable_id\<close>, and a pointer without a cable in the set is dangling. The state of the session
  extends that of its hierarchy.
\<close>

section \<open>State\<close>

record ZstCable = ZstSynchronisable +
  cable_id :: cable_ref
  m_address :: ZstCableAddress
  m_input :: "ref option"
  m_output :: "ref option"

datatype session_event = SV_CableCreated cable_ref | SV_CableDestroyed ZstCableAddress

text \<open>A deferred computation holds the component and the path of the plug, which is looked up when it runs.\<close>

datatype compute_event = CV_Compute ref ZstURI

text \<open>What the synchronisable adaptor of the session can be attached to.\<close>

datatype sync_ref = EntityRef ref | CableRef cable_ref

record session = hierarchy +
  m_cables :: "ZstCable list"
  next_cable :: cable_ref
  m_session_events :: "(adaptor, session_event) dispatcher"
  m_compute_events :: "(adaptor, compute_event) dispatcher"
  m_connected_performers :: "ZstURI list"
  s_module :: "(sync_ref, cable_ref) sync_module"

definition cable_less :: "ZstCable \<Rightarrow> ZstCable \<Rightarrow> bool" where
  "cable_less lhs rhs \<longleftrightarrow> address_less (m_address lhs) (m_address rhs)"

definition cable_new :: "ZstSynchronisable \<Rightarrow> cable_ref \<Rightarrow> ZstCableAddress \<Rightarrow> ref \<Rightarrow> ref \<Rightarrow> ZstCable" where
  "cable_new s c addr input_plug output_plug =
     ZstSynchronisable.extend s
       \<lparr>cable_id = c, m_address = addr, m_input = Some input_plug, m_output = Some output_plug\<rparr>"

definition cable_at :: "'z session_scheme \<Rightarrow> cable_ref \<Rightarrow> ZstCable option" where
  "cable_at s c = find (\<lambda>k. cable_id k = c) (m_cables s)"

definition upd_cable :: "cable_ref \<Rightarrow> (ZstCable \<Rightarrow> ZstCable) \<Rightarrow> 'z session_scheme \<Rightarrow> 'z session_scheme" where
  "upd_cable c f s = s\<lparr>m_cables := map (\<lambda>k. if cable_id k = c then f k else k) (m_cables s)\<rparr>"

definition cable_test :: "(ZstCable \<Rightarrow> bool) \<Rightarrow> 'z session_scheme \<Rightarrow> cable_ref \<Rightarrow> bool" where
  "cable_test P s c = (case cable_at s c of None \<Rightarrow> False | Some k \<Rightarrow> P k)"

section \<open>Cables\<close>

definition cable_is_attached :: "ZstCable \<Rightarrow> ZstURI \<Rightarrow> bool" where
  "cable_is_attached k uri \<longleftrightarrow>
     uri_equal (m_input_URI (m_address k)) uri \<or> uri_equal (m_output_URI (m_address k)) uri"

definition cable_is_attached2 :: "ZstCable \<Rightarrow> ZstURI \<Rightarrow> ZstURI \<Rightarrow> bool" where
  "cable_is_attached2 k uriA uriB \<longleftrightarrow>
     (uri_equal (m_input_URI (m_address k)) uriA \<or> uri_equal (m_input_URI (m_address k)) uriB) \<and>
     (uri_equal (m_output_URI (m_address k)) uriA \<or> uri_equal (m_output_URI (m_address k)) uriB)"

definition cable_is_attached_plugs :: "'z session_scheme \<Rightarrow> ZstCable \<Rightarrow> ref option \<Rightarrow> ref option \<Rightarrow> bool" where
  "cable_is_attached_plugs s k plugA plugB =
     (case (m_input k, m_output k, plugA, plugB) of
        (Some _, Some _, Some a, Some b) \<Rightarrow> cable_is_attached2 k (uri_at s a) (uri_at s b)
      | _ \<Rightarrow> False)"

definition cable_is_attached_plug :: "'z session_scheme \<Rightarrow> ZstCable \<Rightarrow> ref \<Rightarrow> bool" where
  "cable_is_attached_plug s k plug =
     (case (m_input k, m_output k) of
        (Some i, Some out) \<Rightarrow> uri_equal (uri_at s i) (uri_at s plug) \<or> uri_equal (uri_at s out) (uri_at s plug)
      | _ \<Rightarrow> False)"

text \<open>\<open>synchronisable_has_event\<close> of a cable on the modules it is attached to.\<close>

definition cable_sync_op ::
  "(ZstCable \<Rightarrow> ZstCable \<times> bool) \<Rightarrow> cable_ref \<Rightarrow> 'z session_scheme \<Rightarrow> 'z session_scheme" where
  "cable_sync_op f c s =
     (case cable_at s c of
        None \<Rightarrow> s
      | Some k \<Rightarrow>
          (case f k of (k', notify) \<Rightarrow>
             let s' = upd_cable c (\<lambda>_. k') s
             in if notify \<and> SessionModule \<in> set (m_adaptors (m_synchronisable_events k'))
                then s'\<lparr>s_module := synchronisable_has_event (CableRef c) (m_instance_id k') (s_module s')\<rparr>
                else s'))"

definition cable_enqueue_activation :: "cable_ref \<Rightarrow> 'z session_scheme \<Rightarrow> 'z session_scheme" where
  "cable_enqueue_activation = cable_sync_op enqueue_activation"

definition cable_enqueue_deactivation :: "cable_ref \<Rightarrow> 'z session_scheme \<Rightarrow> 'z session_scheme" where
  "cable_enqueue_deactivation = cable_sync_op enqueue_deactivation"

definition cable_disconnect :: "cable_ref \<Rightarrow> 'z session_scheme \<Rightarrow> 'z session_scheme" where
  "cable_disconnect c s = cable_enqueue_deactivation c s"

section \<open>Creation and lookup\<close>

definition session_defer :: "session_event \<Rightarrow> 'z session_scheme \<Rightarrow> 'z session_scheme" where
  "session_defer e s = s\<lparr>m_session_events := defer_event e (m_session_events s)\<rparr>"

definition find_cable_by_URIs :: "'z session_scheme \<Rightarrow> ZstURI \<Rightarrow> ZstURI \<Rightarrow> cable_ref option" where
  "find_cable_by_URIs s input_path output_path =
     map_option cable_id
       (find (\<lambda>k. address_eq (m_address k) (cable_address input_path output_path)) (m_cables s))"

definition find_cable :: "'z session_scheme \<Rightarrow> ZstCableAddress \<Rightarrow> cable_ref option" where
  "find_cable s cable_path = find_cable_by_URIs s (m_input_URI cable_path) (m_output_URI cable_path)"

definition find_cable_by_plugs :: "'z session_scheme \<Rightarrow> ref option \<Rightarrow> ref option \<Rightarrow> cable_ref option" where
  "find_cable_by_plugs s input output =
     (case (input, output) of
        (Some i, Some out) \<Rightarrow> find_cable_by_URIs s (uri_at s i) (uri_at s out)
      | _ \<Rightarrow> None)"

definition get_cables :: "'z session_scheme \<Rightarrow> cable_ref list" where
  "get_cables s = map cable_id (m_cables s)"

text \<open>
  A new cable enters the set: no cable of its address is in it (\<open>insert_new_cable\<close> below), so that the
  iterator \<open>insert\<close> returns points to it. It is made a proxy and activated at once.
\<close>

definition add_new_cable :: "ref \<Rightarrow> ref \<Rightarrow> 'z session_scheme \<Rightarrow> 'z session_scheme \<times> cable_ref" where
  "add_new_cable i out s =
     (let (y, n) = synchronisable_new (s_instance_id_counter s);
          c = next_cable s;
          addr = cable_address (uri_at s i) (uri_at s out);
          k = set_activation_status ACTIVATED
                (set_proxy (sync_add_adaptor SessionModule (cable_new y c addr i out)));
          s1 = s\<lparr>s_instance_id_counter := n, next_cable := c + 1,
                 m_cables := oset_insert cable_less k (m_cables s)\<rparr>;
          s2 = upd_entity out (plug_add_cable addr) (upd_entity i (plug_add_cable addr) s1)
      in (session_defer (SV_CableCreated c) s2, c))"

definition create_cable ::
  "ref option \<Rightarrow> ref option \<Rightarrow> 'z session_scheme \<Rightarrow> 'z session_scheme \<times> cable_ref option" where
  "create_cable input output s =
     (case (input, output) of
        (Some i, Some out) \<Rightarrow>
          (case find_cable s (cable_address (uri_at s i) (uri_at s out)) of
             Some c \<Rightarrow>
               (if \<not> cable_test is_activated s c then cable_enqueue_activation c s else s, Some c)
           | None \<Rightarrow> (case add_new_cable i out s of (s', c) \<Rightarrow> (s', Some c)))
      | _ \<Rightarrow> (s, None))"

definition cable_set_local :: "cable_ref \<Rightarrow> 'z session_scheme \<Rightarrow> 'z session_scheme" where
  "cable_set_local c s = upd_cable c set_proxy s"

definition connect_cable ::
  "ref option \<Rightarrow> ref option \<Rightarrow> 'z session_scheme \<Rightarrow> 'z session_scheme \<times> cable_ref option" where
  "connect_cable input output s =
     (case (input, output) of
        (Some i, Some out) \<Rightarrow>
          if \<not> entity_test is_activated s i then (s, None)
          else if \<not> entity_test is_activated s out then (s, None)
          else if entity_test (\<lambda>e. m_direction e \<noteq> IN_JACK) s i \<or> entity_test (\<lambda>e. m_direction e \<noteq> OUT_JACK) s out
          then (s, None)
          else
            (case create_cable (Some i) (Some out) s of
               (s1, None) \<Rightarrow> (s1, None)
             | (s1, Some c) \<Rightarrow>
                 let s2 = upd_cable c set_activating s1
                 in (if \<not> entity_test m_is_proxy s2 i \<or> \<not> entity_test m_is_proxy s2 out
                     then cable_set_local c s2 else s2, Some c))
      | _ \<Rightarrow> (s, None))"

section \<open>Destruction\<close>

definition find_as ::
  "(entity \<Rightarrow> bool) \<Rightarrow> ('z session_scheme) hierarchy_virtuals \<Rightarrow> 'z session_scheme \<Rightarrow> ZstURI \<Rightarrow> ref option" where
  \<comment> \<open>\<open>dynamic_cast\<close> of the entity that is found\<close>
  "find_as P V s u =
     (case v_find_entity V s u of None \<Rightarrow> None | Some r \<Rightarrow> if entity_test P s r then Some r else None)"

definition plug_forget :: "ref option \<Rightarrow> ZstCableAddress \<Rightarrow> 'z session_scheme \<Rightarrow> 'z session_scheme" where
  "plug_forget p addr s = (case p of None \<Rightarrow> s | Some r \<Rightarrow> upd_entity r (plug_remove_cable addr) s)"

definition destroy_cable_complete ::
  "('z session_scheme) hierarchy_virtuals \<Rightarrow> cable_ref option \<Rightarrow> 'z session_scheme \<Rightarrow> 'z session_scheme" where
  "destroy_cable_complete V cable s =
     (case cable of
        None \<Rightarrow> s
      | Some c \<Rightarrow>
          (case cable_at s c of
             None \<Rightarrow> s
           | Some k \<Rightarrow>
               let addr = m_address k;
                   input = find_as is_input_plug V s (m_input_URI addr);
                   output = find_as is_output_plug V s (m_output_URI addr)
               in cable_enqueue_deactivation c
                    (session_defer (SV_CableDestroyed addr)
                      (plug_forget output addr (plug_forget input addr s)))))"

text \<open>The adaptor call of a destroyed synchronisable, and the cleanup operation of a cable.\<close>

definition session_on_synchronisable_destroyed ::
  "sync_ref \<Rightarrow> bool \<Rightarrow> 'z session_scheme \<Rightarrow> 'z session_scheme" where
  "session_on_synchronisable_destroyed p already_removed s =
     (if already_removed then s
      else case p of
             CableRef c \<Rightarrow> s\<lparr>s_module := add_cleanup_op c (s_module s)\<rparr>
           | EntityRef r \<Rightarrow>
               if entity_test m_is_proxy s r then s\<lparr>s_module := reaper_add p (s_module s)\<rparr> else s)"

definition reap_cable :: "cable_ref \<Rightarrow> 'z session_scheme \<Rightarrow> 'z session_scheme" where
  "reap_cable c s =
     (case cable_at s c of
        None \<Rightarrow> s
      | Some k \<Rightarrow> s\<lparr>m_cables := oset_erase cable_less k (m_cables s)\<rparr>)"

section \<open>Entities of the session\<close>

text \<open>\<open>register_entity\<close> of the session lets an entity and its children query the session.\<close>

definition attach_session :: "entity \<Rightarrow> entity" where
  "attach_session e = e\<lparr>m_session_adaptors := attach_adaptor SessionModule (m_session_adaptors e)\<rparr>"

definition session_register_entity ::
  "('z session_scheme) hierarchy_virtuals \<Rightarrow> ref \<Rightarrow> 'z session_scheme \<Rightarrow> 'z session_scheme" where
  "session_register_entity V r s =
     fold (\<lambda>c. upd_entity c attach_session) (get_child_entities V tree_depth s r True True ET_NONE) s"

definition listening_to_performer :: "'z session_scheme \<Rightarrow> ZstURI \<Rightarrow> bool" where
  "listening_to_performer s performer_path \<longleftrightarrow> oset_member uri_less performer_path (m_connected_performers s)"

definition add_connected_performer :: "ZstURI \<Rightarrow> 'z session_scheme \<Rightarrow> 'z session_scheme" where
  "add_connected_performer performer_path s =
     (if uri_is_empty performer_path then s
      else s\<lparr>m_connected_performers := oset_insert uri_less performer_path (m_connected_performers s)\<rparr>)"

definition remove_connected_performer :: "ZstURI \<Rightarrow> 'z session_scheme \<Rightarrow> 'z session_scheme" where
  "remove_connected_performer performer_path s =
     (if uri_is_empty performer_path then s
      else s\<lparr>m_connected_performers := oset_erase uri_less performer_path (m_connected_performers s)\<rparr>)"

definition observe_entity :: "'z session_scheme \<Rightarrow> ref \<Rightarrow> zst_exn + bool" where
  "observe_entity s r =
     (if \<not> entity_test m_is_proxy s r then Inr False
      else case uri_first (uri_at s r) of
             Inl e \<Rightarrow> Inl e
           | Inr performer_path \<Rightarrow> Inr (\<not> listening_to_performer s performer_path))"

text \<open>
  The cables of a plug, as the session it is attached to finds them, and of all plugs below a
  component; \<open>n\<close> bounds the levels below it.
\<close>

definition plug_child_cables :: "'z session_scheme \<Rightarrow> entity \<Rightarrow> cable_ref list \<Rightarrow> cable_ref list" where
  "plug_child_cables s e bundle =
     fold (\<lambda>cable_path bundle.
        if SessionModule \<notin> set (m_session_adaptors e) then bundle
        else case find_cable s cable_path of
               None \<Rightarrow> bundle
             | Some c \<Rightarrow>
                 if list_ex (cable_test (\<lambda>k. address_eq (m_address k) cable_path) s) bundle then bundle
                 else bundle @ [c])
       (m_plug_cables e) bundle"

fun get_child_cables ::
  "('z session_scheme) hierarchy_virtuals \<Rightarrow> nat \<Rightarrow> 'z session_scheme \<Rightarrow> ref \<Rightarrow> cable_ref list \<Rightarrow> cable_ref list" where
  "get_child_cables V n s r bundle =
     (case heap s r of
        None \<Rightarrow> bundle
      | Some e \<Rightarrow>
          if is_plug e then plug_child_cables s e bundle
          else if is_component e
          then (case n of
                  0 \<Rightarrow> bundle
                | Suc m \<Rightarrow>
                    fold (get_child_cables V m s) (get_child_entities V tree_depth s r False True ET_NONE) bundle)
          else bundle)"

declare get_child_cables.simps [simp del]

section \<open>Event processing\<close>

text \<open>\<open>process_events\<close> of a cable; the virtual activation callbacks of a cable are empty.\<close>

definition run_cable_event ::
  "cable_ref \<Rightarrow> sync_event \<Rightarrow> adaptor \<Rightarrow> 'z session_scheme \<Rightarrow> 'z session_scheme \<times> bool" where
  "run_cable_event c ev a s =
     (let s1 = upd_cable c (sync_event_status ev) s
      in (if ev = SE_Destroyed \<and> a = SessionModule
          then session_on_synchronisable_destroyed (CableRef c) False s1 else s1, True))"

definition cable_process_events :: "cable_ref \<Rightarrow> 'z session_scheme \<Rightarrow> 'z session_scheme" where
  "cable_process_events c s =
     (case cable_at s c of
        None \<Rightarrow> s
      | Some k \<Rightarrow>
          let d = m_synchronisable_events k
          in fold (process_event (\<lambda>_. True) (run_cable_event c) (\<lambda>_ _ s. s) (m_adaptors d)) (m_events d)
               (upd_cable c (\<lambda>k. k\<lparr>m_synchronisable_events := flush_events d\<rparr>) s))"

definition run_session_module_event ::
  "('z session_scheme) hierarchy_virtuals \<Rightarrow> sync_ref \<times> instance_id \<Rightarrow> adaptor \<Rightarrow> 'z session_scheme \<Rightarrow>
   'z session_scheme \<times> bool" where
  "run_session_module_event V pi a s =
     (if snd pi \<in> m_dead_syncronisable_IDS (s_module s) then s
      else case fst pi of CableRef c \<Rightarrow> cable_process_events c s | EntityRef r \<Rightarrow> entity_process_events V r s,
      True)"

definition upd_s_module_events ::
  "((adaptor, sync_ref \<times> instance_id) dispatcher \<Rightarrow> (adaptor, sync_ref \<times> instance_id) dispatcher) \<Rightarrow>
   'z session_scheme \<Rightarrow> 'z session_scheme" where
  "upd_s_module_events f s = s\<lparr>s_module := (s_module s)\<lparr>m_module_events := f (m_module_events (s_module s))\<rparr>\<rparr>"

text \<open>Only entities are handed to the reaper itself; cables are erased by their cleanup operation.\<close>

definition session_reap_all ::
  "('z session_scheme) hierarchy_virtuals \<Rightarrow> 'z session_scheme \<Rightarrow> 'z session_scheme" where
  "session_reap_all V s =
     (let s1 = fold reap_cable (m_cleanup_callbacks (s_module s))
                 (s\<lparr>s_module := (s_module s)\<lparr>m_cleanup_callbacks := []\<rparr>\<rparr>);
          s2 = fold (\<lambda>p s. case p of EntityRef r \<Rightarrow> delete_entity V r s | CableRef _ \<Rightarrow> s)
                 (m_items_to_reap (s_module s1)) s1
      in s2\<lparr>s_module := (s_module s2)\<lparr>m_items_to_reap := []\<rparr>\<rparr>)"

definition session_process_sync_events ::
  "('z session_scheme) hierarchy_virtuals \<Rightarrow> nat \<Rightarrow> 'z session_scheme \<Rightarrow> 'z session_scheme option" where
  "session_process_sync_events V n s =
     (case process_events (\<lambda>s. m_module_events (s_module s)) upd_s_module_events (\<lambda>_. True)
             (run_session_module_event V) (\<lambda>_ _ s. s) n s of
        None \<Rightarrow> None
      | Some s1 \<Rightarrow>
          let s2 = session_reap_all V s1
          in Some (s2\<lparr>s_module := (s_module s2)\<lparr>m_dead_syncronisable_IDS := {}\<rparr>\<rparr>))"

text \<open>
  The session and compute queues. A session event only reaches the callbacks of the application;
  \<open>compute\<close> is the \<open>compute\<close> method of the application's component, which may raise.
\<close>

definition upd_session_events ::
  "((adaptor, session_event) dispatcher \<Rightarrow> (adaptor, session_event) dispatcher) \<Rightarrow>
   'z session_scheme \<Rightarrow> 'z session_scheme" where
  "upd_session_events f s = s\<lparr>m_session_events := f (m_session_events s)\<rparr>"

definition upd_compute_events ::
  "((adaptor, compute_event) dispatcher \<Rightarrow> (adaptor, compute_event) dispatcher) \<Rightarrow>
   'z session_scheme \<Rightarrow> 'z session_scheme" where
  "upd_compute_events f s = s\<lparr>m_compute_events := f (m_compute_events s)\<rparr>"

definition run_compute_event ::
  "('z session_scheme) hierarchy_virtuals \<Rightarrow> (ref \<Rightarrow> ref \<Rightarrow> 'z session_scheme \<Rightarrow> 'z session_scheme) \<Rightarrow> compute_event \<Rightarrow> adaptor \<Rightarrow>
   'z session_scheme \<Rightarrow> 'z session_scheme \<times> bool" where
  "run_compute_event V compute ev a s =
     (case ev of
        CV_Compute component plug_path \<Rightarrow>
          ((case v_find_entity V s plug_path of
              None \<Rightarrow> s
            | Some plug \<Rightarrow> if a = SessionModule then compute component plug s else s), True))"

definition session_process_own_events ::
  "('z session_scheme) hierarchy_virtuals \<Rightarrow> (ref \<Rightarrow> ref \<Rightarrow> 'z session_scheme \<Rightarrow> 'z session_scheme) \<Rightarrow> nat \<Rightarrow> 'z session_scheme \<Rightarrow> 'z session_scheme option" where
  "session_process_own_events V compute n s =
     Option.bind
       (process_events m_session_events upd_session_events (\<lambda>_. True) (\<lambda>_ _ s. (s, True)) (\<lambda>_ _ s. s) n s)
       (process_events m_compute_events upd_compute_events (\<lambda>_. True) (run_compute_event V compute) (\<lambda>_ _ s. s) n)"

interpretation session_queue:
  quiet_dispatcher m_session_events upd_session_events "\<lambda>_. True" "\<lambda>_ _ s. (s, True)" "\<lambda>_ _ s. s"
  by unfold_locales (simp_all add: upd_session_events_def)

section \<open>The invariant of the cable set\<close>

text \<open>
  \<open>cables_ok\<close>: the set is sorted, holds at most one cable for each pair of plug paths, and pointers to
  its cables are distinct and below \<open>next_cable\<close>.
\<close>

definition cables_ok :: "'z session_scheme \<Rightarrow> bool" where
  "cables_ok s \<longleftrightarrow>
     sorted_wrt cable_less (m_cables s) \<and> inj_on cable_id (set (m_cables s)) \<and>
     (\<forall>k\<in>set (m_cables s). cable_id k < next_cable s) \<and>
     (\<forall>k\<in>set (m_cables s). \<forall>l\<in>set (m_cables s). address_eq (m_address k) (m_address l) \<longrightarrow> k = l)"

interpretation cable_order: keyed_order cable_less "\<lambda>k. address_key (m_address k)"
  by unfold_locales (simp add: cable_less_def cable_set.lt_key)

lemma address_eq_sym: "address_eq a b \<longleftrightarrow> address_eq b a"
  by (auto simp: address_eq_def uri_equal_path)

lemma address_eq_trans: "address_eq a b \<Longrightarrow> address_eq b c \<Longrightarrow> address_eq a c"
  by (auto simp: address_eq_def uri_equal_path)

lemma address_eq_refl [simp]: "address_eq a a"
  by (simp add: address_eq_def uri_equal_path)

lemma address_key_address_eq: "address_key a = address_key b \<Longrightarrow> address_eq a b"
  by (simp add: address_key_def address_eq_def uri_equal_path uri_path_def)

lemma uri_copy_copy [simp]: "uri_copy (uri_copy u) = uri_copy u"
  by (simp add: uri_copy_def uri_init_def create_pstr_n_def)

lemma cable_address_copy [simp]:
  "cable_address (m_input_URI (cable_address i out)) (m_output_URI (cable_address i out)) = cable_address i out"
  by (simp add: cable_address_def)

text \<open>The changes a cable sees do not touch its pointer or its address.\<close>

definition cable_frame :: "(ZstCable \<Rightarrow> ZstCable) \<Rightarrow> bool" where
  "cable_frame f \<longleftrightarrow> (\<forall>k. cable_id (f k) = cable_id k \<and> m_address (f k) = m_address k)"

lemma upd_cable_ok:
  assumes "cables_ok s" and "cable_frame f"
  shows "cables_ok (upd_cable c f s)"
proof -
  define g where "g = (\<lambda>k. if cable_id k = c then f k else k)"
  have g: "cable_id (g k) = cable_id k" "m_address (g k) = m_address k" for k
    using assms(2) by (auto simp: g_def cable_frame_def)
  have u: "upd_cable c f s = s\<lparr>m_cables := map g (m_cables s)\<rparr>" by (simp add: upd_cable_def g_def)
  have ok: "inj_on cable_id (set (m_cables s))" "\<And>k. k \<in> set (m_cables s) \<Longrightarrow> cable_id k < next_cable s"
    "\<And>k l. k \<in> set (m_cables s) \<Longrightarrow> l \<in> set (m_cables s) \<Longrightarrow> address_eq (m_address k) (m_address l) \<Longrightarrow> k = l"
    using assms(1) by (auto simp: cables_ok_def)
  have "sorted_wrt cable_less (map g (m_cables s))"
    using assms(1) g by (simp add: cables_ok_def sorted_wrt_map cable_less_def [abs_def])
  moreover have "inj_on cable_id (g ` set (m_cables s))" using ok(1) g by (auto simp: inj_on_def)
  moreover have "g k = g l" if "k \<in> set (m_cables s)" "l \<in> set (m_cables s)"
    "address_eq (m_address (g k)) (m_address (g l))" for k l
    using ok(3) [OF that(1,2)] that(3) g by simp
  moreover have "\<forall>k\<in>g ` set (m_cables s). cable_id k < next_cable s" using ok(2) g by simp
  ultimately show ?thesis unfolding cables_ok_def u by simp
qed

lemma cable_at_id: "cable_at s c = Some k \<Longrightarrow> k \<in> set (m_cables s) \<and> cable_id k = c"
  by (auto simp: cable_at_def find_Some_iff)

lemma cable_at_mem:
  assumes "cables_ok s" and "k \<in> set (m_cables s)"
  shows "cable_at s (cable_id k) = Some k"
proof -
  obtain l where l: "cable_at s (cable_id k) = Some l"
    using assms(2) by (cases "cable_at s (cable_id k)") (auto simp: cable_at_def find_None_iff)
  then have "l = k"
    using cable_at_id [OF l] assms by (auto simp: cables_ok_def inj_on_def)
  with l show ?thesis by simp
qed

lemma cable_at_upd:
  "cable_frame f \<Longrightarrow> cable_at (upd_cable c f s) d = (if d = c then map_option f (cable_at s c) else cable_at s d)"
proof -
  assume "cable_frame f"
  then have "find (\<lambda>k. cable_id k = d) (map (\<lambda>k. if cable_id k = c then f k else k) ks) =
      (if d = c then map_option f (find (\<lambda>k. cable_id k = c) ks) else find (\<lambda>k. cable_id k = d) ks)" for ks
    by (induction ks) (auto simp: cable_frame_def)
  then show ?thesis by (simp add: cable_at_def upd_cable_def)
qed

lemma find_cable_address: "find_cable s (cable_address i out) =
    map_option cable_id (find (\<lambda>k. address_eq (m_address k) (cable_address i out)) (m_cables s))"
  by (simp add: find_cable_def find_cable_by_URIs_def)

lemma upd_cable_find:
  assumes "cable_frame f"
  shows "find_cable (upd_cable c f s) a = find_cable s a"
proof -
  have "map_option cable_id (find (\<lambda>k. address_eq (m_address k) b)
          (map (\<lambda>k. if cable_id k = c then f k else k) ks)) =
      map_option cable_id (find (\<lambda>k. address_eq (m_address k) b) ks)" for b ks
    using assms by (induction ks) (auto simp: cable_frame_def)
  then show ?thesis by (simp add: find_cable_def find_cable_by_URIs_def upd_cable_def)
qed

lemma more_session:
  assumes "hierarchy.more s' = hierarchy.more s"
  shows "m_cables s' = m_cables s" "next_cable s' = next_cable s" "m_session_events s' = m_session_events s"
    "s_module s' = s_module s" "session.more s' = session.more s"
  using assms by (cases s; cases s'; simp)+

lemma cables_ok_more: "cables_ok s \<Longrightarrow> hierarchy.more s' = hierarchy.more s \<Longrightarrow> cables_ok s'"
  using more_session [of s' s] by (simp add: cables_ok_def)

lemma cable_frame_sync:
  "cable_frame set_proxy" "cable_frame set_activating" "cable_frame (sync_event_status ev)"
  "cable_frame (\<lambda>k. k\<lparr>m_synchronisable_events := d\<rparr>)"
  "cable_frame (\<lambda>k. fst (enqueue_activation k))" "cable_frame (\<lambda>k. fst (enqueue_deactivation k))"
  by (cases ev; simp add: cable_frame_def sync_op_defs)+

lemma upd_cable_at: "cable_at s c = Some k \<Longrightarrow> cables_ok s \<Longrightarrow> upd_cable c (\<lambda>_. f k) s = upd_cable c f s"
proof -
  assume "cable_at s c = Some k" and "cables_ok s"
  then have "l = k" if "l \<in> set (m_cables s)" "cable_id l = c" for l
    using cable_at_mem [OF \<open>cables_ok s\<close> that(1)] that(2) by simp
  then show ?thesis by (auto simp: upd_cable_def intro!: session.equality)
qed

lemma cable_sync_op_ok:
  assumes "cables_ok s" and "cable_frame (\<lambda>k. fst (f k))"
  shows "cables_ok (cable_sync_op f c s)"
proof (cases "cable_at s c")
  case None
  then show ?thesis using assms(1) by (simp add: cable_sync_op_def)
next
  case (Some k)
  have "cables_ok (upd_cable c (\<lambda>k. fst (f k)) s)" using assms by (rule upd_cable_ok)
  then have "cables_ok (upd_cable c (\<lambda>_. fst (f k)) s)"
    using upd_cable_at [OF Some assms(1), of "\<lambda>k. fst (f k)"] by simp
  moreover have "cables_ok (g\<lparr>s_module := m\<rparr>) = cables_ok g" for g :: "'a session_scheme" and m
    by (simp add: cables_ok_def)
  ultimately show ?thesis
    using Some by (cases "f k") (simp add: cable_sync_op_def Let_def)
qed

lemma cables_ok_defer [simp]: "cables_ok (session_defer e s) = cables_ok s"
  by (simp add: session_defer_def cables_ok_def)

lemma cables_ok_upd_entity [simp]: "cables_ok (upd_entity r f s) = cables_ok s"
  by (simp add: cables_ok_def upd_entity_def)

text \<open>A cable whose pair of plugs has none yet is really inserted.\<close>

lemma insert_new_cable:
  assumes "cables_ok s" and "\<forall>l\<in>set (m_cables s). \<not> address_eq (m_address l) (m_address k)"
    and "cable_id k = next_cable s"
  shows "set (oset_insert cable_less k (m_cables s)) = insert k (set (m_cables s))"
    and "cables_ok (s\<lparr>next_cable := next_cable s + 1, m_cables := oset_insert cable_less k (m_cables s)\<rparr>)"
proof -
  have sorted: "sorted_wrt cable_less (m_cables s)" using assms(1) by (simp add: cables_ok_def)
  have "\<not> cable_order.equivalent k l" if "l \<in> set (m_cables s)" for l
  proof -
    have "\<not> address_eq (m_address k) (m_address l)" using assms(2) that address_eq_sym by blast
    then show ?thesis using address_key_address_eq by (auto simp: cable_order.equivalent_key)
  qed
  then show set: "set (oset_insert cable_less k (m_cables s)) = insert k (set (m_cables s))"
    using cable_order.mem_oset_insert [OF sorted] by blast
  have ok: "inj_on cable_id (set (m_cables s))" "\<And>l. l \<in> set (m_cables s) \<Longrightarrow> cable_id l < next_cable s"
    "\<And>k l. k \<in> set (m_cables s) \<Longrightarrow> l \<in> set (m_cables s) \<Longrightarrow> address_eq (m_address k) (m_address l) \<Longrightarrow> k = l"
    using assms(1) by (auto simp: cables_ok_def)
  have "inj_on cable_id (insert k (set (m_cables s)))"
    using ok(1) assms(3) less_irrefl ok(2) unfolding inj_on_insert by force
  moreover have "address_eq (m_address k') (m_address l) \<longrightarrow> k' = l"
    if "k' \<in> insert k (set (m_cables s))" "l \<in> insert k (set (m_cables s))" for k' l
    using that assms(2) ok(3) address_eq_sym by blast
  ultimately show "cables_ok (s\<lparr>next_cable := next_cable s + 1, m_cables := oset_insert cable_less k (m_cables s)\<rparr>)"
    using cable_order.sorted_oset_insert [OF sorted] ok(2) assms(3)
    by (simp add: cables_ok_def set less_SucI)
qed

lemma find_cable_None:
  "find_cable s (cable_address i out) = None \<longleftrightarrow>
   (\<forall>k\<in>set (m_cables s). \<not> address_eq (m_address k) (cable_address i out))"
  by (auto simp: find_cable_address find_None_iff)

lemma find_cable_Some:
  assumes "cables_ok s"
  shows "find_cable s (cable_address i out) = Some c \<longleftrightarrow>
    (\<exists>k\<in>set (m_cables s). cable_id k = c \<and> address_eq (m_address k) (cable_address i out))"
proof
  assume "find_cable s (cable_address i out) = Some c"
  then show "\<exists>k\<in>set (m_cables s). cable_id k = c \<and> address_eq (m_address k) (cable_address i out)"
    by (auto simp: find_cable_address find_Some_iff)
next
  assume "\<exists>k\<in>set (m_cables s). cable_id k = c \<and> address_eq (m_address k) (cable_address i out)"
  then obtain k where k: "k \<in> set (m_cables s)" "cable_id k = c" "address_eq (m_address k) (cable_address i out)"
    by blast
  then obtain l where l: "find (\<lambda>k. address_eq (m_address k) (cable_address i out)) (m_cables s) = Some l"
    by (cases "find (\<lambda>k. address_eq (m_address k) (cable_address i out)) (m_cables s)")
       (auto simp: find_None_iff)
  then have "l \<in> set (m_cables s)" "address_eq (m_address l) (cable_address i out)"
    by (auto simp: find_Some_iff)
  then have "l = k"
    using assms k address_eq_trans address_eq_sym unfolding cables_ok_def by blast
  then show "find_cable s (cable_address i out) = Some c" using k(2) l by (simp add: find_cable_address)
qed

lemma upd_cable_ids: "cable_frame f \<Longrightarrow> get_cables (upd_cable c f s) = get_cables s"
  by (simp add: get_cables_def upd_cable_def cable_frame_def)

lemma cable_sync_op_frame:
  assumes "cables_ok s" and "cable_frame (\<lambda>k. fst (f k))"
  shows "get_cables (cable_sync_op f c s) = get_cables s" and "find_cable (cable_sync_op f c s) a = find_cable s a"
    and "heap (cable_sync_op f c s) = heap s"
proof -
  let ?t = "upd_cable c (\<lambda>k. fst (f k)) s"
  have "get_cables (cable_sync_op f c s) = get_cables s \<and> find_cable (cable_sync_op f c s) a = find_cable s a \<and>
      heap (cable_sync_op f c s) = heap s"
  proof (cases "cable_at s c")
    case None
    then show ?thesis by (simp add: cable_sync_op_def)
  next
    case (Some k)
    have "upd_cable c (\<lambda>_. fst (f k)) s = ?t" using upd_cable_at [OF Some assms(1)] .
    then have t: "m_cables (cable_sync_op f c s) = m_cables ?t" "heap (cable_sync_op f c s) = heap ?t"
      using Some by (cases "f k"; simp add: cable_sync_op_def Let_def)+
    have "get_cables (cable_sync_op f c s) = get_cables ?t" "find_cable (cable_sync_op f c s) a = find_cable ?t a"
      "heap ?t = heap s"
      by (simp_all add: get_cables_def find_cable_def find_cable_by_URIs_def t) (simp add: upd_cable_def)
    then show ?thesis using t(2) by (simp add: upd_cable_ids [OF assms(2)] upd_cable_find [OF assms(2)])
  qed
  then show "get_cables (cable_sync_op f c s) = get_cables s" "find_cable (cable_sync_op f c s) a = find_cable s a"
    "heap (cable_sync_op f c s) = heap s" by blast+
qed

definition new_cable :: "ref \<Rightarrow> ref \<Rightarrow> 'z session_scheme \<Rightarrow> ZstCable" where
  "new_cable i out s =
     set_activation_status ACTIVATED (set_proxy (sync_add_adaptor SessionModule
       (cable_new (fst (synchronisable_new (s_instance_id_counter s))) (next_cable s)
          (cable_address (uri_at s i) (uri_at s out)) i out)))"

lemma new_cable_simps [simp]:
  "cable_id (new_cable i out s) = next_cable s"
  "m_address (new_cable i out s) = cable_address (uri_at s i) (uri_at s out)"
  "m_input (new_cable i out s) = Some i" "m_output (new_cable i out s) = Some out"
  "m_sync_status (new_cable i out s) = ACTIVATED" "m_is_proxy (new_cable i out s)"
  by (simp_all add: new_cable_def cable_new_def sync_status_defs sync_add_adaptor_def ZstSynchronisable.defs)

lemma add_new_cable_result:
  assumes "cables_ok s" and "find_cable s (cable_address (uri_at s i) (uri_at s out)) = None"
    and "add_new_cable i out s = (s', c)"
  shows "c = next_cable s" and "set (m_cables s') = insert (new_cable i out s) (set (m_cables s))" and "cables_ok s'"
    and "heap s' = heap (upd_entity out (plug_add_cable (cable_address (uri_at s i) (uri_at s out)))
      (upd_entity i (plug_add_cable (cable_address (uri_at s i) (uri_at s out))) s))"
proof -
  let ?k = "new_cable i out s" and ?a = "cable_address (uri_at s i) (uri_at s out)"
  have no: "\<forall>l\<in>set (m_cables s). \<not> address_eq (m_address l) (m_address ?k)"
    using assms(2) by (simp add: find_cable_None)
  let ?n = "s_instance_id_counter s + 1"
  have s': "s' = session_defer (SV_CableCreated (next_cable s))
      (upd_entity out (plug_add_cable ?a) (upd_entity i (plug_add_cable ?a)
        (s\<lparr>s_instance_id_counter := ?n, next_cable := next_cable s + 1,
           m_cables := oset_insert cable_less ?k (m_cables s)\<rparr>)))" "c = next_cable s"
    using assms(3) by (auto simp: add_new_cable_def Let_def new_cable_def synchronisable_new_def)
  show "c = next_cable s" by (rule s')
  show "set (m_cables s') = insert ?k (set (m_cables s))"
    using insert_new_cable(1) [OF assms(1) no] by (simp add: s'(1) session_defer_def upd_entity_def)
  have "cables_ok (s\<lparr>s_instance_id_counter := ?n, next_cable := next_cable s + 1,
           m_cables := oset_insert cable_less ?k (m_cables s)\<rparr>)"
    using insert_new_cable(2) [OF assms(1) no] by (simp add: cables_ok_def)
  then show "cables_ok s'" by (simp add: s'(1))
  show "heap s' = heap (upd_entity out (plug_add_cable ?a) (upd_entity i (plug_add_cable ?a) s))"
    by (simp add: s'(1) session_defer_def upd_entity_def)
qed

lemma create_cable_cases:
  assumes "cables_ok s"
  shows "\<exists>s' c. create_cable (Some i) (Some out) s = (s', Some c) \<and> cables_ok s' \<and>
    find_cable s' (cable_address (uri_at s i) (uri_at s out)) = Some c \<and>
    set (get_cables s') = insert c (set (get_cables s)) \<and>
    (c \<in> set (get_cables s) \<longleftrightarrow> find_cable s (cable_address (uri_at s i) (uri_at s out)) = Some c) \<and>
    (\<forall>r. uri_at s' r = uri_at s r)"
proof (cases "find_cable s (cable_address (uri_at s i) (uri_at s out))")
  case (Some c)
  then have c: "c \<in> set (get_cables s)" by (auto simp: find_cable_Some [OF assms] get_cables_def)
  let ?s = "cable_enqueue_activation c s"
  note fr = cable_sync_op_frame [OF assms cable_frame_sync(5)]
  have "cables_ok ?s" "find_cable ?s a = find_cable s a" "get_cables ?s = get_cables s" "uri_at ?s r = uri_at s r" for a r
    unfolding cable_enqueue_activation_def using fr cable_sync_op_ok [OF assms cable_frame_sync(5)]
    by (simp_all add: uri_at_def)
  then show ?thesis using Some c assms by (auto simp: create_cable_def)
next
  case None
  obtain s' c where s': "add_new_cable i out s = (s', c)" by (cases "add_new_cable i out s")
  note res = add_new_cable_result [OF assms None s']
  have "find_cable s' (cable_address (uri_at s i) (uri_at s out)) = Some c"
    using res(1,2) by (auto simp: find_cable_Some [OF res(3)])
  moreover have "uri_at s' r = uri_at s r" for r
    by (simp add: uri_at_def res(4)) (simp add: plug_add_cable_def split: option.split)
  moreover have "c \<notin> set (get_cables s)"
    using assms res(1) by (auto simp: cables_ok_def get_cables_def)
  moreover have "set (get_cables s') = insert c (set (get_cables s))"
    using res(1,2) by (simp add: get_cables_def)
  ultimately show ?thesis using None s' res(3) by (auto simp: create_cable_def)
qed

section \<open>Destruction keeps the invariant\<close>

lemma cables_ok_s_module [simp]: "cables_ok (s\<lparr>s_module := m\<rparr>) = cables_ok s"
  by (simp add: cables_ok_def)

lemma plug_forget_ok [simp]: "cables_ok (plug_forget p a s) = cables_ok s"
  by (simp add: plug_forget_def split: option.split)

lemma destroy_cable_ok: "cables_ok s \<Longrightarrow> cables_ok (destroy_cable_complete V cable s)"
  by (auto simp: destroy_cable_complete_def Let_def cable_enqueue_deactivation_def
      intro!: cable_sync_op_ok cable_frame_sync split: option.split)

lemma on_destroyed_cables [simp]:
  "m_cables (session_on_synchronisable_destroyed p b s) = m_cables s"
  "next_cable (session_on_synchronisable_destroyed p b s) = next_cable s"
  by (simp_all add: session_on_synchronisable_destroyed_def split: sync_ref.split)

lemma on_destroyed_ok: "cables_ok s \<Longrightarrow> cables_ok (session_on_synchronisable_destroyed p b s)"
  by (simp add: cables_ok_def)

lemma cable_process_ok:
  assumes "cables_ok s"
  shows "cables_ok (cable_process_events c s)"
proof -
  have run: "cables_ok (fst (run_cable_event d ev a t))" if "cables_ok t" for d ev a and t :: "'a session_scheme"
    using upd_cable_ok [OF that cable_frame_sync(3), of d ev] on_destroyed_ok
    by (simp add: run_cable_event_def Let_def) blast
  have "cables_ok (process_event (\<lambda>_. True) (run_cable_event d) (\<lambda>_ _ s. s) as e t)"
    if "cables_ok t" for d as e and t :: "'a session_scheme"
    using that by (rule process_event_invariant) (rule run)
  then have "cables_ok (fold (process_event (\<lambda>_. True) (run_cable_event d) (\<lambda>_ _ s. s) as) es t)"
    if "cables_ok t" for d as es and t :: "'a session_scheme"
    using that by (rule fold_invariant [where I = cables_ok, rotated])
  then show ?thesis
    using assms upd_cable_ok [OF assms cable_frame_sync(4)]
    by (simp add: cable_process_events_def Let_def split: option.split)
qed

lemma reap_cable_ok:
  assumes "cables_ok s"
  shows "cables_ok (reap_cable c s)" and "set (get_cables (reap_cable c s)) = set (get_cables s) - {c}"
proof -
  have "cables_ok (reap_cable c s) \<and> set (get_cables (reap_cable c s)) = set (get_cables s) - {c}"
  proof (cases "cable_at s c")
    case None
    then have "reap_cable c s = s" "c \<notin> set (get_cables s)"
      by (auto simp: reap_cable_def) (auto simp: cable_at_def find_None_iff get_cables_def)
    then show ?thesis using assms by simp
  next
    case (Some k)
    have ok: "sorted_wrt cable_less (m_cables s)" "inj_on cable_id (set (m_cables s))"
      "\<And>k l. k \<in> set (m_cables s) \<Longrightarrow> l \<in> set (m_cables s) \<Longrightarrow> address_eq (m_address k) (m_address l) \<Longrightarrow> k = l"
      using assms by (auto simp: cables_ok_def)
    have k: "k \<in> set (m_cables s)" "cable_id k = c" using cable_at_id [OF Some] by auto
    have "cable_order.equivalent k l \<longleftrightarrow> l = k" if "l \<in> set (m_cables s)" for l
      using cable_order.oset_unique [OF ok(1) k(1) that] by auto
    then have set: "set (oset_erase cable_less k (m_cables s)) = set (m_cables s) - {k}"
      using cable_order.mem_oset_erase [OF ok(1)] by blast
    have r: "reap_cable c s = s\<lparr>m_cables := oset_erase cable_less k (m_cables s)\<rparr>"
      using Some by (simp add: reap_cable_def)
    have "cables_ok (reap_cable c s)"
      using assms cable_order.sorted_oset_erase [OF ok(1), of k]
      by (simp add: r cables_ok_def set inj_on_diff)
    moreover have "cable_id ` (set (m_cables s) - {k}) = cable_id ` set (m_cables s) - {c}"
      using k ok(2) by (auto simp: inj_on_def)
    ultimately show ?thesis by (simp add: r get_cables_def set)
  qed
  then show "cables_ok (reap_cable c s)" "set (get_cables (reap_cable c s)) = set (get_cables s) - {c}" by auto
qed

section \<open>Deletion of a cable\<close>

lemma upd_cable_comp:
  "cable_frame g \<Longrightarrow> upd_cable c f (upd_cable c g s) = upd_cable c (\<lambda>k. f (g k)) s"
  by (simp add: upd_cable_def cable_frame_def comp_def if_distrib cong: if_cong)

lemma upd_cable_id [simp]: "upd_cable c (\<lambda>k. k) s = s"
  by (simp add: upd_cable_def)

lemma upd_cable_cong:
  assumes "cables_ok s" and "cable_at s c = Some k" and "f k = g k"
  shows "upd_cable c f s = upd_cable c g s"
  using upd_cable_at [OF assms(2,1), of f] upd_cable_at [OF assms(2,1), of g] assms(3) by simp

lemma upd_cable_module: "upd_cable c f (s\<lparr>s_module := m\<rparr>) = (upd_cable c f s)\<lparr>s_module := m\<rparr>"
  by (simp add: upd_cable_def)

lemma upd_cable_s_module [simp]: "s_module (upd_cable c f s) = s_module s"
  by (simp add: upd_cable_def)

definition cable_torn_down :: "ZstCable \<Rightarrow> ZstCable" where
  "cable_torn_down k = set_deactivated (k\<lparr>m_synchronisable_events := flush_events (m_synchronisable_events k)\<rparr>)"

lemma cable_frame_torn: "cable_frame cable_torn_down"
  by (simp add: cable_frame_def cable_torn_down_def sync_status_defs)

lemma cable_process_deactivated:
  "process_event (\<lambda>_. True) (run_cable_event c) (\<lambda>_ _ s. s) [DefaultAdaptor, SessionModule] SE_Deactivated s =
   upd_cable c set_deactivated s"
proof -
  have "cable_frame (sync_event_status SE_Deactivated)" by (rule cable_frame_sync)
  then show ?thesis
    by (simp add: process_event_def run_adaptor_def run_cable_event_def Let_def upd_cable_comp)
       (simp add: set_deactivated_def set_activation_status_def [abs_def])
qed

lemma cable_process_destroyed:
  "process_event (\<lambda>_. True) (run_cable_event c) (\<lambda>_ _ s. s) [DefaultAdaptor, SessionModule] SE_Destroyed s =
   s\<lparr>s_module := add_cleanup_op c (s_module s)\<rparr>"
proof -
  have "upd_cable c (sync_event_status SE_Destroyed) t = t" for t :: "'a session_scheme"
    by (simp add: upd_cable_def map_idI)
  then show ?thesis
    by (simp add: process_event_def run_adaptor_def run_cable_event_def Let_def
        session_on_synchronisable_destroyed_def)
qed

lemma cable_process_teardown:
  assumes "cables_ok s" and "cable_at s c = Some k"
    and "m_events (m_synchronisable_events k) = [SE_Deactivated, SE_Destroyed]"
    and "m_adaptors (m_synchronisable_events k) = [DefaultAdaptor, SessionModule]"
  shows "cable_process_events c s = (upd_cable c cable_torn_down s)\<lparr>s_module := add_cleanup_op c (s_module s)\<rparr>"
proof -
  let ?f = "\<lambda>l. l\<lparr>m_synchronisable_events := flush_events (m_synchronisable_events k)\<rparr>"
  have "upd_cable c set_deactivated (upd_cable c ?f s) = upd_cable c (\<lambda>l. set_deactivated (?f l)) s"
    by (rule upd_cable_comp) (rule cable_frame_sync)
  also have "\<dots> = upd_cable c cable_torn_down s"
    by (rule upd_cable_cong [OF assms(1,2)]) (simp add: cable_torn_down_def)
  finally show ?thesis
    using assms(2-4) by (simp add: cable_process_events_def Let_def cable_process_deactivated cable_process_destroyed)
qed

lemma cable_process_idle:
  assumes "cables_ok s" and "cable_at s c = Some k" and "m_synchronisable_events k = flush_events d"
  shows "cable_process_events c s = s"
proof -
  have "upd_cable c (\<lambda>l. l\<lparr>m_synchronisable_events := flush_events (m_synchronisable_events k)\<rparr>) s =
      upd_cable c (\<lambda>l. l) s"
    by (rule upd_cable_cong [OF assms(1,2)]) (simp add: assms(3) flush_events_def)
  then show ?thesis using assms by (simp add: cable_process_events_def Let_def flush_events_def)
qed

definition idle_cable :: "ZstCable \<Rightarrow> bool" where
  "idle_cable k \<longleftrightarrow> is_activated k \<and> m_adaptors (m_synchronisable_events k) = [DefaultAdaptor, SessionModule] \<and>
     m_events (m_synchronisable_events k) = []"

lemma destroy_cable_queued:
  assumes "cables_ok s" and "cable_at s c = Some k" and "idle_cable k"
    and t_def: "t = destroy_cable_complete V (Some c) s"
  shows "\<exists>k'. cable_at t c = Some k' \<and> m_events (m_synchronisable_events k') = [SE_Deactivated, SE_Destroyed] \<and>
    m_adaptors (m_synchronisable_events k') = [DefaultAdaptor, SessionModule] \<and>
    s_module t = synchronisable_has_event (CableRef c) (m_instance_id k') (s_module s)"
    and "get_cables t = get_cables s"
proof -
  define u where "u = session_defer (SV_CableDestroyed (m_address k))
    (plug_forget (find_as is_output_plug V s (m_output_URI (m_address k))) (m_address k)
      (plug_forget (find_as is_input_plug V s (m_input_URI (m_address k))) (m_address k) s))"
  have m: "m_cables u = m_cables s" "s_module u = s_module s"
    by (simp_all add: u_def session_defer_def plug_forget_def upd_entity_def split: option.split)
  have u: "cables_ok u" "cable_at u c = Some k"
    using assms(1,2) by (simp add: u_def) (use assms(2) m in \<open>simp add: cable_at_def\<close>)
  have t: "t = cable_sync_op enqueue_deactivation c u"
    using assms(2) by (simp add: t_def destroy_cable_complete_def Let_def u_def cable_enqueue_deactivation_def)
  let ?k = "fst (enqueue_deactivation k)"
  have k: "enqueue_deactivation k = (?k, True)" "m_events (m_synchronisable_events ?k) = [SE_Deactivated, SE_Destroyed]"
    "m_adaptors (m_synchronisable_events ?k) = [DefaultAdaptor, SessionModule]"
    using assms(3) by (simp_all add: idle_cable_def is_activated_def sync_op_defs)
  have uk: "upd_cable c (\<lambda>_. ?k) u = upd_cable c (\<lambda>l. fst (enqueue_deactivation l)) u"
    using upd_cable_at [OF u(2,1)] .
  have "t = (upd_cable c (\<lambda>_. ?k) u)\<lparr>s_module := synchronisable_has_event (CableRef c) (m_instance_id ?k) (s_module u)\<rparr>"
    unfolding t cable_sync_op_def u(2) option.case by (subst k(1)) (simp add: k(3) Let_def)
  moreover have "cable_at (upd_cable c (\<lambda>_. ?k) u) c = Some ?k"
    unfolding uk using u(2) by (simp add: cable_at_upd [OF cable_frame_sync(6)])
  ultimately show "\<exists>k'. cable_at t c = Some k' \<and> m_events (m_synchronisable_events k') = [SE_Deactivated, SE_Destroyed] \<and>
    m_adaptors (m_synchronisable_events k') = [DefaultAdaptor, SessionModule] \<and>
    s_module t = synchronisable_has_event (CableRef c) (m_instance_id k') (s_module s)"
    using k(2,3) m(2) by (intro exI [of _ ?k]) (simp add: cable_at_def)
  show "get_cables t = get_cables s"
    unfolding t using cable_sync_op_frame(1) [OF u(1) cable_frame_sync(6)] m(1) by (simp add: get_cables_def)
qed

text \<open>The session runs the queue of the cable, which asks the reaper for its deletion.\<close>

lemma process_cable:
  assumes "cables_ok t" and "cable_at t c = Some k" and "m_events (m_synchronisable_events k) = [SE_Deactivated, SE_Destroyed]"
    and "m_adaptors (m_synchronisable_events k) = [DefaultAdaptor, SessionModule]"
    and "s_module t = synchronisable_has_event (CableRef c) (m_instance_id k) m" and "idle_module SessionModule m"
  shows "\<exists>q. process_events (\<lambda>s. m_module_events (s_module s)) upd_s_module_events (\<lambda>_. True)
      (run_session_module_event V) (\<lambda>_ _ s. s) (Suc 0) t = Some q \<and> cables_ok q \<and> get_cables q = get_cables t \<and>
    m_cleanup_callbacks (s_module q) = [c] \<and> m_items_to_reap (s_module q) = []"
proof -
  define g where "g = upd_s_module_events (m_events_update (\<lambda>_. [])) t"
  define g' where "g' = (upd_cable c cable_torn_down g)\<lparr>s_module := add_cleanup_op c (s_module g)\<rparr>"
  have g: "cables_ok g" "cable_at g c = Some k" "m_dead_syncronisable_IDS (s_module g) = {}"
    using assms
    by (simp_all add: g_def upd_s_module_events_def cable_at_def idle_module_def synchronisable_has_event_def)
  have run1: "cable_process_events c g = g'"
    unfolding g'_def using g(1,2) assms(3,4) by (rule cable_process_teardown)
  have okg': "cables_ok g'" unfolding g'_def using upd_cable_ok [OF g(1) cable_frame_torn] by simp
  have atg': "cable_at g' c = Some (cable_torn_down k)"
    using cable_at_upd [OF cable_frame_torn, of c g c] g(2) by (simp add: g'_def cable_at_def)
  have run2: "cable_process_events c g' = g'"
    by (rule cable_process_idle [OF okg' atg']) (simp add: cable_torn_down_def sync_status_defs)
  have mod: "s_module g' = m\<lparr>m_module_events := (defer_event (CableRef c, m_instance_id k)
      (m_module_events m))\<lparr>m_events := []\<rparr>, m_cleanup_callbacks := [c]\<rparr>"
    using assms(5,6)
    by (simp add: g'_def g_def upd_s_module_events_def add_cleanup_op_def synchronisable_has_event_def idle_module_def)
  have ev: "m_events (m_module_events (s_module t)) = [(CableRef c, m_instance_id k)]"
    and ad: "m_adaptors (m_module_events (s_module t)) = [DefaultAdaptor, SessionModule]"
    using assms(5,6) by (simp_all add: synchronisable_has_event_def idle_module_def)
  have dead: "m_dead_syncronisable_IDS (s_module g') = {}" using mod assms(6) by (simp add: idle_module_def)
  have pe: "process_event (\<lambda>_. True) (run_session_module_event V) (\<lambda>_ _ s. s)
      (m_adaptors (m_module_events (s_module t))) (CableRef c, m_instance_id k) g = g'"
    unfolding ad using g(3) dead
    by (simp add: process_event_def run_adaptor_def run_session_module_event_def run1 run2)
  have "process_events (\<lambda>s. m_module_events (s_module s)) upd_s_module_events (\<lambda>_. True)
      (run_session_module_event V) (\<lambda>_ _ s. s) (Suc 0) t =
      Some (upd_s_module_events (m_has_event_update (\<lambda>_. False)) g')"
    using process_events_single [where get = "\<lambda>s. m_module_events (s_module s)" and upd = upd_s_module_events
        and s = t and alive = "\<lambda>_. True" and run = "run_session_module_event V" and complete = "\<lambda>_ _ s. s", OF ev]
    unfolding g_def [symmetric] pe by (simp add: mod)
  moreover have "get_cables g' = get_cables t"
    using upd_cable_ids [OF cable_frame_torn, of c g]
    by (simp add: g'_def g_def upd_s_module_events_def get_cables_def)
  ultimately show ?thesis
    using okg' assms(6) by (simp add: upd_s_module_events_def mod idle_module_def get_cables_def)
qed

lemma session_reap_one:
  assumes "cables_ok q" and "m_cleanup_callbacks (s_module q) = [c]" and "m_items_to_reap (s_module q) = []"
  shows "cables_ok (session_reap_all V q)" and "set (get_cables (session_reap_all V q)) = set (get_cables q) - {c}"
proof -
  define q0 where "q0 = q\<lparr>s_module := (s_module q)\<lparr>m_cleanup_callbacks := []\<rparr>\<rparr>"
  have "cables_ok q0" using assms(1) by (simp add: q0_def)
  note reap = reap_cable_ok [OF this, of c]
  have "m_items_to_reap (s_module (reap_cable c q0)) = []"
    using assms(3) by (simp add: q0_def reap_cable_def split: option.split)
  then have r: "session_reap_all V q = (reap_cable c q0)\<lparr>s_module := (s_module (reap_cable c q0))\<lparr>m_items_to_reap := []\<rparr>\<rparr>"
    using assms(2) by (simp add: session_reap_all_def Let_def q0_def [symmetric])
  show "cables_ok (session_reap_all V q)" using reap(1) by (simp add: r)
  show "set (get_cables (session_reap_all V q)) = set (get_cables q) - {c}"
    using reap(2) by (simp add: r get_cables_def q0_def)
qed

section \<open>Properties\<close>

text \<open>
  C24. There is one cable for each pair of plugs: \<open>create_cable\<close> succeeds on two plugs, the cable is
  then found under the address of the pair, it is a new one exactly when the pair had none, and
  calling it again returns the same cable and adds none.
\<close>

theorem create_cable_unique:
  assumes "cables_ok s"
  shows "\<exists>s' c. create_cable (Some i) (Some out) s = (s', Some c) \<and> cables_ok s' \<and>
    find_cable s' (cable_address (uri_at s i) (uri_at s out)) = Some c \<and>
    set (get_cables s') = insert c (set (get_cables s)) \<and>
    (c \<in> set (get_cables s) \<longleftrightarrow> find_cable s (cable_address (uri_at s i) (uri_at s out)) = Some c) \<and>
    (\<exists>s''. create_cable (Some i) (Some out) s' = (s'', Some c) \<and> set (get_cables s'') = set (get_cables s'))"
proof -
  obtain s' c where s': "create_cable (Some i) (Some out) s = (s', Some c)" "cables_ok s'"
    "find_cable s' (cable_address (uri_at s i) (uri_at s out)) = Some c"
    "set (get_cables s') = insert c (set (get_cables s))"
    "c \<in> set (get_cables s) \<longleftrightarrow> find_cable s (cable_address (uri_at s i) (uri_at s out)) = Some c"
    "\<forall>r. uri_at s' r = uri_at s r"
    using create_cable_cases [OF assms, of i out] by (elim exE conjE) (rule that; assumption)
  obtain s'' d where s'': "create_cable (Some i) (Some out) s' = (s'', Some d)"
    "set (get_cables s'') = insert d (set (get_cables s'))"
    using create_cable_cases [OF s'(2), of i out] by (elim exE conjE) (rule that; assumption)
  have "snd (create_cable (Some i) (Some out) s') = Some c" using s'(3,6) by (simp add: create_cable_def)
  then have "d = c" using s''(1) by simp
  then have "set (get_cables s'') = set (get_cables s')" using s''(2) s'(4) by auto
  then show ?thesis
    using s'(1-5) s''(1) \<open>d = c\<close> by (intro exI [of _ s'] exI [of _ c] conjI exI [of _ s'']) simp_all
qed

definition sample_session :: session where
  "sample_session =
     hierarchy.extend
       (sample_hierarchy
          \<lparr>heap := (heap sample_hierarchy)
             (4 := Some (attach_session (proxy_activated ((sample_entity EC_InputPlug ET_PLUG ''A/B'')\<lparr>m_direction := IN_JACK\<rparr>))),
              5 := Some (attach_session (proxy_activated ((sample_entity EC_OutputPlug ET_PLUG ''B/O'')\<lparr>m_direction := OUT_JACK\<rparr>)))),
           next_ref := 6, m_entity_lookup := (m_entity_lookup sample_hierarchy)(''B/O'' \<mapsto> 5)\<rparr>)
       \<lparr>m_cables = [], next_cable = 0, m_session_events = dispatcher_new DefaultAdaptor,
        m_compute_events = dispatcher_new DefaultAdaptor, m_connected_performers = [],
        s_module = sync_module_new SessionModule\<rparr>"

lemma sample_session_ok: "cables_ok sample_session"
  by (simp add: sample_session_def cables_ok_def hierarchy.defs)

theorem create_cable_unique_witness:
  "\<exists>s' c. create_cable (Some 4) (Some 5) sample_session = (s', Some c) \<and> cables_ok s' \<and>
    find_cable s' (cable_address (uri_at sample_session 4) (uri_at sample_session 5)) = Some c \<and>
    set (get_cables s') = {c}"
proof -
  have "get_cables sample_session = []" by (simp add: sample_session_def get_cables_def hierarchy.defs)
  then show ?thesis using create_cable_unique [OF sample_session_ok, of 4 5] by auto
qed

text \<open>
  C28. \<open>connect_cable\<close> refuses, without a change of the state, plugs that are missing, not activated or
  of the wrong direction; otherwise it returns the cable of the pair, which is then activating.
\<close>

theorem connect_cable_guards:
  assumes "cables_ok s"
  shows "let ok = (\<exists>i out. input = Some i \<and> output = Some out \<and>
      entity_test (\<lambda>e. is_activated e \<and> m_direction e = IN_JACK) s i \<and>
      entity_test (\<lambda>e. is_activated e \<and> m_direction e = OUT_JACK) s out)
    in (ok \<longrightarrow> (\<exists>s' c i out. connect_cable input output s = (s', Some c) \<and> input = Some i \<and> output = Some out \<and>
          cables_ok s' \<and> find_cable s' (cable_address (uri_at s i) (uri_at s out)) = Some c \<and>
          cable_test (\<lambda>k. m_sync_status k = ACTIVATING) s' c)) \<and>
       (\<not> ok \<longrightarrow> connect_cable input output s = (s, None))"
proof -
  have refuse: "connect_cable input output s = (s, None)"
    if "\<not> (\<exists>i out. input = Some i \<and> output = Some out \<and>
      entity_test (\<lambda>e. is_activated e \<and> m_direction e = IN_JACK) s i \<and>
      entity_test (\<lambda>e. is_activated e \<and> m_direction e = OUT_JACK) s out)"
    using that by (auto simp: connect_cable_def entity_test_def split: option.splits)
  have accept: "\<exists>s' c. connect_cable (Some i) (Some out) s = (s', Some c) \<and>
          cables_ok s' \<and> find_cable s' (cable_address (uri_at s i) (uri_at s out)) = Some c \<and>
          cable_test (\<lambda>k. m_sync_status k = ACTIVATING) s' c"
    if "entity_test (\<lambda>e. is_activated e \<and> m_direction e = IN_JACK) s i"
      "entity_test (\<lambda>e. is_activated e \<and> m_direction e = OUT_JACK) s out" for i out
  proof -
    obtain s1 c where s1: "create_cable (Some i) (Some out) s = (s1, Some c)" "cables_ok s1"
      "find_cable s1 (cable_address (uri_at s i) (uri_at s out)) = Some c"
      using create_cable_cases [OF assms, of i out] by (elim exE conjE) (rule that; assumption)
    define s2 where "s2 = upd_cable c set_activating s1"
    define s3 where "s3 = (if \<not> entity_test m_is_proxy s2 i \<or> \<not> entity_test m_is_proxy s2 out
      then upd_cable c set_proxy s2 else s2)"
    have res: "connect_cable (Some i) (Some out) s = (s3, Some c)"
      using that s1(1)
      by (auto simp: connect_cable_def cable_set_local_def s2_def [symmetric] s3_def Let_def entity_test_def
          split: option.splits)
    have "c \<in> set (get_cables s1)" using s1(3) by (auto simp: find_cable_Some [OF s1(2)] get_cables_def)
    then obtain k where "cable_at s1 c = Some k" using cable_at_mem [OF s1(2)] by (auto simp: get_cables_def)
    then have "cable_at s2 c = Some (set_activating k)"
      by (simp add: s2_def cable_at_upd [OF cable_frame_sync(2)])
    then have "\<exists>l. cable_at s3 c = Some l \<and> m_sync_status l = m_sync_status (set_activating k)"
      by (simp add: s3_def cable_at_upd [OF cable_frame_sync(1)]) (simp add: set_proxy_def)
    then have "cable_test (\<lambda>k. m_sync_status k = ACTIVATING) s3 c"
      by (auto simp: cable_test_def sync_status_defs)
    moreover have "cables_ok s3" unfolding s3_def s2_def using s1(2) by (simp add: upd_cable_ok cable_frame_sync)
    moreover have "find_cable s3 a = find_cable s1 a" for a
      unfolding s3_def s2_def by (simp add: upd_cable_find cable_frame_sync)
    ultimately show ?thesis using res s1(3) by auto
  qed
  show ?thesis unfolding Let_def using refuse accept by blast
qed

theorem connect_cable_guards_witness:
  "\<exists>s' c. connect_cable (Some 4) (Some 5) sample_session = (s', Some c) \<and> cables_ok s' \<and>
     cable_test (\<lambda>k. m_sync_status k = ACTIVATING) s' c"
proof -
  have "entity_test (\<lambda>e. is_activated e \<and> m_direction e = IN_JACK) sample_session 4"
    "entity_test (\<lambda>e. is_activated e \<and> m_direction e = OUT_JACK) sample_session 5"
    by (simp_all add: sample_session_def sample_hierarchy_def hierarchy.defs entity_test_def attach_session_def
        proxy_activated_def sync_status_defs is_activated_def)
  then show ?thesis using connect_cable_guards [OF sample_session_ok, of "Some 4" "Some 5"] by (auto simp: Let_def)
qed

text \<open>
  C27. Destroying a cable removes it: \<open>destroy_cable_complete\<close> only queues the teardown of an activated
  cable, and the next \<open>process_events\<close> of the session, whose loop ends after that one event, erases
  exactly this cable from the set and keeps the set well formed.
\<close>

theorem destroy_cable_deleted:
  assumes "cables_ok s" and "cable_at s c = Some k" and "idle_cable k" and "idle_module SessionModule (s_module s)"
  shows "get_cables (destroy_cable_complete V (Some c) s) = get_cables s \<and>
    (\<exists>s'. session_process_sync_events V 1 (destroy_cable_complete V (Some c) s) = Some s' \<and>
      cables_ok s' \<and> set (get_cables s') = set (get_cables s) - {c} \<and> c \<in> set (get_cables s))"
proof -
  define t where "t = destroy_cable_complete V (Some c) s"
  note queued = destroy_cable_queued [OF assms(1-3) t_def]
  obtain k' where k': "cable_at t c = Some k'" "m_events (m_synchronisable_events k') = [SE_Deactivated, SE_Destroyed]"
    "m_adaptors (m_synchronisable_events k') = [DefaultAdaptor, SessionModule]"
    "s_module t = synchronisable_has_event (CableRef c) (m_instance_id k') (s_module s)"
    using queued(1) by blast
  have "cables_ok t" unfolding t_def using assms(1) by (rule destroy_cable_ok)
  from process_cable [OF this k' assms(4), of V] obtain q where
    q: "process_events (\<lambda>s. m_module_events (s_module s)) upd_s_module_events (\<lambda>_. True)
      (run_session_module_event V) (\<lambda>_ _ s. s) (Suc 0) t = Some q" "cables_ok q" "get_cables q = get_cables t"
    "m_cleanup_callbacks (s_module q) = [c]" "m_items_to_reap (s_module q) = []" by auto
  note reap = session_reap_one [OF q(2,4,5), of V]
  have "session_process_sync_events V 1 t = Some ((session_reap_all V q)
      \<lparr>s_module := (s_module (session_reap_all V q))\<lparr>m_dead_syncronisable_IDS := {}\<rparr>\<rparr>)"
    unfolding session_process_sync_events_def One_nat_def q(1) by (simp add: Let_def)
  moreover have "c \<in> set (get_cables s)" using cable_at_id [OF assms(2)] by (auto simp: get_cables_def)
  moreover have "get_cables (u\<lparr>s_module := m\<rparr>) = get_cables u" for u :: "'a session_scheme" and m
    by (simp add: get_cables_def)
  ultimately show ?thesis using reap queued(2) q(3) unfolding t_def [symmetric] by simp
qed

theorem destroy_cable_deleted_witness:
  "\<exists>s'. session_process_sync_events stage_virtuals 1
      (destroy_cable_complete stage_virtuals (Some 0) (fst (create_cable (Some 4) (Some 5) sample_session))) = Some s' \<and>
    get_cables s' = []"
proof -
  have "find_cable sample_session a = None" for a
    by (simp add: find_cable_def find_cable_by_URIs_def sample_session_def hierarchy.defs)
  then have c: "fst (create_cable (Some 4) (Some 5) sample_session) = fst (add_new_cable 4 5 sample_session)"
    by (simp add: create_cable_def split: prod.split)
  have nc: "next_cable sample_session = 0" by (simp add: sample_session_def hierarchy.defs)
  have cables: "m_cables (fst (add_new_cable 4 5 sample_session)) = [new_cable 4 5 sample_session]"
    by (simp add: add_new_cable_def Let_def new_cable_def synchronisable_new_def session_defer_def upd_entity_def)
       (simp add: sample_session_def hierarchy.defs)
  let ?s = "fst (add_new_cable 4 5 sample_session)"
  have "cables_ok ?s"
    using create_cable_cases [OF sample_session_ok, of 4 5] c by (metis fst_conv)
  moreover have "cable_at ?s 0 = Some (new_cable 4 5 sample_session)"
    by (simp add: cable_at_def cables nc)
  moreover have "idle_cable (new_cable 4 5 sample_session)"
    by (simp add: idle_cable_def is_activated_def new_cable_def cable_new_def sync_status_defs sync_add_adaptor_def
        ZstSynchronisable.defs synchronisable_new_def Let_def add_adaptor_def dispatcher_new_def)
  moreover have "idle_module SessionModule (s_module ?s)"
    by (simp add: add_new_cable_def Let_def synchronisable_new_def session_defer_def upd_entity_def)
       (simp add: sample_session_def hierarchy.defs idle_module_def sync_module_new_def add_adaptor_def dispatcher_new_def)
  moreover have "get_cables ?s = [0]" by (simp add: get_cables_def cables nc)
  ultimately show ?thesis
    unfolding c using destroy_cable_deleted [of ?s 0 _ stage_virtuals] by fastforce
qed

end
