(* ===== verification/Zst_Session_Invariant.thy ===== *)
theory Zst_Session_Invariant
  imports Zst_Session
begin

text \<open>
  The invariant of a session together with its hierarchy, and the operations of both that keep it, for
  every module that meets the contract of \<open>hierarchy_module\<close>: the stage and the client extend it.

  \<open>session_ok\<close>: the lookup table and the set of cables are sound, and the reaper of the session has no
  object of its own to delete: entities are deleted by the hierarchy, cables by a cleanup operation.
\<close>

definition reap_items :: "'z session_scheme \<Rightarrow> sync_ref list" where
  "reap_items s = m_items_to_reap (s_module s)"

definition session_ok :: "'z session_scheme \<Rightarrow> bool" where
  "session_ok s \<longleftrightarrow> hierarchy_ok s \<and> cables_ok s \<and> reap_items s = []"

lemma reap_items_frame [simp]:
  fixes s :: "'z session_scheme"
  shows
  "reap_items (cable_sync_op f c s) = reap_items s" "reap_items (upd_entity r g s) = reap_items s"
  "reap_items (session_defer e s) = reap_items s" "reap_items (plug_forget p a s) = reap_items s"
  "reap_items (upd_cable c h s) = reap_items s" "reap_items (reap_cable c s) = reap_items s"
  "reap_items (cable_process_events c s) = reap_items s"
proof -
  show sync: "reap_items (cable_sync_op f c s) = reap_items s" "reap_items (upd_entity r g s) = reap_items s"
    "reap_items (session_defer e s) = reap_items s" "reap_items (plug_forget p a s) = reap_items s"
    "reap_items (upd_cable c h s) = reap_items s" "reap_items (reap_cable c s) = reap_items s" for h and s :: "'z session_scheme"
    by (simp_all add: reap_items_def cable_sync_op_def Let_def upd_entity_def session_defer_def plug_forget_def
        upd_cable_def reap_cable_def synchronisable_has_event_def split: option.split prod.split)
  have run: "reap_items (fst (run_cable_event c ev b t)) = reap_items t" for ev b and t :: "'z session_scheme"
    by (simp add: run_cable_event_def Let_def session_on_synchronisable_destroyed_def reap_items_def add_cleanup_op_def)
  have "reap_items (fold (process_event (\<lambda>_. True) (run_cable_event c) (\<lambda>_ _ s. s) as) es t) = reap_items t"
    for as es and t :: "'z session_scheme"
    by (rule fold_frame, rule process_event_invariant [where I = "\<lambda>u. reap_items u = reap_items _"]) (simp_all add: run)
  then show "reap_items (cable_process_events c s) = reap_items s"
    by (simp add: cable_process_events_def Let_def sync split: option.split)
qed

lemma reap_items_create: "reap_items (fst (create_cable i out s)) = reap_items s"
  by (simp add: create_cable_def cable_enqueue_activation_def add_new_cable_def Let_def split: option.split prod.split)
     (simp add: reap_items_def)

lemma reap_items_more: "hierarchy.more s' = hierarchy.more s \<Longrightarrow> reap_items s' = reap_items s"
  using more_session(4) [of s' s] by (simp add: reap_items_def)

lemma session_ok_more: "session_ok s \<Longrightarrow> hierarchy_ok s' \<Longrightarrow> hierarchy.more s' = hierarchy.more s \<Longrightarrow> session_ok s'"
  using cables_ok_more [of s s'] reap_items_more [of s' s] by (simp add: session_ok_def)

lemma session_ok_preserves: "preserves s s' \<Longrightarrow> session_ok s \<Longrightarrow> session_ok s'"
  using session_ok_more [of s s'] preserves_ok [of s s'] preserves_more [of s s'] by (simp add: session_ok_def)

lemma session_ok_upd:
  assumes "\<And>e. m_uri (f e) = m_uri e" and "\<And>e. m_hierarchy_adaptors (f e) = m_hierarchy_adaptors e"
    and "\<And>e. identity (f e) = identity e"
  shows "session_ok s \<Longrightarrow> session_ok (upd_entity r f s)"
  using assms by (intro session_ok_preserves [OF preserves_upd]) auto

lemma hierarchy_ok_session [simp]:
  "hierarchy_ok (s\<lparr>m_cables := cs\<rparr>) = hierarchy_ok s" "hierarchy_ok (s\<lparr>s_module := m\<rparr>) = hierarchy_ok s"
  "hierarchy_ok (s\<lparr>m_session_events := d\<rparr>) = hierarchy_ok s" "hierarchy_ok (s\<lparr>m_compute_events := d'\<rparr>) = hierarchy_ok s"
  "hierarchy_ok (s\<lparr>s_instance_id_counter := i\<rparr>) = hierarchy_ok s" "hierarchy_ok (s\<lparr>next_cable := c\<rparr>) = hierarchy_ok s"
  by (simp_all add: hierarchy_ok_def lookup_sound_def)

lemma hierarchy_ok_cable_op [simp]: "hierarchy_ok (cable_sync_op f c s) = hierarchy_ok s"
  by (simp add: cable_sync_op_def Let_def upd_cable_def split: option.split prod.split)

lemma hierarchy_ok_plug_forget: "hierarchy_ok s \<Longrightarrow> hierarchy_ok (plug_forget p a s)"
  by (auto simp: plug_forget_def plug_remove_cable_def intro: preserves_ok [OF preserves_upd] split: option.split)

lemma reap_items_destroy: "reap_items (destroy_cable_complete V c s) = reap_items s"
  by (simp add: destroy_cable_complete_def Let_def cable_enqueue_deactivation_def split: option.split)

lemma destroy_complete_session_ok: "session_ok s \<Longrightarrow> session_ok (destroy_cable_complete V c s)"
  by (auto simp: session_ok_def destroy_cable_ok reap_items_destroy)
     (auto simp: destroy_cable_complete_def Let_def cable_enqueue_deactivation_def session_defer_def
       intro!: hierarchy_ok_plug_forget split: option.split)

lemma hierarchy_ok_plug_add: "hierarchy_ok s \<Longrightarrow> hierarchy_ok (upd_entity r (plug_add_cable a) s)"
  by (rule preserves_ok [OF preserves_upd]) (simp_all add: plug_add_cable_def)

lemma create_cable_session_ok:
  assumes "session_ok s"
  shows "session_ok (fst (create_cable (Some i) (Some out) s))"
proof -
  have "cables_ok (fst (create_cable (Some i) (Some out) s))"
    using create_cable_cases [of s i out] assms by (auto simp: session_ok_def)
  moreover have "hierarchy_ok (fst (add_new_cable i out s))"
    using assms
    by (simp add: add_new_cable_def Let_def session_defer_def session_ok_def hierarchy_ok_plug_add split: prod.split)
  ultimately have "hierarchy_ok (fst (create_cable (Some i) (Some out) s))"
    using assms
    by (auto simp: session_ok_def create_cable_def cable_enqueue_activation_def split: option.split prod.split)
  with \<open>cables_ok (fst (create_cable (Some i) (Some out) s))\<close> show ?thesis
    using assms by (simp add: session_ok_def reap_items_create)
qed

lemma alloc_more: "hierarchy.more (snd (alloc_entity mk h)) = hierarchy.more h"
  by (simp add: alloc_entity_def Let_def split: prod.split)

lemma session_register_ok: "session_ok s \<Longrightarrow> session_ok (session_register_entity V r s)"
  unfolding session_register_entity_def
  by (rule fold_invariant [where I = session_ok]) (auto intro!: session_ok_upd simp: attach_session_def)

lemma cable_op_hierarchy_ok [simp]:
  "hierarchy_ok (upd_cable c f s) = hierarchy_ok s" "hierarchy_ok (reap_cable c s) = hierarchy_ok s"
  by (simp_all add: upd_cable_def reap_cable_def split: option.split)

lemma run_cable_event_ok: "hierarchy_ok s \<Longrightarrow> hierarchy_ok (fst (run_cable_event c ev a s))"
  by (simp add: run_cable_event_def session_on_synchronisable_destroyed_def Let_def)

lemma cable_process_session_ok: "session_ok s \<Longrightarrow> session_ok (cable_process_events c s)" for s :: "'z session_scheme"
proof -
  assume ok: "session_ok s"
  have "hierarchy_ok (fold (process_event (\<lambda>_. True) (run_cable_event c) (\<lambda>_ _ s. s) as) es t)"
    if "hierarchy_ok t" for as es and t :: "'z session_scheme"
    using that
    by (rule fold_invariant [where I = hierarchy_ok]) (erule process_event_invariant, erule run_cable_event_ok)
  with ok show ?thesis
    by (auto simp: session_ok_def cable_process_ok) (simp add: cable_process_events_def Let_def split: option.split)
qed

lemma session_ok_module:
  "m_items_to_reap m = m_items_to_reap (s_module s) \<Longrightarrow> session_ok (s\<lparr>s_module := m\<rparr>) = session_ok s"
  by (simp add: session_ok_def reap_items_def)

lemma reap_cable_session_ok: "session_ok s \<Longrightarrow> session_ok (reap_cable c s)"
  by (simp add: session_ok_def reap_cable_ok(1))

section \<open>Operations that go through the hierarchy\<close>

locale session_module = hierarchy_module V for V :: "('z session_scheme) hierarchy_virtuals"
begin

lemma add_proxy_session_ok:
  assumes "session_ok s" and "\<forall>r. entity = Some r \<longrightarrow> heap s r \<noteq> None"
  shows "session_ok (fst (add_proxy_entity V entity s))"
  using assms(1) add_proxy_ok [of s entity] add_proxy_ok(2) [OF _ assms(2)] assms(2)
  by (intro session_ok_more [OF assms(1)]) (auto simp: session_ok_def)

lemma module_event_ok: "session_ok s \<Longrightarrow> session_ok (fst (run_session_module_event V pi a s))"
  by (auto simp: run_session_module_event_def cable_process_session_ok
      intro: session_ok_preserves [OF entity_process_ok] split: sync_ref.split)

lemma session_reap_ok:
  assumes "session_ok s"
  shows "session_ok (session_reap_all V s)"
proof -
  define s1 where "s1 = fold reap_cable (m_cleanup_callbacks (s_module s))
    (s\<lparr>s_module := (s_module s)\<lparr>m_cleanup_callbacks := []\<rparr>\<rparr>)"
  have "session_ok s1"
    unfolding s1_def
    by (rule fold_invariant [where I = session_ok]) (simp_all add: reap_cable_session_ok session_ok_module assms)
  moreover from this have "m_items_to_reap (s_module s1) = []" by (simp add: session_ok_def reap_items_def)
  ultimately show ?thesis
    by (simp add: session_reap_all_def Let_def s1_def [symmetric] session_ok_module)
qed

lemma session_sync_ok:
  assumes "session_ok s" and "session_process_sync_events V n s = Some s'"
  shows "session_ok s'"
proof -
  obtain t where t: "process_events (\<lambda>s. m_module_events (s_module s)) upd_s_module_events (\<lambda>_. True)
      (run_session_module_event V) (\<lambda>_ _ s. s) n s = Some t"
    and s': "s' = (session_reap_all V t)
      \<lparr>s_module := (s_module (session_reap_all V t))\<lparr>m_dead_syncronisable_IDS := {}\<rparr>\<rparr>"
    using assms(2) by (auto simp: session_process_sync_events_def Let_def split: option.splits)
  have "session_ok t"
    by (rule process_events_invariant [OF t, where I = session_ok])
       (simp_all add: assms(1) module_event_ok upd_s_module_events_def session_ok_module)
  then show ?thesis by (simp add: s' session_ok_module session_reap_ok)
qed

end

end
