(* ===== verification/Zst_Stage.thy ===== *)
theory Zst_Stage
  imports Zst_Session_Invariant
begin

text \<open>
  The stage, the server of a performance: \<open>ZstStageHierarchy\<close> and \<open>ZstStageSession\<close>
  (\<open>src/src/server\<close>), the handlers of the messages of the clients, the messages they send, the
  connection of clients to each other, event processing, and the heartbeat timer of \<open>ZstStage\<close>.

  A handler takes the message and the proxy of the client that sent it and returns the state and the
  signal it answers with, or the exception it raised. \<open>Signal_EMPTY\<close> means no answer. Messages are
  appended to the outbox of the stage; the callback that handles the response to a message is a value
  in its arguments, and \<open>stage_on_response\<close> runs it. The transports, which hold on to each message
  until it is answered or times out, are in \<open>src/src/core/transports\<close>. The threads of the transports,
  of the timer and of the event loop run one handler, callback or event at a time here.
\<close>

type_synonym stage = session
type_synonym 'a stage_result = "stage \<times> (zst_exn + 'a)"

definition stage_new :: stage where
  "stage_new =
     \<lparr>heap = (\<lambda>_. None), next_ref = 0, s_instance_id_counter = 0, m_entity_lookup = (\<lambda>_. None), m_proxies = [],
      m_hierarchy_events =
        add_adaptor HierarchyModule (add_adaptor SessionModule (dispatcher_new DefaultAdaptor)),
      h_module = sync_module_new HierarchyModule, m_outbox = [],
      m_cables = [], next_cable = 0, m_session_events = dispatcher_new DefaultAdaptor,
      m_compute_events = add_adaptor SessionModule (dispatcher_new DefaultAdaptor),
      m_connected_performers = [], s_module = sync_module_new SessionModule\<rparr>"

section \<open>Sending\<close>

definition send_msg :: "transport \<Rightarrow> message_content \<Rightarrow> ZstTransportArgs \<Rightarrow> stage \<Rightarrow> stage" where
  "send_msg t content args s =
     s\<lparr>m_outbox := m_outbox s @ [\<lparr>out_transport = t, out_content = content, out_args = args\<rparr>]\<rparr>"

definition whisper :: "ref \<Rightarrow> message_content \<Rightarrow> ZstTransportArgs \<Rightarrow> stage \<Rightarrow> stage" where
  "whisper performer content args s =
     (case heap s performer of
        None \<Rightarrow> s
      | Some e \<Rightarrow>
          send_msg (m_origin_transport e) content (args\<lparr>target_endpoint_UUID := m_origin_endpoint_UUID e\<rparr>) s)"

definition stage_performers :: "stage \<Rightarrow> ref list" where
  "stage_performers s = get_performers stage_virtuals s"

definition broadcast :: "message_content \<Rightarrow> ZstTransportArgs \<Rightarrow> ref list \<Rightarrow> stage \<Rightarrow> stage" where
  "broadcast content args excluded s =
     fold (\<lambda>performer s.
        if \<not> entity_test is_stage_proxy s performer \<or> performer \<in> set excluded then s
        else whisper performer content args s) (stage_performers s) s"

definition reply_with_signal :: "ref \<Rightarrow> Signal \<Rightarrow> uuid \<Rightarrow> stage \<Rightarrow> stage" where
  "reply_with_signal performer signal request_id s =
     whisper performer (Content_SignalMessage signal) (transport_args\<lparr>msg_ID := request_id\<rparr>) s"

definition get_client_from_endpoint_UUID :: "stage \<Rightarrow> uuid \<Rightarrow> ref option" where
  "get_client_from_endpoint_UUID s origin =
     find (entity_test (\<lambda>e. is_stage_proxy e \<and> m_origin_endpoint_UUID e = origin) s) (stage_performers s)"

text \<open>\<open>dynamic_cast<ZstPerformerStageProxy*>(find_entity(path))\<close>.\<close>

definition find_client :: "stage \<Rightarrow> ZstURI \<Rightarrow> ref option" where
  "find_client s path = find_as is_stage_proxy stage_virtuals s path"

text \<open>The answer of \<open>on_receive_msg\<close> to the sender of a message.\<close>

definition send_response :: "ZstStageMessage \<Rightarrow> Signal stage_result \<Rightarrow> stage outcome" where
  "send_response msg res =
     (case res of
        (s, Inl e) \<Rightarrow> (s, Some e)
      | (s, Inr signal) \<Rightarrow>
          (if signal = Signal_EMPTY then s
           else send_msg (m_owning_transport msg) (Content_SignalMessage signal)
                  (transport_args\<lparr>target_endpoint_UUID := m_origin_UUID msg, msg_ID := m_id msg\<rparr>) s,
           None))"

section \<open>Handlers of the hierarchy\<close>

definition hierarchy_signal_handler :: "Signal \<Rightarrow> ref option \<Rightarrow> stage \<Rightarrow> Signal stage_result" where
  "hierarchy_signal_handler signal sender s =
     (case sender of
        None \<Rightarrow> (s, Inr Signal_ERR_STAGE_PERFORMER_NOT_FOUND)
      | Some p \<Rightarrow>
          if signal = Signal_CLIENT_HEARTBEAT then (upd_entity p set_heartbeat_active s, Inr Signal_OK)
          else (s, Inr Signal_EMPTY))"

definition create_client_handler ::
  "bool \<Rightarrow> ZstStageMessage \<Rightarrow> EntityData \<Rightarrow> string option \<Rightarrow> string option \<Rightarrow> string option \<Rightarrow>
   stage \<Rightarrow> Signal stage_result" where
  "create_client_handler indeterminate msg ed ct reliable unreliable s =
     (let client_URI = string_uri (ed_URI ed)
      in if find_entity s client_URI \<noteq> None then (s, Inr Signal_ERR_STAGE_PERFORMER_ALREADY_EXISTS)
         else
           case alloc_entity (\<lambda>y. stage_proxy_new indeterminate y ed ct
                  (case reliable of None \<Rightarrow> '''' | Some a \<Rightarrow> a) (case unreliable of None \<Rightarrow> '''' | Some a \<Rightarrow> a)
                  (m_origin_UUID msg) (m_owning_transport msg)) s of
             (r, s1) \<Rightarrow>
               (case add_proxy_entity stage_virtuals (Some r) s1 of
                  (s2, Some e) \<Rightarrow> (s2, Inl e)
                | (s2, None) \<Rightarrow> (s2, Inr Signal_OK)))"

text \<open>The excluded client is computed and not passed to \<open>broadcast\<close>.\<close>

definition client_leaving_handler :: "ClientLeaveReason \<Rightarrow> ref option \<Rightarrow> stage \<Rightarrow> Signal stage_result" where
  "client_leaving_handler reason sender s =
     (case sender of
        None \<Rightarrow> (s, Inl NullDereference)
      | Some p \<Rightarrow>
          let s1 = remove_proxy_entity stage_virtuals p s
          in (broadcast (Content_ClientLeaveRequest (uri_path (uri_at s1 p)) reason) transport_args [] s1,
              Inr Signal_OK))"

definition create_entity_handler ::
  "bool \<Rightarrow> entity_table \<Rightarrow> ref option \<Rightarrow> stage \<Rightarrow> Signal stage_result" where
  "create_entity_handler indeterminate payload sender s =
     (case get_entity_field payload of
        Inl e \<Rightarrow> (s, Inl e)
      | Inr ed \<Rightarrow>
          (case sender of
             None \<Rightarrow> (s, Inl NullDereference)
           | Some p \<Rightarrow>
               (case (uri_first (uri_at s p), uri_first (table_uri ed)) of
                  (Inl e, _) \<Rightarrow> (s, Inl e)
                | (_, Inl e) \<Rightarrow> (s, Inl e)
                | (Inr a, Inr b) \<Rightarrow>
                    if \<not> uri_equal a b then (s, Inr Signal_ERR_ENTITY_NOT_FOUND)
                    else
                      (case create_proxy_entity stage_virtuals indeterminate payload ed s of
                         (s1, Inl e) \<Rightarrow> (s1, Inl e)
                       | (s1, Inr entity) \<Rightarrow>
                           (case add_proxy_entity stage_virtuals entity s1 of
                              (s2, Some e) \<Rightarrow> (s2, Inl e)
                            | (s2, None) \<Rightarrow>
                                (s2, Inr (if find_entity s2 (table_uri ed) = None then Signal_ERR_ENTITY_NOT_FOUND
                                          else Signal_OK)))))))"

definition factory_create_entity_handler ::
  "ZstStageMessage \<Rightarrow> string \<Rightarrow> string \<Rightarrow> ref option \<Rightarrow> stage \<Rightarrow> Signal stage_result" where
  "factory_create_entity_handler msg creatable name sender s =
     (case uri_parent (string_uri creatable) of
        Inl e \<Rightarrow> (s, Inl e)
      | Inr factory_path \<Rightarrow>
          if find_as is_factory stage_virtuals s factory_path = None then (s, Inr Signal_ERR_ENTITY_NOT_FOUND)
          else
            (case uri_first factory_path of
               Inl e \<Rightarrow> (s, Inl e)
             | Inr performer_path \<Rightarrow>
                 (case find_client s performer_path of
                    None \<Rightarrow> (s, Inr Signal_ERR_STAGE_PERFORMER_NOT_FOUND)
                  | Some factory_performer \<Rightarrow>
                      (whisper factory_performer (Content_FactoryCreateEntityRequest creatable name)
                         (transport_args\<lparr>msg_send_behaviour := ASYNC_REPLY,
                            on_recv_response := RA_FactoryCreated sender factory_path (m_id msg)\<rparr>) s,
                       Inr Signal_EMPTY))))"

text \<open>The proxy is sent on as it is after the update, under the entity type the message named.\<close>

definition update_entity_handler ::
  "float_text \<Rightarrow> EntityTypes \<Rightarrow> entity_table \<Rightarrow> string \<Rightarrow> ref option \<Rightarrow> stage \<Rightarrow> Signal stage_result" where
  "update_entity_handler ft entity_type payload original_path sender s =
     (case get_entity_field payload of
        Inl e \<Rightarrow> (s, Inl e)
      | Inr ed \<Rightarrow>
          (case find_entity s (string_uri original_path) of
             None \<Rightarrow> (s, Inr Signal_OK)
           | Some proxy \<Rightarrow>
               (case update_proxy_entity stage_virtuals proxy payload ed s of
                  (s1, Some e) \<Rightarrow> (s1, Inl e)
                | (s1, None) \<Rightarrow>
                    (case heap s1 proxy of
                       None \<Rightarrow> (s1, Inl NullDereference)
                     | Some e \<Rightarrow>
                         (case entity_serialize ft e of
                            Inl x \<Rightarrow> (s1, Inl x)
                          | Inr t \<Rightarrow>
                              (broadcast (Content_EntityUpdateRequest entity_type t original_path) transport_args
                                 (case sender of None \<Rightarrow> [] | Some p \<Rightarrow> [p]) s1,
                               Inr Signal_OK))))))"

definition destroy_entity_handler :: "string \<Rightarrow> ref option \<Rightarrow> stage \<Rightarrow> Signal stage_result" where
  "destroy_entity_handler path sender s =
     (case find_entity s (string_uri path) of
        None \<Rightarrow> (s, Inr Signal_ERR_ENTITY_NOT_FOUND)
      | Some r \<Rightarrow>
          (broadcast (Content_EntityDestroyRequest path) transport_args
             (case sender of None \<Rightarrow> [] | Some p \<Rightarrow> [p]) (remove_proxy_entity stage_virtuals r s),
           Inr Signal_OK))"

definition stage_hierarchy_on_receive_msg ::
  "float_text \<Rightarrow> bool \<Rightarrow> ZstStageMessage \<Rightarrow> stage \<Rightarrow> stage outcome" where
  "stage_hierarchy_on_receive_msg ft indeterminate msg s =
     (let sender = get_client_from_endpoint_UUID s (m_origin_UUID msg)
      in send_response msg
           (case m_buffer msg of
              Content_SignalMessage signal \<Rightarrow> hierarchy_signal_handler signal sender s
            | Content_ClientJoinRequest ed ct rel unrel \<Rightarrow> create_client_handler indeterminate msg ed ct rel unrel s
            | Content_ClientLeaveRequest _ reason \<Rightarrow> client_leaving_handler reason sender s
            | Content_EntityCreateRequest _ payload \<Rightarrow> create_entity_handler indeterminate payload sender s
            | Content_FactoryCreateEntityRequest creatable name \<Rightarrow>
                factory_create_entity_handler msg creatable name sender s
            | Content_EntityUpdateRequest t payload path \<Rightarrow> update_entity_handler ft t payload path sender s
            | Content_EntityDestroyRequest path \<Rightarrow> destroy_entity_handler path sender s
            | _ \<Rightarrow> (s, Inr Signal_EMPTY)))"

section \<open>Connections between clients\<close>

definition connect_clients :: "ref \<Rightarrow> ref \<Rightarrow> connect_action \<Rightarrow> stage \<Rightarrow> stage" where
  "connect_clients output_client input_client on_msg_received s =
     (case (heap s output_client, heap s input_client) of
        (Some eo, Some ei) \<Rightarrow>
          if has_connected_subscriber eo ei then s
          else if uri_equal (m_uri eo) (m_uri ei) then s
          else
            whisper output_client
              (Content_ClientGraphHandshakeStart (uri_path (m_uri ei)) (m_reliable_address ei)) transport_args
              (whisper input_client
                 (Content_ClientGraphHandshakeListen (uri_path (m_uri eo)) (m_reliable_address eo))
                 (transport_args\<lparr>msg_send_behaviour := ASYNC_REPLY,
                    on_recv_response := RA_ClientsConnected output_client input_client on_msg_received\<rparr>) s)
      | _ \<Rightarrow> s)"

definition complete_client_connection :: "ref \<Rightarrow> ref \<Rightarrow> stage \<Rightarrow> stage" where
  "complete_client_connection output_client input_client s =
     (case heap s input_client of
        None \<Rightarrow> s
      | Some ei \<Rightarrow>
          whisper output_client (Content_ClientGraphHandshakeStop (uri_path (m_uri ei))) transport_args
            (upd_entity output_client (add_subscriber ei) s))"

text \<open>The callback of a cable request. A cable that was deleted meanwhile is a dangling pointer.\<close>

definition connect_finished :: "cable_ref \<Rightarrow> ref \<Rightarrow> uuid \<Rightarrow> Signal \<Rightarrow> stage \<Rightarrow> stage outcome" where
  "connect_finished cable sender request_id signal s =
     (if signal = Signal_OK
      then (case cable_at s cable of
              None \<Rightarrow> (s, Some UndefinedBehaviour)
            | Some k \<Rightarrow>
                (reply_with_signal sender signal request_id
                   (broadcast (Content_CableCreateRequest (address_serialize (m_address k))) transport_args [] s),
                 None))
      else (reply_with_signal sender signal request_id s, None))"

definition run_connect_action :: "connect_action \<Rightarrow> ZstStageMessage option \<Rightarrow> stage \<Rightarrow> stage outcome" where
  "run_connect_action action response s =
     (case action of
        CA_None \<Rightarrow> (s, None)
      | CA_CableConnected cable sender request_id \<Rightarrow>
          if heap s sender = None then (s, Some UndefinedBehaviour)
          else connect_finished cable sender request_id (get_signal response) s
      | CA_Observed sender request_id \<Rightarrow>
          if heap s sender = None then (s, Some UndefinedBehaviour)
          else (reply_with_signal sender (get_signal response) request_id s, None))"

text \<open>
  The response callbacks hold the clients they are about as pointers, which dangle when a client was deleted
  before the response came. Those of a client never reach the stage. After an error has been reported to the sender of a factory request, the
  callback goes on and acknowledges the request as well.
\<close>

definition stage_on_response :: "response_action \<Rightarrow> ZstStageMessage option \<Rightarrow> stage \<Rightarrow> stage outcome" where
  "stage_on_response action response s =
     (case action of
        RA_None \<Rightarrow> (s, None)
      | RA_Client _ \<Rightarrow> (s, None)
      | RA_FactoryCreated sender factory_path request_id \<Rightarrow>
          (case sender of
             None \<Rightarrow> (s, Some NullDereference)
           | Some p \<Rightarrow>
               if heap s p = None then (s, Some UndefinedBehaviour)
               else
               let s1 = (if \<not> verify_signal response Signal_OK
                         then reply_with_signal p (get_signal response) request_id s else s)
               in (whisper p (Content_FactoryCreateEntityACK (uri_path factory_path))
                     (transport_args\<lparr>msg_ID := request_id\<rparr>) s1, None))
      | RA_ClientsConnected output_client input_client on_msg_received \<Rightarrow>
          if \<not> verify_signal response Signal_OK then (s, None)
          else if heap s output_client = None \<or> heap s input_client = None then (s, Some UndefinedBehaviour)
          else run_connect_action on_msg_received response (complete_client_connection output_client input_client s))"

section \<open>Handlers of the session\<close>

definition stage_destroy_cable :: "cable_ref option \<Rightarrow> stage \<Rightarrow> stage" where
  "stage_destroy_cable cable s =
     (case cable of
        None \<Rightarrow> s
      | Some c \<Rightarrow>
          (case cable_at s c of
             None \<Rightarrow> s
           | Some k \<Rightarrow>
               destroy_cable_complete stage_virtuals (Some c)
                 (broadcast (Content_CableDestroyRequest
                      \<lparr>cable_input_URI = uri_path (m_input_URI (m_address k)),
                       cable_output_URI = uri_path (m_output_URI (m_address k))\<rparr>) transport_args [] s)))"

definition disconnect_cables :: "ref option \<Rightarrow> stage \<Rightarrow> stage" where
  "disconnect_cables entity s =
     (case entity of
        None \<Rightarrow> s
      | Some r \<Rightarrow> fold (\<lambda>c. stage_destroy_cable (Some c)) (get_child_cables stage_virtuals tree_depth s r []) s)"

text \<open>The graph snapshot: first every entity of the other performers, then every cable.\<close>

fun whisper_entities :: "float_text \<Rightarrow> ref \<Rightarrow> ref list \<Rightarrow> stage \<Rightarrow> stage outcome" where
  "whisper_entities ft sender [] s = (s, None)"
| "whisper_entities ft sender (r # rs) s =
     (case heap s r of
        None \<Rightarrow> (s, Some UndefinedBehaviour)
      | Some e \<Rightarrow>
          (case entity_serialize ft e of
             Inl x \<Rightarrow> (s, Some x)
           | Inr t \<Rightarrow>
               whisper_entities ft sender rs
                 (whisper sender (Content_EntityCreateRequest (serialized_entity_type (m_entity_type e)) t)
                    transport_args s)))"

definition snapshot_entities :: "ref \<Rightarrow> stage \<Rightarrow> ref list" where
  "snapshot_entities sender s =
     concat (map (\<lambda>p. get_child_entities stage_virtuals tree_depth s p True True ET_NONE)
       (filter (\<lambda>p. \<not> uri_equal (uri_at s p) (uri_at s sender)) (stage_performers s)))"

definition synchronise_client_graph_handler :: "float_text \<Rightarrow> ref \<Rightarrow> stage \<Rightarrow> Signal stage_result" where
  "synchronise_client_graph_handler ft sender s =
     (case whisper_entities ft sender (snapshot_entities sender s) s of
        (s1, Some e) \<Rightarrow> (s1, Inl e)
      | (s1, None) \<Rightarrow>
          (fold (\<lambda>k. whisper sender (Content_CableCreateRequest (address_serialize (m_address k))) transport_args)
             (m_cables s1) s1,
           Inr Signal_OK))"

definition session_signal_handler :: "float_text \<Rightarrow> Signal \<Rightarrow> ref \<Rightarrow> stage \<Rightarrow> Signal stage_result" where
  "session_signal_handler ft signal sender s =
     (if signal = Signal_CLIENT_SYNC then synchronise_client_graph_handler ft sender s else (s, Inr Signal_EMPTY))"

text \<open>Cables that exceed the limit of the input plug are destroyed first.\<close>

definition make_room :: "ref \<Rightarrow> stage \<Rightarrow> stage" where
  "make_room input s =
     (if entity_test (\<lambda>e. num_cables e \<ge> max_connected_cables e) s input
      then fold (\<lambda>c. stage_destroy_cable (Some c)) (get_child_cables stage_virtuals tree_depth s input []) s
      else s)"

definition connect_cable_clients ::
  "ZstStageMessage \<Rightarrow> cable_ref \<Rightarrow> ref \<Rightarrow> ref \<Rightarrow> ref \<Rightarrow> stage \<Rightarrow> Signal stage_result" where
  "connect_cable_clients msg cable input output sender s =
     (case (uri_first (uri_at s input), uri_first (uri_at s output)) of
        (Inr fi, Inr fo) \<Rightarrow>
          (case (find_client s fi, find_client s fo) of
             (Some input_perf, Some output_perf) \<Rightarrow>
               if uri_equal (uri_at s output_perf) (uri_at s input_perf)
               then (case connect_finished cable sender (m_id msg) Signal_OK s of
                       (s1, Some e) \<Rightarrow> (s1, Inl e) | (s1, None) \<Rightarrow> (s1, Inr Signal_EMPTY))
               else (connect_clients output_perf input_perf (CA_CableConnected cable sender (m_id msg)) s,
                     Inr Signal_EMPTY)
           | _ \<Rightarrow> (s, Inl NullDereference))
      | (Inl e, _) \<Rightarrow> (s, Inl e)
      | (_, Inl e) \<Rightarrow> (s, Inl e))"

definition create_cable_handler ::
  "ZstStageMessage \<Rightarrow> CableData \<Rightarrow> ref \<Rightarrow> stage \<Rightarrow> Signal stage_result" where
  "create_cable_handler msg cable_data sender s =
     (let input_path = string_uri (cable_input_URI cable_data);
          output_path = string_uri (cable_output_URI cable_data)
      in if find_cable s (cable_address input_path output_path) \<noteq> None
         then (s, Inr Signal_ERR_STAGE_BAD_CABLE_CONNECT_REQUEST)
         else
           case (find_as is_input_plug stage_virtuals s input_path, find_as is_output_plug stage_virtuals s output_path) of
             (Some input, Some output) \<Rightarrow>
               (case create_cable (Some input) (Some output) (make_room input s) of
                  (s1, None) \<Rightarrow> (s1, Inr Signal_ERR_STAGE_BAD_CABLE_CONNECT_REQUEST)
                | (s1, Some cable) \<Rightarrow> connect_cable_clients msg cable input output sender s1)
           | _ \<Rightarrow> (s, Inr Signal_ERR_CABLE_PLUGS_NOT_FOUND))"

definition observe_entity_handler :: "ZstStageMessage \<Rightarrow> string \<Rightarrow> ref \<Rightarrow> stage \<Rightarrow> Signal stage_result" where
  "observe_entity_handler msg path sender s =
     (case uri_first (string_uri path) of
        Inl e \<Rightarrow> (s, Inl e)
      | Inr performer_path \<Rightarrow>
          (case find_client s performer_path of
             None \<Rightarrow> (s, Inr Signal_ERR_STAGE_PERFORMER_NOT_FOUND)
           | Some observed \<Rightarrow>
               if sender = observed then (s, Inr Signal_ERR_STAGE_PERFORMER_ALREADY_CONNECTED)
               else if (case heap s sender of
                          None \<Rightarrow> False | Some e \<Rightarrow> entity_test (\<lambda>o'. has_connected_subscriber o' e) s observed)
               then (s, Inr Signal_ERR_STAGE_PERFORMER_ALREADY_CONNECTED)
               else (connect_clients observed sender (CA_Observed sender (m_id msg)) s, Inr Signal_EMPTY)))"

text \<open>
  The clients with an input connected to an output plug, each once. A cable whose output plug is gone
  is a dangling pointer; a client that is not found is a null pointer.
\<close>

fun ownership_receivers :: "stage \<Rightarrow> ZstURI \<Rightarrow> ZstCable list \<Rightarrow> ref list \<Rightarrow> zst_exn + ref list" where
  "ownership_receivers s entity_uri [] acc = Inr acc"
| "ownership_receivers s entity_uri (k # ks) acc =
     (case (m_output k, m_input k) of
        (Some out, Some i) \<Rightarrow>
          if heap s out = None then Inl UndefinedBehaviour
          else if \<not> uri_equal (uri_at s out) entity_uri then ownership_receivers s entity_uri ks acc
          else if heap s i = None then Inl UndefinedBehaviour
          else
            (case uri_first (uri_at s i) of
               Inl e \<Rightarrow> Inl e
             | Inr f \<Rightarrow>
                 (case find_client s f of
                    None \<Rightarrow> Inl NullDereference
                  | Some receiver \<Rightarrow>
                      ownership_receivers s entity_uri ks
                        (if list_ex (\<lambda>r. uri_equal (uri_at s r) (uri_at s receiver)) acc then acc
                         else acc @ [receiver])))
      | _ \<Rightarrow> Inl NullDereference)"

definition change_ownership :: "ref \<Rightarrow> ZstURI \<Rightarrow> ref option \<Rightarrow> stage \<Rightarrow> Signal stage_result" where
  "change_ownership entity new_owner_path new_owner s =
     (case ownership_receivers s (uri_at s entity) (m_cables s) [] of
        Inl e \<Rightarrow> (s, Inl e)
      | Inr receivers \<Rightarrow>
          let s1 = (case new_owner of
                      None \<Rightarrow> s
                    | Some p \<Rightarrow>
                        if uri_is_empty new_owner_path then s
                        else fold (\<lambda>receiver. connect_clients receiver p CA_None) receivers s)
          in (broadcast (Content_EntityTakeOwnershipRequest (uri_path (uri_at s1 entity)) (uri_path new_owner_path))
                transport_args [] s1, Inr Signal_OK))"

definition aquire_entity_ownership_handler :: "string \<Rightarrow> string \<Rightarrow> stage \<Rightarrow> Signal stage_result" where
  "aquire_entity_ownership_handler path owner s =
     (case find_entity s (string_uri path) of
        None \<Rightarrow> (s, Inr Signal_ERR_ENTITY_NOT_FOUND)
      | Some entity \<Rightarrow>
          if owner = []
          then change_ownership entity uri_empty None (entity_set_owner stage_virtuals False entity (uri_of '''') s)
          else
            (case find_client s (string_uri owner) of
               None \<Rightarrow> (s, Inr Signal_ERR_STAGE_PERFORMER_NOT_FOUND)
             | Some new_owner \<Rightarrow>
                 change_ownership entity (string_uri owner) (Some new_owner)
                   (entity_set_owner stage_virtuals False entity (uri_at s new_owner) s)))"

definition destroy_cable_handler :: "CableData \<Rightarrow> stage \<Rightarrow> Signal stage_result" where
  "destroy_cable_handler cable_data s =
     (stage_destroy_cable (find_cable s (address_deserialize (Some cable_data) address_empty)) s, Inr Signal_OK)"

definition stage_session_on_receive_msg :: "float_text \<Rightarrow> ZstStageMessage \<Rightarrow> stage \<Rightarrow> stage outcome" where
  "stage_session_on_receive_msg ft msg s =
     (case get_client_from_endpoint_UUID s (m_origin_UUID msg) of
        None \<Rightarrow> (s, None)
      | Some sender \<Rightarrow>
          send_response msg
            (case m_buffer msg of
               Content_SignalMessage signal \<Rightarrow> session_signal_handler ft signal sender s
             | Content_CableCreateRequest cable \<Rightarrow> create_cable_handler msg cable sender s
             | Content_CableDestroyRequest cable \<Rightarrow> destroy_cable_handler cable s
             | Content_EntityObserveRequest path \<Rightarrow> observe_entity_handler msg path sender s
             | Content_EntityTakeOwnershipRequest path owner \<Rightarrow> aquire_entity_ownership_handler path owner s
             | _ \<Rightarrow> (s, Inr Signal_EMPTY)))"

section \<open>Events\<close>

text \<open>The adaptor calls of the hierarchy events, on the hierarchy and on the session of the stage.\<close>

definition stage_on_entity_arriving :: "float_text \<Rightarrow> ref \<Rightarrow> stage \<Rightarrow> stage \<times> bool" where
  "stage_on_entity_arriving ft r s =
     (case heap s r of
        None \<Rightarrow> (s, True)
      | Some e \<Rightarrow>
          (case (uri_first (m_uri e), entity_serialize ft e) of
             (Inr f, Inr t) \<Rightarrow>
               (broadcast (Content_EntityCreateRequest (serialized_entity_type (m_entity_type e)) t) transport_args
                  (case find_client s f of None \<Rightarrow> [] | Some p \<Rightarrow> [p]) s, True)
           | _ \<Rightarrow> (s, False)))"

fun run_hierarchy_event :: "float_text \<Rightarrow> hierarchy_event \<Rightarrow> adaptor \<Rightarrow> stage \<Rightarrow> stage \<times> bool" where
  "run_hierarchy_event ft (HE_PerformerArriving r) SessionModule s = (session_register_entity stage_virtuals r s, True)"
| "run_hierarchy_event ft (HE_EntityArriving r) SessionModule s = (session_register_entity stage_virtuals r s, True)"
| "run_hierarchy_event ft (HE_PerformerArriving r) HierarchyModule s = stage_on_entity_arriving ft r s"
| "run_hierarchy_event ft (HE_EntityArriving r) HierarchyModule s = stage_on_entity_arriving ft r s"
| "run_hierarchy_event ft (HE_FactoryArriving r) HierarchyModule s = stage_on_entity_arriving ft r s"
| "run_hierarchy_event ft (HE_PerformerLeaving path) SessionModule s = (disconnect_cables (find_entity s path) s, True)"
| "run_hierarchy_event ft (HE_EntityLeaving path) SessionModule s = (disconnect_cables (find_entity s path) s, True)"
| "run_hierarchy_event ft _ _ s = (s, True)"

definition upd_hierarchy_events ::
  "((adaptor, hierarchy_event) dispatcher \<Rightarrow> (adaptor, hierarchy_event) dispatcher) \<Rightarrow> stage \<Rightarrow> stage" where
  "upd_hierarchy_events f s = s\<lparr>m_hierarchy_events := f (m_hierarchy_events s)\<rparr>"

definition stage_process_hierarchy_events :: "float_text \<Rightarrow> nat \<Rightarrow> stage \<Rightarrow> stage option" where
  "stage_process_hierarchy_events ft n s =
     process_events m_hierarchy_events upd_hierarchy_events (\<lambda>_. True) (run_hierarchy_event ft) (\<lambda>_ _ s. s) n s"

text \<open>Nothing is ever deferred to the router events, which \<open>process_events\<close> of the hierarchy drains first.\<close>

definition stage_hierarchy_process_events :: "float_text \<Rightarrow> nat \<Rightarrow> stage \<Rightarrow> stage option" where
  "stage_hierarchy_process_events ft n s =
     Option.bind (stage_process_hierarchy_events ft n s) (hierarchy_process_sync_events stage_virtuals n)"

definition stage_process_events ::
  "float_text \<Rightarrow> (ref \<Rightarrow> ref \<Rightarrow> stage \<Rightarrow> stage) \<Rightarrow> nat \<Rightarrow> stage \<Rightarrow> stage option" where
  "stage_process_events ft compute n s =
     Option.bind (stage_hierarchy_process_events ft n s) (\<lambda>s.
     Option.bind (session_process_own_events stage_virtuals compute n s) (\<lambda>s.
     Option.bind (session_process_sync_events stage_virtuals n s) (stage_hierarchy_process_events ft n)))"

section \<open>The heartbeat timer\<close>

definition MAX_MISSED_HEARTBEATS :: int where
  "MAX_MISSED_HEARTBEATS = 10"

definition heartbeat_tick :: "entity \<Rightarrow> entity" where
  "heartbeat_tick e = (if m_heartbeat_active e then clear_active_hearbeat e else set_heartbeat_inactive e)"

definition heartbeat_expired :: "entity \<Rightarrow> bool" where
  "heartbeat_expired e \<longleftrightarrow> m_missed_heartbeats e > MAX_MISSED_HEARTBEATS"

definition stage_heartbeat_timer :: "stage \<Rightarrow> stage" where
  "stage_heartbeat_timer s =
     (let s1 = fold (\<lambda>p. upd_entity p heartbeat_tick) (stage_performers s) s;
          removed_clients = filter (entity_test heartbeat_expired s1) (stage_performers s)
      in fold (remove_proxy_entity stage_virtuals) removed_clients s1)"

definition send_shutdown_signal :: "stage \<Rightarrow> stage" where
  "send_shutdown_signal s = broadcast (Content_ServerStatusMessage ServerStatus_QUIT) transport_args [] s"

section \<open>Frames\<close>

text \<open>Sending changes the outbox alone.\<close>

definition outbox_only :: "stage \<Rightarrow> stage \<Rightarrow> bool" where
  "outbox_only s s' \<longleftrightarrow> (\<exists>ms. s' = s\<lparr>m_outbox := m_outbox s @ ms\<rparr>)"

lemma outbox_onlyI: "s' = s\<lparr>m_outbox := m_outbox s @ ms\<rparr> \<Longrightarrow> outbox_only s s'"
  by (auto simp: outbox_only_def)

lemma outbox_refl [simp]: "outbox_only s s"
  by (rule outbox_onlyI [of _ _ "[]"]) simp

lemma outbox_trans [trans]: "outbox_only s t \<Longrightarrow> outbox_only t u \<Longrightarrow> outbox_only s u"
  by (auto simp: outbox_only_def)

lemma outbox_send: "outbox_only s (send_msg t c a s)"
  by (auto simp: outbox_only_def send_msg_def)

lemma outbox_whisper: "outbox_only s (whisper p c a s)"
  by (simp add: whisper_def outbox_send split: option.split)

lemma outbox_fold: "(\<And>x s. outbox_only s (f x s)) \<Longrightarrow> outbox_only s (fold f xs s)"
  by (induction xs arbitrary: s) (auto intro: outbox_trans)

lemma outbox_broadcast: "outbox_only s (broadcast c a ex s)"
  unfolding broadcast_def by (rule outbox_fold) (simp add: outbox_whisper)

lemma outbox_reply: "outbox_only s (reply_with_signal p g i s)"
  by (simp add: reply_with_signal_def outbox_whisper)

lemma outbox_connect: "outbox_only s (connect_clients p q a s)"
  by (auto simp: connect_clients_def intro: outbox_trans [OF outbox_whisper outbox_whisper] split: option.split)

lemma outbox_only_frame:
  assumes "outbox_only s s'"
  shows "heap s' = heap s" "m_entity_lookup s' = m_entity_lookup s" "m_proxies s' = m_proxies s"
    "m_hierarchy_events s' = m_hierarchy_events s" "hierarchy.more s' = hierarchy.more s"
    "m_cables s' = m_cables s" "h_module s' = h_module s" "hierarchy_ok s' = hierarchy_ok s" "cables_ok s' = cables_ok s"
  using assms by (auto simp: outbox_only_def hierarchy_ok_def lookup_sound_def cables_ok_def)

text \<open>The operations that leave the queue of hierarchy events alone.\<close>

lemma quiet_register: "m_hierarchy_events (session_register_entity V r s) = m_hierarchy_events s"
  unfolding session_register_entity_def by (rule fold_frame) simp

lemma quiet_destroy_cable: "m_hierarchy_events (destroy_cable_complete V c s) = m_hierarchy_events s"
  by (simp add: destroy_cable_complete_def Let_def cable_enqueue_deactivation_def cable_sync_op_def session_defer_def
      plug_forget_def upd_cable_def split: option.split prod.split)

lemma quiet_stage_destroy: "m_hierarchy_events (stage_destroy_cable c s) = m_hierarchy_events s"
  by (simp add: stage_destroy_cable_def quiet_destroy_cable outbox_only_frame [OF outbox_broadcast] split: option.split)

lemma quiet_disconnect: "m_hierarchy_events (disconnect_cables r s) = m_hierarchy_events s"
  by (simp add: disconnect_cables_def split: option.split) (auto intro!: fold_frame simp: quiet_stage_destroy)

lemma quiet_arriving: "m_hierarchy_events (fst (stage_on_entity_arriving ft r s)) = m_hierarchy_events s"
  by (simp add: stage_on_entity_arriving_def outbox_only_frame [OF outbox_broadcast] split: option.split sum.split)

lemma quiet_hierarchy_event: "m_hierarchy_events (fst (run_hierarchy_event ft ev a s)) = m_hierarchy_events s"
  by (cases ev; cases a; simp add: quiet_register quiet_disconnect quiet_arriving)

interpretation stage_queue:
  quiet_dispatcher m_hierarchy_events upd_hierarchy_events "\<lambda>_. True" "run_hierarchy_event ft" "\<lambda>_ _ s. s"
  by unfold_locales (simp_all add: upd_hierarchy_events_def quiet_hierarchy_event)

section \<open>The invariant of the stage\<close>

abbreviation stage_ok :: "stage \<Rightarrow> bool" where
  "stage_ok \<equiv> session_ok"

interpretation stage_session: session_module stage_virtuals
  by unfold_locales

lemma stage_ok_outbox: "outbox_only s s' \<Longrightarrow> stage_ok s' = stage_ok s"
  using outbox_only_frame(5,8,9) [of s s'] reap_items_more [of s' s] by (simp add: session_ok_def)

lemma stage_destroy_ok: "stage_ok s \<Longrightarrow> stage_ok (stage_destroy_cable c s)"
  by (auto simp: stage_destroy_cable_def stage_ok_outbox [OF outbox_broadcast]
      intro!: destroy_complete_session_ok split: option.split)

lemma destroy_all_ok: "stage_ok s \<Longrightarrow> stage_ok (fold (\<lambda>c. stage_destroy_cable (Some c)) cs s)"
  by (rule fold_invariant [where I = stage_ok]) (auto intro: stage_destroy_ok)

lemma disconnect_ok: "stage_ok s \<Longrightarrow> stage_ok (disconnect_cables r s)"
  by (auto simp: disconnect_cables_def intro: destroy_all_ok split: option.split)

text \<open>The handlers of the hierarchy.\<close>

lemma send_response_ok: "stage_ok (fst res) \<Longrightarrow> stage_ok (fst (send_response msg res))"
  by (auto simp: send_response_def stage_ok_outbox [OF outbox_send] split: prod.splits sum.splits)

lemma create_client_ok:
  assumes "stage_ok s"
  shows "stage_ok (fst (create_client_handler ind msg ed ct rel unrel s))"
proof -
  have "stage_ok (fst (add_proxy_entity stage_virtuals (Some (fst (alloc_entity mk s))) (snd (alloc_entity mk s))))" for mk
  proof (rule stage_session.add_proxy_session_ok)
    show "stage_ok (snd (alloc_entity mk s))"
      using assms alloc_entity_ok [of s mk] by (intro session_ok_more [OF assms] alloc_more) (simp add: session_ok_def)
    show "\<forall>r. Some (fst (alloc_entity mk s)) = Some r \<longrightarrow> heap (snd (alloc_entity mk s)) r \<noteq> None"
      using assms alloc_entity_ok [of s mk] by (simp add: session_ok_def)
  qed
  then show ?thesis
    using assms by (auto simp: create_client_handler_def Let_def split: prod.splits option.splits) (metis fst_conv snd_conv)+
qed

lemma remove_proxy_stage_ok: "stage_ok s \<Longrightarrow> stage_ok (remove_proxy_entity stage_virtuals p s)"
  by (rule session_ok_preserves [OF stage_tree.remove_proxy_ok])

lemma client_leaving_ok: "stage_ok s \<Longrightarrow> stage_ok (fst (client_leaving_handler reason sender s))"
  by (auto simp: client_leaving_handler_def Let_def stage_ok_outbox [OF outbox_broadcast] remove_proxy_stage_ok
      split: option.split)

lemma destroy_entity_ok: "stage_ok s \<Longrightarrow> stage_ok (fst (destroy_entity_handler path sender s))"
  by (auto simp: destroy_entity_handler_def stage_ok_outbox [OF outbox_broadcast] remove_proxy_stage_ok
      split: option.split)

lemma factory_create_ok: "stage_ok s \<Longrightarrow> stage_ok (fst (factory_create_entity_handler msg c n sender s))"
  by (auto simp: factory_create_entity_handler_def stage_ok_outbox [OF outbox_whisper] split: option.split sum.split)

lemma signal_ok: "stage_ok s \<Longrightarrow> stage_ok (fst (hierarchy_signal_handler g sender s))"
  by (auto simp: hierarchy_signal_handler_def set_heartbeat_active_def intro: session_ok_upd split: option.split)

lemma create_entity_ok:
  assumes "stage_ok s"
  shows "stage_ok (fst (create_entity_handler ind payload sender s))"
proof -
  have create: "stage_ok s1 \<and> (\<forall>r. res = Inr (Some r) \<longrightarrow> heap s1 r \<noteq> None)"
    if "create_proxy_entity stage_virtuals ind payload ed s = (s1, res)" for s1 res ed
    using stage_tree.create_proxy_ok [OF _ that] stage_tree.create_proxy_more [OF that] assms
      session_ok_more [of s s1] by (simp add: session_ok_def)
  have "stage_ok s2"
    if "create_proxy_entity stage_virtuals ind payload ed s = (s1, Inr entity)"
      "add_proxy_entity stage_virtuals entity s1 = (s2, x)" for s1 s2 entity x ed
    using create [OF that(1)] stage_session.add_proxy_session_ok [of s1 entity] that(2) by auto
  then show ?thesis
    using assms create
    by (auto simp: create_entity_handler_def split: sum.split option.split prod.split)
qed

lemma update_entity_ok:
  assumes "stage_ok s"
  shows "stage_ok (fst (update_entity_handler ft t payload path sender s))"
proof -
  have "stage_ok s1" if "find_entity s u = Some r" "update_proxy_entity stage_virtuals r payload ed s = (s1, x)"
    for s1 u r x ed
  proof -
    have ok: "hierarchy_ok s" using assms by (simp add: session_ok_def)
    then have live: "heap s r \<noteq> None" using that(1) lookup_uri [OF ok] by (auto simp: find_entity_def)
    show ?thesis
      using session_ok_preserves [OF stage_tree.update_proxy_ok [OF ok live] assms, of payload ed] that(2) by simp
  qed
  then show ?thesis
    using assms
    by (auto simp: update_entity_handler_def stage_ok_outbox [OF outbox_broadcast]
        split: sum.split option.split prod.split)
qed

lemma stage_hierarchy_receive_ok:
  "stage_ok s \<Longrightarrow> stage_ok (fst (stage_hierarchy_on_receive_msg ft ind msg s))"
  unfolding stage_hierarchy_on_receive_msg_def Let_def
  by (rule send_response_ok)
     (simp add: signal_ok create_client_ok client_leaving_ok create_entity_ok factory_create_ok update_entity_ok
       destroy_entity_ok split: message_content.split)

text \<open>The handlers of the session and the response callbacks.\<close>

lemma complete_connection_ok: "stage_ok s \<Longrightarrow> stage_ok (complete_client_connection p q s)"
  by (auto simp: complete_client_connection_def stage_ok_outbox [OF outbox_whisper] add_subscriber_def
      intro: session_ok_upd split: option.split)

lemma connect_finished_ok: "stage_ok s \<Longrightarrow> stage_ok (fst (connect_finished c p i g s))"
  by (auto simp: connect_finished_def stage_ok_outbox [OF outbox_reply] stage_ok_outbox [OF outbox_broadcast]
      split: option.split)

lemma connect_action_ok: "stage_ok s \<Longrightarrow> stage_ok (fst (run_connect_action a resp s))"
  by (auto simp: run_connect_action_def connect_finished_ok stage_ok_outbox [OF outbox_reply]
      split: connect_action.split)

lemma stage_response_ok: "stage_ok s \<Longrightarrow> stage_ok (fst (stage_on_response a resp s))"
  by (auto simp: stage_on_response_def Let_def connect_action_ok complete_connection_ok
      stage_ok_outbox [OF outbox_reply] stage_ok_outbox [OF outbox_whisper]
      split: response_action.split option.split)

lemma whisper_entities_outbox: "outbox_only s (fst (whisper_entities ft p rs s))"
proof (induction rs arbitrary: s)
  case (Cons r rs)
  show ?case
    by (auto split: option.split sum.split intro: outbox_trans [OF outbox_whisper Cons.IH])
qed simp

lemma synchronise_ok: "stage_ok s \<Longrightarrow> stage_ok (fst (synchronise_client_graph_handler ft p s))"
proof -
  assume "stage_ok s"
  then have "stage_ok (fst (whisper_entities ft p (snapshot_entities p s) s))"
    by (simp add: stage_ok_outbox [OF whisper_entities_outbox])
  moreover have "stage_ok (fold (\<lambda>k. whisper p (c k) transport_args) ks t) = stage_ok t" for c and ks :: "ZstCable list" and t
    by (rule stage_ok_outbox [OF outbox_fold]) (rule outbox_whisper)
  ultimately show ?thesis
    by (auto simp: synchronise_client_graph_handler_def split: prod.split option.split)
qed

lemma make_room_ok: "stage_ok s \<Longrightarrow> stage_ok (make_room i s)"
  by (simp add: make_room_def destroy_all_ok)

lemma connect_cable_clients_ok: "stage_ok s \<Longrightarrow> stage_ok (fst (connect_cable_clients msg c i out p s))"
  by (auto simp: connect_cable_clients_def stage_ok_outbox [OF outbox_connect] connect_finished_ok
      split: sum.split option.split prod.split) (metis connect_finished_ok fst_conv)+

lemma create_cable_handler_ok:
  assumes "stage_ok s"
  shows "stage_ok (fst (create_cable_handler msg cd p s))"
proof -
  have "stage_ok s1" if "create_cable (Some i) (Some out) (make_room i s) = (s1, x)" for i out s1 x
    using create_cable_session_ok [OF make_room_ok [OF assms], of i out i] that by simp
  then show ?thesis
    using assms
    by (auto simp: create_cable_handler_def Let_def connect_cable_clients_ok split: option.split prod.split)
qed

lemma observe_ok: "stage_ok s \<Longrightarrow> stage_ok (fst (observe_entity_handler msg path p s))"
  by (simp add: observe_entity_handler_def stage_ok_outbox [OF outbox_connect] split: sum.split option.split)

lemma set_owner_ok: "stage_ok s \<Longrightarrow> stage_ok (entity_set_owner V b r u s)"
  by (auto simp: entity_set_owner_def Let_def set_can_fire_def intro!: session_ok_upd)

lemma change_ownership_ok: "stage_ok s \<Longrightarrow> stage_ok (fst (change_ownership r u p s))"
proof -
  have "stage_ok (fold (\<lambda>q. connect_clients q o' CA_None) qs t) = stage_ok t" for o' qs t
    by (rule stage_ok_outbox [OF outbox_fold]) (rule outbox_connect)
  then show "stage_ok s \<Longrightarrow> ?thesis"
    by (simp add: change_ownership_def Let_def stage_ok_outbox [OF outbox_broadcast]
        split: sum.split option.split)
qed

lemma aquire_ok: "stage_ok s \<Longrightarrow> stage_ok (fst (aquire_entity_ownership_handler path owner s))"
  by (simp add: aquire_entity_ownership_handler_def change_ownership_ok set_owner_ok split: option.split)

lemma stage_session_receive_ok: "stage_ok s \<Longrightarrow> stage_ok (fst (stage_session_on_receive_msg ft msg s))"
  by (auto simp: stage_session_on_receive_msg_def session_signal_handler_def synchronise_ok create_cable_handler_ok
      destroy_cable_handler_def stage_destroy_ok observe_ok aquire_ok
      intro!: send_response_ok split: option.split message_content.split)

text \<open>Events and the timer.\<close>

lemma hierarchy_event_ok: "stage_ok s \<Longrightarrow> stage_ok (fst (run_hierarchy_event ft ev a s))"
proof -
  assume ok: "stage_ok s"
  then have "stage_ok (fst (stage_on_entity_arriving ft r s))" for r
    by (simp add: stage_on_entity_arriving_def stage_ok_outbox [OF outbox_broadcast] split: option.split sum.split)
  with ok show ?thesis
    by (cases ev; cases a; simp add: session_register_ok disconnect_ok)
qed

lemma process_hierarchy_events_ok:
  assumes "stage_ok s" and "stage_process_hierarchy_events ft n s = Some s'"
  shows "stage_ok s'"
proof -
  have upd: "stage_ok t \<Longrightarrow> stage_ok (upd_hierarchy_events f t)" for f t
    unfolding upd_hierarchy_events_def by (rule session_ok_preserves [OF preserves_hierarchy_events])
  show ?thesis
    by (rule process_events_invariant [OF assms(2) [unfolded stage_process_hierarchy_events_def],
          where I = stage_ok])
       (fact assms(1), erule upd, erule hierarchy_event_ok, assumption)
qed

lemma hierarchy_process_ok:
  assumes "stage_ok s" and "stage_hierarchy_process_events ft n s = Some s'"
  shows "stage_ok s'"
proof -
  obtain t where t: "stage_process_hierarchy_events ft n s = Some t"
      "hierarchy_process_sync_events stage_virtuals n t = Some s'"
    using assms(2) by (auto simp: stage_hierarchy_process_events_def bind_eq_Some_conv)
  have ok: "stage_ok t" using process_hierarchy_events_ok [OF assms(1) t(1)] .
  then have "hierarchy_ok s'" unfolding session_ok_def using stage_tree.process_sync_ok(1) [OF _ stage_unpinned t(2)] by blast
  then show ?thesis by (rule session_ok_more [OF ok _ stage_tree.process_sync_more [OF t(2)]])
qed

lemma timer_ok: "stage_ok s \<Longrightarrow> stage_ok (stage_heartbeat_timer s)"
proof -
  assume "stage_ok s"
  then have "stage_ok (fold (\<lambda>p. upd_entity p heartbeat_tick) ps s)" for ps
    by (rule fold_invariant [where I = stage_ok])
       (auto intro!: session_ok_upd simp: heartbeat_tick_def clear_active_hearbeat_def set_heartbeat_inactive_def)
  then have "stage_ok (fold (remove_proxy_entity stage_virtuals) qs
      (fold (\<lambda>p. upd_entity p heartbeat_tick) ps s))" for ps qs
    by (rule fold_invariant [where I = stage_ok]) (rule remove_proxy_stage_ok)
  then show ?thesis by (simp add: stage_heartbeat_timer_def Let_def)
qed

end
