(* ===== verification/Zst_Protocol.thy ===== *)
theory Zst_Protocol
  imports Zst_Stage
begin

text \<open>
  The stage as a transition system: the messages, responses, timer ticks and rounds of event processing
  that reach the server of \<open>Zst_Stage\<close>, in any order, and what holds in every state it can get into.

  A message is handed to the hierarchy and to the session, in the order of the addresses of the two
  modules, which are two steps here. \<open>ZstEventDispatcher::process\<close>, which delivers messages, catches every
  \<open>std::exception\<close>, and the stage goes on in the state the handler had reached; a null pointer or an access to
  a deleted object ends the process. The callbacks of responses run in threads that catch nothing.
\<close>

section \<open>Events of the session\<close>

text \<open>
  The components of the stage are proxies, whose \<open>compute\<close> is that of \<open>ZstComponent\<close>: it tells the entity
  adaptors, which only forward to callbacks of the application.
\<close>

definition proxy_compute :: "ref \<Rightarrow> ref \<Rightarrow> stage \<Rightarrow> stage" where
  "proxy_compute component plug s = s"

lemma session_own_ok:
  assumes "stage_ok s" and "session_process_own_events V proxy_compute n s = Some s'"
  shows "stage_ok s'"
proof -
  have upd: "stage_ok (upd_session_events f t) = stage_ok t" "stage_ok (upd_compute_events g t) = stage_ok t"
    for f g t
    by (simp_all add: session_ok_def upd_session_events_def upd_compute_events_def reap_items_def cables_ok_def)
  obtain t where t: "process_events m_session_events upd_session_events (\<lambda>_. True) (\<lambda>_ _ s. (s, True))
        (\<lambda>_ _ s. s) n s = Some t"
      "process_events m_compute_events upd_compute_events (\<lambda>_. True) (run_compute_event V proxy_compute)
        (\<lambda>_ _ s. s) n t = Some s'"
    using assms(2) by (auto simp: session_process_own_events_def bind_eq_Some_conv)
  have "stage_ok t"
    by (rule process_events_invariant [OF t(1), where I = stage_ok]) (simp_all add: assms(1) upd)
  show ?thesis
    by (rule process_events_invariant [OF t(2), where I = stage_ok])
       (simp_all add: \<open>stage_ok t\<close> upd run_compute_event_def proxy_compute_def split: compute_event.split option.split)
qed

lemma stage_process_ok:
  assumes "stage_ok s" and "stage_process_events ft proxy_compute n s = Some s'"
  shows "stage_ok s'"
proof -
  obtain t u v where st: "stage_hierarchy_process_events ft n s = Some t"
      "session_process_own_events stage_virtuals proxy_compute n t = Some u"
      "session_process_sync_events stage_virtuals n u = Some v" "stage_hierarchy_process_events ft n v = Some s'"
    using assms(2) unfolding stage_process_events_def bind_eq_Some_conv
    by (elim exE conjE) (rule that; assumption)
  have "stage_ok u" by (rule session_own_ok [OF hierarchy_process_ok [OF assms(1) st(1)] st(2)])
  then show ?thesis by (rule hierarchy_process_ok [OF stage_session.session_sync_ok [OF _ st(3)] st(4)])
qed

section \<open>Ownership\<close>

text \<open>
  The operations of the stage that neither create nor delete an entity leave \<open>owned\<close> as it is.
\<close>

lemma owned_fields [simp]:
  "owned (upd_entity r f s) = owned s" "owned (s\<lparr>m_outbox := ms\<rparr>) = owned s"
  "owned (s\<lparr>m_hierarchy_events := d\<rparr>) = owned s" "owned (s\<lparr>m_cables := ks\<rparr>) = owned s"
  "owned (s\<lparr>m_session_events := d1\<rparr>) = owned s" "owned (s\<lparr>m_compute_events := d2\<rparr>) = owned s"
  "owned (s\<lparr>s_module := m\<rparr>) = owned s" "owned (s\<lparr>s_instance_id_counter := i\<rparr>) = owned s"
  "owned (s\<lparr>next_cable := c\<rparr>) = owned s"
  by (simp_all add: owned_def)

lemma owned_outbox: "outbox_only s s' \<Longrightarrow> owned s' = owned s"
  by (auto simp: outbox_only_def)

lemma owned_cable [simp]:
  "owned (upd_cable c g s) = owned s" "owned (reap_cable c s) = owned s" "owned (session_defer e s) = owned s"
  "owned (plug_forget p a s) = owned s" "owned (cable_sync_op f c s) = owned s"
  by (simp_all add: upd_cable_def reap_cable_def session_defer_def plug_forget_def cable_sync_op_def Let_def
      split: option.split prod.split)

lemma owned_destroy [simp]: "owned (stage_destroy_cable c s) = owned s"
  by (simp add: stage_destroy_cable_def destroy_cable_complete_def cable_enqueue_deactivation_def Let_def
      owned_outbox [OF outbox_broadcast] split: option.split)

lemma owned_destroy_all [simp]: "owned (fold (\<lambda>c. stage_destroy_cable (Some c)) cs s) = owned s"
  by (rule fold_frame) simp

lemma owned_create_cable [simp]: "owned (fst (create_cable i out s)) = owned s"
  by (simp add: create_cable_def add_new_cable_def cable_enqueue_activation_def Let_def split: option.split prod.split)

lemma owned_finished [simp]: "owned (fst (connect_finished c p i g s)) = owned s"
  by (simp add: connect_finished_def owned_outbox [OF outbox_reply] owned_outbox [OF outbox_broadcast]
      split: option.split)

lemma owned_response [simp]: "owned (fst (stage_on_response a resp s)) = owned s"
  by (simp add: stage_on_response_def run_connect_action_def complete_client_connection_def Let_def
      owned_outbox [OF outbox_reply] owned_outbox [OF outbox_whisper] split: response_action.split
      connect_action.split option.split)

lemma owned_register [simp]: "owned (session_register_entity V r s) = owned s"
  unfolding session_register_entity_def by (rule fold_frame) simp

lemma owned_event [simp]: "owned (fst (run_hierarchy_event ft ev a s)) = owned s"
proof -
  have "owned (fst (stage_on_entity_arriving ft r s)) = owned s" for r
    by (simp add: stage_on_entity_arriving_def owned_outbox [OF outbox_broadcast] split: option.split sum.split)
  then show ?thesis
    by (cases ev; cases a; simp add: disconnect_cables_def split: option.split)
qed

lemma owned_session_handlers [simp]:
  "owned (fst (session_signal_handler ft g p s)) = owned s" "owned (fst (create_cable_handler msg cd p s)) = owned s"
  "owned (fst (observe_entity_handler msg path p s)) = owned s" "owned (fst (destroy_cable_handler cd s)) = owned s"
  "owned (fst (aquire_entity_ownership_handler path own s)) = owned s"
proof -
  have "owned (fold (\<lambda>k. whisper p (c k) transport_args) ks t) = owned t" for c and ks :: "ZstCable list" and t
    by (rule owned_outbox [OF outbox_fold]) (rule outbox_whisper)
  moreover have "owned t = owned s" if "whisper_entities ft p rs s = (t, x)" for rs t x
    using owned_outbox [OF whisper_entities_outbox, of ft p rs s] unfolding that fst_conv .
  ultimately show "owned (fst (session_signal_handler ft g p s)) = owned s"
    by (auto simp: session_signal_handler_def synchronise_client_graph_handler_def split: prod.split option.split)
  have finish: "owned t = owned u" if "connect_finished c p i h u = (t, x)" for c i h u t x
    using owned_finished [of c p i h u] unfolding that fst_conv .
  have "owned (fst (connect_cable_clients msg c i out p t)) = owned t" for c i out t
    by (auto simp: connect_cable_clients_def owned_outbox [OF outbox_connect] dest: finish
        split: sum.split option.split prod.split)
  moreover have "owned t = owned s" if "create_cable i out (make_room r s) = (t, x)" for i out r t x
    using owned_create_cable [of i out "make_room r s"] owned_destroy_all [of _ s]
    unfolding that fst_conv by (simp add: make_room_def)
  ultimately show "owned (fst (create_cable_handler msg cd p s)) = owned s"
    by (auto simp: create_cable_handler_def Let_def split: option.split prod.split)
  show "owned (fst (observe_entity_handler msg path p s)) = owned s"
    by (simp add: observe_entity_handler_def owned_outbox [OF outbox_connect] split: sum.split option.split)
  show "owned (fst (destroy_cable_handler cd s)) = owned s" by (simp add: destroy_cable_handler_def)
  have conn: "owned (fold (\<lambda>q. connect_clients q o' CA_None) qs t) = owned t" for o' qs t
    by (rule owned_outbox [OF outbox_fold]) (rule outbox_connect)
  have "owned (entity_set_owner stage_virtuals b r u t) = owned t" for b r u and t :: stage
    by (simp add: entity_set_owner_def Let_def)
  then show "owned (fst (aquire_entity_ownership_handler path own s)) = owned s"
    by (simp add: aquire_entity_ownership_handler_def change_ownership_def Let_def conn
        owned_outbox [OF outbox_broadcast] split: option.split sum.split)
qed

text \<open>What \<open>ZstEventDispatcher::process\<close> catches: the exceptions of C++, unlike the two faults that end the process.\<close>

definition caught :: "zst_exn \<Rightarrow> bool" where
  "caught e \<longleftrightarrow> e \<noteq> NullDereference \<and> e \<noteq> UndefinedBehaviour"

text \<open>The handlers of the hierarchy that return keep every object owned.\<close>

lemma send_response_returns:
  assumes "send_response msg res = (s', None)"
  shows "\<exists>s1 g. res = (s1, Inr g) \<and> outbox_only s1 s'"
  using assms by (auto simp: send_response_def intro: outbox_send split: prod.splits sum.splits if_splits)

lemma create_client_owned:
  assumes "owned s" and "create_client_handler ind msg ed ct rel unrel s = (s', Inr g)"
  shows "owned s'"
proof (cases "find_entity s (string_uri (ed_URI ed))")
  case (Some r)
  then show ?thesis using assms by (simp add: create_client_handler_def)
next
  case None
  then obtain mk r s1 where alloc: "alloc_entity mk s = (r, s1)"
    and add: "add_proxy_entity stage_virtuals (Some r) s1 = (s', None)"
    using assms(2) by (auto simp: create_client_handler_def Let_def split: prod.splits option.splits)
  have "dom (heap s1) = insert r (dom (heap s))" "m_proxies s1 = m_proxies s" "heap s1 r \<noteq> None"
    using alloc by (auto simp: alloc_entity_def Let_def split: prod.splits)
  moreover from this(3) have "adopts r s1 s'" using stage_tree.add_proxy_adopts [of s1 r] add by simp
  ultimately show ?thesis using assms(1) by (simp add: owned_def adopts_def)
qed

lemma owned_remove: "owned s \<Longrightarrow> owned (remove_proxy_entity stage_virtuals r s)"
  by (rule stage_tree.owned_preserves [OF stage_tree.remove_proxy_ok])

lemma create_entity_owned:
  assumes "owned s" and "create_entity_handler ind payload sender s = (s', Inr g)"
  shows "owned s'"
  using assms
  by (auto simp: create_entity_handler_def intro: stage_tree.create_proxy_owned
      split: sum.splits option.splits prod.splits if_splits)

lemma update_entity_owned:
  assumes "owned s" and "stage_ok s" and "update_entity_handler ft t payload path sender s = (s', Inr g)"
  shows "owned s'"
proof -
  have "owned s1" if "find_entity s u = Some r" "update_proxy_entity stage_virtuals r payload ed s = (s1, x)"
    for s1 u r x ed
  proof -
    have ok: "hierarchy_ok s" using assms(2) by (simp add: session_ok_def)
    then have "heap s r \<noteq> None" using that(1) lookup_uri [OF ok] by (auto simp: find_entity_def)
    from stage_tree.owned_preserves [OF stage_tree.update_proxy_ok [OF ok this] assms(1), of payload ed]
    show ?thesis by (simp add: that(2))
  qed
  then show ?thesis
    using assms(1,3)
    by (auto simp: update_entity_handler_def owned_outbox [OF outbox_broadcast]
        split: sum.splits option.splits prod.splits)
qed

lemma hierarchy_handlers_owned:
  "hierarchy_signal_handler sg p s = (s', Inr g) \<Longrightarrow> owned s \<Longrightarrow> owned s'"
  "client_leaving_handler reason p s = (s', Inr g) \<Longrightarrow> owned s \<Longrightarrow> owned s'"
  "factory_create_entity_handler msg creatable name p s = (s', Inr g) \<Longrightarrow> owned s \<Longrightarrow> owned s'"
  "destroy_entity_handler path p s = (s', Inr g) \<Longrightarrow> owned s \<Longrightarrow> owned s'"
  by (auto simp: hierarchy_signal_handler_def client_leaving_handler_def factory_create_entity_handler_def
      destroy_entity_handler_def Let_def owned_remove owned_outbox [OF outbox_broadcast]
      owned_outbox [OF outbox_whisper] split: option.splits sum.splits if_splits)

lemma hierarchy_receive_owned:
  assumes "owned s" and "stage_ok s" and "stage_hierarchy_on_receive_msg ft ind msg s = (s', None)"
  shows "owned s'"
proof -
  let ?p = "get_client_from_endpoint_UUID s (m_origin_UUID msg)"
  obtain s1 g where s1: "(case m_buffer msg of
              Content_SignalMessage signal \<Rightarrow> hierarchy_signal_handler signal ?p s
            | Content_ClientJoinRequest ed ct rel unrel \<Rightarrow> create_client_handler ind msg ed ct rel unrel s
            | Content_ClientLeaveRequest _ reason \<Rightarrow> client_leaving_handler reason ?p s
            | Content_EntityCreateRequest _ payload \<Rightarrow> create_entity_handler ind payload ?p s
            | Content_FactoryCreateEntityRequest creatable name \<Rightarrow>
                factory_create_entity_handler msg creatable name ?p s
            | Content_EntityUpdateRequest t payload path \<Rightarrow> update_entity_handler ft t payload path ?p s
            | Content_EntityDestroyRequest path \<Rightarrow> destroy_entity_handler path ?p s
            | _ \<Rightarrow> (s, Inr Signal_EMPTY)) = (s1, Inr g)"
    and out: "outbox_only s1 s'"
    using send_response_returns [OF assms(3) [unfolded stage_hierarchy_on_receive_msg_def Let_def]] by blast
  have "owned s1"
  proof (cases "m_buffer msg")
    case (Content_EntityUpdateRequest t payload path)
    then show ?thesis using s1 update_entity_owned [OF assms(1,2)] by simp
  qed (insert s1 assms(1), simp_all only: message_content.case,
       auto simp only: prod.inject sum.inject
         elim!: create_client_owned [OF assms(1)] create_entity_owned [OF assms(1)]
           hierarchy_handlers_owned [OF _ assms(1)])
  then show ?thesis by (simp add: owned_outbox [OF out])
qed

text \<open>
  A handler of the hierarchy that raises an exception that is caught has not created an object: the exceptions of an adoption are
  null pointers.
\<close>

lemma create_client_raises:
  "create_client_handler ind msg ed ct rel unrel s = (s', Inl e) \<Longrightarrow> \<not> caught e"
  by (auto simp: create_client_handler_def add_proxy_entity_def caught_def Let_def split: prod.splits option.splits if_splits)

lemma create_entity_raises:
  assumes "create_entity_handler ind payload p s = (s', Inl e)" and "caught e" and "owned s"
  shows "owned s'"
proof -
  have "owned s1" if "create_proxy_entity stage_virtuals ind payload ed s = (s1, Inl x)" for ed s1 x
    using that assms(3) by (auto simp: create_proxy_entity_def Let_def split: if_splits prod.splits sum.splits)
  moreover have nc: "add_proxy_entity stage_virtuals r t = (t', Some x) \<Longrightarrow> \<not> caught x" for r t t' x
    by (auto simp: add_proxy_entity_def caught_def Let_def split: option.splits if_splits)
  moreover have "\<not> caught NullDereference" by (simp add: caught_def)
  ultimately show ?thesis
    using assms by (auto simp: create_entity_handler_def split: sum.splits option.splits prod.splits if_splits dest: nc)
qed

lemma update_entity_raises:
  assumes "update_entity_handler ft t payload path sender s = (s', Inl e)" and "owned s" and "stage_ok s"
  shows "owned s'"
proof -
  have ok: "hierarchy_ok s" using assms(3) by (simp add: session_ok_def)
  have "owned s1" if "find_entity s u = Some r" "update_proxy_entity stage_virtuals r payload ed s = (s1, x)"
    for s1 u r x ed
  proof -
    have "heap s r \<noteq> None" using that(1) lookup_uri [OF ok] by (auto simp: find_entity_def)
    from stage_tree.owned_preserves [OF stage_tree.update_proxy_ok [OF ok this] assms(2), of payload ed]
    show ?thesis by (simp add: that(2))
  qed
  then show ?thesis
    using assms(1,2) by (auto simp: update_entity_handler_def split: sum.splits option.splits prod.splits)
qed

lemma hierarchy_handlers_raise:
  "hierarchy_signal_handler sg p s = (s', Inl e) \<Longrightarrow> s' = s"
  "client_leaving_handler reason p s = (s', Inl e) \<Longrightarrow> s' = s"
  "factory_create_entity_handler msg creatable name p s = (s', Inl e) \<Longrightarrow> s' = s"
  "destroy_entity_handler path p s = (s', Inl e) \<Longrightarrow> s' = s"
  by (auto simp: hierarchy_signal_handler_def client_leaving_handler_def factory_create_entity_handler_def
      destroy_entity_handler_def Let_def split: option.splits sum.splits if_splits)

lemma hierarchy_raise_owned:
  assumes "owned s" and "stage_ok s" and "stage_hierarchy_on_receive_msg ft ind msg s = (s', Some e)" and "caught e"
  shows "owned s'"
proof -
  have raises: "res = (s', Inl e)" if "send_response msg res = (s', Some e)" for res
    using that by (auto simp: send_response_def split: prod.splits sum.splits)
  note r = raises [OF assms(3) [unfolded stage_hierarchy_on_receive_msg_def Let_def]]
  show ?thesis
  proof (cases "m_buffer msg")
    case (Content_ClientJoinRequest ed ct rel unrel)
    then show ?thesis using create_client_raises assms(4) r by simp
  next
    case (Content_EntityCreateRequest t payload)
    then show ?thesis using create_entity_raises [OF _ assms(4,1)] r by simp
  next
    case (Content_EntityUpdateRequest t payload path)
    then show ?thesis using update_entity_raises [OF _ assms(1,2)] r by simp
  qed (use r assms(1) in \<open>auto dest: hierarchy_handlers_raise\<close>)
qed

lemma send_response_outbox: "outbox_only (fst res) (fst (send_response msg res))"
  by (auto simp: send_response_def intro: outbox_send split: prod.splits sum.splits)

text \<open>The handlers of the session neither create nor delete an entity, whether they return or raise.\<close>

lemma session_owned: "owned (fst (stage_session_on_receive_msg ft msg s)) = owned s"
proof (cases "get_client_from_endpoint_UUID s (m_origin_UUID msg)")
  case None
  then show ?thesis by (simp add: stage_session_on_receive_msg_def)
next
  case (Some p)
  have frame: "owned (fst res) = owned s \<Longrightarrow> owned (fst (send_response msg res)) = owned s" for res
    using owned_outbox [OF send_response_outbox [of res msg]] by simp
  show ?thesis
    unfolding stage_session_on_receive_msg_def Some option.case
    by (rule frame) (simp split: message_content.split)
qed

lemma session_receive_owned:
  "owned s \<Longrightarrow> stage_session_on_receive_msg ft msg s = (s', None) \<Longrightarrow> owned s'"
  using session_owned [of ft msg s] by simp

text \<open>Events and the timer.\<close>

lemma timer_owned: "owned s \<Longrightarrow> owned (stage_heartbeat_timer s)"
proof -
  assume "owned s"
  then have "owned (fold (\<lambda>p. upd_entity p heartbeat_tick) ps s)" for ps
    by (rule fold_invariant [where I = owned]) simp
  then have "owned (fold (remove_proxy_entity stage_virtuals) qs (fold (\<lambda>p. upd_entity p heartbeat_tick) ps s))"
    for ps qs
    by (rule fold_invariant [where I = owned]) (rule owned_remove)
  then show ?thesis by (simp add: stage_heartbeat_timer_def Let_def)
qed

lemma hierarchy_process_owned:
  assumes "owned s" and "stage_hierarchy_process_events ft n s = Some s'"
  shows "owned s'"
proof -
  obtain t where t: "stage_process_hierarchy_events ft n s = Some t"
      "hierarchy_process_sync_events stage_virtuals n t = Some s'"
    using assms(2) by (auto simp: stage_hierarchy_process_events_def bind_eq_Some_conv)
  have "owned t"
    by (rule process_events_invariant [OF t(1) [unfolded stage_process_hierarchy_events_def], where I = owned])
       (simp_all add: assms(1) upd_hierarchy_events_def)
  then show ?thesis by (rule stage_tree.process_sync_owned [OF _ t(2)])
qed

lemma cable_process_owned [simp]: "owned (cable_process_events c (s :: stage)) = owned s"
proof -
  have "owned (process_event (\<lambda>_. True) (run_cable_event c) (\<lambda>_ _ s. s) as e t) = owned t" for as e and t :: stage
    by (rule process_event_invariant [where I = "\<lambda>u. owned u = owned t"])
       (simp_all add: run_cable_event_def Let_def session_on_synchronisable_destroyed_def)
  then have "owned (fold (process_event (\<lambda>_. True) (run_cable_event c) (\<lambda>_ _ s. s) as) es t) = owned t"
    for as es and t :: stage
    by (rule fold_frame)
  then show ?thesis by (simp add: cable_process_events_def Let_def split: option.split)
qed

lemma session_process_owned:
  assumes "owned s" and "stage_ok s" and "session_process_sync_events stage_virtuals n s = Some s'"
  shows "owned s'"
proof -
  obtain t where t: "process_events (\<lambda>s. m_module_events (s_module s)) upd_s_module_events (\<lambda>_. True)
      (run_session_module_event stage_virtuals) (\<lambda>_ _ s. s) n s = Some t"
    and s': "s' = (session_reap_all stage_virtuals t)
      \<lparr>s_module := (s_module (session_reap_all stage_virtuals t))\<lparr>m_dead_syncronisable_IDS := {}\<rparr>\<rparr>"
    using assms(3) by (auto simp: session_process_sync_events_def Let_def split: option.splits)
  have "owned (fst (run_session_module_event stage_virtuals pi a u))" if "owned u" for pi a and u :: stage
    using that stage_tree.owned_preserves [OF stage_tree.entity_process_ok that]
    by (simp add: run_session_module_event_def split: sync_ref.split)
  then have "owned t \<and> stage_ok t"
    by (intro process_events_invariant [OF t, where I = "\<lambda>u. owned u \<and> stage_ok u"])
       (simp_all add: assms(1,2) stage_session.module_event_ok upd_s_module_events_def session_ok_module)
  moreover have "owned (fold reap_cable cs u) = owned u" for cs and u :: stage by (rule fold_frame) simp
  moreover have "stage_ok (fold reap_cable cs (t\<lparr>s_module := (s_module t)\<lparr>m_cleanup_callbacks := []\<rparr>\<rparr>))" for cs
    by (rule fold_invariant [where I = stage_ok]) (simp_all add: reap_cable_session_ok session_ok_module calculation(1))
  then have "m_items_to_reap (s_module (fold reap_cable cs (t\<lparr>s_module := (s_module t)\<lparr>m_cleanup_callbacks := []\<rparr>\<rparr>))) = []"
    for cs by (simp add: session_ok_def reap_items_def)
  ultimately show ?thesis by (simp add: s' session_reap_all_def Let_def)
qed

lemma session_own_owned:
  assumes "owned s" and "session_process_own_events V proxy_compute n s = Some s'"
  shows "owned s'"
proof -
  obtain t where t: "process_events m_session_events upd_session_events (\<lambda>_. True) (\<lambda>_ _ s. (s, True))
        (\<lambda>_ _ s. s) n s = Some t"
      "process_events m_compute_events upd_compute_events (\<lambda>_. True) (run_compute_event V proxy_compute)
        (\<lambda>_ _ s. s) n t = Some s'"
    using assms(2) by (auto simp: session_process_own_events_def bind_eq_Some_conv)
  have "owned t"
    by (rule process_events_invariant [OF t(1), where I = owned]) (simp_all add: assms(1) upd_session_events_def)
  show ?thesis
    by (rule process_events_invariant [OF t(2), where I = owned])
       (simp_all add: \<open>owned t\<close> upd_compute_events_def run_compute_event_def proxy_compute_def split: compute_event.split option.split)
qed

lemma stage_process_owned:
  assumes "owned s" and "stage_ok s" and "stage_process_events ft proxy_compute n s = Some s'"
  shows "owned s'"
proof -
  obtain t u v where st: "stage_hierarchy_process_events ft n s = Some t"
      "session_process_own_events stage_virtuals proxy_compute n t = Some u"
      "session_process_sync_events stage_virtuals n u = Some v" "stage_hierarchy_process_events ft n v = Some s'"
    using assms(3) unfolding stage_process_events_def bind_eq_Some_conv
    by (elim exE conjE) (rule that; assumption)
  have "owned u" by (rule session_own_owned [OF hierarchy_process_owned [OF assms(1) st(1)] st(2)])
  moreover have "stage_ok u" by (rule session_own_ok [OF hierarchy_process_ok [OF assms(2) st(1)] st(2)])
  ultimately show ?thesis by (rule hierarchy_process_owned [OF session_process_owned [OF _ _ st(3)] st(4)])
qed

section \<open>The transition system\<close>

inductive stage_step :: "float_text \<Rightarrow> stage \<Rightarrow> stage \<Rightarrow> bool" for ft where
  hierarchy_receives: "stage_hierarchy_on_receive_msg ft ind msg s = (s', None) \<Longrightarrow> stage_step ft s s'"
| session_receives: "stage_session_on_receive_msg ft msg s = (s', None) \<Longrightarrow> stage_step ft s s'"
| hierarchy_raises: "stage_hierarchy_on_receive_msg ft ind msg s = (s', Some e) \<Longrightarrow> caught e \<Longrightarrow> stage_step ft s s'"
| session_raises: "stage_session_on_receive_msg ft msg s = (s', Some e) \<Longrightarrow> caught e \<Longrightarrow> stage_step ft s s'"
| response_arrives: "stage_on_response action response s = (s', None) \<Longrightarrow> stage_step ft s s'"
| timer_ticks: "stage_step ft s (stage_heartbeat_timer s)"
| events_processed: "stage_process_events ft proxy_compute n s = Some s' \<Longrightarrow> stage_step ft s s'"
| shutdown_announced: "stage_step ft s (send_shutdown_signal s)"

inductive stage_reachable :: "float_text \<Rightarrow> stage \<Rightarrow> bool" for ft where
  stage_starts: "stage_reachable ft stage_new"
| stage_moves: "stage_reachable ft s \<Longrightarrow> stage_step ft s s' \<Longrightarrow> stage_reachable ft s'"

inductive_cases stage_stepE: "stage_step ft s s'"

lemma stage_new_ok: "stage_ok stage_new \<and> owned stage_new"
  by (simp add: stage_new_def session_ok_def hierarchy_ok_def lookup_sound_def cables_ok_def reap_items_def owned_def
      sync_module_new_def)

lemma stage_step_ok:
  assumes "stage_step ft s s'" and "stage_ok s" and "owned s"
  shows "stage_ok s' \<and> owned s'"
  using assms
proof cases
  case (hierarchy_receives ind msg)
  then show ?thesis
    using stage_hierarchy_receive_ok [OF assms(2), of ft ind msg] hierarchy_receive_owned [OF assms(3,2)] by simp
next
  case (session_receives msg)
  then show ?thesis
    using stage_session_receive_ok [OF assms(2), of ft msg] session_receive_owned [OF assms(3)] by simp
next
  case (hierarchy_raises ind msg e)
  then show ?thesis
    using stage_hierarchy_receive_ok [OF assms(2), of ft ind msg] hierarchy_raise_owned [OF assms(3,2)] by simp
next
  case (session_raises msg e)
  then show ?thesis
    using stage_session_receive_ok [OF assms(2), of ft msg] session_owned [of ft msg s] assms(3) by simp
next
  case (response_arrives action response)
  then show ?thesis
    using stage_response_ok [OF assms(2), of action response] owned_response [of action response s] assms(3)
    unfolding response_arrives fst_conv by simp
next
  case timer_ticks
  then show ?thesis using assms(2,3) by (simp add: timer_ok timer_owned)
next
  case (events_processed n)
  then show ?thesis using assms(2,3) stage_process_ok stage_process_owned by blast
next
  case shutdown_announced
  then show ?thesis
    using assms(2,3) by (simp add: send_shutdown_signal_def stage_ok_outbox [OF outbox_broadcast]
        owned_outbox [OF outbox_broadcast])
qed

lemma stage_reachable_ok: "stage_reachable ft s \<Longrightarrow> stage_ok s \<and> owned s"
  by (induction rule: stage_reachable.induct) (auto simp: stage_new_ok dest: stage_step_ok)

section \<open>Joining\<close>

lemma stage_proxy_new_simps [simp]:
  "m_uri (stage_proxy_new ind y ed ct rel unrel u t) = string_uri (ed_URI ed)"
  "m_class (stage_proxy_new ind y ed ct rel unrel u t) = EC_PerformerStageProxy"
  "m_origin_endpoint_UUID (stage_proxy_new ind y ed ct rel unrel u t) = u"
  by (simp_all add: stage_proxy_new_def performer_from_def entity_deserialize_partial_def string_uri_def
      sync_status_defs)

lemma same_objects_test:
  assumes "same_objects h h'" and "heap h r = Some e" and "\<And>e'. identity e' = identity e \<Longrightarrow> P e'"
  shows "entity_test P h' r"
proof -
  have "map_option identity (heap h' r) = Some (identity e)" using assms(1,2) by (simp add: same_objects_def)
  then obtain e' where "heap h' r = Some e'" "identity e' = identity e" by auto
  then show ?thesis using assms(3) by (simp add: entity_test_def)
qed

lemma client_joins:
  assumes "stage_ok s" and "find_entity s (string_uri (ed_URI ed)) = None"
    and "find_entity s (parent_uri (string_uri (ed_URI ed))) = None"
  shows "\<exists>s' r. create_client_handler ind msg ed ct rel unrel s = (s', Inr Signal_OK) \<and> stage_ok s' \<and>
    find_entity s' (string_uri (ed_URI ed)) = Some r \<and> r \<in> set (m_proxies s') \<and>
    entity_test (\<lambda>e. is_stage_proxy e \<and> m_origin_endpoint_UUID e = m_origin_UUID msg) s' r"
proof -
  define mk where "mk = (\<lambda>y. stage_proxy_new ind y ed ct (case rel of None \<Rightarrow> [] | Some a \<Rightarrow> a)
      (case unrel of None \<Rightarrow> [] | Some a \<Rightarrow> a) (m_origin_UUID msg) (m_owning_transport msg))"
  obtain r s1 where alloc: "alloc_entity mk s = (r, s1)" by fastforce
  define s2 where "s2 = upd_entity r set_proxy s1"
  define s' where "s' = adopt_proxy stage_virtuals r s2"
  obtain y where e: "heap s1 r = Some (mk y)" and look: "m_entity_lookup s1 = m_entity_lookup s"
    using alloc by (auto simp: alloc_entity_def Let_def split: prod.splits)
  have at: "uri_at s1 r = string_uri (ed_URI ed)" "uri_at s2 r = string_uri (ed_URI ed)"
    using e by (simp_all add: uri_at_def s2_def mk_def sync_status_defs)
  have add: "add_proxy_entity stage_virtuals (Some r) s1 = (s', None)"
    using assms(3) by (simp add: add_proxy_entity_def at find_entity_def look s'_def s2_def)
  then have res: "create_client_handler ind msg ed ct rel unrel s = (s', Inr Signal_OK)"
    using assms(2) alloc by (simp add: create_client_handler_def Let_def mk_def)
  then have "stage_ok s'" using create_client_ok [OF assms(1), of ind msg ed ct rel unrel] by simp
  have live: "heap s1 r \<noteq> None" "heap s2 r \<noteq> None" using e by (simp_all add: s2_def)
  have "find_entity s' (string_uri (ed_URI ed)) = Some r"
    using adopt_proxy_found [OF live(2), of stage_virtuals] by (simp add: s'_def at)
  moreover have ad: "adopts r s1 s'" using stage_tree.add_proxy_adopts [OF live(1)] add by simp
  then have "entity_test (\<lambda>e. is_stage_proxy e \<and> m_origin_endpoint_UUID e = m_origin_UUID msg) s' r"
    by (intro same_objects_test [OF _ e]) (auto simp: adopts_def identity_def is_stage_proxy_def mk_def)
  moreover have "r \<in> set (m_proxies s')" using ad by (simp add: adopts_def)
  ultimately show ?thesis using res \<open>stage_ok s'\<close> by blast
qed

lemma client_of_UUID:
  assumes "r \<in> set (m_proxies s)"
    and "entity_test (\<lambda>e. is_stage_proxy e \<and> m_origin_endpoint_UUID e = u) s r"
  shows "get_client_from_endpoint_UUID s u \<noteq> None"
proof -
  have "entity_test is_performer s r"
    using assms(2) by (auto simp: entity_test_def entity_class_defs split: option.splits)
  then show ?thesis
    using assms by (auto simp: get_client_from_endpoint_UUID_def stage_performers_def get_performers_def find_None_iff)
qed

section \<open>Properties\<close>

text \<open>
  C1. In every state the stage can get into, also when a handler has raised an exception that the dispatcher
  caught, the lookup table is sound, cables are unique and objects
  neither leak nor dangle: an entry of the table leads to a live entity of that URI which the hierarchy
  manages, an entity lives exactly as long as the hierarchy owns it, and no two cables join the same
  pair of plugs.
\<close>

theorem stage_reachable_sound:
  assumes "stage_reachable ft s"
  shows "(\<forall>u r. find_entity s u = Some r \<longrightarrow>
      (\<exists>e. heap s r = Some e \<and> uri_equal (m_uri e) u \<and> HierarchyModule \<in> set (m_hierarchy_adaptors e))) \<and>
    dom (heap s) = set (m_proxies s) \<and> distinct (m_proxies s) \<and>
    (\<forall>k\<in>set (m_cables s). \<forall>l\<in>set (m_cables s). address_eq (m_address k) (m_address l) \<longrightarrow> k = l)"
  using stage_reachable_ok [OF assms]
  unfolding session_ok_def hierarchy_ok_def lookup_sound_def cables_ok_def owned_def find_entity_def
  by (fastforce simp: uri_equal_path)

definition join_message :: "string \<Rightarrow> uuid \<Rightarrow> ZstStageMessage" where
  "join_message name u =
     \<lparr>m_origin_UUID = u, m_id = 7, m_owning_transport = 0,
      m_buffer = Content_ClientJoinRequest \<lparr>ed_URI = name, ed_owner = None\<rparr> None (Some ''tcp://a'') None\<rparr>"

definition no_floats :: float_text where
  "no_floats = \<lparr>stof = (\<lambda>_. Inl InvalidArgument), to_string_float = (\<lambda>_. ''0.000000'')\<rparr>"

lemma sample_join [simp]: "m_origin_UUID (join_message w u) = u" "find_entity stage_new v = None"
  by (simp_all add: join_message_def find_entity_def stage_new_def)

definition after_join :: stage where
  "after_join = fst (stage_hierarchy_on_receive_msg no_floats False (join_message ''ada'' 1) stage_new)"

lemma after_join_step:
  "stage_hierarchy_on_receive_msg no_floats False (join_message ''ada'' 1) stage_new = (after_join, None)"
proof -
  let ?ed = "\<lparr>ed_URI = ''ada'', ed_owner = None\<rparr>"
  obtain s' where s': "create_client_handler False (join_message ''ada'' 1) ?ed None (Some ''tcp://a'') None stage_new =
      (s', Inr Signal_OK)"
    using client_joins [of stage_new ?ed False "join_message ''ada'' 1" None "Some ''tcp://a''" None] stage_new_ok
    by auto
  have "snd (stage_hierarchy_on_receive_msg no_floats False (join_message ''ada'' 1) stage_new) = None"
    using s' by (simp add: stage_hierarchy_on_receive_msg_def send_response_def join_message_def)
  then show ?thesis by (simp add: after_join_def prod_eq_iff)
qed

theorem stage_reachable_sound_witness:
  "dom (heap after_join) = set (m_proxies after_join) \<and> distinct (m_proxies after_join)"
  using stage_reachable_sound [OF stage_moves [OF stage_starts hierarchy_receives [OF after_join_step]]] by simp

text \<open>
  C36. A name can be joined once. When nothing is registered at the parent of a client's URI (a performer
  has none), a join request for a free name is accepted, and the client is then found by its URI and by the
  endpoint it sent the request from; a request for a name that is taken, by whatever entity, changes
  nothing and is refused, so that a second join is refused whoever sends it.
\<close>

theorem client_join_once:
  assumes "stage_ok s" and "find_entity s (parent_uri (string_uri (ed_URI ed))) = None"
  shows "case create_client_handler ind msg ed ct rel unrel s of (s', res) \<Rightarrow>
    if find_entity s (string_uri (ed_URI ed)) \<noteq> None
    then s' = s \<and> res = Inr Signal_ERR_STAGE_PERFORMER_ALREADY_EXISTS
    else res = Inr Signal_OK \<and> stage_ok s' \<and> find_client s' (string_uri (ed_URI ed)) \<noteq> None \<and>
      get_client_from_endpoint_UUID s' (m_origin_UUID msg) \<noteq> None \<and>
      create_client_handler ind' msg' ed ct' rel' unrel' s' = (s', Inr Signal_ERR_STAGE_PERFORMER_ALREADY_EXISTS)"
proof (cases "find_entity s (string_uri (ed_URI ed))")
  case (Some r)
  then show ?thesis by (simp add: create_client_handler_def)
next
  case None
  obtain s' r where "create_client_handler ind msg ed ct rel unrel s = (s', Inr Signal_OK)" "stage_ok s'"
    and r: "find_entity s' (string_uri (ed_URI ed)) = Some r" "r \<in> set (m_proxies s')"
      "entity_test (\<lambda>e. is_stage_proxy e \<and> m_origin_endpoint_UUID e = m_origin_UUID msg) s' r"
    using client_joins [OF assms(1) None assms(2), of ind msg ct rel unrel] by blast
  moreover have "find_client s' (string_uri (ed_URI ed)) \<noteq> None"
    using r(1,3) by (auto simp: find_client_def find_as_def entity_test_def split: option.splits)
  moreover note client_of_UUID [OF r(2,3)]
  ultimately show ?thesis using None by (simp add: create_client_handler_def)
qed

theorem client_join_once_witness:
  "case create_client_handler False (join_message ''ada'' 1) \<lparr>ed_URI = ''ada'', ed_owner = None\<rparr> None None None stage_new
   of (s', res) \<Rightarrow> res = Inr Signal_OK \<and> get_client_from_endpoint_UUID s' 1 \<noteq> None"
  using client_join_once [where s = stage_new and ed = "\<lparr>ed_URI = ''ada'', ed_owner = None\<rparr>" and ind = False
      and msg = "join_message ''ada'' 1" and ct = None and rel = None and unrel = None]
    stage_new_ok
  by (auto split: prod.splits)

end
