(* ===== verification/Zst_Relay.thy ===== *)
theory Zst_Relay
  imports Zst_Protocol
begin

text \<open>
  What the stage sends: the messages that broadcasts, graph snapshots, cable requests and the responses
  of clients append to its outbox, and to whom.
\<close>

section \<open>Broadcasts\<close>

text \<open>The message a client gets: its transport and endpoint are those of its proxy.\<close>

definition addressed :: "stage \<Rightarrow> message_content \<Rightarrow> ZstTransportArgs \<Rightarrow> ref \<Rightarrow> outgoing" where
  "addressed s content args p =
     \<lparr>out_transport = m_origin_transport (the (heap s p)), out_content = content,
      out_args = args\<lparr>target_endpoint_UUID := m_origin_endpoint_UUID (the (heap s p))\<rparr>\<rparr>"

definition sends :: "outgoing list \<Rightarrow> stage \<Rightarrow> stage" where
  "sends ms s = s\<lparr>m_outbox := m_outbox s @ ms\<rparr>"

lemma sends_simps [simp]:
  "heap (sends ms s) = heap s" "m_proxies (sends ms s) = m_proxies s" "m_cables (sends ms s) = m_cables s"
  "m_outbox (sends ms s) = m_outbox s @ ms" "addressed (sends ms s) c a p = addressed s c a p"
  "m_entity_lookup (sends ms s) = m_entity_lookup s"
  "uri_at (sends ms s) r = uri_at s r" "entity_test P (sends ms s) r = entity_test P s r"
  "sends [] s = s" "sends ns (sends ms s) = sends (ms @ ns) s"
  by (simp_all add: sends_def addressed_def uri_at_def entity_test_def)

lemma whisper_sends: "heap s p \<noteq> None \<Longrightarrow> whisper p c a s = sends [addressed s c a p] s"
  by (auto simp: whisper_def send_msg_def sends_def addressed_def)

lemma reply_sends:
  "heap s p \<noteq> None \<Longrightarrow> reply_with_signal p g i s =
    sends [addressed s (Content_SignalMessage g) (transport_args\<lparr>msg_ID := i\<rparr>) p] s"
  by (simp add: reply_with_signal_def whisper_sends)

lemma fold_sends:
  "(\<And>x t. x \<in> set xs \<Longrightarrow> heap t = heap s \<Longrightarrow> f x t = sends (m x) t) \<Longrightarrow> heap u = heap s \<Longrightarrow>
   fold f xs u = sends (concat (map m xs)) u"
  by (induction xs arbitrary: u) simp_all

definition stage_clients :: "stage \<Rightarrow> ref list" where
  "stage_clients s = filter (entity_test is_stage_proxy s) (m_proxies s)"

lemma performers_clients: "filter (entity_test is_stage_proxy s) (stage_performers s) = stage_clients s"
proof -
  have "entity_test is_stage_proxy s p \<Longrightarrow> entity_test is_performer s p" for p
    by (auto simp: entity_test_def entity_class_defs split: option.splits)
  then show ?thesis
    by (auto simp: stage_performers_def get_performers_def stage_clients_def intro: filter_cong)
qed

lemma broadcast_sends:
  "broadcast c a ex s = sends (map (addressed s c a) (filter (\<lambda>p. p \<notin> set ex) (stage_clients s))) s"
proof -
  let ?f = "\<lambda>p t. if \<not> entity_test is_stage_proxy t p \<or> p \<in> set ex then t else whisper p c a t"
  let ?m = "\<lambda>p. if \<not> entity_test is_stage_proxy s p \<or> p \<in> set ex then [] else [addressed s c a p]"
  have "?f p t = sends (?m p) t" if "heap t = heap s" for p t
    using that whisper_sends [of t p c a] entity_test_live [of is_stage_proxy t p]
    by (auto simp: entity_test_def addressed_def)
  then have "broadcast c a ex s = sends (concat (map ?m (stage_performers s))) s"
    unfolding broadcast_def by (intro fold_sends [of _ s]) simp_all
  moreover have "concat (map ?m ps) =
      map (addressed s c a) (filter (\<lambda>p. p \<notin> set ex) (filter (entity_test is_stage_proxy s) ps))" for ps
    by (induction ps) auto
  ultimately show ?thesis by (simp add: performers_clients del: filter_filter)
qed

section \<open>Snapshots, handshakes and responses\<close>

lemma whisper_entities_sends:
  assumes "heap s p \<noteq> None" and "\<forall>r\<in>set rs. \<exists>e. heap s r = Some e \<and> entity_serialize ft e = Inr (t r)"
  shows "whisper_entities ft p rs s =
    (sends (map (\<lambda>r. addressed s (Content_EntityCreateRequest
        (serialized_entity_type (m_entity_type (the (heap s r)))) (t r)) transport_args p) rs) s, None)"
  using assms
proof (induction rs arbitrary: s)
  case (Cons r rs)
  then obtain e where "heap s r = Some e" "entity_serialize ft e = Inr (t r)" by auto
  with Cons show ?case by (simp add: whisper_sends)
qed simp

lemma whisper_cables_sends:
  assumes "heap s p \<noteq> None"
  shows "fold (\<lambda>k. whisper p (c k) a) (ks :: ZstCable list) s = sends (map (\<lambda>k. addressed s (c k) a p) ks) s"
proof -
  have "whisper p (c k) a t = sends [addressed s (c k) a p] t" if "heap t = heap s" for k and t :: stage
    using that assms whisper_sends [of t p "c k" a] by (simp add: addressed_def)
  then have "fold (\<lambda>k. whisper p (c k) a) ks s = sends (concat (map (\<lambda>k. [addressed s (c k) a p]) ks)) s"
    by (intro fold_sends [of ks s]) simp_all
  then show ?thesis by simp
qed

lemma connect_clients_sends:
  assumes "heap s q = Some eo" and "heap s p = Some ei"
  shows "connect_clients q p a s =
    (if has_connected_subscriber eo ei \<or> uri_equal (m_uri eo) (m_uri ei) then s
     else sends [addressed s (Content_ClientGraphHandshakeListen (uri_path (m_uri eo)) (m_reliable_address eo))
                   (transport_args\<lparr>msg_send_behaviour := ASYNC_REPLY, on_recv_response := RA_ClientsConnected q p a\<rparr>) p,
                 addressed s (Content_ClientGraphHandshakeStart (uri_path (m_uri ei)) (m_reliable_address ei))
                   transport_args q] s)"
  using assms by (simp add: connect_clients_def whisper_sends)

lemma connect_finished_sends:
  assumes "cable_at s c = Some k" and "heap s p \<noteq> None"
  shows "connect_finished c p i Signal_OK s =
    (sends (map (addressed s (Content_CableCreateRequest (address_serialize (m_address k))) transport_args)
       (stage_clients s) @ [addressed s (Content_SignalMessage Signal_OK) (transport_args\<lparr>msg_ID := i\<rparr>) p]) s, None)"
  using assms by (simp add: connect_finished_def broadcast_sends reply_sends)

section \<open>Properties\<close>

text \<open>
  A broadcast reaches every client but the excluded ones, each once, in the order in which they
  joined, at its own transport and endpoint, and changes nothing but the outbox.
\<close>

theorem broadcast_recipients:
  "broadcast content args excluded s =
     s\<lparr>m_outbox := m_outbox s @ map (addressed s content args)
        (filter (\<lambda>p. entity_test is_stage_proxy s p \<and> p \<notin> set excluded) (m_proxies s))\<rparr>"
proof -
  have "filter (\<lambda>p. p \<notin> set excluded) (stage_clients s) =
      filter (\<lambda>p. entity_test is_stage_proxy s p \<and> p \<notin> set excluded) (m_proxies s)"
    by (auto simp: stage_clients_def intro: filter_cong)
  then show ?thesis by (simp add: broadcast_sends sends_def)
qed

text \<open>
  A client that asks for the graph is sent every entity of the other performers, parents before
  their children, then every cable, and the request is answered with \<open>Signal_OK\<close>, provided the values
  of all plugs can be converted to their default types.
\<close>

theorem graph_snapshot:
  assumes "heap s p \<noteq> None"
    and "\<forall>r\<in>set (snapshot_entities p s). \<exists>e. heap s r = Some e \<and> entity_serialize ft e = Inr (t r)"
  shows "synchronise_client_graph_handler ft p s =
    (s\<lparr>m_outbox := m_outbox s @
       map (\<lambda>r. addressed s (Content_EntityCreateRequest
              (serialized_entity_type (m_entity_type (the (heap s r)))) (t r)) transport_args p) (snapshot_entities p s) @
       map (\<lambda>k. addressed s (Content_CableCreateRequest (address_serialize (m_address k))) transport_args p) (m_cables s)\<rparr>,
     Inr Signal_OK)"
  using whisper_entities_sends [OF assms] whisper_cables_sends [of _ p, OF _] assms(1)
  by (simp add: synchronise_client_graph_handler_def) (simp add: sends_def)

definition sample_client :: "string \<Rightarrow> uuid \<Rightarrow> entity" where
  "sample_client name u =
     stage_proxy_new False (fst (synchronisable_new 0)) \<lparr>ed_URI = name, ed_owner = None\<rparr> None [] [] u 0"

definition sample_plug :: "entity_class \<Rightarrow> ZstPlugDirection \<Rightarrow> string \<Rightarrow> entity" where
  "sample_plug cls dir path = proxy_activated (plug_new (fst (synchronisable_new 0)) cls path VT_IntList dir (- 1))"

definition relay_sample :: stage where
  "relay_sample = stage_new
     \<lparr>heap := [0 \<mapsto> sample_client ''ada'' 1, 1 \<mapsto> sample_client ''bob'' 2,
               2 \<mapsto> sample_plug EC_InputPlug IN_JACK ''ada/in'', 3 \<mapsto> sample_plug EC_OutputPlug OUT_JACK ''bob/out''],
      next_ref := 4, m_proxies := [0, 1, 2, 3],
      m_entity_lookup := [''ada'' \<mapsto> 0, ''bob'' \<mapsto> 1, ''ada/in'' \<mapsto> 2, ''bob/out'' \<mapsto> 3]\<rparr>"

lemma sample_client_simps [simp]:
  "m_class (sample_client name u) = EC_PerformerStageProxy" "m_uri (sample_client name u) = string_uri name"
  "m_children (sample_client name u) = []" "m_entity_type (sample_client name u) = ET_PERFORMER"
  "m_origin_endpoint_UUID (sample_client name u) = u" "m_connected_subscriber_peers (sample_client name u) = {}"
  "m_component_type (sample_client name u) = []"
  by (simp_all add: sample_client_def stage_proxy_new_def performer_from_def entity_deserialize_partial_def
      component_deserialize_partial_def string_uri_def sync_status_defs entity_new_defs synchronisable_new_def)

lemma sample_plug_simps [simp]:
  "m_class (sample_plug cls dir path) = cls" "m_uri (sample_plug cls dir path) = uri_of path"
  by (simp_all add: sample_plug_def proxy_activated_def sync_status_defs entity_new_defs)

lemma relay_sample_heap [simp]:
  "heap relay_sample = [0 \<mapsto> sample_client ''ada'' 1, 1 \<mapsto> sample_client ''bob'' 2,
     2 \<mapsto> sample_plug EC_InputPlug IN_JACK ''ada/in'', 3 \<mapsto> sample_plug EC_OutputPlug OUT_JACK ''bob/out'']"
  "m_proxies relay_sample = [0, 1, 2, 3]" "m_cables relay_sample = []" "m_outbox relay_sample = []"
  "m_entity_lookup relay_sample = [''ada'' \<mapsto> 0, ''bob'' \<mapsto> 1, ''ada/in'' \<mapsto> 2, ''bob/out'' \<mapsto> 3]"
  by (simp_all add: relay_sample_def stage_new_def)

lemma next_cable_sample: "next_cable relay_sample = 0"
  by (simp add: relay_sample_def stage_new_def)

lemma string_uri_path [simp]: "nul_free w \<Longrightarrow> uri_path (string_uri w) = w"
  by (simp add: string_uri_def uri_of_len_eq)

lemma childless_entities:
  "heap h r = Some e \<Longrightarrow> m_children e = [] \<Longrightarrow> get_child_entities V n h r True rec ET_NONE = [r]"
  by (cases n) (simp_all add: base_child_entities_def entity_test_def matches_filter_def)

theorem graph_snapshot_witness:
  "map out_content (m_outbox (fst (synchronise_client_graph_handler no_floats 1 relay_sample))) =
     [Content_EntityCreateRequest EntityTypes_Performer
        (T_Performer (entity_serialize_partial (sample_client ''ada'' 1)) (Some []))]"
proof -
  have snap: "snapshot_entities 1 relay_sample = [0]"
    by (simp add: snapshot_entities_def stage_performers_def get_performers_def entity_test_def entity_class_defs
        uri_at_def uri_equal_path childless_entities)
  have "entity_serialize no_floats (sample_client ''ada'' 1) =
      Inr (T_Performer (entity_serialize_partial (sample_client ''ada'' 1)) (Some []))"
    by (simp add: entity_serialize_def)
  then have "synchronise_client_graph_handler no_floats 1 relay_sample =
      (relay_sample\<lparr>m_outbox := [addressed relay_sample (Content_EntityCreateRequest EntityTypes_Performer
         (T_Performer (entity_serialize_partial (sample_client ''ada'' 1)) (Some []))) transport_args 1]\<rparr>, Inr Signal_OK)"
    using graph_snapshot [of relay_sample 1 no_floats "\<lambda>_. T_Performer (entity_serialize_partial (sample_client ''ada'' 1)) (Some [])", unfolded snap]
    by simp
  then show ?thesis by (simp add: addressed_def)
qed

text \<open>
  C37. What a client that asks for a cable is told. Once the cable is created, for a pair of plugs of one
  performer it is published to every client and the request is answered; for plugs of two performers that
  are not connected yet the handshake is started, and nothing else is sent; for two performers that are
  connected already nothing is sent at all, although the cable exists on the stage.
\<close>

theorem cable_request_answers:
  assumes "find_cable s (cable_address (string_uri (cable_input_URI cd)) (string_uri (cable_output_URI cd))) = None"
    and "find_as is_input_plug stage_virtuals s (string_uri (cable_input_URI cd)) = Some i"
    and "find_as is_output_plug stage_virtuals s (string_uri (cable_output_URI cd)) = Some out"
    and "create_cable (Some i) (Some out) (make_room i s) = (s1, Some c)" and "cable_at s1 c = Some k"
    and "uri_first (uri_at s1 i) = Inr fi" and "uri_first (uri_at s1 out) = Inr fo"
    and "find_client s1 fi = Some p" and "find_client s1 fo = Some q" and "heap s1 sender \<noteq> None"
  shows "create_cable_handler msg cd sender s =
    (s1\<lparr>m_outbox := m_outbox s1 @
       (if uri_equal (uri_at s1 q) (uri_at s1 p)
        then map (addressed s1 (Content_CableCreateRequest (address_serialize (m_address k))) transport_args)
               (stage_clients s1) @
             [addressed s1 (Content_SignalMessage Signal_OK) (transport_args\<lparr>msg_ID := m_id msg\<rparr>) sender]
        else if has_connected_subscriber (the (heap s1 q)) (the (heap s1 p)) then []
        else [addressed s1 (Content_ClientGraphHandshakeListen (uri_path (uri_at s1 q))
                (m_reliable_address (the (heap s1 q))))
                (transport_args\<lparr>msg_send_behaviour := ASYNC_REPLY,
                   on_recv_response := RA_ClientsConnected q p (CA_CableConnected c sender (m_id msg))\<rparr>) p,
              addressed s1 (Content_ClientGraphHandshakeStart (uri_path (uri_at s1 p))
                (m_reliable_address (the (heap s1 p)))) transport_args q])\<rparr>,
     Inr Signal_EMPTY)"
proof -
  have "entity_test is_stage_proxy s1 p" "entity_test is_stage_proxy s1 q"
    using assms(8,9) by (auto simp: find_client_def find_as_def split: option.splits if_splits)
  then obtain ep eq where e: "heap s1 p = Some ep" "heap s1 q = Some eq"
    by (metis entity_test_live not_None_eq)
  have "create_cable_handler msg cd sender s = connect_cable_clients msg c i out sender s1"
    using assms(1-4) by (simp add: create_cable_handler_def)
  then show ?thesis
    using assms(6-10) e connect_finished_sends [OF assms(5,10), of "m_id msg"]
      connect_clients_sends [OF e(2,1), of "CA_CableConnected c sender (m_id msg)"]
    by (simp add: connect_cable_clients_def uri_at_def uri_equal_path) (simp add: sends_def)
qed

theorem cable_request_answers_witness:
  "map out_content (m_outbox (fst (create_cable_handler
      \<lparr>m_origin_UUID = 2, m_id = 7, m_owning_transport = 0, m_buffer = Content_SignalMessage Signal_OK\<rparr>
      \<lparr>cable_input_URI = ''ada/in'', cable_output_URI = ''bob/out''\<rparr> 1 relay_sample))) =
     [Content_ClientGraphHandshakeListen ''bob'' [], Content_ClientGraphHandshakeStart ''ada'' []]"
proof -
  let ?a = "cable_address (uri_of ''ada/in'') (uri_of ''bob/out'')"
  obtain s1 c where create: "add_new_cable 2 3 relay_sample = (s1, c)" by fastforce
  have at: "uri_at relay_sample 2 = uri_of ''ada/in''" "uri_at relay_sample 3 = uri_of ''bob/out''"
    by (simp_all add: uri_at_def)
  have ok: "cables_ok relay_sample" by (simp add: cables_ok_def)
  have paths: "uri_path (string_uri w) = w" "string_uri w = uri_of w" if "nul_free w" for w
    using that by (simp_all add: string_uri_def uri_of_len_eq)
  have none: "find_cable relay_sample b = None" for b by (simp add: find_cable_def find_cable_by_URIs_def)
  have found: "find_as is_input_plug stage_virtuals relay_sample (uri_of ''ada/in'') = Some 2"
    "find_as is_output_plug stage_virtuals relay_sample (uri_of ''bob/out'') = Some 3"
    by (simp_all add: find_as_def find_entity_def stage_virtuals_def entity_test_def entity_class_defs nul_free_def)
  note new = add_new_cable_result [OF ok none create]
  have frame: "m_cables s1 = [new_cable 2 3 relay_sample]" "m_entity_lookup s1 = m_entity_lookup relay_sample"
    "m_outbox s1 = []" "c = 0"
    using create by (auto simp: add_new_cable_def Let_def new_cable_def synchronisable_new_def session_defer_def
        upd_entity_def next_cable_sample)
  have cable: "cable_at s1 c = Some (new_cable 2 3 relay_sample)"
    by (simp add: cable_at_def frame next_cable_sample)
  have room: "make_room 2 relay_sample = relay_sample"
    by (simp add: make_room_def entity_test_def num_cables_def max_connected_cables_def sample_plug_def
        proxy_activated_def sync_status_defs entity_new_defs)
  have "create_cable (Some 2) (Some 3) (make_room 2 relay_sample) = (s1, Some c)"
    by (simp add: room create_cable_def none create)
  note created = this
  have heap: "heap s1 0 = Some (sample_client ''ada'' 1)" "heap s1 1 = Some (sample_client ''bob'' 2)"
    by (simp_all add: new(4))
  have uris: "uri_at s1 2 = uri_of ''ada/in''" "uri_at s1 3 = uri_of ''bob/out''" "uri_at s1 0 = uri_of ''ada''"
    "uri_at s1 1 = uri_of ''bob''"
    by (simp_all add: uri_at_def new(4) plug_add_cable_def paths nul_free_def)
  have firsts: "uri_first (uri_of ''ada/in'') = Inr (uri_of ''ada'')" "uri_first (uri_of ''bob/out'') = Inr (uri_of ''bob'')"
    by code_simp+
  have clients: "find_client s1 (uri_of ''ada'') = Some 0" "find_client s1 (uri_of ''bob'') = Some 1"
    by (simp_all add: find_client_def find_as_def find_entity_def stage_virtuals_def entity_test_def
        entity_class_defs nul_free_def frame heap [unfolded One_nat_def])
  have fields: "m_reliable_address (sample_client w u) = []" for w u
    by (simp add: sample_client_def stage_proxy_new_def sync_status_defs)
  show ?thesis
    using cable_request_answers [of relay_sample "\<lparr>cable_input_URI = ''ada/in'', cable_output_URI = ''bob/out''\<rparr>"
        2 3 s1 c "new_cable 2 3 relay_sample" "uri_of ''ada''" "uri_of ''bob''" 0 1 1
        "\<lparr>m_origin_UUID = 2, m_id = 7, m_owning_transport = 0, m_buffer = Content_SignalMessage Signal_OK\<rparr>",
        OF _ _ _ created cable]
    by (simp add: none found paths nul_free_def uris firsts clients heap frame addressed_def uri_equal_path
        has_connected_subscriber_def fields del: One_nat_def)
qed
text \<open>
  The response to a handshake decides on the cable: after \<open>Signal_OK\<close> the connection is recorded, the
  output client may stop its handshake, the cable is published to every client and the request answered;
  after any other response, or a timeout, nothing is sent, and the client that asked for the cable is left
  without an answer.
\<close>

theorem handshake_response:
  assumes "heap s q = Some eq" and "heap s p = Some ep" and "heap s sender \<noteq> None" and "cable_at s c = Some k"
  shows "stage_on_response (RA_ClientsConnected q p (CA_CableConnected c sender request_id)) response s =
    (if verify_signal response Signal_OK
     then let s1 = upd_entity q (add_subscriber ep) s
       in s1\<lparr>m_outbox := m_outbox s @
            [addressed s1 (Content_ClientGraphHandshakeStop (uri_path (m_uri ep))) transport_args q] @
            map (addressed s1 (Content_CableCreateRequest (address_serialize (m_address k))) transport_args)
              (stage_clients s1) @
            [addressed s1 (Content_SignalMessage Signal_OK) (transport_args\<lparr>msg_ID := request_id\<rparr>) sender]\<rparr>
     else s, None)"
proof -
  define s1 where "s1 = upd_entity q (add_subscriber ep) s"
  define s2 where "s2 = sends [addressed s1 (Content_ClientGraphHandshakeStop (uri_path (m_uri ep))) transport_args q] s1"
  have live: "heap s1 q \<noteq> None" "heap s2 sender \<noteq> None" "cable_at s2 c = Some k" "m_outbox s1 = m_outbox s"
    using assms by (simp_all add: s1_def s2_def cable_at_def upd_entity_def sends_def)
  have complete: "complete_client_connection q p s = s2"
    using assms(2) whisper_sends [OF live(1)] by (simp add: complete_client_connection_def s1_def s2_def)
  have clients: "stage_clients s2 = stage_clients s1"
    by (auto simp: stage_clients_def s2_def intro: filter_cong)
  have "get_signal response = Signal_OK" if "verify_signal response Signal_OK"
    using that by (simp add: verify_signal_def)
  moreover obtain es where "heap s2 sender = Some es" using live(2) by auto
  ultimately show ?thesis
    using connect_finished_sends [OF live(3,2), of request_id] assms(1,2)
    by (simp add: stage_on_response_def run_connect_action_def complete clients s1_def [symmetric] Let_def)
       (simp add: s2_def sends_def live(4) addressed_def)
qed

definition sample_cable_address :: ZstCableAddress where
  "sample_cable_address = cable_address (uri_of ''ada/in'') (uri_of ''bob/out'')"

definition cable_sample :: stage where
  "cable_sample = relay_sample\<lparr>m_cables := [cable_new (fst (synchronisable_new 0)) 0 sample_cable_address 2 3]\<rparr>"

theorem handshake_response_witness:
  "map out_content (m_outbox (fst (stage_on_response (RA_ClientsConnected 1 0 (CA_CableConnected 0 0 9))
      (Some \<lparr>m_origin_UUID = 1, m_id = 8, m_owning_transport = 0, m_buffer = Content_SignalMessage Signal_OK\<rparr>)
      cable_sample))) =
     [Content_ClientGraphHandshakeStop ''ada'',
      Content_CableCreateRequest (address_serialize sample_cable_address),
      Content_CableCreateRequest (address_serialize sample_cable_address),
      Content_SignalMessage Signal_OK]"
proof -
  have fields: "heap cable_sample = heap relay_sample" "m_proxies cable_sample = m_proxies relay_sample"
    "m_outbox cable_sample = []" by (simp_all add: cable_sample_def)
  have cable: "cable_at cable_sample 0 = Some (cable_new (fst (synchronisable_new 0)) 0 sample_cable_address 2 3)"
    by (simp add: cable_sample_def cable_at_def cable_new_def ZstSynchronisable.defs)
  have address: "m_address (cable_new y c a i out) = a" for y c a i out
    by (simp add: cable_new_def ZstSynchronisable.defs)
  have ada: "uri_path (string_uri ''ada'') = ''ada''" by (simp add: nul_free_def)
  have keeps: "m_class (add_subscriber p e) = m_class e" for p e :: entity
    by (simp add: add_subscriber_def)
  show ?thesis
    using handshake_response [of cable_sample 1 "sample_client ''bob'' 2" 0 "sample_client ''ada'' 1" 0 0, OF _ _ _ cable]
    by (simp add: fields address ada keeps verify_signal_def get_signal_def addressed_def stage_clients_def Let_def
        entity_test_def entity_class_defs)
qed

text \<open>
  The response of a factory's owner is passed on to the client that asked for the entity: after
  \<open>Signal_OK\<close> it gets one acknowledgement; after any other response, or none, it gets the signal and the
  acknowledgement as well.
\<close>

theorem factory_response_forwarded:
  assumes "heap s p \<noteq> None"
  shows "stage_on_response (RA_FactoryCreated (Some p) path request_id) response s =
    (s\<lparr>m_outbox := m_outbox s @
       (if verify_signal response Signal_OK then []
        else [addressed s (Content_SignalMessage (get_signal response)) (transport_args\<lparr>msg_ID := request_id\<rparr>) p]) @
       [addressed s (Content_FactoryCreateEntityACK (uri_path path)) (transport_args\<lparr>msg_ID := request_id\<rparr>) p]\<rparr>,
     None)"
  using assms by (simp add: stage_on_response_def reply_sends whisper_sends) (simp add: sends_def)

theorem factory_response_forwarded_witness:
  "map out_content (m_outbox (fst (stage_on_response (RA_FactoryCreated (Some 0) uri_empty 9) None relay_sample))) =
     [Content_SignalMessage Signal_EMPTY, Content_FactoryCreateEntityACK (uri_path uri_empty)]"
  using factory_response_forwarded [of relay_sample 0 uri_empty 9 None]
  by (simp add: verify_signal_def get_signal_def addressed_def)

end
