(* ===== verification/Zst_Rounds.thy ===== *)
theory Zst_Rounds
  imports Zst_Relay
begin

text \<open>
  Progress of the stage: a round of \<open>process_events\<close> ends, because no event of a queue defers to the
  queue that is being drained, and a client that stays silent is removed by the timer.
\<close>

section \<open>More fuel\<close>

lemma process_events_more_fuel:
  assumes "process_events get upd alive run complete n s = Some s'" and "n \<le> m"
  shows "process_events get upd alive run complete m s = Some s'"
  using assms
proof (induction n arbitrary: s m)
  case 0
  then have "m_events (get s) = []" by (subst (asm) process_events.simps) (auto split: list.splits)
  then show ?case using 0 by (subst process_events.simps, subst (asm) process_events.simps) simp
next
  case (Suc n)
  show ?case
  proof (cases "m_events (get s)")
    case Nil
    then show ?thesis using Suc.prems by (subst process_events.simps, subst (asm) process_events.simps) simp
  next
    case (Cons e es)
    let ?s = "process_event alive run complete (m_adaptors (get s)) e (upd (m_events_update (\<lambda>_. es)) s)"
    obtain m' where m: "m = Suc m'" "n \<le> m'" using Suc.prems(2) by (cases m) auto
    have "process_events get upd alive run complete n ?s = Some s'"
      using Suc.prems(1) Cons by (subst (asm) process_events.simps) simp
    then have "process_events get upd alive run complete m' ?s = Some s'" using m(2) by (rule Suc.IH)
    then show ?thesis using Cons m(1) by (subst process_events.simps) simp
  qed
qed

text \<open>A round that ends with some fuel ends in the same way with more.\<close>

definition fuel_monotone :: "(nat \<Rightarrow> 's \<Rightarrow> 's option) \<Rightarrow> bool" where
  "fuel_monotone f \<longleftrightarrow> (\<forall>n m s s'. f n s = Some s' \<longrightarrow> n \<le> m \<longrightarrow> f m s = Some s')"

lemma fuel_monotone_process: "fuel_monotone (process_events get upd alive run complete)"
  unfolding fuel_monotone_def by (intro allI impI) (rule process_events_more_fuel)

lemma fuel_monotoneD: "fuel_monotone f \<Longrightarrow> f n s = Some s' \<Longrightarrow> n \<le> m \<Longrightarrow> f m s = Some s'"
  unfolding fuel_monotone_def by (elim allE impE)

lemma fuel_monotone_bind:
  assumes "fuel_monotone f" and "fuel_monotone g"
  shows "fuel_monotone (\<lambda>n s. Option.bind (f n s) (g n))"
  unfolding fuel_monotone_def
proof (intro allI impI)
  fix n m s s'
  assume "Option.bind (f n s) (g n) = Some s'" and le: "n \<le> m"
  then obtain t where t: "f n s = Some t" "g n t = Some s'" by (auto simp: bind_eq_Some_conv)
  show "Option.bind (f m s) (g m) = Some s'"
    by (simp add: fuel_monotoneD [OF assms(1) t(1) le] fuel_monotoneD [OF assms(2) t(2) le])
qed

lemma fuel_monotone_map:
  assumes "fuel_monotone f"
  shows "fuel_monotone (\<lambda>n s. case f n s of None \<Rightarrow> None | Some t \<Rightarrow> Some (g t))"
  unfolding fuel_monotone_def
proof (intro allI impI)
  fix n m s s'
  assume "(case f n s of None \<Rightarrow> None | Some t \<Rightarrow> Some (g t)) = Some s'" and le: "n \<le> m"
  then obtain t where t: "f n s = Some t" "s' = g t" by (cases "f n s") simp_all
  show "(case f m s of None \<Rightarrow> None | Some t \<Rightarrow> Some (g t)) = Some s'"
    by (simp add: fuel_monotoneD [OF assms t(1) le] t(2))
qed

text \<open>Two parts of a round that end, with whatever fuel each needs, end one after the other.\<close>

lemma bind_ends:
  assumes "fuel_monotone f" and "fuel_monotone g" and "f n s = Some t" and "g m t = Some u"
  shows "Option.bind (f (max n m) s) (g (max n m)) = Some u"
proof -
  have "f (max n m) s = Some t" "g (max n m) t = Some u"
    by (rule fuel_monotoneD [OF assms(1,3)], simp) (rule fuel_monotoneD [OF assms(2,4)], simp)
  then show ?thesis by simp
qed

section \<open>The queues of the modules are quiet\<close>

definition h_queue :: "'z hierarchy_scheme \<Rightarrow> (adaptor, ref \<times> instance_id) dispatcher" where
  "h_queue h = m_module_events (h_module h)"

lemma h_queue_frame [simp]:
  "h_queue (upd_entity r f h) = h_queue h" "h_queue (remove_entity_from_lookup u h) = h_queue h"
  "h_queue (base_deactivate_entity r t h) = h_queue h" "h_queue (h\<lparr>heap := hp\<rparr>) = h_queue h"
  "h_queue (h\<lparr>m_proxies := ps\<rparr>) = h_queue h"
  by (simp_all add: h_queue_def base_deactivate_entity_def remove_entity_from_lookup_def)

lemma h_queue_module [simp]:
  "h_queue (h\<lparr>h_module := add_cleanup_op c (h_module h)\<rparr>) = h_queue h"
  "h_queue (h\<lparr>h_module := add_dead_synchronisable_ID i (h_module h)\<rparr>) = h_queue h"
  by (simp_all add: h_queue_def add_cleanup_op_def add_dead_synchronisable_ID_def)

lemma h_queue_destroyed [simp]: "h_queue (on_synchronisable_destroyed stage_virtuals r b h) = h_queue h"
  by (simp add: on_synchronisable_destroyed_def Let_def split: option.split)

lemma h_queue_process_event [simp]:
  "h_queue (process_event (\<lambda>_. True) (run_sync_event stage_virtuals r) (complete_sync_event r) as ev h) = h_queue h"
proof (rule process_event_invariant [where I = "\<lambda>g. h_queue g = h_queue h"])
  show "h_queue (complete_sync_event r e st s) = h_queue h" if "h_queue s = h_queue h" for e st s
    using that by (simp add: complete_sync_event_def split: sync_event.split)
qed (simp_all add: run_sync_event_def Let_def)

lemma h_queue_process [simp]:
  fixes h :: "'a hierarchy_scheme"
  shows "h_queue (entity_process_events stage_virtuals r h) = h_queue h"
proof -
  have "h_queue (fold (process_event (\<lambda>_. True) (run_sync_event stage_virtuals r) (complete_sync_event r) as) es g) =
      h_queue g" for as es and g :: "'a hierarchy_scheme"
    by (rule fold_frame) simp
  then show ?thesis by (simp add: entity_process_events_def Let_def split: option.split)
qed

lemma h_queue_delete [simp]: "h_queue (delete_entity stage_virtuals r h) = h_queue h"
proof -
  have "h_queue (fold (entity_deactivate stage_virtuals) rs h) = h_queue h" for rs
    by (rule fold_frame) (simp add: entity_deactivate_def)
  then show ?thesis by (simp add: delete_entity_def dispatch_destroyed_def Let_def)
qed

lemma h_queue_reap [simp]: "h_queue (reap_entity stage_virtuals ri h) = h_queue h"
  by (simp add: reap_entity_def Let_def split: prod.split)

interpretation hierarchy_module_queue:
  quiet_dispatcher "\<lambda>h. m_module_events (h_module h)" upd_module_events "\<lambda>_. True"
    "run_module_event stage_virtuals" "\<lambda>_ _ h. h"
proof
  show "m_module_events (h_module (upd_module_events f h)) = f (m_module_events (h_module h))"
    for f and h :: "'a hierarchy_scheme" by (simp add: upd_module_events_def)
  show "m_module_events (h_module (fst (run_module_event stage_virtuals e a h))) = m_module_events (h_module h)"
    for e a and h :: "'a hierarchy_scheme"
    using h_queue_process [of "fst e" h] by (simp add: run_module_event_def h_queue_def)
qed simp
text \<open>The module of the session runs the events of cables, and of entities that are attached to it.\<close>

definition s_queue :: "'z session_scheme \<Rightarrow> (adaptor, sync_ref \<times> instance_id) dispatcher" where
  "s_queue s = m_module_events (s_module s)"

lemma s_queue_frame [simp]:
  "s_queue (upd_cable c f s) = s_queue s" "s_queue (session_on_synchronisable_destroyed p b s) = s_queue s"
  by (simp_all add: s_queue_def session_on_synchronisable_destroyed_def add_cleanup_op_def reaper_add_def
      split: sync_ref.split)

lemma s_queue_more: "hierarchy.more s' = hierarchy.more s \<Longrightarrow> s_queue s' = s_queue s"
  using more_session(4) [of s' s] by (simp add: s_queue_def)

lemma s_queue_cable [simp]:
  fixes s :: "'z session_scheme"
  shows "s_queue (cable_process_events c s) = s_queue s"
proof -
  have "s_queue (process_event (\<lambda>_. True) (run_cable_event c) (\<lambda>_ _ s. s) as ev t) = s_queue t"
    for as ev and t :: "'z session_scheme"
    by (rule process_event_invariant [where I = "\<lambda>u. s_queue u = s_queue t"]) (simp_all add: run_cable_event_def Let_def)
  then have "s_queue (fold (process_event (\<lambda>_. True) (run_cable_event c) (\<lambda>_ _ s. s) as) es t) = s_queue t"
    for as es and t :: "'z session_scheme"
    by (rule fold_frame)
  then show ?thesis by (simp add: cable_process_events_def Let_def split: option.split)
qed

lemma s_queue_module_event:
  fixes s :: "'z session_scheme"
  shows "s_queue (fst (run_session_module_event stage_virtuals e a s)) = s_queue s"
proof -
  have "s_queue (entity_process_events stage_virtuals r s) = s_queue s" for r
    by (rule s_queue_more [OF preserves_more]) (rule stage_tree.entity_process_ok)
  then show ?thesis by (simp add: run_session_module_event_def split: sync_ref.split)
qed

interpretation session_module_queue:
  quiet_dispatcher "\<lambda>s. m_module_events (s_module s)" upd_s_module_events "\<lambda>_. True"
    "run_session_module_event stage_virtuals" "\<lambda>_ _ s. s"
proof
  show "m_module_events (s_module (upd_s_module_events f s)) = f (m_module_events (s_module s))"
    for f and s :: "'a session_scheme" by (simp add: upd_s_module_events_def)
qed (simp_all add: s_queue_module_event [unfolded s_queue_def])

interpretation compute_queue:
  quiet_dispatcher m_compute_events upd_compute_events "\<lambda>_. True" "run_compute_event V proxy_compute" "\<lambda>_ _ s. s"
  by unfold_locales
    (simp_all add: upd_compute_events_def run_compute_event_def proxy_compute_def split: compute_event.split option.split)

section \<open>Rounds end\<close>

lemma hierarchy_sync_ends:
  "\<exists>n h'. hierarchy_process_sync_events stage_virtuals n h = Some h' \<and> m_events (h_queue h') = []"
proof -
  obtain h1 where h1: "process_events (\<lambda>h. m_module_events (h_module h)) upd_module_events (\<lambda>_. True)
      (run_module_event stage_virtuals) (\<lambda>_ _ h. h) (length (m_events (h_queue h))) h = Some h1"
    "m_events (h_queue h1) = []"
    using hierarchy_module_queue.process_events_fifo [of h] unfolding h_queue_def by blast
  have "h_queue (fold (reap_entity stage_virtuals) cs g) = h_queue g" for cs and g :: "'a hierarchy_scheme"
    by (rule fold_frame) simp
  then have "h_queue (reap_all stage_virtuals h1) = h_queue h1"
    by (simp add: reap_all_def) (simp add: h_queue_def)
  then show ?thesis using h1
    by (intro exI [of _ "length (m_events (h_queue h))"])
       (simp add: hierarchy_process_sync_events_def Let_def h_queue_def)
qed


text \<open>Tearing down entities announces nothing: what the round deferred to the hierarchy has been run.\<close>

lemma hierarchy_events_frame [simp]:
  "m_hierarchy_events (base_deactivate_entity r t h) = m_hierarchy_events h"
  "m_hierarchy_events (on_synchronisable_destroyed stage_virtuals r b h) = m_hierarchy_events h"
  by (simp_all add: base_deactivate_entity_def on_synchronisable_destroyed_def Let_def remove_entity_from_lookup_def
      split: option.split)

lemma hierarchy_events_process [simp]:
  fixes h :: "'a hierarchy_scheme"
  shows "m_hierarchy_events (entity_process_events stage_virtuals r h) = m_hierarchy_events h"
proof -
  have "m_hierarchy_events (process_event (\<lambda>_. True) (run_sync_event stage_virtuals r) (complete_sync_event r) as ev g) =
      m_hierarchy_events g" for as ev and g :: "'a hierarchy_scheme"
    by (rule process_event_invariant [where I = "\<lambda>k. m_hierarchy_events k = m_hierarchy_events g"])
       (simp_all add: run_sync_event_def complete_sync_event_def Let_def split: sync_event.split)
  then have "m_hierarchy_events (fold (process_event (\<lambda>_. True) (run_sync_event stage_virtuals r)
      (complete_sync_event r) as) es g) = m_hierarchy_events g" for as es and g :: "'a hierarchy_scheme"
    by (rule fold_frame)
  then show ?thesis by (simp add: entity_process_events_def Let_def split: option.split)
qed

lemma hierarchy_events_reap [simp]:
  "m_hierarchy_events (reap_entity stage_virtuals ri h) = m_hierarchy_events h"
proof -
  have "m_hierarchy_events (fold (entity_deactivate stage_virtuals) rs g) = m_hierarchy_events g"
    for rs and g :: "'a hierarchy_scheme"
    by (rule fold_frame) (simp add: entity_deactivate_def)
  then have "m_hierarchy_events (delete_entity stage_virtuals r g) = m_hierarchy_events g"
    for r and g :: "'a hierarchy_scheme"
    by (simp add: delete_entity_def dispatch_destroyed_def Let_def)
  then show ?thesis by (simp add: reap_entity_def Let_def remove_entity_from_lookup_def split: prod.split)
qed

lemma hierarchy_sync_quiet:
  assumes "hierarchy_process_sync_events stage_virtuals n s = Some s'"
  shows "m_hierarchy_events s' = m_hierarchy_events s"
proof -
  obtain t where t: "process_events (\<lambda>h. m_module_events (h_module h)) upd_module_events (\<lambda>_. True)
      (run_module_event stage_virtuals) (\<lambda>_ _ h. h) n s = Some t"
    and s': "s' = (reap_all stage_virtuals t)
      \<lparr>h_module := (h_module (reap_all stage_virtuals t))\<lparr>m_dead_syncronisable_IDS := {}\<rparr>\<rparr>"
    using assms by (auto simp: hierarchy_process_sync_events_def Let_def split: option.splits)
  have "m_hierarchy_events t = m_hierarchy_events s"
    by (rule process_events_invariant [OF t, where I = "\<lambda>g. m_hierarchy_events g = m_hierarchy_events s"])
       (simp_all add: upd_module_events_def run_module_event_def)
  moreover have "m_hierarchy_events (reap_all stage_virtuals t) = m_hierarchy_events t"
    unfolding reap_all_def by (subst fold_frame [where g = m_hierarchy_events]) simp_all
  ultimately show ?thesis by (simp add: s')
qed

section \<open>A whole round\<close>

lemma fuel_monotone_parts:
  "fuel_monotone (hierarchy_process_sync_events V)" "fuel_monotone (stage_process_hierarchy_events ft)"
  "fuel_monotone (session_process_own_events V compute)" "fuel_monotone (session_process_sync_events W)"
proof -
  show "fuel_monotone (hierarchy_process_sync_events V)"
    unfolding hierarchy_process_sync_events_def [abs_def] Let_def
    by (rule fuel_monotone_map) (rule fuel_monotone_process)
  show "fuel_monotone (session_process_sync_events W)"
    unfolding session_process_sync_events_def [abs_def] Let_def
    by (rule fuel_monotone_map) (rule fuel_monotone_process)
  show "fuel_monotone (stage_process_hierarchy_events ft)"
    unfolding stage_process_hierarchy_events_def [abs_def] by (rule fuel_monotone_process)
  show "fuel_monotone (session_process_own_events V compute)"
    unfolding session_process_own_events_def [abs_def] by (intro fuel_monotone_bind fuel_monotone_process)
qed

lemma fuel_monotone_hierarchy: "fuel_monotone (stage_hierarchy_process_events ft)"
  unfolding stage_hierarchy_process_events_def [abs_def] by (intro fuel_monotone_bind fuel_monotone_parts)

lemma stage_hierarchy_ends:
  "\<exists>n s'. stage_hierarchy_process_events ft n s = Some s' \<and> m_events (m_hierarchy_events s') = [] \<and>
     m_events (h_queue s') = []"
proof -
  obtain n t where t: "stage_process_hierarchy_events ft n s = Some t" "m_events (m_hierarchy_events t) = []"
    using stage_queue.process_events_fifo [of s _ ft] unfolding stage_process_hierarchy_events_def by blast
  obtain m s' where s': "hierarchy_process_sync_events stage_virtuals m t = Some s'" "m_events (h_queue s') = []"
    using hierarchy_sync_ends [of t] by blast
  have "stage_hierarchy_process_events ft (max n m) s = Some s'"
    unfolding stage_hierarchy_process_events_def by (rule bind_ends [OF fuel_monotone_parts(2,1) t(1) s'(1)])
  then show ?thesis using s'(2) t(2) hierarchy_sync_quiet [OF s'(1)]
    by (intro exI [of _ "max n m"] exI [of _ s']) simp
qed

lemma session_own_ends: "\<exists>n s'. session_process_own_events V proxy_compute n s = Some s'"
proof -
  obtain n t where t: "process_events m_session_events upd_session_events (\<lambda>_. True) (\<lambda>_ _ s. (s, True))
      (\<lambda>_ _ s. s) n s = Some t"
    using session_queue.process_events_fifo [of s] by blast
  obtain m s' where s': "process_events m_compute_events upd_compute_events (\<lambda>_. True)
      (run_compute_event V proxy_compute) (\<lambda>_ _ s. s) m t = Some s'"
    using compute_queue.process_events_fifo [of t] by blast
  have "session_process_own_events V proxy_compute (max n m) s = Some s'"
    unfolding session_process_own_events_def by (rule bind_ends [OF fuel_monotone_process fuel_monotone_process t s'])
  then show ?thesis by blast
qed

lemma session_sync_ends: "\<exists>n s'. session_process_sync_events stage_virtuals n s = Some s'"
proof -
  obtain n t where "process_events (\<lambda>s. m_module_events (s_module s)) upd_s_module_events (\<lambda>_. True)
      (run_session_module_event stage_virtuals) (\<lambda>_ _ s. s) n s = Some t"
    using session_module_queue.process_events_fifo [of s] by blast
  then show ?thesis by (intro exI [of _ n]) (simp add: session_process_sync_events_def Let_def)
qed

lemma stage_round_runs:
  "\<exists>n s'. stage_process_events ft proxy_compute n s = Some s' \<and>
     m_events (m_hierarchy_events s') = [] \<and> m_events (m_module_events (h_module s')) = []"
proof -
  obtain n1 s1 where s1: "stage_hierarchy_process_events ft n1 s = Some s1" using stage_hierarchy_ends by blast
  obtain n2 s2 where s2: "session_process_own_events stage_virtuals proxy_compute n2 s1 = Some s2" using session_own_ends by blast
  obtain n3 s3 where s3: "session_process_sync_events stage_virtuals n3 s2 = Some s3" using session_sync_ends by blast
  obtain n4 s' where s': "stage_hierarchy_process_events ft n4 s3 = Some s'" "m_events (m_hierarchy_events s') = []"
    "m_events (h_queue s') = []" using stage_hierarchy_ends by blast
  note mono = fuel_monotone_hierarchy fuel_monotone_parts
  note last = bind_ends [OF mono(5,1) s3 s'(1)]
  note middle = bind_ends [OF mono(4) fuel_monotone_bind [OF mono(5,1)] s2 last]
  note round = bind_ends [OF mono(1) fuel_monotone_bind [OF mono(4) fuel_monotone_bind [OF mono(5,1)]] s1 middle]
  show ?thesis
    using round s'(2,3) unfolding stage_process_events_def h_queue_def by blast
qed

text \<open>
  C5. A round of event processing of the stage always ends, whatever is queued: no event of a queue defers
  an event to the queue that is being drained. Afterwards nothing is left in the queues of the hierarchy,
  which the round drains last.
\<close>

theorem stage_round_ends:
  "\<exists>n s'. stage_process_events ft proxy_compute n s = Some s' \<and>
     m_events (m_hierarchy_events s') = [] \<and> m_events (m_module_events (h_module s')) = []"
  by (rule stage_round_runs)

section \<open>Silent clients\<close>












lemma tick_frame [simp]:
  "m_parent (heartbeat_tick e) = m_parent e" "m_registered (heartbeat_tick e) = m_registered e"
  "m_is_proxy (heartbeat_tick e) = m_is_proxy e" "m_sync_status (heartbeat_tick e) = m_sync_status e"
  "m_hierarchy_adaptors (heartbeat_tick e) = m_hierarchy_adaptors e" "m_children (heartbeat_tick e) = m_children e"
  "m_class (heartbeat_tick e) = m_class e" "m_entity_type (heartbeat_tick e) = m_entity_type e"
  by (simp_all add: heartbeat_tick_def clear_active_hearbeat_def set_heartbeat_inactive_def)




end
