(* ===== verification/Zst_Links.thy ===== *)
theory Zst_Links
  imports Zst_Rounds
begin

text \<open>
  What the set of cables promises: abstractly it is a set of links, pairs of the paths of an input and an
  output plug. The operations of \<open>ZstSession\<close> on objects, addresses and deferred events implement
  membership, insertion and removal of links. The last part shows what a plug that is removed leaves
  behind in it.
\<close>

section \<open>The abstract set\<close>

definition link_of :: "ZstCableAddress \<Rightarrow> string \<times> string" where
  "link_of a = (uri_path (m_input_URI a), uri_path (m_output_URI a))"

definition links :: "'z session_scheme \<Rightarrow> (string \<times> string) set" where
  "links s = (\<lambda>k. link_of (m_address k)) ` set (m_cables s)"

lemma link_of_eq: "link_of a = link_of b \<longleftrightarrow> address_eq a b"
  by (simp add: link_of_def address_eq_def uri_equal_path)

lemma links_cong [simp]:
  "links (upd_entity r f s) = links s" "links (session_defer e s) = links s" "links (s\<lparr>s_module := m\<rparr>) = links s"
  by (simp_all add: links_def session_defer_def upd_entity_def)

lemma links_more: "hierarchy.more s' = hierarchy.more s \<Longrightarrow> links s' = links s"
  using more_session(1) [of s' s] by (simp add: links_def)

lemma links_frame:
  assumes "cable_frame f"
  shows "links (upd_cable c f s) = links s"
proof -
  have "link_of (m_address (if cable_id k = c then f k else k)) = link_of (m_address k)" for k
    using assms by (simp add: cable_frame_def)
  moreover have "m_cables (upd_cable c f s) = map (\<lambda>k. if cable_id k = c then f k else k) (m_cables s)"
    by (simp add: upd_cable_def)
  ultimately show ?thesis unfolding links_def by (simp only: set_map image_image)
qed

lemma links_sync_op:
  assumes "cables_ok s" and "cable_frame (\<lambda>k. fst (f k))"
  shows "links (cable_sync_op f c s) = links s"
proof (cases "cable_at s c")
  case None
  then show ?thesis by (simp add: cable_sync_op_def)
next
  case (Some k)
  have "links (cable_sync_op f c s) = links (upd_cable c (\<lambda>_. fst (f k)) s)"
    using Some by (cases "f k") (simp add: cable_sync_op_def Let_def)
  then show ?thesis
    using upd_cable_at [OF Some assms(1), of "\<lambda>k. fst (f k)"] by (simp add: links_frame [OF assms(2)])
qed

section \<open>The operations on it\<close>

abbreviation link :: "ZstURI \<Rightarrow> ZstURI \<Rightarrow> string \<times> string" where
  "link i out \<equiv> link_of (cable_address i out)"

lemma links_find: "find_cable s (cable_address i out) \<noteq> None \<longleftrightarrow> link i out \<in> links s"
  using find_cable_None [of s i out] by (auto simp: links_def link_of_eq image_iff address_eq_sym)

lemma links_create:
  assumes "cables_ok s"
  shows "links (fst (create_cable (Some i) (Some out) s)) =
    insert (link (uri_at s i) (uri_at s out)) (links s)"
proof (cases "find_cable s (cable_address (uri_at s i) (uri_at s out))")
  case (Some c)
  then have "link (uri_at s i) (uri_at s out) \<in> links s"
    using links_find [of s "uri_at s i" "uri_at s out"] by simp
  then show ?thesis
    using Some links_sync_op [OF assms cable_frame_sync(5)]
    by (auto simp: create_cable_def cable_enqueue_activation_def)
next
  case None
  obtain s' c where s': "add_new_cable i out s = (s', c)" by fastforce
  show ?thesis
    using add_new_cable_result(2) [OF assms None s'] None s' by (simp add: create_cable_def links_def)
qed

lemma links_destroy:
  assumes "cables_ok s"
  shows "links (destroy_cable_complete V c s) = links s"
proof -
  have forget: "cables_ok (plug_forget p a t) = cables_ok t" "links (plug_forget p a t) = links t" for p a t
    by (simp_all add: plug_forget_def split: option.split)
  show ?thesis
    using assms
    by (auto simp: destroy_cable_complete_def Let_def cable_enqueue_deactivation_def forget
        links_sync_op [OF _ cable_frame_sync(6)] split: option.split)
qed

lemma links_card: "cables_ok s \<Longrightarrow> card (links s) = card (set (m_cables s))"
  unfolding links_def by (rule card_image) (auto simp: inj_on_def link_of_eq cables_ok_def)

text \<open>Erasing a cable erases its link alone, since no other cable has it.\<close>

lemma links_reap:
  assumes "cables_ok s" and "cable_at s c = Some k"
  shows "links (reap_cable c s) = links s - {link_of (m_address k)}"
proof -
  have ok: "sorted_wrt cable_less (m_cables s)"
    "\<And>k l. k \<in> set (m_cables s) \<Longrightarrow> l \<in> set (m_cables s) \<Longrightarrow> address_eq (m_address k) (m_address l) \<Longrightarrow> k = l"
    using assms by (auto simp: cables_ok_def)
  have k: "k \<in> set (m_cables s)" using cable_at_id [OF assms(2)] by simp
  have "cable_order.equivalent k l \<longleftrightarrow> l = k" if "l \<in> set (m_cables s)" for l
    using cable_order.oset_unique [OF ok(1) k that] by auto
  then have "set (oset_erase cable_less k (m_cables s)) = set (m_cables s) - {k}"
    using cable_order.mem_oset_erase [OF ok(1)] by blast
  moreover have "inj_on (\<lambda>k. link_of (m_address k)) (set (m_cables s))"
    using ok(2) by (auto simp: inj_on_def link_of_eq)
  ultimately show ?thesis
    using assms(2) k by (simp add: reap_cable_def links_def) (subst inj_on_image_set_diff, auto)
qed

lemma reap_cable_links: "cables_ok s \<Longrightarrow> links (reap_cable c s) \<subseteq> links s"
  by (cases "cable_at s c") (simp_all add: links_reap, simp add: reap_cable_def)

text \<open>Processing events removes links and adds none.\<close>

definition fewer_links :: "(string \<times> string) set \<Rightarrow> 'z session_scheme \<Rightarrow> bool" where
  "fewer_links L s \<longleftrightarrow> cables_ok s \<and> links s \<subseteq> L"

lemma reap_fewer: "fewer_links L s \<Longrightarrow> fewer_links L (reap_cable c s)"
  using reap_cable_links [of s c] reap_cable_ok(1) [of s c] by (auto simp: fewer_links_def)

lemma cable_process_links:
  fixes s :: "'z session_scheme"
  shows "links (cable_process_events c s) = links s"
proof -
  have dest: "links (session_on_synchronisable_destroyed p b t) = links t" for p b and t :: "'z session_scheme"
    by (simp add: links_def)
  have "links (process_event (\<lambda>_. True) (run_cable_event c) (\<lambda>_ _ s. s) as ev t) = links t"
    for as ev and t :: "'z session_scheme"
    by (rule process_event_invariant [where I = "\<lambda>u. links u = links t"])
       (simp_all add: run_cable_event_def Let_def dest links_frame [OF cable_frame_sync(3)])
  then have "links (fold (process_event (\<lambda>_. True) (run_cable_event c) (\<lambda>_ _ s. s) as) es t) = links t"
    for as es and t :: "'z session_scheme"
    by (rule fold_frame)
  then show ?thesis
    by (simp add: cable_process_events_def Let_def links_frame [OF cable_frame_sync(4)] split: option.split)
qed

lemma session_sync_links:
  fixes s :: "'z session_scheme"
  assumes "cables_ok s" and "session_process_sync_events stage_virtuals n s = Some s'"
  shows "cables_ok s' \<and> links s' \<subseteq> links s"
proof -
  have more: "fewer_links L t' = fewer_links L t" if "hierarchy.more t' = hierarchy.more t"
    for L and t t' :: "'z session_scheme"
    using that more_session [of t' t] by (simp add: fewer_links_def links_def cables_ok_def)
  have m: "fewer_links L (t\<lparr>s_module := m\<rparr>) = fewer_links L t" for L m and t :: "'z session_scheme"
    by (simp add: fewer_links_def)
  have ev: "fewer_links L (fst (run_session_module_event stage_virtuals e a t))" if "fewer_links L t"
    for L e a and t :: "'z session_scheme"
    using that more [OF preserves_more [OF stage_tree.entity_process_ok]] cable_process_ok [of t] cable_process_links [of _ t]
    by (auto simp: run_session_module_event_def fewer_links_def split: sync_ref.split)
  obtain t where t: "process_events (\<lambda>s. m_module_events (s_module s)) upd_s_module_events (\<lambda>_. True)
      (run_session_module_event stage_virtuals) (\<lambda>_ _ s. s) n s = Some t"
    and s': "s' = (session_reap_all stage_virtuals t)
      \<lparr>s_module := (s_module (session_reap_all stage_virtuals t))\<lparr>m_dead_syncronisable_IDS := {}\<rparr>\<rparr>"
    using assms(2) by (auto simp: session_process_sync_events_def Let_def split: option.splits)
  have "fewer_links (links s) t"
    by (rule process_events_invariant [OF t, where I = "fewer_links (links s)"])
       (simp_all add: assms(1) fewer_links_def [of "links s" s] ev upd_s_module_events_def m)
  moreover have "fewer_links (links s) (fold reap_cable cs u)" if "fewer_links (links s) u" for cs and u :: "'z session_scheme"
    by (rule fold_invariant [where I = "fewer_links (links s)", OF that]) (rule reap_fewer)
  moreover have "fewer_links (links s) (fold (\<lambda>p s. case p of EntityRef r \<Rightarrow> delete_entity stage_virtuals r s | CableRef _ \<Rightarrow> s) ps u)"
    if "fewer_links (links s) u" for ps and u :: "'z session_scheme"
    by (rule fold_invariant [where I = "fewer_links (links s)", OF that])
       (simp add: more [OF stage_tree.delete_entity_more] split: sync_ref.split)
  ultimately have "fewer_links (links s) s'" unfolding s' session_reap_all_def Let_def by (simp add: m)
  then show ?thesis by (simp add: fewer_links_def)
qed

section \<open>Properties\<close>

text \<open>
  C4. The session refines a set of links: a lookup by address is membership, \<open>create_cable\<close> inserts the
  link of its plugs, \<open>destroy_cable_complete\<close> changes nothing yet, the reaper removes the link of its
  cable and no other, a round of event processing adds none, and there are as many links as cables.
\<close>

theorem cable_set_refines:
  assumes "cables_ok s"
  shows "(find_cable s (cable_address u v) \<noteq> None \<longleftrightarrow> link u v \<in> links s) \<and>
    links (fst (create_cable (Some i) (Some out) s)) = insert (link (uri_at s i) (uri_at s out)) (links s) \<and>
    links (destroy_cable_complete V x s) = links s \<and>
    links (reap_cable c s) = links s - (case cable_at s c of None \<Rightarrow> {} | Some k \<Rightarrow> {link_of (m_address k)}) \<and>
    (case session_process_sync_events stage_virtuals n s of None \<Rightarrow> True | Some s' \<Rightarrow> cables_ok s' \<and> links s' \<subseteq> links s) \<and>
    card (links s) = length (m_cables s)"
proof (intro conjI)
  show "find_cable s (cable_address u v) \<noteq> None \<longleftrightarrow> link u v \<in> links s" by (rule links_find)
  show "links (reap_cable c s) = links s - (case cable_at s c of None \<Rightarrow> {} | Some k \<Rightarrow> {link_of (m_address k)})"
    by (cases "cable_at s c") (simp_all add: links_reap [OF assms], simp add: reap_cable_def)
  show "case session_process_sync_events stage_virtuals n s of None \<Rightarrow> True | Some s' \<Rightarrow> cables_ok s' \<and> links s' \<subseteq> links s"
    using session_sync_links [OF assms] by (simp split: option.split)
  have "distinct (m_cables s)"
    using assms cable_order.oset_distinct [of "m_cables s"] by (simp add: cables_ok_def)
  then show "card (links s) = length (m_cables s)"
    using links_card [OF assms] by (simp add: distinct_card)
qed (simp_all add: links_create [OF assms] links_destroy [OF assms])

theorem cable_set_refines_witness:
  "links (fst (create_cable (Some 2) (Some 3) relay_sample)) = {(''ada/in'', ''bob/out'')} \<and>
   find_cable relay_sample (cable_address uri_empty uri_empty) = None"
proof -
  have "cables_ok relay_sample" by (simp add: cables_ok_def)
  note refines = cable_set_refines [OF this, where i = 2 and out = 3 and u = uri_empty and v = uri_empty]
  have "links relay_sample = {}" by (simp add: links_def)
  moreover have "link (uri_at relay_sample 2) (uri_at relay_sample 3) = (''ada/in'', ''bob/out'')"
    by (simp add: uri_at_def) code_simp
  ultimately show ?thesis using refines by simp
qed

section \<open>Removed plugs\<close>

lemma base_set_parent_quiet:
  assumes "heap h r = Some e" and "\<not> is_factory e"
  shows "m_hierarchy_events (base_set_parent stage_virtuals r p h) = m_hierarchy_events h"
  using assms
  by (auto simp: base_set_parent_def update_URI_def Let_def update_entity_in_lookup_def entity_test_def is_factory_def)

lemma remove_child_quiet:
  assumes "heap h r = Some e" and "\<not> is_factory e" and "childless e"
  shows "m_hierarchy_events (remove_child (set_parent stage_virtuals n) p r h) = m_hierarchy_events h"
proof -
  note g = erase_childless [OF assms(1,3)]
  note sp = set_parent_childless [OF _ assms(2,3)]
  show ?thesis
    using assms base_set_parent_quiet [OF assms(1,2)] g base_set_parent_quiet [OF g assms(2)]
    by (auto simp: remove_child_def component_remove_child_def sp [OF assms(1)] sp [OF g])
qed

lemma remove_plug_quiet:
  assumes "heap h r = Some e" and "idle_leaf e" and "m_entity_type e = ET_PLUG"
  shows "m_hierarchy_events (remove_proxy_entity stage_virtuals r h) = m_hierarchy_events h"
proof -
  define h1 where "h1 = (case entity_parent stage_virtuals h r of None \<Rightarrow> h
    | Some p \<Rightarrow> remove_child (set_parent stage_virtuals tree_depth) p r h)"
  have leaf: "\<not> is_factory e" "childless e" using assms(2) by (simp_all add: idle_leaf_def)
  have "m_hierarchy_events h1 = m_hierarchy_events h"
    using remove_child_quiet [OF assms(1) leaf] by (simp add: h1_def split: option.split)
  moreover have "dispatch_leaving r h1 = h1"
  proof -
    have "\<exists>e1. heap h1 r = Some e1 \<and> m_entity_type e1 = ET_PLUG"
    proof (cases "entity_parent stage_virtuals h r")
      case None
      then show ?thesis using assms(1,3) by (simp add: h1_def)
    next
      case (Some p)
      obtain par uri where "heap h1 r = Some (e\<lparr>m_parent := par, m_uri := uri\<rparr>)"
        using remove_child_leaf(1) [OF assms(1) leaf, of tree_depth p] Some by (auto simp: h1_def)
      then show ?thesis using assms(3) by simp
    qed
    then show ?thesis by (auto simp: dispatch_leaving_def)
  qed
  moreover have "m_hierarchy_events (fold entity_enqueue_deactivation qs g) = m_hierarchy_events g"
    for qs and g :: "'a hierarchy_scheme"
    by (rule fold_frame)
       (simp add: entity_enqueue_deactivation_def entity_sync_op_def entity_notify_def Let_def
         split: option.split prod.split)
  ultimately show ?thesis
    by (simp add: remove_proxy_entity_def destroy_entity_complete_def h1_def [symmetric] Let_def)
qed

text \<open>
  C38. A plug that is removed leaves its cables behind: removing the proxy of an output plug and processing
  the events deletes the plug, but keeps its cable in the session and queues nothing that could remove
  it, and from then on every request for the ownership of an entity reads the deleted plug.
\<close>

theorem removed_plug_leaves_cable:
  assumes "hierarchy_ok s" and "heap s r = Some e" and "idle_leaf e" and "m_entity_type e = ET_PLUG"
    and "r \<in> set (m_proxies s)" and "idle_module HierarchyModule (h_module s)"
    and "m_cables s = k # ks" and "m_output k = Some r" and "m_input k = Some i"
  shows "\<exists>s'. hierarchy_process_sync_events stage_virtuals 1 (remove_proxy_entity stage_virtuals r s) = Some s' \<and>
    heap s' r = None \<and> m_cables s' = m_cables s \<and> m_hierarchy_events s' = m_hierarchy_events s \<and>
    m_session_events s' = m_session_events s \<and>
    (\<forall>entity path owner. snd (change_ownership entity path owner s') = Inl UndefinedBehaviour)"
proof -
  obtain s' where s': "hierarchy_process_sync_events stage_virtuals 1 (remove_proxy_entity stage_virtuals r s) = Some s'"
    "heap s' r = None" using remove_leaf_deleted [OF assms(1-3,5,6)] by blast
  have "hierarchy.more s' = hierarchy.more (remove_proxy_entity stage_virtuals r s)"
    by (rule stage_tree.process_sync_more [OF s'(1)])
  also have "\<dots> = hierarchy.more s" by (rule preserves_more [OF stage_tree.remove_proxy_ok])
  finally have more: "hierarchy.more s' = hierarchy.more s" .
  have "m_hierarchy_events s' = m_hierarchy_events s"
    using hierarchy_sync_quiet [OF s'(1)] remove_plug_quiet [OF assms(2-4)] by simp
  moreover have "snd (change_ownership entity path owner s') = Inl UndefinedBehaviour" for entity path owner
    using s'(2) assms(7-9) more_session(1) [OF more] by (simp add: change_ownership_def)
  ultimately show ?thesis using s' more_session(1,3) [OF more] by blast
qed

definition dangling_sample :: stage where
  "dangling_sample = stage_new
     \<lparr>heap := [4 \<mapsto> sample_leaf], next_ref := 5, m_proxies := [4],
      m_cables := [cable_new (fst (synchronisable_new 0)) 0 sample_cable_address 5 4]\<rparr>"

theorem removed_plug_leaves_cable_witness:
  "\<exists>s'. hierarchy_process_sync_events stage_virtuals 1 (remove_proxy_entity stage_virtuals 4 dangling_sample) = Some s' \<and>
    m_cables s' = m_cables dangling_sample \<and> snd (change_ownership 0 uri_empty None s') = Inl UndefinedBehaviour"
proof -
  have "hierarchy_ok dangling_sample"
    by (auto simp: hierarchy_ok_def lookup_sound_def dangling_sample_def stage_new_def sample_leaf_def sample_entity_def
        entity_new_defs proxy_activated_def sync_status_defs split: if_splits)
  moreover have "idle_leaf sample_leaf" "m_entity_type sample_leaf = ET_PLUG"
    by (simp_all add: idle_leaf_def childless_def sample_leaf_def sample_entity_def entity_new_defs proxy_activated_def
        sync_status_defs sync_add_adaptor_def add_adaptor_def synchronisable_new_def dispatcher_new_def
        entity_class_defs is_activated_def)
  moreover have "idle_module HierarchyModule (h_module dangling_sample)"
    by (simp add: dangling_sample_def stage_new_def idle_module_def sync_module_new_def add_adaptor_def dispatcher_new_def)
  moreover have "m_cables dangling_sample = [cable_new (fst (synchronisable_new 0)) 0 sample_cable_address 5 4]"
    "heap dangling_sample 4 = Some sample_leaf" "4 \<in> set (m_proxies dangling_sample)"
    by (simp_all add: dangling_sample_def)
  moreover have "m_output (cable_new y c a i out) = Some out" "m_input (cable_new y c a i out) = Some i" for y c a i out
    by (simp_all add: cable_new_def ZstSynchronisable.defs)
  ultimately show ?thesis using removed_plug_leaves_cable [of dangling_sample 4 sample_leaf] by fastforce
qed

end
