(* ===== verification/Zst_Client_Hierarchy.thy ===== *)
theory Zst_Client_Hierarchy
  imports Zst_Session_Invariant
begin

text \<open>
  The hierarchy of a client: \<open>ZstClientHierarchy\<close> (\<open>src/src/client/ZstClientHierarchy.cpp\<close>), with the
  state of \<open>ZstClient\<close> that it extends. The client owns a root performer and the entities its
  application adds below it, announces them to the stage, and keeps proxies of everything else.

  Requests are appended to the outbox, \<open>send_msg\<close> through \<open>stage_events\<close>; what the callback of a request
  does is a value of \<open>client_action\<close>, run by \<open>client_hierarchy_on_response\<close>. A blocking call
  (\<open>SYNC_REPLY\<close>) is cut at its wait: the operations below are the part up to the wait, the callback is
  a step of its own, and the \<open>process_events\<close> after the wait follows the callback in
  \<open>client_request_returns\<close> (\<open>Zst_Client\<close>). The entities of the application are live for as long as
  they are registered; an operation on a pointer to a deleted one has no defined behaviour.
\<close>

section \<open>State\<close>

datatype connection_event =
    CE_ServerDiscovered ZstServerAddress
  | CE_ServerLost ZstServerAddress
  | CE_ConnectedToServer ZstServerAddress
  | CE_SynchronisedGraph
  | CE_DisconnectedFromServer

text \<open>A promise of \<open>auto_join_stage\<close>: not yet satisfied, or with the address the beacon named.\<close>

datatype beacon_promise = BP_Pending | BP_Ready ZstServerAddress

text \<open>A message of the graph transports; the value is absent when the sender left it unset.\<close>

record graph_message =
  gm_sender :: string
  gm_value :: "PlugValue option"

text \<open>
  The fields of \<open>ZstClient\<close>. The timers are the sets of waits that are pending, the transports the
  addresses they are connected to and the graph messages that were sent.
\<close>

record client = session +
  m_root :: ref
  m_ping :: int
  c_is_ending :: bool
  c_is_destroyed :: bool
  m_init_completed :: bool
  m_connected_to_stage :: bool
  m_is_connecting :: bool
  m_connected_server :: ZstServerAddress
  m_server_beacons :: "ZstServerAddress list"
  m_server_beacon_timestamps :: "(ZstServerAddress \<times> int) list"
  m_auto_join_stage :: bool
  m_auto_join_stage_requests :: "string \<Rightarrow> beacon_promise option"
  m_pending_peer_connections :: "string \<Rightarrow> uuid option"
  m_connection_timers :: "string set"
  m_heartbeat_timer :: bool
  m_connection_events :: "(adaptor, connection_event) dispatcher"
  m_stage_connection :: "string option"
  m_graph_connections :: "string list"
  m_graph_outbox :: "graph_message list"

definition client_transport :: transport where
  "client_transport = 0"

definition client_send :: "message_content \<Rightarrow> ZstTransportArgs \<Rightarrow> client \<Rightarrow> client" where
  "client_send content args h =
     h\<lparr>m_outbox := m_outbox h @ [\<lparr>out_transport = client_transport, out_content = content, out_args = args\<rparr>]\<rparr>"

section \<open>Queries\<close>

text \<open>The root lives as long as the client and answers for its own URI.\<close>

definition client_find_entity :: "client \<Rightarrow> ZstURI \<Rightarrow> ref option" where
  "client_find_entity h path =
     (if entity_test (\<lambda>e. uri_equal (m_uri e) path) h (m_root h) then Some (m_root h) else find_entity h path)"

definition root_uri :: "client \<Rightarrow> ZstURI" where
  "root_uri h = uri_at h (m_root h)"

definition path_is_local :: "client \<Rightarrow> ZstURI \<Rightarrow> bool" where
  "path_is_local h path \<longleftrightarrow> uri_contains path (root_uri h)"

text \<open>The virtual functions without the requests: the ones that the walk over children needs.\<close>

definition client_queries :: "client hierarchy_virtuals" where
  "client_queries =
     \<lparr>v_find_entity = client_find_entity,
      v_update_entity_URI = update_entity_in_lookup,
      v_request_entity_registration = register_entity,
      v_request_entity_activation = (\<lambda>_ h. h),
      v_publish_entity_update = (\<lambda>_ _ h. h),
      v_activate_entity = base_activate_entity,
      v_deactivate_entity = base_deactivate_entity,
      v_get_local_performer = (\<lambda>h. Some (m_root h))\<rparr>"

definition entity_and_children :: "client \<Rightarrow> ref \<Rightarrow> ref list" where
  "entity_and_children h r = get_child_entities client_queries tree_depth h r True True ET_NONE"

section \<open>Requests\<close>

definition client_publish_entity_update :: "float_text \<Rightarrow> ref \<Rightarrow> ZstURI \<Rightarrow> client \<Rightarrow> client" where
  "client_publish_entity_update ft r original_path h =
     (case heap h r of
        None \<Rightarrow> h
      | Some e \<Rightarrow>
          if m_is_proxy e then h
          else (case entity_serialize ft e of
                  Inl _ \<Rightarrow> h
                | Inr t \<Rightarrow>
                    client_send (Content_EntityUpdateRequest (serialized_entity_type (m_entity_type e)) t
                        (uri_path original_path)) transport_args h))"

fun announce_entities :: "float_text \<Rightarrow> ZstTransportArgs \<Rightarrow> ref list \<Rightarrow> client \<Rightarrow> client outcome" where
  "announce_entities ft args [] h = (h, None)"
| "announce_entities ft args (c # cs) h =
     (case heap h c of
        None \<Rightarrow> (h, Some UndefinedBehaviour)
      | Some e \<Rightarrow>
          (case entity_serialize ft e of
             Inl x \<Rightarrow> (h, Some x)
           | Inr t \<Rightarrow>
               announce_entities ft args cs
                 (client_send (Content_EntityCreateRequest (serialized_entity_type (m_entity_type e)) t) args h)))"

text \<open>\<open>reply_to\<close> is the request of a remote client that an activation answers, when there is one.\<close>

definition client_activate_entity ::
  "float_text \<Rightarrow> ref option \<Rightarrow> ZstTransportRequestBehaviour \<Rightarrow> uuid option \<Rightarrow> client \<Rightarrow> client outcome" where
  "client_activate_entity ft entity sendtype reply_to h =
     (case entity of
        None \<Rightarrow> (h, None)
      | Some r \<Rightarrow>
          (case heap h r of
             None \<Rightarrow> (h, Some UndefinedBehaviour)
           | Some e \<Rightarrow>
               if uri_is_empty (m_parent e) then (h, None)
               else if is_activated e then (h, None)
               else
                 let h1 = base_activate_entity r sendtype h
                 in announce_entities ft
                      (transport_args\<lparr>msg_send_behaviour := sendtype,
                         on_recv_response := RA_Client (CL_EntityActivated r reply_to)\<rparr>)
                      (entity_and_children h1 r) h1))"

text \<open>
  The callbacks of the entities. An exception raised while an entity is serialised ends the announcement
  it interrupts; a callback of the tree has no result to hand it on.
\<close>

definition client_request_entity_activation :: "float_text \<Rightarrow> ref \<Rightarrow> client \<Rightarrow> client" where
  "client_request_entity_activation ft r h = fst (client_activate_entity ft (Some r) SYNC_REPLY None h)"

definition client_tree_virtuals :: "float_text \<Rightarrow> client hierarchy_virtuals" where
  "client_tree_virtuals ft =
     client_queries
       \<lparr>v_request_entity_activation := client_request_entity_activation ft,
        v_publish_entity_update := client_publish_entity_update ft,
        v_activate_entity := (\<lambda>r sendtype h. fst (client_activate_entity ft (Some r) sendtype None h))\<rparr>"

text \<open>The client never destroys its own root.\<close>

definition client_destroy_entity_complete ::
  "client hierarchy_virtuals \<Rightarrow> ref option \<Rightarrow> client \<Rightarrow> client" where
  "client_destroy_entity_complete V entity h =
     (case entity of
        None \<Rightarrow> h
      | Some r \<Rightarrow>
          if uri_equal (uri_at h r) (root_uri h) then h else destroy_entity_complete V r h)"

text \<open>
  A local entity is destroyed when the stage acknowledges the request, a proxy at once; a call that
  publishes does not wait for the stage, and completes the destruction of a proxy a second time.
\<close>

definition client_deactivate_entity ::
  "float_text \<Rightarrow> ref option \<Rightarrow> ZstTransportRequestBehaviour \<Rightarrow> client \<Rightarrow> client" where
  "client_deactivate_entity ft entity sendtype h =
     (case entity of
        None \<Rightarrow> h
      | Some r \<Rightarrow>
          if heap h r = None then h
          else
            let h1 = base_deactivate_entity r sendtype h;
                args = transport_args
                  \<lparr>msg_send_behaviour := sendtype,
                   on_recv_response := (if sendtype = PUBLISH then RA_None else RA_Client (CL_EntityDestroyed r))\<rparr>;
                h2 = (if \<not> entity_test m_is_proxy h1 r
                      then client_send (Content_EntityDestroyRequest (uri_path (uri_at h1 r))) args h1
                      else client_destroy_entity_complete (client_tree_virtuals ft) (Some r) h1)
            in if sendtype = PUBLISH
               then client_destroy_entity_complete (client_tree_virtuals ft) (Some r) h2 else h2)"

definition client_virtuals :: "float_text \<Rightarrow> client hierarchy_virtuals" where
  "client_virtuals ft =
     (client_tree_virtuals ft)
       \<lparr>v_deactivate_entity := (\<lambda>r sendtype h. client_deactivate_entity ft (Some r) sendtype h)\<rparr>"

lemma client_queries_simps [simp]:
  "v_find_entity client_queries = client_find_entity"
  "v_update_entity_URI client_queries = update_entity_in_lookup"
  "v_request_entity_registration client_queries = register_entity"
  "v_request_entity_activation client_queries = (\<lambda>_ h. h)"
  "v_publish_entity_update client_queries = (\<lambda>_ _ h. h)"
  "v_activate_entity client_queries = base_activate_entity"
  "v_deactivate_entity client_queries = base_deactivate_entity"
  "v_get_local_performer client_queries = (\<lambda>h. Some (m_root h))"
  by (simp_all add: client_queries_def)

lemma client_tree_virtuals_simps [simp]:
  "v_find_entity (client_tree_virtuals ft) = client_find_entity"
  "v_update_entity_URI (client_tree_virtuals ft) = update_entity_in_lookup"
  "v_request_entity_registration (client_tree_virtuals ft) = register_entity"
  "v_request_entity_activation (client_tree_virtuals ft) = client_request_entity_activation ft"
  "v_publish_entity_update (client_tree_virtuals ft) = client_publish_entity_update ft"
  "v_activate_entity (client_tree_virtuals ft) =
     (\<lambda>r sendtype h. fst (client_activate_entity ft (Some r) sendtype None h))"
  "v_deactivate_entity (client_tree_virtuals ft) = base_deactivate_entity"
  "v_get_local_performer (client_tree_virtuals ft) = (\<lambda>h. Some (m_root h))"
  by (simp_all add: client_tree_virtuals_def)

lemma client_virtuals_simps [simp]:
  "v_find_entity (client_virtuals ft) = client_find_entity"
  "v_update_entity_URI (client_virtuals ft) = update_entity_in_lookup"
  "v_request_entity_registration (client_virtuals ft) = register_entity"
  "v_request_entity_activation (client_virtuals ft) = client_request_entity_activation ft"
  "v_publish_entity_update (client_virtuals ft) = client_publish_entity_update ft"
  "v_activate_entity (client_virtuals ft) =
     (\<lambda>r sendtype h. fst (client_activate_entity ft (Some r) sendtype None h))"
  "v_deactivate_entity (client_virtuals ft) = (\<lambda>r sendtype h. client_deactivate_entity ft (Some r) sendtype h)"
  "v_get_local_performer (client_virtuals ft) = (\<lambda>h. Some (m_root h))"
  by (simp_all add: client_virtuals_def)

section \<open>The contract of the virtual functions\<close>

text \<open>\<open>outbox_step h h'\<close>: only messages were added.\<close>

definition outbox_step :: "client \<Rightarrow> client \<Rightarrow> bool" where
  "outbox_step h h' \<longleftrightarrow> (\<exists>ms. h' = h\<lparr>m_outbox := m_outbox h @ ms\<rparr>)"

lemma outbox_step_refl [simp]: "outbox_step h h"
  unfolding outbox_step_def by (rule exI [of _ "[]"]) simp

lemma outbox_step_trans [trans]: "outbox_step h g \<Longrightarrow> outbox_step g h' \<Longrightarrow> outbox_step h h'"
  by (auto simp: outbox_step_def)

lemma outbox_step_send [simp]: "outbox_step h (client_send c a h)"
  by (auto simp: outbox_step_def client_send_def)

lemma outbox_step_frame:
  assumes "outbox_step h h'"
  shows "preserves h h'" "m_entity_lookup h' = m_entity_lookup h" "heap h' = heap h" "m_root h' = m_root h"
    "absent r h' = absent r h" "m_hierarchy_events h' = m_hierarchy_events h"
  using assms
  by (auto simp: outbox_step_def preserves_def hierarchy_ok_def lookup_sound_def absent_def)

lemma outbox_step_announce: "outbox_step h (fst (announce_entities ft args cs h))"
proof (induction ft args cs h rule: announce_entities.induct)
  case (2 ft args c cs h)
  then show ?case by (auto intro: outbox_step_trans [OF outbox_step_send] split: option.split sum.split)
qed simp

lemma outbox_step_publish: "outbox_step h (client_publish_entity_update ft r orig h)"
  by (simp add: client_publish_entity_update_def split: option.split sum.split)

lemma client_activate_preserves: "preserves h (fst (client_activate_entity ft entity sendtype reply_to h))"
  using preserves_trans [OF preserves_register outbox_step_frame(1) [OF outbox_step_announce]]
  by (auto simp: client_activate_entity_def base_activate_entity_def Let_def split: option.split)

lemma client_activate_absent:
  "r \<noteq> c \<Longrightarrow> absent r h \<Longrightarrow> absent r (fst (client_activate_entity ft (Some c) sendtype reply_to h))"
  using outbox_step_frame(5) [OF outbox_step_announce]
  by (auto simp: client_activate_entity_def base_activate_entity_def Let_def absent_register split: option.split)

lemma client_find_live:
  assumes "hierarchy_ok h" and "client_find_entity h u = Some r"
  shows "\<exists>e. heap h r = Some e \<and> uri_path (m_uri e) = uri_path u"
  using assms find_entity_live [of h u r]
  by (auto simp: client_find_entity_def entity_test_def uri_equal_path split: if_splits option.splits)

abbreviation is_root :: "client \<Rightarrow> ref \<Rightarrow> bool" where
  "is_root h r \<equiv> r = m_root h"

lemma root_more: "hierarchy.more h' = hierarchy.more h \<Longrightarrow> is_root h' = is_root h" for h h' :: client
  by (cases h; cases h') auto

lemma base_deactivate_absent: "absent r (base_deactivate_entity c sendtype h) = absent r h"
  by (simp add: base_deactivate_entity_def)

interpretation client_tree: hierarchy_reaper "client_tree_virtuals ft" is_root
proof
  fix h :: client and c r u sendtype
  show "\<exists>e. heap h r = Some e \<and> uri_path (m_uri e) = uri_path u"
    if "hierarchy_ok h" "v_find_entity (client_tree_virtuals ft) h u = Some r"
    using that client_find_live by simp
  show "find_entity h u = Some r"
    if "v_find_entity (client_tree_virtuals ft) h u = Some r" "\<not> is_root h r"
    using that by (auto simp: client_find_entity_def split: if_splits)
  show "is_root h' = is_root h" if "hierarchy.more h' = hierarchy.more h" for h' using that by (rule root_more)
  show "absent r (v_request_entity_activation (client_tree_virtuals ft) c h)" if "c \<noteq> r" "absent r h"
    using that client_activate_absent by (auto simp: client_request_entity_activation_def)
qed (simp_all add: preserves_register client_request_entity_activation_def client_activate_preserves
  outbox_step_frame(1) [OF outbox_step_publish] preserves_base_deactivate absent_register base_deactivate_absent)

lemma client_destroy_spares:
  assumes "heap h c \<noteq> None" and "c \<noteq> r"
  shows "client_tree.spares r h (client_destroy_entity_complete (client_tree_virtuals ft) (Some c) h)"
  using client_tree.destroy_complete_spares [OF assms] by (simp add: client_destroy_entity_complete_def)

lemma base_deactivate_spares: "client_tree.spares r h (base_deactivate_entity c sendtype h)"
  by (simp add: client_tree.spares_def preserves_base_deactivate base_deactivate_absent)

lemma client_send_spares: "client_tree.spares r h (client_send content args h)"
  by (simp add: client_tree.spares_def outbox_step_frame [OF outbox_step_send])

lemma client_deactivate_spares:
  assumes "c \<noteq> r"
  shows "client_tree.spares r h (client_deactivate_entity ft (Some c) sendtype h)"
proof (cases "heap h c = None")
  case True
  then show ?thesis by (simp add: client_deactivate_entity_def)
next
  case False
  let ?S = "client_tree.spares r"
  define h1 where "h1 = base_deactivate_entity c sendtype h"
  define args where "args = transport_args
    \<lparr>msg_send_behaviour := sendtype,
     on_recv_response := (if sendtype = PUBLISH then RA_None else RA_Client (CL_EntityDestroyed c))\<rparr>"
  define h2 where "h2 = (if \<not> entity_test m_is_proxy h1 c
     then client_send (Content_EntityDestroyRequest (uri_path (uri_at h1 c))) args h1
     else client_destroy_entity_complete (client_tree_virtuals ft) (Some c) h1)"
  have s1: "?S h h1" unfolding h1_def by (rule base_deactivate_spares)
  have live: "heap h1 c \<noteq> None" using client_tree.spares_live [OF s1] False by simp
  have "?S h1 h2" unfolding h2_def using client_send_spares client_destroy_spares [OF live assms] by simp
  with s1 have s2: "?S h h2" by (rule client_tree.spares_trans)
  then have "heap h2 c \<noteq> None" using client_tree.spares_live [OF s2] False by simp
  with s2 have "?S h (client_destroy_entity_complete (client_tree_virtuals ft) (Some c) h2)"
    using client_tree.spares_trans client_destroy_spares assms by blast
  with s2 show ?thesis
    using False unfolding client_deactivate_entity_def option.case Let_def h1_def [symmetric] args_def [symmetric]
      h2_def [symmetric] by simp
qed

lemma client_deactivate_preserves: "preserves h (client_deactivate_entity ft entity sendtype h)"
proof (cases entity)
  case (Some c)
  obtain r where "c \<noteq> r" by (metis n_not_Suc_n)
  then show ?thesis using client_deactivate_spares [of c r h ft sendtype] Some by (simp add: client_tree.spares_def)
qed (simp add: client_deactivate_entity_def)

interpretation client_reaper: hierarchy_reaper "client_virtuals ft" is_root
proof
  fix h :: client and c r u sendtype
  show "\<exists>e. heap h r = Some e \<and> uri_path (m_uri e) = uri_path u"
    if "hierarchy_ok h" "v_find_entity (client_virtuals ft) h u = Some r"
    using that client_find_live by simp
  show "find_entity h u = Some r"
    if "v_find_entity (client_virtuals ft) h u = Some r" "\<not> is_root h r"
    using that by (auto simp: client_find_entity_def split: if_splits)
  show "is_root h' = is_root h" if "hierarchy.more h' = hierarchy.more h" for h' using that by (rule root_more)
  show "absent r (v_request_entity_activation (client_virtuals ft) c h)" if "c \<noteq> r" "absent r h"
    using that client_activate_absent by (auto simp: client_request_entity_activation_def)
  show "absent r (v_deactivate_entity (client_virtuals ft) c sendtype h)"
    if "c \<noteq> r" "\<not> is_root h r" "absent r h"
    using that client_deactivate_spares [of c r h ft sendtype] by (simp add: client_tree.spares_def)
qed (simp_all add: preserves_register client_request_entity_activation_def client_activate_preserves
  outbox_step_frame(1) [OF outbox_step_publish] client_deactivate_preserves absent_register)

section \<open>Factories\<close>

text \<open>
  The constructors a factory stores are code of the application: \<open>construct f name\<close> is the object that
  the creator \<open>f\<close> makes. \<open>ZstEntityFactory::create_entity\<close> owns what it creates.
\<close>

type_synonym constructors = "creator \<Rightarrow> string \<Rightarrow> ZstSynchronisable \<Rightarrow> entity"

definition factory_create_entity ::
  "constructors \<Rightarrow> ref \<Rightarrow> ZstURI \<Rightarrow> string \<Rightarrow> client \<Rightarrow> client \<times> ref option" where
  "factory_create_entity construct factory creatable_path name h =
     (case heap h factory of
        None \<Rightarrow> (h, None)
      | Some e \<Rightarrow>
          (case find (\<lambda>(q, _). uri_equal q creatable_path) (m_creatables e) of
             None \<Rightarrow> (h, None)
           | Some (_, f) \<Rightarrow>
               (case alloc_entity (construct f name) h of
                  (r, h1) \<Rightarrow>
                    (upd_entity factory (\<lambda>e. e\<lparr>m_owned_entities := m_owned_entities e @ [r]\<rparr>) h1, Some r))))"

definition find_factory :: "client \<Rightarrow> ZstURI \<Rightarrow> zst_exn + ref option" where
  "find_factory h creatable_path = map_sum id (find_as is_factory client_queries h) (uri_parent creatable_path)"

definition root_add_child :: "float_text \<Rightarrow> ref \<Rightarrow> bool \<Rightarrow> client \<Rightarrow> client" where
  "root_add_child ft r auto_activate h =
     add_child (set_parent (client_virtuals ft) tree_depth) (client_virtuals ft) (m_root h) r auto_activate h"

text \<open>
  \<open>create_entity\<close>: a local factory creates at once, and its answer is added to the root without a test
  for the null pointer; a remote factory is asked through the stage. The pointer that the call returns
  in that case is the one its callback finds.
\<close>

definition client_create_entity ::
  "float_text \<Rightarrow> constructors \<Rightarrow> ZstURI \<Rightarrow> string \<Rightarrow> ZstTransportRequestBehaviour \<Rightarrow> client \<Rightarrow>
   client \<times> (zst_exn + ref option)" where
  "client_create_entity ft construct creatable_path name sendtype h =
     (case find_factory h creatable_path of
        Inl e \<Rightarrow> (h, Inl e)
      | Inr None \<Rightarrow> (h, Inr None)
      | Inr (Some factory) \<Rightarrow>
          if \<not> entity_test m_is_proxy h factory
          then (case factory_create_entity construct factory creatable_path name h of
                  (h1, None) \<Rightarrow> (h1, Inl NullDereference)
                | (h1, Some r) \<Rightarrow> (root_add_child ft r True h1, Inr (Some r)))
          else (client_send (Content_FactoryCreateEntityRequest (uri_path creatable_path) (uri_path (uri_of name)))
                  (transport_args\<lparr>msg_send_behaviour := sendtype,
                     on_recv_response := RA_Client (CL_EntityCreated factory)\<rparr>) h, Inr None))"

text \<open>A request for a factory the client does not have is not answered.\<close>

definition client_factory_create_handler ::
  "float_text \<Rightarrow> constructors \<Rightarrow> string \<Rightarrow> string \<Rightarrow> uuid \<Rightarrow> client \<Rightarrow> client outcome" where
  "client_factory_create_handler ft construct creatable name request_id h =
     (case find_factory h (string_uri creatable) of
        Inl e \<Rightarrow> (h, Some e)
      | Inr None \<Rightarrow> (h, None)
      | Inr (Some factory) \<Rightarrow>
          (case factory_create_entity construct factory (string_uri creatable) (cstr name) h of
             (h1, None) \<Rightarrow>
               (client_send (Content_SignalMessage Signal_ERR_ENTITY_NOT_FOUND)
                  (transport_args\<lparr>msg_ID := request_id\<rparr>) h1, None)
           | (h1, Some r) \<Rightarrow>
               client_activate_entity ft (Some r) ASYNC_REPLY (Some request_id) (root_add_child ft r False h1)))"

section \<open>Messages of the stage\<close>

definition client_create_proxy_entity ::
  "float_text \<Rightarrow> bool \<Rightarrow> entity_table \<Rightarrow> EntityData \<Rightarrow> client \<Rightarrow> client \<times> (zst_exn + ref option)" where
  "client_create_proxy_entity ft indeterminate payload entity_data h =
     (if path_is_local h (table_uri entity_data) then (h, Inr None)
      else create_proxy_entity (client_virtuals ft) indeterminate payload entity_data h)"

definition client_update_proxy_entity ::
  "float_text \<Rightarrow> ref option \<Rightarrow> entity_table \<Rightarrow> EntityData \<Rightarrow> client \<Rightarrow> client outcome" where
  "client_update_proxy_entity ft original payload entity_data h =
     (if path_is_local h (table_uri entity_data) then (h, None)
      else case original of
             None \<Rightarrow> (h, None)
           | Some r \<Rightarrow> update_proxy_entity (client_virtuals ft) r payload entity_data h)"

definition client_leave_handler :: "float_text \<Rightarrow> string \<Rightarrow> client \<Rightarrow> client" where
  "client_leave_handler ft performer_path h =
     client_destroy_entity_complete (client_virtuals ft) (client_find_entity h (string_uri performer_path)) h"

definition create_proxy_entity_handler :: "float_text \<Rightarrow> bool \<Rightarrow> entity_table \<Rightarrow> client \<Rightarrow> client outcome" where
  "create_proxy_entity_handler ft indeterminate payload h =
     (case get_entity_field payload of
        Inl e \<Rightarrow> (h, Some e)
      | Inr ed \<Rightarrow>
          (case client_create_proxy_entity ft indeterminate payload ed h of
             (h1, Inl e) \<Rightarrow> (h1, Some e)
           | (h1, Inr entity) \<Rightarrow> add_proxy_entity (client_virtuals ft) entity h1))"

definition update_proxy_entity_handler :: "float_text \<Rightarrow> entity_table \<Rightarrow> string \<Rightarrow> client \<Rightarrow> client outcome" where
  "update_proxy_entity_handler ft payload original_path h =
     (case get_entity_field payload of
        Inl e \<Rightarrow> (h, Some e)
      | Inr ed \<Rightarrow>
          client_update_proxy_entity ft (client_find_entity h (string_uri original_path)) payload ed h)"

definition client_destroy_entity_handler :: "float_text \<Rightarrow> string \<Rightarrow> client \<Rightarrow> client" where
  "client_destroy_entity_handler ft path h =
     client_destroy_entity_complete (client_virtuals ft) (client_find_entity h (string_uri path)) h"

definition client_hierarchy_on_receive_msg ::
  "float_text \<Rightarrow> constructors \<Rightarrow> bool \<Rightarrow> ZstStageMessage \<Rightarrow> client \<Rightarrow> client outcome" where
  "client_hierarchy_on_receive_msg ft construct indeterminate msg h =
     (case m_buffer msg of
        Content_ClientLeaveRequest path _ \<Rightarrow> (client_leave_handler ft path h, None)
      | Content_EntityCreateRequest _ payload \<Rightarrow> create_proxy_entity_handler ft indeterminate payload h
      | Content_FactoryCreateEntityRequest creatable name \<Rightarrow>
          client_factory_create_handler ft construct creatable name (m_id msg) h
      | Content_EntityUpdateRequest _ payload path \<Rightarrow> update_proxy_entity_handler ft payload path h
      | Content_EntityDestroyRequest path \<Rightarrow> (client_destroy_entity_handler ft path h, None)
      | _ \<Rightarrow> (h, None))"

section \<open>Arriving entities\<close>

text \<open>
  \<open>ZstClient::init_arriving_plug\<close>: an output plug fires if its first component is the root, and gets the
  TCP transport, or the UDP transport of a build with the draft API if it is not reliable.
\<close>

definition tcp_graph_transport :: transport where
  "tcp_graph_transport = 1"

definition udp_graph_transport :: transport where
  "udp_graph_transport = 2"

definition set_graph_transport :: "transport \<Rightarrow> entity \<Rightarrow> entity" where
  "set_graph_transport t e =
     e\<lparr>m_graph_adaptors := (if t \<in> set (m_graph_adaptors e) then m_graph_adaptors e else m_graph_adaptors e @ [t])\<rparr>"

definition init_arriving_plug :: "bool \<Rightarrow> ref \<Rightarrow> client \<Rightarrow> client outcome" where
  "init_arriving_plug draft_api r h =
     (case heap h r of
        None \<Rightarrow> (h, Some UndefinedBehaviour)
      | Some e \<Rightarrow>
          if \<not> is_output_plug e then (h, None)
          else case uri_first (m_uri e) of
                 Inl x \<Rightarrow> (h, Some x)
               | Inr f \<Rightarrow>
                   let h1 = (if uri_equal (root_uri h) f then upd_entity r (set_can_fire True) h else h)
                   in ((if m_reliable e then upd_entity r (set_graph_transport tcp_graph_transport) h1
                        else if draft_api then upd_entity r (set_graph_transport udp_graph_transport) h1
                        else h1), None))"

fun init_arriving_plugs :: "bool \<Rightarrow> ref list \<Rightarrow> client \<Rightarrow> client outcome" where
  "init_arriving_plugs draft_api [] h = (h, None)"
| "init_arriving_plugs draft_api (r # rs) h =
     (case init_arriving_plug draft_api r h of
        (h1, Some e) \<Rightarrow> (h1, Some e)
      | (h1, None) \<Rightarrow> init_arriving_plugs draft_api rs h1)"

definition client_on_entity_arriving :: "bool \<Rightarrow> ref \<Rightarrow> client \<Rightarrow> client outcome" where
  "client_on_entity_arriving draft_api r h =
     init_arriving_plugs draft_api
       (filter (entity_test (\<lambda>e. m_entity_type e = ET_PLUG) h) (entity_and_children h r)) h"

text \<open>The arrival of an entity for the session and for the client, at once for local entities.\<close>

fun announce_arrivals :: "float_text \<Rightarrow> bool \<Rightarrow> ref list \<Rightarrow> client \<Rightarrow> client outcome" where
  "announce_arrivals ft draft_api [] h = (h, None)"
| "announce_arrivals ft draft_api (c # cs) h =
     (case client_on_entity_arriving draft_api c (session_register_entity (client_virtuals ft) c h) of
        (h1, Some e) \<Rightarrow> (h1, Some e)
      | (h1, None) \<Rightarrow> announce_arrivals ft draft_api cs h1)"

definition client_activate_entity_complete :: "float_text \<Rightarrow> bool \<Rightarrow> ref \<Rightarrow> client \<Rightarrow> client outcome" where
  "client_activate_entity_complete ft draft_api r h =
     (if heap h r = None then (h, Some UndefinedBehaviour)
      else
        let h1 = activate_entity_complete (client_virtuals ft) r h
        in announce_arrivals ft draft_api (entity_and_children h1 r) h1)"

section \<open>Responses\<close>

definition factory_created_event :: "ref \<Rightarrow> ref \<Rightarrow> client \<Rightarrow> client" where
  "factory_created_event factory created h =
     entity_notify factory
       (upd_entity factory (\<lambda>e. e\<lparr>m_factory_events := m_factory_events e @ [FE_EntityCreated created]\<rparr>) h)"

definition entity_activated_response ::
  "float_text \<Rightarrow> bool \<Rightarrow> ref \<Rightarrow> uuid option \<Rightarrow> ZstStageMessage option \<Rightarrow> client \<Rightarrow> client outcome" where
  "entity_activated_response ft draft_api r reply_to response h =
     (if \<not> verify_signal response Signal_OK then (h, None)
      else (case client_activate_entity_complete ft draft_api r h of
              (h1, Some e) \<Rightarrow> (h1, Some e)
            | (h1, None) \<Rightarrow>
                (case reply_to of
                   None \<Rightarrow> (h1, None)
                 | Some request_id \<Rightarrow>
                     (client_send (Content_SignalMessage Signal_OK) (transport_args\<lparr>msg_ID := request_id\<rparr>) h1, None))))"

definition entity_destroyed_response :: "float_text \<Rightarrow> ref \<Rightarrow> ZstStageMessage option \<Rightarrow> client \<Rightarrow> client outcome" where
  "entity_destroyed_response ft r response h =
     (if \<not> verify_signal response Signal_OK then (h, None)
      else if heap h r = None then (h, Some UndefinedBehaviour)
      else (client_destroy_entity_complete (client_virtuals ft) (Some r) h, None))"

definition entity_created_response :: "ref \<Rightarrow> ZstStageMessage option \<Rightarrow> client \<Rightarrow> client outcome" where
  "entity_created_response factory response h =
     (case response of
        None \<Rightarrow> (h, None)
      | Some msg \<Rightarrow>
          if get_signal response \<noteq> Signal_EMPTY then (h, None)
          else (case m_buffer msg of
                  Content_FactoryCreateEntityACK created_path \<Rightarrow>
                    (case client_find_entity h (string_uri created_path) of
                       None \<Rightarrow> (h, None)
                     | Some created \<Rightarrow>
                         if heap h factory = None then (h, Some UndefinedBehaviour)
                         else (factory_created_event factory created h, None))
                | _ \<Rightarrow> (h, Some NullDereference)))"

definition client_hierarchy_on_response ::
  "float_text \<Rightarrow> bool \<Rightarrow> client_action \<Rightarrow> ZstStageMessage option \<Rightarrow> client \<Rightarrow> client outcome" where
  "client_hierarchy_on_response ft draft_api action response h =
     (case action of
        CL_EntityActivated r reply_to \<Rightarrow> entity_activated_response ft draft_api r reply_to response h
      | CL_EntityDestroyed r \<Rightarrow> entity_destroyed_response ft r response h
      | CL_EntityCreated factory \<Rightarrow> entity_created_response factory response h
      | _ \<Rightarrow> (h, None))"

lemmas hierarchy_response_defs =
  client_hierarchy_on_response_def entity_activated_response_def entity_destroyed_response_def entity_created_response_def

section \<open>The invariant of the client\<close>

text \<open>
  \<open>client_ok\<close>: the session and its hierarchy are sound; the root is a live performer that is attached to
  the hierarchy and not one of the proxies, so that nothing ever hands it to the reaper.
\<close>

definition root_ok :: "client \<Rightarrow> bool" where
  "root_ok h \<longleftrightarrow>
     entity_test is_performer h (m_root h) \<and> hierarchy_attached h (m_root h) \<and> m_root h \<notin> set (m_proxies h)"

definition client_ok :: "client \<Rightarrow> bool" where
  "client_ok h \<longleftrightarrow> session_ok h \<and> root_ok h"

lemma client_okD:
  assumes "client_ok h"
  shows "session_ok h" "hierarchy_ok h" "heap h (m_root h) \<noteq> None" "m_root h \<notin> set (m_proxies h)"
    "client_reaper.unpinned h" "hierarchy_attached h (m_root h)"
  using assms entity_test_live [where P = is_performer and h = h and r = "m_root h"]
  by (auto simp: client_ok_def root_ok_def session_ok_def client_reaper.unpinned_def)

lemma root_of_more: "hierarchy.more h' = hierarchy.more h \<Longrightarrow> m_root h' = m_root h" for h h' :: client
  by (cases h; cases h') simp

lemma performer_same:
  assumes "same_objects h h'" and "entity_test is_performer h r"
  shows "entity_test is_performer h' r"
proof -
  obtain e where e: "heap h r = Some e" "is_performer e"
    using assms(2) by (auto simp: entity_test_def split: option.splits)
  then obtain e' where e': "heap h' r = Some e'" "identity e' = identity e"
    using assms(1) unfolding same_objects_def by (metis (no_types, lifting) map_option_eq_Some option.simps(9))
  then have "m_class e' = m_class e" by (simp add: identity_def)
  with e e' show ?thesis by (simp add: entity_test_def is_performer_def)
qed

lemma client_ok_preserves:
  assumes "preserves h h'" and "client_ok h"
  shows "client_ok h'"
proof -
  have a: "m_root h' = m_root h" "m_proxies h' = m_proxies h" "same_objects h h'"
    using root_of_more [OF preserves_more [OF assms(1)]] assms(1) by (simp_all only: preserves_def simp_thms)
  moreover have "session_ok h'" using session_ok_preserves [OF assms(1) client_okD(1) [OF assms(2)]] .
  ultimately show ?thesis
    using assms(2) performer_same [OF a(3)] preserves_attached [OF assms(1)] by (simp add: client_ok_def root_ok_def)
qed

lemma client_ok_adopts:
  assumes "adopts r h h'" and "client_ok h" and "r \<noteq> m_root h"
  shows "client_ok h'"
proof -
  have a: "hierarchy_ok h'" "hierarchy.more h' = hierarchy.more h" "same_objects h h'"
    "set (m_proxies h') = insert r (set (m_proxies h))"
    using assms(1) client_okD(2) [OF assms(2)] by (simp_all only: adopts_def simp_thms)
  have m: "m_root h' = m_root h" using a(2) by (rule root_of_more)
  have "session_ok h'" using session_ok_more [OF client_okD(1) [OF assms(2)] a(1,2)] .
  moreover have "entity_test is_performer h' (m_root h')"
    using performer_same [OF a(3)] assms(2) m by (simp add: client_ok_def root_ok_def)
  moreover have "hierarchy_attached h' (m_root h')"
    using a(3) client_okD(6) [OF assms(2)] m by (simp add: same_objects_def)
  ultimately show ?thesis
    using client_okD(4) [OF assms(2)] assms(3) m a(4) by (simp add: client_ok_def root_ok_def)
qed

lemma client_ok_outbox: "outbox_step h h' \<Longrightarrow> client_ok h \<Longrightarrow> client_ok h'"
  by (rule client_ok_preserves [OF outbox_step_frame(1)])

lemma client_ok_send [simp]: "client_ok h \<Longrightarrow> client_ok (client_send c a h)"
  by (rule client_ok_outbox [OF outbox_step_send])

lemma client_destroy_preserves: "preserves h (client_destroy_entity_complete (client_virtuals ft) entity h)"
  if "\<forall>r. entity = Some r \<longrightarrow> heap h r \<noteq> None"
  using that client_reaper.destroy_complete_ok
  by (cases entity) (simp_all add: client_destroy_entity_complete_def)

lemma client_find_heap: "hierarchy_ok h \<Longrightarrow> client_find_entity h u = Some r \<Longrightarrow> heap h r \<noteq> None"
  using client_find_live by force

lemma client_remove_found:
  "client_ok h \<Longrightarrow> client_ok (client_destroy_entity_complete (client_virtuals ft) (client_find_entity h u) h)"
  by (rule client_ok_preserves [OF client_destroy_preserves]) (auto dest: client_find_heap [OF client_okD(2)])

lemma alloc_client_ok:
  assumes "client_ok h" and "alloc_entity mk h = (r, h')"
  shows "client_ok h'" "heap h' r \<noteq> None" "r \<noteq> m_root h'" "m_root h' = m_root h"
proof -
  have ok: "hierarchy_ok h" "heap h (m_root h) \<noteq> None" using client_okD assms(1) by blast+
  have new: "hierarchy_ok h'" "r = next_ref h" "heap h' r \<noteq> None"
    using alloc_entity_ok [OF ok(1), of mk] assms(2) by auto
  have fresh: "r \<noteq> m_root h" using new(2) ok by (auto simp: hierarchy_ok_def)
  have frame: "hierarchy.more h' = hierarchy.more h" "m_proxies h' = m_proxies h" "heap h' (m_root h) = heap h (m_root h)"
    using assms(2) fresh by (auto simp: alloc_entity_def Let_def split: prod.splits)
  show root: "m_root h' = m_root h" using frame(1) by (rule root_of_more)
  show "client_ok h'"
    using assms(1) session_ok_more [OF client_okD(1) [OF assms(1)] new(1) frame(1)] frame root
    by (simp add: client_ok_def root_ok_def entity_test_def hierarchy_attached_def)
  show "heap h' r \<noteq> None" "r \<noteq> m_root h'" using new fresh root by simp_all
qed

lemma create_proxy_handler_ok:
  assumes "client_ok h"
  shows "client_ok (fst (create_proxy_entity_handler ft ind payload h))"
proof -
  have "client_ok (fst (create_proxy_entity_handler ft ind payload h))"
    if ed: "get_entity_field payload = Inr ed"
    and res: "client_create_proxy_entity ft ind payload ed h = (h1, res)" for ed h1 res
  proof (cases "\<exists>r. res = Inr (Some r)")
    case False
    then have "h1 = h \<or> (\<exists>c. h1 = h\<lparr>s_instance_id_counter := c\<rparr>)"
      using res by (auto simp: client_create_proxy_entity_def create_proxy_entity_def Let_def split: if_splits prod.splits sum.splits)
    moreover have "preserves h (h\<lparr>s_instance_id_counter := c\<rparr>)" for c
      by (simp add: preserves_def hierarchy_ok_def lookup_sound_def)
    ultimately have "client_ok h1" using assms client_ok_preserves by blast
    then show ?thesis
      using ed res False by (cases res) (auto simp: create_proxy_entity_handler_def add_proxy_entity_def split: option.split)
  next
    case True
    then obtain r where r: "res = Inr (Some r)" by blast
    then obtain mk where mk: "alloc_entity mk h = (r, h1)"
      using res by (auto simp: client_create_proxy_entity_def create_proxy_entity_def Let_def split: if_splits prod.splits sum.splits)
    note new = alloc_client_ok [OF assms mk]
    obtain h2 err where h2: "add_proxy_entity (client_virtuals ft) (Some r) h1 = (h2, err)" by fastforce
    then have "client_ok h2"
      using client_reaper.add_proxy_adopts [OF new(2), of ft] new client_ok_adopts client_ok_preserves
      by (cases err) auto
    then show ?thesis using ed res r h2 by (simp add: create_proxy_entity_handler_def)
  qed
  then show ?thesis
    using assms by (cases "get_entity_field payload"; cases "client_create_proxy_entity ft ind payload (projr (get_entity_field payload)) h")
      (auto simp: create_proxy_entity_handler_def)
qed

lemma update_proxy_handler_ok:
  assumes "client_ok h"
  shows "client_ok (fst (update_proxy_entity_handler ft payload path h))"
proof -
  have "preserves h (fst (update_proxy_entity (client_virtuals ft) r payload ed h))"
    if "client_find_entity h u = Some r" for r ed u
    using client_reaper.update_proxy_ok client_okD(2) [OF assms] client_find_heap that by blast
  then show ?thesis
    using assms client_ok_preserves
    by (fastforce simp: update_proxy_entity_handler_def client_update_proxy_entity_def split: sum.split option.split)
qed

lemma client_activate_ok:
  "client_ok h \<Longrightarrow> client_ok (fst (client_activate_entity ft entity sendtype reply_to h))"
  by (rule client_ok_preserves [OF client_activate_preserves])

lemma root_add_child_ok: "client_ok h \<Longrightarrow> heap h r \<noteq> None \<Longrightarrow> client_ok (root_add_child ft r auto_activate h)"
  unfolding root_add_child_def
  by (rule client_ok_preserves, rule client_reaper.add_child_ok)
     (auto intro: client_reaper.set_parent_ok dest: client_okD(3))

lemma client_factory_create_ok:
  assumes "client_ok h" and "factory_create_entity construct factory path name h = (h1, res)"
  shows "client_ok h1" and "res = Some r \<Longrightarrow> heap h1 r \<noteq> None"
proof -
  have upd: "preserves g (upd_entity factory (\<lambda>e. e\<lparr>m_owned_entities := m_owned_entities e @ [c]\<rparr>) g)" for g :: client and c
    by (rule preserves_upd) auto
  consider "h1 = h" "res = None"
    | mk c g where "alloc_entity mk h = (c, g)" "res = Some c"
        "h1 = upd_entity factory (\<lambda>e. e\<lparr>m_owned_entities := m_owned_entities e @ [c]\<rparr>) g"
    using assms(2) by (auto simp: factory_create_entity_def split: option.splits prod.splits)
  then have "client_ok h1 \<and> (res = Some r \<longrightarrow> heap h1 r \<noteq> None)" for r
  proof cases
    case 1 then show ?thesis using assms(1) by simp
  next
    case (2 mk c g)
    then show ?thesis using alloc_client_ok [OF assms(1) 2(1)] client_ok_preserves [OF upd] by auto
  qed
  then show "client_ok h1" "res = Some r \<Longrightarrow> heap h1 r \<noteq> None" by blast+
qed

lemma factory_create_handler_ok:
  assumes "client_ok h"
  shows "client_ok (fst (client_factory_create_handler ft construct creatable name request_id h))"
proof -
  show ?thesis
    using assms client_factory_create_ok [OF assms] root_add_child_ok
    by (fastforce simp: client_factory_create_handler_def intro!: client_activate_ok root_add_child_ok
        split: sum.split option.split prod.split)
qed

lemma client_create_entity_ok:
  assumes "client_ok h"
  shows "client_ok (fst (client_create_entity ft construct path name sendtype h))"
  using assms client_factory_create_ok [OF assms]
  by (fastforce simp: client_create_entity_def intro!: root_add_child_ok split: sum.split option.split prod.split)

lemma client_hierarchy_receive_ok:
  "client_ok h \<Longrightarrow> client_ok (fst (client_hierarchy_on_receive_msg ft construct ind msg h))"
  by (simp add: client_hierarchy_on_receive_msg_def client_leave_handler_def client_destroy_entity_handler_def
      client_remove_found create_proxy_handler_ok update_proxy_handler_ok factory_create_handler_ok
      split: message_content.split)

text \<open>
  The callbacks of requests. An entity is registered before its activation is requested, and no operation
  detaches one again (\<open>activation_registers\<close>, \<open>preserves_attached\<close>).
\<close>

lemma activation_registers:
  assumes "heap h r = Some e" and "\<not> uri_is_empty (m_parent e)" and "\<not> is_activated e"
  shows "hierarchy_attached (fst (client_activate_entity ft (Some r) sendtype reply_to h)) r"
proof -
  have "hierarchy_attached (register_entity r h) r"
    using assms(1) by (auto simp: hierarchy_attached_def entity_test_def register_entity_def)
  then show ?thesis
    using assms preserves_attached [OF outbox_step_frame(1) [OF outbox_step_announce]]
    by (simp add: client_activate_entity_def base_activate_entity_def Let_def)
qed

lemma child_entities_found:
  assumes "c \<in> set (get_child_entities V n h r inc rec flt)" and "c \<noteq> r"
  shows "\<exists>u. v_find_entity V h u = Some c"
  using assms
proof (induction n arbitrary: r inc)
  case 0
  then show ?case by (auto simp: base_child_entities_def split: if_splits)
next
  case (Suc n)
  have base: "c = d" if "c \<in> set (base_child_entities h d i flt)" for d i
    using that by (auto simp: base_child_entities_def split: if_splits)
  have found: "\<exists>u. v_find_entity V h u = Some d" if "get_child_by_URI V h r p = Some d" for d p
    using that by (auto simp: get_child_by_URI_def split: if_splits)
  from Suc.prems consider d p where "get_child_by_URI V h r p = Some d" "c \<in> set (get_child_entities V n h d True rec flt)"
    | d p where "get_child_by_URI V h r p = Some d" "c \<in> set (base_child_entities h d True flt)"
    by (auto dest: base split: option.splits if_splits) (metis that)+
  then show ?case
  proof cases
    case (1 d p) then show ?thesis using Suc.IH [of d True] found [of p d] by (cases "c = d") auto
  next
    case (2 d p) then show ?thesis using base found by blast
  qed
qed

lemma children_attached:
  assumes "client_ok h" and "hierarchy_attached h r" and "c \<in> set (entity_and_children h r)"
  shows "hierarchy_attached h c"
proof (cases "c = r")
  case False
  then obtain u where "client_find_entity h u = Some c"
    using child_entities_found assms(3) unfolding entity_and_children_def by fastforce
  then show ?thesis
    using client_okD(6) [OF assms(1)] lookup_uri [OF client_okD(2) [OF assms(1)]]
    by (auto simp: client_find_entity_def find_entity_def split: if_splits)
qed (use assms(2) in simp)

lemma entity_and_children_virtuals:
  "get_child_entities (client_virtuals ft) n h r inc rec flt = get_child_entities client_queries n h r inc rec flt"
proof -
  have "get_child_by_URI (client_virtuals ft) h = get_child_by_URI client_queries h"
    by (intro ext) (simp add: get_child_by_URI_def)
  then show ?thesis
    by (induction n arbitrary: r inc) (simp_all cong del: if_weak_cong option.case_cong_weak)
qed

lemma activate_complete_preserves:
  assumes "client_ok h" and "hierarchy_attached h r"
  shows "preserves h (activate_entity_complete (client_virtuals ft) r h)"
proof -
  have "preserves h (fold (\<lambda>c h. entity_enqueue_activation c (upd_entity c set_activating (add_entity_to_lookup c h))) cs h)"
    if "\<forall>c\<in>set cs. hierarchy_attached h c" for cs
    using that
  proof (induction cs arbitrary: h)
    case (Cons c cs)
    have p: "preserves h (entity_enqueue_activation c (upd_entity c set_activating (add_entity_to_lookup c h)))" (is "preserves h ?h1")
      using Cons.prems
      by (intro preserves_trans [OF preserves_add_lookup preserves_trans [OF preserves_status(4) preserves_enqueue(1)]]) simp
    moreover have "preserves ?h1 (fold (\<lambda>c h. entity_enqueue_activation c (upd_entity c set_activating (add_entity_to_lookup c h))) cs ?h1)"
      using Cons.prems preserves_attached [OF p] by (intro Cons.IH) auto
    ultimately show ?case by (auto intro: preserves_trans)
  qed simp
  then show ?thesis
    using children_attached [OF assms] unfolding activate_entity_complete_def entity_and_children_def
    by (simp add: entity_and_children_virtuals)
qed

lemma preserves_session_register: "preserves h (session_register_entity V r h)"
  unfolding session_register_entity_def
  by (rule preserves_fold) (rule preserves_upd; simp add: attach_session_def)

lemma preserves_init_plug: "preserves h (fst (init_arriving_plug draft r h))"
proof -
  have "preserves h (upd_entity r (set_can_fire b) h)" "preserves h (upd_entity r (set_graph_transport t) h)" for b t h
    by (rule preserves_upd; simp add: set_can_fire_def set_graph_transport_def identity_def)+
  moreover from this have
    "preserves h (upd_entity r (set_graph_transport t) (upd_entity r (set_can_fire b) h))" for b t h
    by (blast intro: preserves_trans)
  ultimately show ?thesis
    by (auto simp: init_arriving_plug_def Let_def split: option.split sum.split)
qed

lemma preserves_init_plugs: "preserves h (fst (init_arriving_plugs draft rs h))"
proof (induction draft rs h rule: init_arriving_plugs.induct)
  case (2 draft r rs h)
  obtain h1 err where h1: "init_arriving_plug draft r h = (h1, err)" by fastforce
  then have "preserves h h1" using preserves_init_plug [of h draft r] by simp
  then show ?case using 2 h1 by (cases err) (auto intro: preserves_trans)
qed simp

lemma preserves_arriving: "preserves h (fst (client_on_entity_arriving draft r h))"
  by (simp add: client_on_entity_arriving_def preserves_init_plugs)

lemma preserves_arrivals: "preserves h (fst (announce_arrivals ft draft cs h))"
proof (induction ft draft cs h rule: announce_arrivals.induct)
  case (2 ft draft c cs h)
  obtain h1 err where h1: "client_on_entity_arriving draft c (session_register_entity (client_virtuals ft) c h) = (h1, err)"
    by fastforce
  then have "preserves h h1"
    using preserves_trans [OF preserves_session_register preserves_arriving [of _ draft c]] by (metis fst_conv)
  then show ?case using 2 h1 by (cases err) (auto intro: preserves_trans)
qed simp

lemma client_activated_preserves:
  assumes "client_ok h" and "hierarchy_attached h r"
  shows "preserves h (fst (client_activate_entity_complete ft draft r h))"
  using preserves_trans [OF activate_complete_preserves [OF assms] preserves_arrivals]
  by (simp add: client_activate_entity_complete_def Let_def)

text \<open>\<open>action_ready\<close>: the entity whose activation is answered is attached.\<close>

definition action_ready :: "client_action \<Rightarrow> client \<Rightarrow> bool" where
  "action_ready action h \<longleftrightarrow> (case action of CL_EntityActivated r _ \<Rightarrow> hierarchy_attached h r | _ \<Rightarrow> True)"

lemma client_hierarchy_response_ok:
  assumes "client_ok h" and "action_ready action h"
  shows "client_ok (fst (client_hierarchy_on_response ft draft action response h))"
proof -
  have act: "client_ok h1" if "client_activate_entity_complete ft draft r h = (h1, err)" "action = CL_EntityActivated r i"
    for r i h1 err
    using client_ok_preserves [OF client_activated_preserves [of h r ft draft] assms(1)] assms that
    by (simp add: action_ready_def)
  have created: "preserves h (factory_created_event factory created h)" for factory created
    unfolding factory_created_event_def by (rule preserves_trans [OF preserves_upd preserves_notify]) auto
  have destroyed: "client_ok (client_destroy_entity_complete (client_virtuals ft) (Some r) h)" if "heap h r \<noteq> None" for r
    using that by (intro client_ok_preserves [OF client_destroy_preserves assms(1)]) simp
  show ?thesis
    using assms(1) act client_ok_preserves [OF created assms(1)] destroyed
    by (cases action) (auto simp: hierarchy_response_defs split: option.split prod.split message_content.split)
qed

end
