(* ===== verification/Zst_Client_Session.thy ===== *)
theory Zst_Client_Session
  imports Zst_Client_Hierarchy
begin

text \<open>
  The session of a client: \<open>ZstClientSession\<close> (\<open>src/src/client/ZstClientSession.cpp\<close>), the values plugs
  send each other over the graph transports (\<open>ZstOutputPlug::fire\<close> in \<open>src/src/core/entities/ZstPlug.cpp\<close>
  and the handler of \<open>ZstPerformanceMessage\<close>), and the processing of the events of hierarchy and session.
  Requests and blocking calls are treated as in \<open>Zst_Client_Hierarchy\<close>.
\<close>

section \<open>Messages of the stage\<close>

definition cable_create_handler :: "CableData \<Rightarrow> client \<Rightarrow> client" where
  "cable_create_handler cable h =
     (let address = address_deserialize (Some cable) address_empty;
          input = find_as is_input_plug client_queries h (m_input_URI address);
          output = find_as is_output_plug client_queries h (m_output_URI address)
      in fst (create_cable input output h))"

definition cable_destroy_handler :: "float_text \<Rightarrow> CableData \<Rightarrow> client \<Rightarrow> client" where
  "cable_destroy_handler ft cable h =
     destroy_cable_complete (client_virtuals ft)
       (find_cable h (address_deserialize (Some cable) address_empty)) h"

text \<open>\<open>default_last\<close> is the order of the adaptors of an output plug, as for \<open>entity_set_owner\<close>.\<close>

definition client_ownership_handler :: "float_text \<Rightarrow> bool \<Rightarrow> string \<Rightarrow> string \<Rightarrow> client \<Rightarrow> client" where
  "client_ownership_handler ft default_last path new_owner h =
     (case client_find_entity h (string_uri path) of
        None \<Rightarrow> h
      | Some r \<Rightarrow>
          fold (\<lambda>c. entity_set_owner (client_virtuals ft) default_last c (string_uri new_owner))
            (entity_and_children h r) h)"

definition client_session_on_receive_msg ::
  "float_text \<Rightarrow> bool \<Rightarrow> ZstStageMessage \<Rightarrow> client \<Rightarrow> client" where
  "client_session_on_receive_msg ft default_last msg h =
     (case m_buffer msg of
        Content_CableCreateRequest cable \<Rightarrow> cable_create_handler cable h
      | Content_CableDestroyRequest cable \<Rightarrow> cable_destroy_handler ft cable h
      | Content_EntityTakeOwnershipRequest path new_owner \<Rightarrow> client_ownership_handler ft default_last path new_owner h
      | _ \<Rightarrow> h)"

section \<open>Values\<close>

definition plug_set_value :: "ZstValue \<Rightarrow> entity \<Rightarrow> entity" where
  "plug_set_value v e = e\<lparr>m_value := v\<rparr>"

definition defer_compute :: "compute_event \<Rightarrow> client \<Rightarrow> client" where
  "defer_compute ev h = h\<lparr>m_compute_events := defer_event ev (m_compute_events h)\<rparr>"

definition plug_received_value :: "ref \<Rightarrow> client \<Rightarrow> client outcome" where
  "plug_received_value plug h =
     (case entity_parent client_queries h plug of
        None \<Rightarrow> (h, Some RuntimeError)
      | Some parent \<Rightarrow>
          if \<not> entity_test is_component h parent then (h, Some RuntimeError)
          else (defer_compute (CV_Compute parent (uri_at h plug)) h, None))"

text \<open>\<open>copy\<close> or \<open>deserialize\<close> of the value of a plug that receives one, and the event that follows.\<close>

definition plug_take_value :: "(ZstValue \<Rightarrow> zst_exn + ZstValue) \<Rightarrow> ref \<Rightarrow> client \<Rightarrow> client outcome" where
  "plug_take_value take_value plug h =
     (case heap h plug of
        None \<Rightarrow> (h, Some UndefinedBehaviour)
      | Some e \<Rightarrow>
          (case take_value (m_value e) of
             Inl x \<Rightarrow> (h, Some x)
           | Inr v \<Rightarrow> plug_received_value plug (upd_entity plug (plug_set_value v) h)))"

text \<open>
  The loop over the cables of a sending plug; \<open>receiver\<close> is the test of the receiving plug, \<open>None\<close> for one
  that is passed over. A cable that is gone, or whose plug is, is a dangling pointer.
\<close>

fun deliver_value ::
  "(client \<Rightarrow> ref option \<Rightarrow> zst_exn + ref option) \<Rightarrow> (ZstValue \<Rightarrow> zst_exn + ZstValue) \<Rightarrow> cable_ref list \<Rightarrow> client \<Rightarrow>
   client outcome" where
  "deliver_value receiver take_value [] h = (h, None)"
| "deliver_value receiver take_value (c # cs) h =
     (case cable_at h c of
        None \<Rightarrow> (h, Some UndefinedBehaviour)
      | Some k \<Rightarrow>
          (case receiver h (m_input k) of
             Inl x \<Rightarrow> (h, Some x)
           | Inr None \<Rightarrow> deliver_value receiver take_value cs h
           | Inr (Some plug) \<Rightarrow>
               (case plug_take_value take_value plug h of
                  (h1, Some x) \<Rightarrow> (h1, Some x)
                | (h1, None) \<Rightarrow> deliver_value receiver take_value cs h1)))"

definition is_local_plug :: "client \<Rightarrow> ref option \<Rightarrow> zst_exn + ref option" where
  "is_local_plug h receiving =
     (case receiving of
        None \<Rightarrow> Inr None
      | Some plug \<Rightarrow>
          if heap h plug = None then Inl UndefinedBehaviour
          else Inr (if entity_test m_is_proxy h plug then None else Some plug))"

text \<open>\<open>on_receive_msg\<close> of a message of another client: the value of a proxy is kept, too.\<close>

definition client_session_on_graph_msg :: "graph_message \<Rightarrow> client \<Rightarrow> client outcome" where
  "client_session_on_graph_msg msg h =
     (if gm_value msg = None then (h, Some NullDereference)
      else if gm_value msg = Some PV_PlugHandshake then (h, None)
      else case find_as is_output_plug client_queries h (string_uri (gm_sender msg)) of
             None \<Rightarrow> (h, None)
           | Some plug \<Rightarrow>
               (case heap h plug of
                  None \<Rightarrow> (h, None)
                | Some e \<Rightarrow>
                    let bundle = plug_child_cables h e []
                    in if \<not> m_is_proxy e then deliver_value is_local_plug (value_deserialize (gm_value msg)) bundle h
                       else (case value_deserialize (gm_value msg) (m_value e) of
                               Inl x \<Rightarrow> (h, Some x)
                             | Inr v \<Rightarrow>
                                 deliver_value is_local_plug (value_deserialize (gm_value msg)) bundle
                                   (entity_sync_op announce_update plug (upd_entity plug (plug_set_value v) h)))))"

text \<open>
  \<open>fire\<close>: plugs of the same performer receive the value directly, then it is published. The test before the
  publication, that there are not more local cables than cables, always holds.
\<close>

definition same_performer :: "ref \<Rightarrow> client \<Rightarrow> ref option \<Rightarrow> zst_exn + ref option" where
  "same_performer sender h receiving =
     (case receiving of
        None \<Rightarrow> Inl NullDereference
      | Some plug \<Rightarrow>
          if heap h plug = None then Inl UndefinedBehaviour
          else (case (uri_first (uri_at h plug), uri_first (uri_at h sender)) of
                  (Inl x, _) \<Rightarrow> Inl x
                | (_, Inl x) \<Rightarrow> Inl x
                | (Inr a, Inr b) \<Rightarrow> Inr (if uri_equal a b then Some plug else None)))"

definition publish_value :: "float_text \<Rightarrow> ref \<Rightarrow> client \<Rightarrow> client outcome" where
  "publish_value ft plug h =
     (case heap h plug of
        None \<Rightarrow> (h, Some UndefinedBehaviour)
      | Some e \<Rightarrow>
          (case value_serialize ft (m_value e) of
             Inl x \<Rightarrow> (h, Some x)
           | Inr v \<Rightarrow>
               (h\<lparr>m_graph_outbox := m_graph_outbox h @
                    map (\<lambda>_. \<lparr>gm_sender = uri_path (m_uri e), gm_value = v\<rparr>) (m_graph_adaptors e)\<rparr>, None)))"

definition output_plug_fire :: "float_text \<Rightarrow> ref \<Rightarrow> client \<Rightarrow> client outcome" where
  "output_plug_fire ft plug h =
     (case heap h plug of
        None \<Rightarrow> (h, Some UndefinedBehaviour)
      | Some e \<Rightarrow>
          if \<not> m_can_fire e then (h, None)
          else case deliver_value (same_performer plug) (\<lambda>v. Inr (value_copy (m_value e) v)) (plug_child_cables h e []) h of
                 (h1, Some x) \<Rightarrow> (h1, Some x)
               | (h1, None) \<Rightarrow>
                   (case publish_value ft plug h1 of
                      (h2, Some x) \<Rightarrow> (h2, Some x)
                    | (h2, None) \<Rightarrow> (upd_entity plug (\<lambda>e. plug_set_value (value_clear (m_value e)) e) h2, None)))"

section \<open>Requests\<close>

text \<open>The addresses of cable requests are the paths of the plugs of the cable at the time of the call.\<close>

definition cable_plug_paths :: "client \<Rightarrow> ZstCable \<Rightarrow> CableData option" where
  "cable_plug_paths h k =
     (case (m_input k, m_output k) of
        (Some i, Some out) \<Rightarrow>
          if heap h i = None \<or> heap h out = None then None
          else Some \<lparr>cable_input_URI = uri_path (uri_at h i), cable_output_URI = uri_path (uri_at h out)\<rparr>
      | _ \<Rightarrow> None)"

definition send_cable_request ::
  "(CableData \<Rightarrow> message_content) \<Rightarrow> client_action \<Rightarrow> ZstTransportRequestBehaviour \<Rightarrow> cable_ref \<Rightarrow> client \<Rightarrow>
   client outcome" where
  "send_cable_request content action sendtype c h =
     (case Option.bind (cable_at h c) (cable_plug_paths h) of
        None \<Rightarrow> (h, Some UndefinedBehaviour)
      | Some cable \<Rightarrow>
          (client_send (content cable)
             (transport_args\<lparr>msg_send_behaviour := sendtype, on_recv_response := RA_Client action\<rparr>) h, None))"

definition client_connect_cable ::
  "ref option \<Rightarrow> ref option \<Rightarrow> ZstTransportRequestBehaviour \<Rightarrow> client \<Rightarrow>
   client \<times> (zst_exn + cable_ref option)" where
  "client_connect_cable input output sendtype h =
     (case connect_cable input output h of
        (h1, None) \<Rightarrow> (h1, Inr None)
      | (h1, Some c) \<Rightarrow>
          (case send_cable_request Content_CableCreateRequest (CL_CableConnected c) sendtype c h1 of
             (h2, Some e) \<Rightarrow> (h2, Inl e)
           | (h2, None) \<Rightarrow> (h2, Inr (Some c))))"

definition client_destroy_cable :: "cable_ref option \<Rightarrow> ZstTransportRequestBehaviour \<Rightarrow> client \<Rightarrow> client outcome" where
  "client_destroy_cable cable sendtype h =
     (case cable of
        None \<Rightarrow> (h, None)
      | Some c \<Rightarrow> send_cable_request Content_CableDestroyRequest (CL_CableDestroyed c) sendtype c h)"

definition client_observe_entity ::
  "ref \<Rightarrow> ZstTransportRequestBehaviour \<Rightarrow> client \<Rightarrow> client \<times> (zst_exn + bool)" where
  "client_observe_entity r sendtype h =
     (if heap h r = None then (h, Inl UndefinedBehaviour)
      else case observe_entity h r of
             Inl e \<Rightarrow> (h, Inl e)
           | Inr False \<Rightarrow> (h, Inr False)
           | Inr True \<Rightarrow>
               (client_send (Content_EntityObserveRequest (uri_path (uri_at h r)))
                  (transport_args\<lparr>msg_send_behaviour := sendtype, on_recv_response := RA_Client (CL_EntityObserved r)\<rparr>) h,
                Inr True))"

definition send_ownership_request :: "ref \<Rightarrow> string \<Rightarrow> client \<Rightarrow> client" where
  "send_ownership_request r owner h =
     client_send (Content_EntityTakeOwnershipRequest (uri_path (uri_at h r)) owner)
       (transport_args\<lparr>msg_send_behaviour := ASYNC_REPLY, on_recv_response := RA_Client CL_OwnershipAcknowledged\<rparr>) h"

definition aquire_entity_ownership :: "ref \<Rightarrow> client \<Rightarrow> client" where
  "aquire_entity_ownership r h = send_ownership_request r (uri_path (root_uri h)) h"

definition release_entity_ownership :: "ref \<Rightarrow> client \<Rightarrow> client" where
  "release_entity_ownership r h = send_ownership_request r '''' h"

text \<open>
  The callbacks. The cable of a callback may have been deleted meanwhile; the messages of the log read its
  address, and the path of an observed entity, whatever the response is.
\<close>

definition connect_cable_complete :: "cable_ref \<Rightarrow> ZstStageMessage option \<Rightarrow> client \<Rightarrow> client outcome" where
  "connect_cable_complete c response h =
     (if cable_at h c = None then (h, Some UndefinedBehaviour)
      else if \<not> verify_signal response Signal_OK then (h, None)
      else (cable_enqueue_activation c h, None))"

definition client_destroy_cable_complete ::
  "float_text \<Rightarrow> cable_ref \<Rightarrow> ZstStageMessage option \<Rightarrow> client \<Rightarrow> client outcome" where
  "client_destroy_cable_complete ft c response h =
     (if \<not> verify_signal response Signal_OK then (h, None)
      else if cable_at h c = None then (h, Some UndefinedBehaviour)
      else (destroy_cable_complete (client_virtuals ft) (Some c) h, None))"

definition observe_entity_complete :: "ref \<Rightarrow> client \<Rightarrow> client outcome" where
  "observe_entity_complete r h = (h, if heap h r = None then Some UndefinedBehaviour else None)"

definition client_session_on_response ::
  "float_text \<Rightarrow> client_action \<Rightarrow> ZstStageMessage option \<Rightarrow> client \<Rightarrow> client outcome" where
  "client_session_on_response ft action response h =
     (case action of
        CL_CableConnected c \<Rightarrow> connect_cable_complete c response h
      | CL_CableDestroyed c \<Rightarrow> client_destroy_cable_complete ft c response h
      | CL_EntityObserved r \<Rightarrow> observe_entity_complete r h
      | _ \<Rightarrow> (h, None))"

lemmas session_response_defs =
  client_session_on_response_def connect_cable_complete_def client_destroy_cable_complete_def observe_entity_complete_def

section \<open>Events\<close>

text \<open>The adaptors of the hierarchy events are the hierarchy, the session and \<open>ZstClient\<close>.\<close>

fun run_client_hierarchy_event ::
  "float_text \<Rightarrow> bool \<Rightarrow> hierarchy_event \<Rightarrow> adaptor \<Rightarrow> client \<Rightarrow> client \<times> bool" where
  "run_client_hierarchy_event ft draft_api (HE_PerformerArriving r) SessionModule h =
     (session_register_entity (client_virtuals ft) r h, True)"
| "run_client_hierarchy_event ft draft_api (HE_EntityArriving r) SessionModule h =
     (session_register_entity (client_virtuals ft) r h, True)"
| "run_client_hierarchy_event ft draft_api (HE_PerformerLeaving path) SessionModule h =
     (remove_connected_performer path h, True)"
| "run_client_hierarchy_event ft draft_api (HE_PerformerArriving r) ClientModule h =
     (case client_on_entity_arriving draft_api r h of (h1, err) \<Rightarrow> (h1, err = None))"
| "run_client_hierarchy_event ft draft_api (HE_EntityArriving r) ClientModule h =
     (case client_on_entity_arriving draft_api r h of (h1, err) \<Rightarrow> (h1, err = None))"
| "run_client_hierarchy_event ft draft_api _ _ h = (h, True)"

definition upd_client_hierarchy_events ::
  "((adaptor, hierarchy_event) dispatcher \<Rightarrow> (adaptor, hierarchy_event) dispatcher) \<Rightarrow> client \<Rightarrow> client" where
  "upd_client_hierarchy_events f h = h\<lparr>m_hierarchy_events := f (m_hierarchy_events h)\<rparr>"

text \<open>Nothing is deferred to \<open>stage_events\<close>, which the modules drain last.\<close>

definition client_hierarchy_process_events :: "float_text \<Rightarrow> bool \<Rightarrow> nat \<Rightarrow> client \<Rightarrow> client option" where
  "client_hierarchy_process_events ft draft_api n h =
     Option.bind
       (process_events m_hierarchy_events upd_client_hierarchy_events (\<lambda>_. True)
          (run_client_hierarchy_event ft draft_api) (\<lambda>_ _ h. h) n h)
       (hierarchy_process_sync_events (client_virtuals ft) n)"

definition client_session_process_events ::
  "float_text \<Rightarrow> bool \<Rightarrow> (ref \<Rightarrow> ref \<Rightarrow> client \<Rightarrow> client) \<Rightarrow> nat \<Rightarrow> client \<Rightarrow> client option" where
  "client_session_process_events ft draft_api compute n h =
     Option.bind (client_hierarchy_process_events ft draft_api n h) (\<lambda>h.
     Option.bind (session_process_own_events (client_virtuals ft) compute n h)
       (session_process_sync_events (client_virtuals ft) n))"

section \<open>The invariant\<close>

interpretation client_session: session_module "client_virtuals ft"
  by unfold_locales

lemma root_ok_frame:
  "m_root h' = m_root h \<Longrightarrow> heap h' = heap h \<Longrightarrow> m_proxies h' = m_proxies h \<Longrightarrow> root_ok h' = root_ok h"
  by (simp add: root_ok_def entity_test_def hierarchy_attached_def)

lemma root_ok_fields [simp]:
  "root_ok (h\<lparr>m_cables := ks\<rparr>) = root_ok h" "root_ok (h\<lparr>next_cable := c\<rparr>) = root_ok h"
  "root_ok (h\<lparr>m_session_events := d1\<rparr>) = root_ok h" "root_ok (h\<lparr>m_compute_events := d2\<rparr>) = root_ok h"
  "root_ok (h\<lparr>s_module := m\<rparr>) = root_ok h" "root_ok (h\<lparr>s_instance_id_counter := i\<rparr>) = root_ok h"
  "root_ok (h\<lparr>m_connected_performers := us\<rparr>) = root_ok h"
  "root_ok (h\<lparr>m_graph_outbox := ms\<rparr>) = root_ok h"
  by (rule root_ok_frame; simp)+

lemma root_ok_upd:
  assumes "\<And>e. m_uri (f e) = m_uri e" and "\<And>e. m_hierarchy_adaptors (f e) = m_hierarchy_adaptors e"
    and "\<And>e. identity (f e) = identity e"
  shows "root_ok h \<Longrightarrow> root_ok (upd_entity r f h)"
proof -
  have "preserves h (upd_entity r f h)" using assms by (intro preserves_upd) auto
  then have "same_objects h (upd_entity r f h)" "m_proxies (upd_entity r f h) = m_proxies h"
    by (simp_all add: preserves_def)
  moreover have "m_root (upd_entity r f h) = m_root h" by (simp add: upd_entity_def)
  ultimately show "root_ok h \<Longrightarrow> root_ok (upd_entity r f h)"
    using performer_same [of h "upd_entity r f h"] by (auto simp: root_ok_def same_objects_def)
qed

lemma root_ok_plugs [simp]:
  "root_ok h \<Longrightarrow> root_ok (upd_entity r (plug_add_cable a) h)" "root_ok h \<Longrightarrow> root_ok (plug_forget p a h)"
  by (auto simp: plug_forget_def plug_add_cable_def plug_remove_cable_def intro!: root_ok_upd split: option.split)

lemma root_ok_cable [simp]:
  "root_ok (upd_cable c g h) = root_ok h" "root_ok (reap_cable c h) = root_ok h" "root_ok (session_defer e h) = root_ok h"
  "root_ok (cable_sync_op f c h) = root_ok h" "root_ok (cable_enqueue_activation c h) = root_ok h"
  "root_ok (session_on_synchronisable_destroyed (CableRef c) b h) = root_ok h"
  by (simp_all add: upd_cable_def reap_cable_def session_defer_def cable_sync_op_def cable_enqueue_activation_def
      session_on_synchronisable_destroyed_def Let_def split: option.split prod.split)

lemma root_ok_create: "root_ok h \<Longrightarrow> root_ok (fst (create_cable i out h))"
  by (simp add: create_cable_def add_new_cable_def Let_def split: option.split prod.split)

lemma root_ok_destroy: "root_ok h \<Longrightarrow> root_ok (destroy_cable_complete V c h)"
  by (simp add: destroy_cable_complete_def cable_enqueue_deactivation_def Let_def split: option.split)

lemma client_ok_create_cable: "client_ok h \<Longrightarrow> client_ok (fst (create_cable ip op h))"
  using create_cable_session_ok [of h]
  by (cases ip; cases op) (simp_all add: client_ok_def root_ok_create, simp_all add: create_cable_def)

lemma destroy_client_ok: "client_ok h \<Longrightarrow> client_ok (destroy_cable_complete V c h)"
  by (simp add: client_ok_def root_ok_destroy destroy_complete_session_ok)

lemma client_ok_upd:
  assumes "\<And>e. m_uri (f e) = m_uri e" and "\<And>e. m_hierarchy_adaptors (f e) = m_hierarchy_adaptors e"
    and "\<And>e. identity (f e) = identity e"
  shows "client_ok h \<Longrightarrow> client_ok (upd_entity r f h)"
  by (rule client_ok_preserves [OF preserves_upd]) (simp_all add: assms)

lemma client_ok_queue [simp]:
  "client_ok (h\<lparr>m_compute_events := d\<rparr>) = client_ok h" "client_ok (h\<lparr>m_session_events := d'\<rparr>) = client_ok h"
  "client_ok (h\<lparr>m_connected_performers := us\<rparr>) = client_ok h" "client_ok (h\<lparr>m_graph_outbox := ms\<rparr>) = client_ok h"
proof -
  have "session_ok (h\<lparr>m_compute_events := d\<rparr>) = session_ok h" "session_ok (h\<lparr>m_session_events := d'\<rparr>) = session_ok h"
    "session_ok (h\<lparr>m_connected_performers := us\<rparr>) = session_ok h" "session_ok (h\<lparr>m_graph_outbox := ms\<rparr>) = session_ok h"
    by (simp_all add: session_ok_def hierarchy_ok_def lookup_sound_def cables_ok_def reap_items_def)
  then show "client_ok (h\<lparr>m_compute_events := d\<rparr>) = client_ok h" "client_ok (h\<lparr>m_session_events := d'\<rparr>) = client_ok h"
    "client_ok (h\<lparr>m_connected_performers := us\<rparr>) = client_ok h" "client_ok (h\<lparr>m_graph_outbox := ms\<rparr>) = client_ok h"
    by (simp_all only: client_ok_def root_ok_fields)
qed

lemma cable_create_handler_ok: "client_ok h \<Longrightarrow> client_ok (cable_create_handler cable h)"
  by (simp add: cable_create_handler_def Let_def client_ok_create_cable)

lemma ownership_handler_ok: "client_ok h \<Longrightarrow> client_ok (client_ownership_handler ft b path owner h)"
proof -
  have "preserves g (entity_set_owner (client_virtuals ft) b c u g)" for c u and g :: client
  proof -
    have "preserves g (upd_entity c (\<lambda>e. e\<lparr>m_current_owner := u\<rparr>) g)" "preserves g' (upd_entity c (set_can_fire x) g')"
      for g' :: client and x
      by (rule preserves_upd; simp add: set_can_fire_def identity_def)+
    then show ?thesis by (auto simp: entity_set_owner_def Let_def intro: preserves_trans)
  qed
  then have "preserves h (client_ownership_handler ft b path owner h)"
    by (auto simp: client_ownership_handler_def intro!: preserves_fold split: option.split)
  then show "client_ok h \<Longrightarrow> client_ok (client_ownership_handler ft b path owner h)" by (rule client_ok_preserves)
qed

lemma client_session_receive_ok: "client_ok h \<Longrightarrow> client_ok (client_session_on_receive_msg ft b msg h)"
  by (simp add: client_session_on_receive_msg_def cable_create_handler_ok cable_destroy_handler_def destroy_client_ok
      ownership_handler_ok split: message_content.split)

lemma set_value_ok: "client_ok h \<Longrightarrow> client_ok (upd_entity r (plug_set_value v) h)"
  by (rule client_ok_upd) (simp_all add: plug_set_value_def identity_def)

lemma take_value_ok: "client_ok h \<Longrightarrow> client_ok (fst (plug_take_value f r h))"
  by (simp add: plug_take_value_def plug_received_value_def defer_compute_def set_value_ok split: option.split sum.split)

lemma deliver_ok: "client_ok h \<Longrightarrow> client_ok (fst (deliver_value accepts f cs h))"
proof (induction accepts f cs h rule: deliver_value.induct)
  case (2 accepts f c cs h)
  have "client_ok h1" if "plug_take_value f plug h = (h1, err)" for plug h1 err
    using take_value_ok [OF 2(3), of f plug] that by simp
  with 2 show ?case by (auto split: option.split sum.split bool.split prod.split)
qed simp

lemma graph_msg_ok: "client_ok h \<Longrightarrow> client_ok (fst (client_session_on_graph_msg msg h))"
proof -
  assume ok: "client_ok h"
  have "client_ok (entity_sync_op announce_update r (upd_entity r (plug_set_value v) h))" for r v
    by (rule client_ok_preserves [OF preserves_sync_op set_value_ok [OF ok]])
       (simp_all add: announce_update_def sync_defer_def)
  with ok show ?thesis
    by (auto simp: client_session_on_graph_msg_def Let_def intro!: deliver_ok split: option.split sum.split)
qed

lemma fire_ok: "client_ok h \<Longrightarrow> client_ok (fst (output_plug_fire ft plug h))"
proof -
  assume ok: "client_ok h"
  have publish: "client_ok (fst (publish_value ft plug g))" if "client_ok g" for g
    using that by (simp add: publish_value_def split: option.split sum.split)
  have clear: "client_ok (upd_entity plug (\<lambda>e. plug_set_value (value_clear (m_value e)) e) g)" if "client_ok g" for g
    using that by (rule client_ok_upd [rotated 3]) (simp_all add: plug_set_value_def identity_def)
  show ?thesis
  proof (cases "heap h plug")
    case None
    then show ?thesis using ok by (simp add: output_plug_fire_def)
  next
    case (Some e)
    obtain h1 err where h1: "deliver_value (same_performer plug) (\<lambda>v. Inr (value_copy (m_value e) v)) (plug_child_cables h e []) h
        = (h1, err)" by fastforce
    obtain h2 err2 where h2: "publish_value ft plug h1 = (h2, err2)" by fastforce
    have ok1: "client_ok h1" using deliver_ok [OF ok] h1 by (metis fst_conv)
    then have "client_ok h2" using publish [OF ok1] h2 by simp
    then show ?thesis using Some ok ok1 h1 h2 clear by (cases err; cases err2) (simp_all add: output_plug_fire_def)
  qed
qed

text \<open>An object that is not one of the proxies survives the processing of the events of the hierarchy.\<close>

definition survives :: "ref \<Rightarrow> 'z hierarchy_scheme \<Rightarrow> 'z hierarchy_scheme \<Rightarrow> bool" where
  "survives c h h' \<longleftrightarrow>
     map_option identity (heap h' c) = map_option identity (heap h c) \<and>
     (hierarchy_attached h c \<longrightarrow> hierarchy_attached h' c) \<and> (c \<notin> set (m_proxies h) \<longrightarrow> c \<notin> set (m_proxies h'))"

lemma survives_trans: "survives c h g \<Longrightarrow> survives c g h' \<Longrightarrow> survives c h h'"
  by (simp add: survives_def)

lemma survives_refl [simp]: "survives c h h"
  by (simp add: survives_def)

lemma survives_preserves: "preserves h h' \<Longrightarrow> survives c h h'"
  by (simp add: survives_def preserves_def same_objects_def)

lemma survives_proxies:
  "set ps \<subseteq> set (m_proxies h) \<Longrightarrow> survives c h (h\<lparr>m_proxies := ps\<rparr>)"
  by (auto simp: survives_def hierarchy_attached_def entity_test_def)

context hierarchy_module
begin

lemma delete_entity_survives:
  assumes "c \<noteq> r"
  shows "survives c h (delete_entity V r h)"
proof -
  define h1 where "h1 = (if entity_test is_component h r
     then fold (entity_deactivate V) (get_child_entities V tree_depth h r False True ET_NONE) h else h)"
  define h2 where "h2 = dispatch_destroyed V r h1"
  have "preserves h h1" unfolding h1_def by (auto intro: preserves_fold entity_deactivate_ok)
  moreover have "preserves h1 h2" by (simp add: h2_def dispatch_destroyed_def sync_destroyed_ok)
  ultimately have "survives c h h2" by (intro survives_preserves) (rule preserves_trans)
  moreover have "survives c h2 (h2\<lparr>heap := (heap h2)(r := None)\<rparr>)"
    using assms by (simp add: survives_def hierarchy_attached_def entity_test_def)
  ultimately show ?thesis
    unfolding delete_entity_def Let_def h1_def [symmetric] h2_def [symmetric] by (rule survives_trans)
qed

lemma reap_entity_survives:
  assumes "c \<notin> set (m_proxies h)"
  shows "survives c h (reap_entity V ri h)"
proof -
  obtain r i where ri: "ri = (r, i)" by (cases ri)
  let ?h1 = "remove_entity_from_lookup (uri_at h r) h"
  let ?h2 = "?h1\<lparr>m_proxies := removeAll r (m_proxies ?h1)\<rparr>"
  have s1: "survives c h ?h1" by (rule survives_preserves) (rule preserves_remove_lookup)
  moreover have "survives c ?h1 ?h2" by (rule survives_proxies) auto
  ultimately have s2: "survives c h ?h2" by (rule survives_trans)
  have "survives c h (delete_entity V r ?h2)" if "r \<in> set (m_proxies h)"
    using that assms by (intro survives_trans [OF s2 delete_entity_survives]) auto
  then show ?thesis using s1 by (auto simp: reap_entity_def ri Let_def)
qed

lemma process_sync_survives:
  assumes "c \<notin> set (m_proxies h)" and "hierarchy_process_sync_events V n h = Some h'"
  shows "survives c h h'"
proof -
  let ?I = "\<lambda>g. survives c h g \<and> c \<notin> set (m_proxies g)"
  obtain h1 where h1: "process_events (\<lambda>h. m_module_events (h_module h)) upd_module_events (\<lambda>_. True)
      (run_module_event V) (\<lambda>_ _ h. h) n h = Some h1"
    and h': "h' = (reap_all V h1)\<lparr>h_module := (h_module (reap_all V h1))\<lparr>m_dead_syncronisable_IDS := {}\<rparr>\<rparr>"
    using assms(2) by (auto simp: hierarchy_process_sync_events_def Let_def split: option.splits)
  have keep: "?I g'" if "survives c g g'" "?I g" for g g'
    using that survives_trans [of c h g g'] by (simp add: survives_def)
  have md: "?I (g\<lparr>h_module := m\<rparr>)" if "?I g" for g m
    by (rule keep [OF survives_preserves [OF preserves_h_module] that])
  have "?I h1"
  proof (rule process_events_invariant [OF h1, where I = ?I])
    show "?I (upd_module_events f s)" if "?I s" for f s unfolding upd_module_events_def by (rule md [OF that])
    show "?I (fst (run_module_event V e a s))" if "?I s" for e a s
      unfolding run_module_event_def
      using keep [OF survives_preserves [OF entity_process_ok] that] that by simp
  qed (use assms(1) in auto)
  then have "?I (h1\<lparr>h_module := m\<rparr>)" for m by (rule md)
  then have "?I (reap_all V h1)"
    unfolding reap_all_def by (rule fold_invariant [where I = ?I]) (use keep reap_entity_survives in blast)
  then show ?thesis unfolding h' using md by blast
qed

end

lemma root_ok_survives:
  assumes "survives (m_root h) h h'" and "m_root h' = m_root h" and "root_ok h"
  shows "root_ok h'"
proof -
  obtain e where e: "heap h (m_root h) = Some e" "is_performer e"
    using assms(3) by (auto simp: root_ok_def entity_test_def split: option.splits)
  obtain e' where e': "heap h' (m_root h) = Some e'" "identity e' = identity e"
    using assms(1) e(1) by (cases "heap h' (m_root h)") (auto simp: survives_def)
  then have "m_class e' = m_class e" by (simp add: identity_def)
  then have "entity_test is_performer h' (m_root h)" using e e' by (simp add: entity_test_def is_performer_def)
  then show ?thesis using assms by (simp add: root_ok_def survives_def)
qed

lemma client_hierarchy_event_ok: "client_ok h \<Longrightarrow> client_ok (fst (run_client_hierarchy_event ft draft ev a h))"
proof -
  assume ok: "client_ok h"
  have "client_ok (session_register_entity (client_virtuals ft) r h)" for r
    by (rule client_ok_preserves [OF preserves_session_register ok])
  moreover have "client_ok g" if "client_on_entity_arriving draft r h = (g, err)" for r g err
    using client_ok_preserves [OF preserves_arriving [of h draft r] ok] that by simp
  moreover have "client_ok (remove_connected_performer path h)" for path
    using ok by (simp add: remove_connected_performer_def)
  ultimately show ?thesis using ok by (cases ev; cases a; simp split: prod.split)
qed

lemma client_hierarchy_process_ok:
  assumes "client_ok h" and "client_hierarchy_process_events ft draft n h = Some h'"
  shows "client_ok h'"
proof -
  obtain g where g: "process_events m_hierarchy_events upd_client_hierarchy_events (\<lambda>_. True)
        (run_client_hierarchy_event ft draft) (\<lambda>_ _ h. h) n h = Some g"
      "hierarchy_process_sync_events (client_virtuals ft) n g = Some h'"
    using assms(2) by (auto simp: client_hierarchy_process_events_def bind_eq_Some_conv)
  have upd: "client_ok (upd_client_hierarchy_events f t)" if "client_ok t" for f t
    unfolding upd_client_hierarchy_events_def by (rule client_ok_preserves [OF preserves_hierarchy_events that])
  have ok: "client_ok g"
    by (rule process_events_invariant [OF g(1), where I = client_ok])
       (fact assms(1), erule upd, erule client_hierarchy_event_ok, assumption)
  have more: "hierarchy.more h' = hierarchy.more g" by (rule client_reaper.process_sync_more [OF g(2)])
  have "hierarchy_ok h'" by (rule client_reaper.process_sync_ok(1) [OF client_okD(2) [OF ok] client_okD(5) [OF ok] g(2)])
  then have "session_ok h'" by (rule session_ok_more [OF client_okD(1) [OF ok] _ more])
  moreover have "root_ok h'"
  proof (rule root_ok_survives)
    show "survives (m_root g) g h'" by (rule client_reaper.process_sync_survives [OF client_okD(4) [OF ok] g(2)])
    show "m_root h' = m_root g" using more by (rule root_of_more)
    show "root_ok g" using ok by (simp only: client_ok_def)
  qed
  ultimately show ?thesis by (simp only: client_ok_def)
qed

text \<open>
  \<open>compute_ok\<close>: the \<open>compute\<close> methods of the application keep the invariant; firing plugs does
  (\<open>fire_ok\<close>), and so do the requests.
\<close>

definition compute_ok :: "(ref \<Rightarrow> ref \<Rightarrow> client \<Rightarrow> client) \<Rightarrow> bool" where
  "compute_ok compute \<longleftrightarrow> (\<forall>c p h. client_ok h \<longrightarrow> client_ok (compute c p h))"

lemma client_own_ok:
  assumes "compute_ok compute" and "client_ok h" and "session_process_own_events (client_virtuals ft) compute n h = Some h'"
  shows "client_ok h'"
proof -
  obtain g where g: "process_events m_session_events upd_session_events (\<lambda>_. True) (\<lambda>_ _ s. (s, True))
        (\<lambda>_ _ s. s) n h = Some g"
      "process_events m_compute_events upd_compute_events (\<lambda>_. True) (run_compute_event (client_virtuals ft) compute)
        (\<lambda>_ _ s. s) n g = Some h'"
    using assms(3) by (auto simp: session_process_own_events_def bind_eq_Some_conv)
  have "client_ok g"
    by (rule process_events_invariant [OF g(1), where I = client_ok]) (simp_all add: assms(2) upd_session_events_def)
  then show ?thesis
    using assms(1)
    by (intro process_events_invariant [OF g(2), where I = client_ok])
       (auto simp: upd_compute_events_def run_compute_event_def compute_ok_def split: compute_event.split option.split)
qed

lemma cable_process_client_ok: "client_ok h \<Longrightarrow> client_ok (cable_process_events c h)"
proof -
  have run: "root_ok (fst (run_cable_event c ev a t)) = root_ok t" for ev a t
    by (simp add: run_cable_event_def Let_def)
  have "root_ok (fold (process_event (\<lambda>_. True) (run_cable_event c) (\<lambda>_ _ s. s) as) es t)" if "root_ok t" for as es t
    using that
    by (rule fold_invariant [where I = root_ok]) (erule process_event_invariant, simp add: run)
  then have "root_ok h \<Longrightarrow> root_ok (cable_process_events c h)"
    by (simp add: cable_process_events_def Let_def split: option.split)
  then show "client_ok h \<Longrightarrow> client_ok (cable_process_events c h)"
    by (simp add: client_ok_def cable_process_session_ok)
qed

lemma client_module_event_ok: "client_ok h \<Longrightarrow> client_ok (fst (run_session_module_event (client_virtuals ft) pi a h))"
  by (auto simp: run_session_module_event_def cable_process_client_ok
      intro: client_ok_preserves [OF client_reaper.entity_process_ok] split: sync_ref.split)

lemma client_session_sync_ok:
  assumes "client_ok h" and "session_process_sync_events (client_virtuals ft) n h = Some h'"
  shows "client_ok h'"
proof -
  obtain t where t: "process_events (\<lambda>s. m_module_events (s_module s)) upd_s_module_events (\<lambda>_. True)
      (run_session_module_event (client_virtuals ft)) (\<lambda>_ _ s. s) n h = Some t"
    and h': "h' = (session_reap_all (client_virtuals ft) t)
      \<lparr>s_module := (s_module (session_reap_all (client_virtuals ft) t))\<lparr>m_dead_syncronisable_IDS := {}\<rparr>\<rparr>"
    using assms(2) by (auto simp: session_process_sync_events_def Let_def split: option.splits)
  have "client_ok t"
    by (rule process_events_invariant [OF t, where I = client_ok])
       (simp_all add: assms(1) client_module_event_ok, simp add: client_ok_def upd_s_module_events_def session_ok_module)
  then have ok: "root_ok t" "m_items_to_reap (s_module t) = []" by (simp_all add: client_ok_def session_ok_def reap_items_def)
  define s1 where "s1 = fold reap_cable (m_cleanup_callbacks (s_module t))
    (t\<lparr>s_module := (s_module t)\<lparr>m_cleanup_callbacks := []\<rparr>\<rparr>)"
  have "root_ok s1 \<and> reap_items s1 = []"
    unfolding s1_def
    by (rule fold_invariant [where I = "\<lambda>s. root_ok s \<and> reap_items s = []"]) (simp_all add: ok reap_items_def [symmetric], simp add: ok reap_items_def)
  then have "root_ok h'"
    by (simp add: h' session_reap_all_def Let_def s1_def [symmetric] reap_items_def)
  moreover have "session_ok h'"
    using client_session.session_sync_ok [OF _ assms(2)] assms(1) by (simp add: client_ok_def)
  ultimately show ?thesis by (simp add: client_ok_def)
qed

lemma client_session_process_ok:
  assumes "compute_ok compute" and "client_ok h" and "client_session_process_events ft draft compute n h = Some h'"
  shows "client_ok h'"
proof -
  obtain t u where st: "client_hierarchy_process_events ft draft n h = Some t"
      "session_process_own_events (client_virtuals ft) compute n t = Some u"
      "session_process_sync_events (client_virtuals ft) n u = Some h'"
    using assms(3) unfolding client_session_process_events_def bind_eq_Some_conv
    by (elim exE conjE) (rule that; assumption)
  show ?thesis
    by (rule client_session_sync_ok
          [OF client_own_ok [OF assms(1) client_hierarchy_process_ok [OF assms(2) st(1)] st(2)] st(3)])
qed

lemma upd_cable_client_ok:
  assumes "cable_frame f" and "client_ok h"
  shows "client_ok (upd_cable c f h)"
  using assms upd_cable_ok [OF _ assms(1), of h c] by (simp add: client_ok_def session_ok_def)

lemma connect_cable_ok: "client_ok h \<Longrightarrow> client_ok (fst (connect_cable ip op h))"
proof -
  assume "client_ok h"
  then have "client_ok g" if "create_cable ip op h = (g, res)" for g res
    using client_ok_create_cable [of h ip op] that by simp
  with \<open>client_ok h\<close> show ?thesis
    by (auto simp: connect_cable_def cable_set_local_def Let_def intro!: upd_cable_client_ok cable_frame_sync
        split: option.split prod.split)
qed

lemma send_cable_request_outbox: "outbox_step h (fst (send_cable_request content action sendtype c h))"
  by (simp add: send_cable_request_def split: option.split)

lemma client_requests_ok:
  assumes "client_ok h"
  shows "client_ok (fst (client_connect_cable ip op sendtype h))"
    and "client_ok (fst (client_destroy_cable cable sendtype h))"
    and "client_ok (fst (client_observe_entity r sendtype h))"
    and "client_ok (aquire_entity_ownership r h)" and "client_ok (release_entity_ownership r h)"
proof -
  have send: "client_ok g'" if "client_ok g" "send_cable_request content action sendtype c g = (g', err)"
    for g g' err content action c
    using client_ok_outbox [OF send_cable_request_outbox that(1), of content action sendtype c] that(2) by simp
  have "client_ok g" if "connect_cable ip op h = (g, res)" for g res
    using connect_cable_ok [OF assms, of ip op] that by simp
  with send show "client_ok (fst (client_connect_cable ip op sendtype h))"
    by (auto simp: client_connect_cable_def split: option.split prod.split)
  show "client_ok (fst (client_destroy_cable cable sendtype h))"
    using assms client_ok_outbox [OF send_cable_request_outbox] by (simp add: client_destroy_cable_def split: option.split)
  show "client_ok (fst (client_observe_entity r sendtype h))"
    using assms by (simp add: client_observe_entity_def split: sum.split bool.split)
  show "client_ok (aquire_entity_ownership r h)" "client_ok (release_entity_ownership r h)"
    using assms by (simp_all add: aquire_entity_ownership_def release_entity_ownership_def send_ownership_request_def)
qed

lemma client_session_response_ok: "client_ok h \<Longrightarrow> client_ok (fst (client_session_on_response ft action response h))"
proof -
  assume ok: "client_ok h"
  have "cables_ok (cable_enqueue_activation c h)" for c
    using ok cable_sync_op_ok [of h enqueue_activation c]
    by (simp add: cable_enqueue_activation_def client_ok_def session_ok_def cable_frame_sync)
  then have "client_ok (cable_enqueue_activation c h)" for c
    using ok by (simp add: client_ok_def session_ok_def cable_enqueue_activation_def)
  with ok show ?thesis
    by (cases action) (simp_all add: session_response_defs destroy_client_ok)
qed

end
