(* ===== verification/Zst_Client.thy ===== *)
theory Zst_Client
  imports Zst_Client_Session
begin

text \<open>
  \<open>ZstClient\<close> (\<open>src/src/client/ZstClient.cpp\<close>): initialisation and shutdown, joining and leaving a stage,
  the heartbeat, the beacons of servers, the handshake between clients and the responses to all requests.

  A blocking call is cut at its wait, as in \<open>Zst_Client_Hierarchy\<close>; what follows the callback is
  \<open>client_request_returns\<close>. \<open>join_stage_complete\<close> itself blocks several times when the join was blocking:
  its argument \<open>await\<close> is what the rest of the program does during such a wait, the callback included.
  A wait of a timer that is cancelled completes at once and finds nothing to do. The clock counts
  nanoseconds. Queues are drained with a bound \<open>n\<close> on the number of events, \<open>None\<close> when it is exceeded.
\<close>

section \<open>Events\<close>

definition upd_connection_events ::
  "((adaptor, connection_event) dispatcher \<Rightarrow> (adaptor, connection_event) dispatcher) \<Rightarrow> client \<Rightarrow> client" where
  "upd_connection_events f h = h\<lparr>m_connection_events := f (m_connection_events h)\<rparr>"

definition connection_defer :: "connection_event \<Rightarrow> client \<Rightarrow> client" where
  "connection_defer e h = upd_connection_events (defer_event e) h"

definition client_process_events ::
  "float_text \<Rightarrow> bool \<Rightarrow> (ref \<Rightarrow> ref \<Rightarrow> client \<Rightarrow> client) \<Rightarrow> nat \<Rightarrow> client \<Rightarrow> client option" where
  "client_process_events ft draft_api compute n h =
     (if \<not> m_init_completed h \<or> c_is_destroyed h \<or> c_is_ending h then Some h
      else Option.bind (client_session_process_events ft draft_api compute n h)
             (process_events m_connection_events upd_connection_events (\<lambda>_. True) (\<lambda>_ _ h. (h, True)) (\<lambda>_ _ h. h) n))"

section \<open>Initialisation\<close>

text \<open>The constructor; no root exists before \<open>init_client\<close>.\<close>

definition client_new :: client where
  "client_new =
     \<lparr>heap = (\<lambda>_. None), next_ref = 0, s_instance_id_counter = 0, m_entity_lookup = (\<lambda>_. None), m_proxies = [],
      m_hierarchy_events = dispatcher_new DefaultAdaptor, h_module = sync_module_new HierarchyModule, m_outbox = [],
      m_cables = [], next_cable = 0, m_session_events = dispatcher_new DefaultAdaptor,
      m_compute_events = dispatcher_new DefaultAdaptor, m_connected_performers = [],
      s_module = sync_module_new SessionModule,
      m_root = 0, m_ping = - 1, c_is_ending = False, c_is_destroyed = False, m_init_completed = False,
      m_connected_to_stage = False, m_is_connecting = False,
      m_connected_server = \<lparr>server_name = '''', server_address = ''''\<rparr>, m_server_beacons = [],
      m_server_beacon_timestamps = [], m_auto_join_stage = False, m_auto_join_stage_requests = (\<lambda>_. None),
      m_pending_peer_connections = (\<lambda>_. None), m_connection_timers = {}, m_heartbeat_timer = False,
      m_connection_events = dispatcher_new DefaultAdaptor, m_stage_connection = None, m_graph_connections = [],
      m_graph_outbox = []\<rparr>"

text \<open>
  \<open>ZstClientSession::init\<close> and \<open>ZstClientHierarchy::init\<close>. A root that was there before is deleted when the new one takes its place.
\<close>

definition client_hierarchy_init :: "string \<Rightarrow> client \<Rightarrow> client" where
  "client_hierarchy_init name h =
     (case alloc_entity (\<lambda>s. performer_new s name)
             (h\<lparr>m_hierarchy_events := add_adaptor HierarchyModule (m_hierarchy_events h), heap := (heap h)(m_root h := None)\<rparr>) of
        (r, h1) \<Rightarrow> register_entity r (h1\<lparr>m_root := r\<rparr>))"

definition client_session_init :: "string \<Rightarrow> client \<Rightarrow> client" where
  "client_session_init name h =
     client_hierarchy_init name
       (h\<lparr>m_hierarchy_events := add_adaptor SessionModule (m_hierarchy_events h),
          m_compute_events := add_adaptor SessionModule (m_compute_events h)\<rparr>)"

text \<open>
  \<open>init_client\<close>: the flags and the modules, and the processing of events at its end. Opening the sockets and loading plugins is in
  \<open>Zst_Client_Process\<close>.
\<close>

definition client_modules_init :: "float_text \<Rightarrow> string \<Rightarrow> client \<Rightarrow> client" where
  "client_modules_init ft name h =
     (let h1 = client_session_init name (h\<lparr>c_is_destroyed := False, c_is_ending := False, m_connection_timers := {}\<rparr>);
          h2 = session_register_entity (client_virtuals ft) (m_root h1) h1
      in h2\<lparr>m_hierarchy_events := add_adaptor ClientModule (m_hierarchy_events h2)\<rparr>)"

definition init_client ::
  "float_text \<Rightarrow> bool \<Rightarrow> (ref \<Rightarrow> ref \<Rightarrow> client \<Rightarrow> client) \<Rightarrow> nat \<Rightarrow> string \<Rightarrow> client \<Rightarrow> client option" where
  "init_client ft draft_api compute n name h =
     (if c_is_ending h \<or> m_init_completed h then Some h
      else client_process_events ft draft_api compute n ((client_modules_init ft name h)\<lparr>m_init_completed := True\<rparr>))"

section \<open>Leaving\<close>

text \<open>The children of the root, not their children, and the root itself.\<close>

definition root_and_children :: "client \<Rightarrow> ref list" where
  "root_and_children h = get_child_entities client_queries tree_depth h (m_root h) True False ET_NONE"

definition dispatch_connected_to_stage :: "client \<Rightarrow> client" where
  "dispatch_connected_to_stage h = entity_enqueue_activation (m_root h) h"

definition dispatch_disconnected_from_stage :: "client \<Rightarrow> client" where
  "dispatch_disconnected_from_stage h = entity_enqueue_deactivation (m_root h) h"

definition process_if_sync ::
  "float_text \<Rightarrow> bool \<Rightarrow> (ref \<Rightarrow> ref \<Rightarrow> client \<Rightarrow> client) \<Rightarrow> nat \<Rightarrow> ZstTransportRequestBehaviour \<Rightarrow> client \<Rightarrow>
   client option" where
  "process_if_sync ft draft_api compute n sendtype h =
     (if sendtype = SYNC_REPLY then client_process_events ft draft_api compute n h else Some h)"

definition close_connections :: "client \<Rightarrow> client" where
  "close_connections h =
     h\<lparr>m_connected_to_stage := False, m_is_connecting := False, m_heartbeat_timer := False,
       m_stage_connection := None, m_graph_connections := []\<rparr>"

definition leave_stage_complete ::
  "float_text \<Rightarrow> bool \<Rightarrow> (ref \<Rightarrow> ref \<Rightarrow> client \<Rightarrow> client) \<Rightarrow> nat \<Rightarrow> ZstTransportRequestBehaviour \<Rightarrow> client \<Rightarrow>
   client option" where
  "leave_stage_complete ft draft_api compute n sendtype h =
     (if \<not> m_connected_to_stage h then Some h
      else
        let h1 = close_connections h;
            h2 = fold entity_enqueue_deactivation (root_and_children h1) h1
        in Option.bind (process_if_sync ft draft_api compute n sendtype h2) (\<lambda>h3.
             map_option (\<lambda>h4. h4\<lparr>m_connected_server := \<lparr>server_name = '''', server_address = ''''\<rparr>\<rparr>)
               (process_if_sync ft draft_api compute n sendtype
                  (connection_defer CE_DisconnectedFromServer (dispatch_disconnected_from_stage h3)))))"

definition leave_stage ::
  "float_text \<Rightarrow> bool \<Rightarrow> (ref \<Rightarrow> ref \<Rightarrow> client \<Rightarrow> client) \<Rightarrow> nat \<Rightarrow> client \<Rightarrow> client option" where
  "leave_stage ft draft_api compute n h =
     Option.bind
       (leave_stage_complete ft draft_api compute n PUBLISH
          (if m_connected_to_stage h
           then client_send (Content_ClientLeaveRequest (uri_path (root_uri h)) ClientLeaveReason_QUIT) transport_args
                  (h\<lparr>m_is_connecting := False\<rparr>)
           else h))
       (client_process_events ft draft_api compute n)"

text \<open>The flag is cleared before the stage is left, so that \<open>leave_stage\<close> processes nothing.\<close>

definition client_destroy ::
  "float_text \<Rightarrow> bool \<Rightarrow> (ref \<Rightarrow> ref \<Rightarrow> client \<Rightarrow> client) \<Rightarrow> nat \<Rightarrow> client \<Rightarrow> client option" where
  "client_destroy ft draft_api compute n h =
     (if c_is_ending h \<or> c_is_destroyed h then Some h
      else
        let h1 = h\<lparr>m_init_completed := False\<rparr>
        in map_option (\<lambda>h2. h2\<lparr>c_is_ending := False, c_is_destroyed := True\<rparr>)
             (if m_connected_to_stage h1 then leave_stage ft draft_api compute n h1 else Some h1))"

section \<open>Joining\<close>

text \<open>
  \<open>graph_addresses\<close>: the addresses the sockets of the graph transports are bound to, the second of which is
  empty in a build without the draft API.
\<close>

definition join_stage ::
  "float_text \<Rightarrow> string \<times> string \<Rightarrow> ZstServerAddress \<Rightarrow> ZstTransportRequestBehaviour \<Rightarrow> client \<Rightarrow> client outcome" where
  "join_stage ft graph_addresses stage_address sendtype h =
     (if \<not> m_init_completed h then (h, None)
      else if m_is_connecting h then (h, None)
      else if m_is_connecting h \<or> m_connected_to_stage h then (h, None)
      else
        let h1 = h\<lparr>m_is_connecting := True, m_stage_connection := Some (server_address stage_address)\<rparr>
        in case heap h1 (m_root h1) of
             None \<Rightarrow> (h1, Some UndefinedBehaviour)
           | Some root \<Rightarrow>
               (client_send
                  (Content_ClientJoinRequest (entity_serialize_partial root) (Some (m_component_type root))
                     (Some (fst graph_addresses)) (Some (snd graph_addresses)))
                  (transport_args\<lparr>msg_send_behaviour := sendtype, on_recv_response := RA_Client (CL_Joined stage_address)\<rparr>)
                  h1, None))"

definition synchronise_graph :: "ZstTransportRequestBehaviour \<Rightarrow> client \<Rightarrow> client" where
  "synchronise_graph sendtype h =
     client_send (Content_SignalMessage Signal_CLIENT_SYNC)
       (transport_args\<lparr>msg_send_behaviour := sendtype, on_recv_response := RA_Client CL_GraphSynchronised\<rparr>) h"

definition synchronise_graph_complete :: "client \<Rightarrow> client" where
  "synchronise_graph_complete h = connection_defer CE_SynchronisedGraph h"

definition await_if_sync ::
  "(client \<Rightarrow> client option) \<Rightarrow> ZstTransportRequestBehaviour \<Rightarrow> client \<Rightarrow> client option" where
  "await_if_sync await sendtype h = (if sendtype = SYNC_REPLY then await h else Some h)"

text \<open>The root and its children listen to the hierarchy (again) and are activating from here on.\<close>

definition attach_local :: "entity \<Rightarrow> entity" where
  "attach_local e =
     sync_add_adaptor HierarchyModule (e\<lparr>m_entity_adaptors := attach_adaptor HierarchyModule (m_entity_adaptors e)\<rparr>)"

definition join_activating :: "ref \<Rightarrow> client \<Rightarrow> client" where
  "join_activating r h = entity_enqueue_activation r (upd_entity r set_activating (upd_entity r attach_local h))"

text \<open>A call of \<open>activate_entity\<close> that sends a request processes the events of the hierarchy after its wait.\<close>

definition activation_requested :: "client \<Rightarrow> ref \<Rightarrow> bool" where
  "activation_requested h r = entity_test (\<lambda>e. \<not> uri_is_empty (m_parent e) \<and> \<not> is_activated e) h r"

fun post_join_activation ::
  "float_text \<Rightarrow> bool \<Rightarrow> (client \<Rightarrow> client option) \<Rightarrow> nat \<Rightarrow> ZstTransportRequestBehaviour \<Rightarrow> ref list \<Rightarrow> client \<Rightarrow>
   client outcome option" where
  "post_join_activation ft draft_api await n sendtype [] h = Some (h, None)"
| "post_join_activation ft draft_api await n sendtype (c # cs) h =
     (case client_activate_entity ft (Some c) sendtype None h of
        (h1, Some e) \<Rightarrow> Some (h1, Some e)
      | (h1, None) \<Rightarrow>
          if activation_requested h c \<and> sendtype = SYNC_REPLY
          then Option.bind (Option.bind (await h1) (client_hierarchy_process_events ft draft_api n))
                 (post_join_activation ft draft_api await n sendtype cs)
          else post_join_activation ft draft_api await n sendtype cs h1)"

definition join_stage_complete ::
  "float_text \<Rightarrow> bool \<Rightarrow> (ref \<Rightarrow> ref \<Rightarrow> client \<Rightarrow> client) \<Rightarrow> (client \<Rightarrow> client option) \<Rightarrow> nat \<Rightarrow>
   ZstServerAddress \<Rightarrow> ZstStageMessage option \<Rightarrow> ZstTransportRequestBehaviour \<Rightarrow> client \<Rightarrow> client outcome option" where
  "join_stage_complete ft draft_api compute await n server response sendtype h =
     (let h1 = h\<lparr>m_is_connecting := False, m_connected_to_stage := True, m_connected_server := server\<rparr>
      in if \<not> verify_signal response Signal_OK
         then map_option (\<lambda>g. (g, None)) (leave_stage_complete ft draft_api compute n sendtype h1)
         else
           let h2 = dispatch_connected_to_stage (fold join_activating (root_and_children h1) h1);
               h3 = synchronise_graph sendtype (h2\<lparr>m_heartbeat_timer := True\<rparr>)
           in Option.bind (await_if_sync await sendtype h3) (\<lambda>h4.
              Option.bind (post_join_activation ft draft_api await n sendtype
                             (get_child_entities client_queries tree_depth h4 (m_root h4) False True ET_NONE) h4)
                (\<lambda>st. case st of
                    (h5, Some e) \<Rightarrow> Some (h5, Some e)
                  | (h5, None) \<Rightarrow>
                      map_option (\<lambda>g. (g, None))
                        (process_if_sync ft draft_api compute n sendtype
                           (connection_defer (CE_ConnectedToServer server) (dispatch_connected_to_stage h5))))))"

section \<open>Heartbeat\<close>

definition ticks_per_ms :: int where
  "ticks_per_ms = 1000000"

text \<open>\<open>duration_cast\<close> to milliseconds truncates towards zero.\<close>

definition duration_ms :: "int \<Rightarrow> int" where
  "duration_ms d = (if d < 0 then - ((- d) div ticks_per_ms) else d div ticks_per_ms)"

definition heartbeat_timer :: "int \<Rightarrow> client \<Rightarrow> client" where
  "heartbeat_timer now h =
     (if \<not> m_connected_to_stage h then h\<lparr>m_heartbeat_timer := False\<rparr>
      else
        (client_send (Content_SignalMessage Signal_CLIENT_HEARTBEAT)
           (transport_args\<lparr>msg_send_behaviour := ASYNC_REPLY, on_recv_response := RA_Client (CL_Heartbeat now)\<rparr>) h)
          \<lparr>m_heartbeat_timer := True\<rparr>)"

definition heartbeat_response ::
  "float_text \<Rightarrow> bool \<Rightarrow> (ref \<Rightarrow> ref \<Rightarrow> client \<Rightarrow> client) \<Rightarrow> nat \<Rightarrow> int \<Rightarrow> int \<Rightarrow> ZstStageMessage option \<Rightarrow>
   client \<Rightarrow> client option" where
  "heartbeat_response ft draft_api compute n start now response h =
     (if \<not> verify_signal response Signal_OK then leave_stage_complete ft draft_api compute n PUBLISH h
      else Some (h\<lparr>m_ping := duration_ms (now - start)\<rparr>))"

section \<open>Servers\<close>

definition stamp_less :: "ZstServerAddress \<times> int \<Rightarrow> ZstServerAddress \<times> int \<Rightarrow> bool" where
  "stamp_less p q \<longleftrightarrow> server_address_less (fst p) (fst q)"

definition set_timestamp :: "ZstServerAddress \<Rightarrow> int \<Rightarrow> (ZstServerAddress \<times> int) list \<Rightarrow> (ZstServerAddress \<times> int) list" where
  "set_timestamp server now ts =
     (case oset_find stamp_less (server, now) ts of
        None \<Rightarrow> oset_insert stamp_less (server, now) ts
      | Some (s, _) \<Rightarrow> map (\<lambda>p. if fst p = s then (s, now) else p) ts)"

text \<open>
  The address of a beacon is its sender's with the port it names. \<open>set_value\<close> raises when the promise was
  satisfied before.
\<close>

definition server_discovery_handler :: "ZstServerAddress \<Rightarrow> int \<Rightarrow> client \<Rightarrow> client outcome" where
  "server_discovery_handler server now h =
     (if oset_member server_address_less server (m_server_beacons h)
      then (h\<lparr>m_server_beacon_timestamps := set_timestamp server now (m_server_beacon_timestamps h)\<rparr>, None)
      else
        let h1 = connection_defer (CE_ServerDiscovered server)
              (h\<lparr>m_server_beacons := oset_insert server_address_less server (m_server_beacons h),
                 m_server_beacon_timestamps := oset_insert stamp_less (server, now) (m_server_beacon_timestamps h)\<rparr>)
        in if m_auto_join_stage h1 \<and> \<not> m_connected_to_stage h1
           then (case m_auto_join_stage_requests h1 (server_name server) of
                   None \<Rightarrow> (h1, None)
                 | Some (BP_Ready _) \<Rightarrow> (h1, Some RuntimeError)
                 | Some BP_Pending \<Rightarrow>
                     (h1\<lparr>m_auto_join_stage_requests :=
                           (m_auto_join_stage_requests h1)(server_name server \<mapsto> BP_Ready server)\<rparr>, None))
           else (h1, None))"

definition lost_server_beacon :: "ZstServerAddress \<Rightarrow> client \<Rightarrow> client" where
  "lost_server_beacon server h =
     connection_defer (CE_ServerLost server)
       (h\<lparr>m_server_beacons := oset_erase server_address_less server (m_server_beacons h),
          m_server_beacon_timestamps := oset_erase stamp_less (server, 0) (m_server_beacon_timestamps h)\<rparr>)"

definition STAGE_TIMEOUT :: int where
  "STAGE_TIMEOUT = 5000"

definition expired_beacons :: "int \<Rightarrow> client \<Rightarrow> ZstServerAddress list" where
  "expired_beacons now h =
     map fst (filter (\<lambda>p. duration_ms (now - snd p) > STAGE_TIMEOUT) (m_server_beacon_timestamps h))"

definition beaconcheck_timer :: "int \<Rightarrow> client \<Rightarrow> client" where
  "beaconcheck_timer now h = fold lost_server_beacon (expired_beacons now h) h"

definition get_discovered_server :: "client \<Rightarrow> string \<Rightarrow> ZstServerAddress" where
  "get_discovered_server h name =
     (case find (\<lambda>s. server_name s = name) (m_server_beacons h) of
        None \<Rightarrow> \<lparr>server_name = '''', server_address = ''''\<rparr>
      | Some s \<Rightarrow> s)"

text \<open>
  \<open>auto_join_stage\<close> up to the wait for the beacon, and the two ends of that wait in \<open>join_on_beacon\<close>; one
  caller waits for a name at a time.
\<close>

definition auto_join_stage ::
  "float_text \<Rightarrow> string \<times> string \<Rightarrow> string \<Rightarrow> ZstTransportRequestBehaviour \<Rightarrow> client \<Rightarrow> client outcome" where
  "auto_join_stage ft graph_addresses name sendtype h =
     (let h1 = h\<lparr>m_auto_join_stage := True\<rparr>
      in case find (\<lambda>s. server_name s = name) (m_server_beacons h1) of
           Some server \<Rightarrow> join_stage ft graph_addresses server sendtype h1
         | None \<Rightarrow>
             (h1\<lparr>m_auto_join_stage_requests := (m_auto_join_stage_requests h1)(name \<mapsto> BP_Pending)\<rparr>, None))"

definition forget_join_request :: "string \<Rightarrow> client \<Rightarrow> client" where
  "forget_join_request name h = h\<lparr>m_auto_join_stage_requests := (m_auto_join_stage_requests h)(name := None)\<rparr>"

definition join_on_beacon ::
  "float_text \<Rightarrow> string \<times> string \<Rightarrow> string \<Rightarrow> ZstTransportRequestBehaviour \<Rightarrow> client \<Rightarrow> client outcome" where
  "join_on_beacon ft graph_addresses name sendtype h =
     (case m_auto_join_stage_requests h name of
        None \<Rightarrow> (h, Some UndefinedBehaviour)
      | Some BP_Pending \<Rightarrow> (forget_join_request name h, None)
      | Some (BP_Ready server) \<Rightarrow>
          (case join_stage ft graph_addresses server sendtype h of
             (h1, Some e) \<Rightarrow> (h1, Some e)
           | (h1, None) \<Rightarrow> (forget_join_request name h1, None)))"

section \<open>Connections between clients\<close>

text \<open>
  The handlers of the handshake read the URI of the remote performer before they test for it. The wait of
  a timer is repeated for as long as its performer is in \<open>m_connection_timers\<close>.
\<close>

definition start_connection_broadcast_handler :: "string \<Rightarrow> client \<Rightarrow> client outcome" where
  "start_connection_broadcast_handler receiver_path h =
     (case find_as is_performer client_queries h (string_uri receiver_path) of
        None \<Rightarrow> (h, Some NullDereference)
      | Some remote \<Rightarrow>
          (h\<lparr>m_connection_timers := insert (uri_path (uri_at h remote)) (m_connection_timers h)\<rparr>, None))"

definition stop_connection_broadcast_handler :: "string \<Rightarrow> client \<Rightarrow> client outcome" where
  "stop_connection_broadcast_handler receiver_path h =
     (case find_as is_performer client_queries h (uri_of receiver_path) of
        None \<Rightarrow> (h, Some NullDereference)
      | Some remote \<Rightarrow>
          (h\<lparr>m_connection_timers := m_connection_timers h - {uri_path (uri_at h remote)}\<rparr>, None))"

definition graph_send :: "graph_message \<Rightarrow> client \<Rightarrow> client" where
  "graph_send msg h = h\<lparr>m_graph_outbox := m_graph_outbox h @ [msg]\<rparr>"

text \<open>The Boolean says whether the timer waits again.\<close>

definition send_connection_broadcast :: "ZstURI \<Rightarrow> ZstURI \<Rightarrow> client \<Rightarrow> client \<times> bool" where
  "send_connection_broadcast receiver sender h =
     (graph_send \<lparr>gm_sender = uri_path sender, gm_value = Some PV_PlugHandshake\<rparr> h,
      uri_path receiver \<in> m_connection_timers h)"

text \<open>\<open>connects\<close>: whether the socket could be connected.\<close>

definition tcp_graph_connect :: "bool \<Rightarrow> string \<Rightarrow> client \<Rightarrow> client" where
  "tcp_graph_connect connects address h =
     (if address \<in> set (m_graph_connections h) then h
      else if connects then h\<lparr>m_graph_connections := m_graph_connections h @ [address]\<rparr>
      else h)"

definition listen_to_client_handler :: "bool \<Rightarrow> string \<Rightarrow> string \<Rightarrow> uuid \<Rightarrow> client \<Rightarrow> client" where
  "listen_to_client_handler connects sender_path address request_id h =
     tcp_graph_connect connects address
       (h\<lparr>m_pending_peer_connections :=
            (m_pending_peer_connections h)(uri_path (string_uri sender_path) \<mapsto> request_id)\<rparr>)"

definition connection_handshake_handler :: "graph_message \<Rightarrow> client \<Rightarrow> client outcome" where
  "connection_handshake_handler msg h =
     (if gm_value msg = None then (h, Some NullDereference)
      else if gm_value msg \<noteq> Some PV_PlugHandshake then (h, None)
      else
        let output_path = uri_path (string_uri (gm_sender msg))
        in case m_pending_peer_connections h output_path of
             None \<Rightarrow> (h, None)
           | Some request_id \<Rightarrow>
               ((client_send (Content_SignalMessage Signal_OK) (transport_args\<lparr>msg_ID := request_id\<rparr>) h)
                  \<lparr>m_pending_peer_connections := (m_pending_peer_connections h)(output_path := None)\<rparr>, None))"

definition server_status_handler ::
  "float_text \<Rightarrow> bool \<Rightarrow> (ref \<Rightarrow> ref \<Rightarrow> client \<Rightarrow> client) \<Rightarrow> nat \<Rightarrow> ServerStatus \<Rightarrow> client \<Rightarrow> client option" where
  "server_status_handler ft draft_api compute n status h =
     (if status = ServerStatus_QUIT then leave_stage_complete ft draft_api compute n PUBLISH h else Some h)"

definition client_on_receive_msg ::
  "float_text \<Rightarrow> bool \<Rightarrow> (ref \<Rightarrow> ref \<Rightarrow> client \<Rightarrow> client) \<Rightarrow> nat \<Rightarrow> bool \<Rightarrow> ZstStageMessage \<Rightarrow> client \<Rightarrow>
   client outcome option" where
  "client_on_receive_msg ft draft_api compute n connects msg h =
     (case m_buffer msg of
        Content_ClientGraphHandshakeStart receiver_path _ \<Rightarrow> Some (start_connection_broadcast_handler receiver_path h)
      | Content_ClientGraphHandshakeStop receiver_path \<Rightarrow> Some (stop_connection_broadcast_handler receiver_path h)
      | Content_ClientGraphHandshakeListen sender_path address \<Rightarrow>
          Some (listen_to_client_handler connects sender_path address (m_id msg) h, None)
      | Content_ServerStatusMessage status \<Rightarrow>
          map_option (\<lambda>g. (g, None)) (server_status_handler ft draft_api compute n status h)
      | _ \<Rightarrow> Some (h, None))"

section \<open>Plugins\<close>

text \<open>The factories of a plugin are added to the root, and announced by a client that is connected.\<close>

fun on_plugin_loaded :: "float_text \<Rightarrow> ref list \<Rightarrow> client \<Rightarrow> client outcome" where
  "on_plugin_loaded ft [] h = (h, None)"
| "on_plugin_loaded ft (f # fs) h =
     (let h1 = root_add_child ft f True h
      in if m_connected_to_stage h1
         then (case client_activate_entity ft (Some f) ASYNC_REPLY None h1 of
                 (h2, Some e) \<Rightarrow> (h2, Some e)
               | (h2, None) \<Rightarrow> on_plugin_loaded ft fs h2)
         else on_plugin_loaded ft fs h1)"

section \<open>Responses\<close>

definition join_response ::
  "float_text \<Rightarrow> bool \<Rightarrow> (ref \<Rightarrow> ref \<Rightarrow> client \<Rightarrow> client) \<Rightarrow> (client \<Rightarrow> client option) \<Rightarrow> nat \<Rightarrow>
   ZstServerAddress \<Rightarrow> ZstStageMessage option \<Rightarrow> ZstTransportRequestBehaviour \<Rightarrow> client \<Rightarrow> client outcome option" where
  "join_response ft draft_api compute await n server response sendtype h =
     (if \<not> verify_signal response Signal_OK then Some (h, None)
      else join_stage_complete ft draft_api compute await n server response sendtype h)"

text \<open>\<open>now\<close> is the time of the response, \<open>sendtype\<close> the behaviour of its request.\<close>

definition client_on_response ::
  "float_text \<Rightarrow> bool \<Rightarrow> (ref \<Rightarrow> ref \<Rightarrow> client \<Rightarrow> client) \<Rightarrow> (client \<Rightarrow> client option) \<Rightarrow> nat \<Rightarrow> int \<Rightarrow>
   ZstTransportRequestBehaviour \<Rightarrow> client_action \<Rightarrow> ZstStageMessage option \<Rightarrow> client \<Rightarrow> client outcome option" where
  "client_on_response ft draft_api compute await n now sendtype action response h =
     (case action of
        CL_Joined server \<Rightarrow> join_response ft draft_api compute await n server response sendtype h
      | CL_GraphSynchronised \<Rightarrow>
          Some (if verify_signal response Signal_OK then synchronise_graph_complete h else h, None)
      | CL_Heartbeat start \<Rightarrow>
          map_option (\<lambda>g. (g, None)) (heartbeat_response ft draft_api compute n start now response h)
      | CL_EntityActivated _ _ \<Rightarrow> Some (client_hierarchy_on_response ft draft_api action response h)
      | CL_EntityDestroyed _ \<Rightarrow> Some (client_hierarchy_on_response ft draft_api action response h)
      | CL_EntityCreated _ \<Rightarrow> Some (client_hierarchy_on_response ft draft_api action response h)
      | _ \<Rightarrow> Some (client_session_on_response ft action response h))"

text \<open>What a blocking call does after its wait; the callback of \<open>create_entity\<close> does so if it found the entity.\<close>

definition created_entity :: "ZstStageMessage option \<Rightarrow> client \<Rightarrow> ref option" where
  "created_entity response h =
     (case map_option m_buffer response of
        Some (Content_FactoryCreateEntityACK created_path) \<Rightarrow> client_find_entity h (string_uri created_path)
      | _ \<Rightarrow> None)"

definition client_request_returns ::
  "float_text \<Rightarrow> bool \<Rightarrow> (ref \<Rightarrow> ref \<Rightarrow> client \<Rightarrow> client) \<Rightarrow> nat \<Rightarrow> client_action \<Rightarrow> ZstStageMessage option \<Rightarrow>
   client \<Rightarrow> client option" where
  "client_request_returns ft draft_api compute n action response h =
     (case action of
        CL_EntityActivated _ _ \<Rightarrow> client_hierarchy_process_events ft draft_api n h
      | CL_EntityDestroyed _ \<Rightarrow> client_hierarchy_process_events ft draft_api n h
      | CL_EntityCreated _ \<Rightarrow>
          if created_entity response h = None then Some h else client_hierarchy_process_events ft draft_api n h
      | CL_CableConnected _ \<Rightarrow> client_session_process_events ft draft_api compute n h
      | CL_CableDestroyed _ \<Rightarrow> client_session_process_events ft draft_api compute n h
      | _ \<Rightarrow> Some h)"

end
