(* ===== verification/Zst_Client_Invariant.thy ===== *)
theory Zst_Client_Invariant
  imports Zst_Client
begin

text \<open>
  What every operation of a client keeps. \<open>client_frame\<close>: the session and the hierarchy do not touch the
  fields of \<open>ZstClient\<close> that control its connection (\<open>client_core\<close>), and no performer is ever added to
  the connected ones. \<open>connection_ok\<close> is the invariant of those fields; \<open>client_inv\<close> joins it to the
  invariant of session and hierarchy.
\<close>

section \<open>The frame of session and hierarchy\<close>

definition client_core where
  "client_core h =
     (m_root h, m_init_completed h, c_is_ending h, c_is_destroyed h, m_connected_to_stage h, m_is_connecting h,
      m_heartbeat_timer h, m_stage_connection h, m_server_beacons h, m_server_beacon_timestamps h)"

definition client_frame :: "client \<Rightarrow> client \<Rightarrow> bool" where
  "client_frame h h' \<longleftrightarrow>
     client_core h' = client_core h \<and> (m_connected_performers h = [] \<longrightarrow> m_connected_performers h' = [])"

lemma frame_refl [simp]: "client_frame h h"
  by (simp add: client_frame_def)

lemma frame_trans [trans]: "client_frame h g \<Longrightarrow> client_frame g h' \<Longrightarrow> client_frame h h'"
  by (simp add: client_frame_def)

lemma frame_more: "hierarchy.more h' = hierarchy.more h \<Longrightarrow> client_frame h h'"
  by (cases h; cases h') (simp add: client_frame_def client_core_def)

lemma frame_preserves: "preserves h h' \<Longrightarrow> client_frame h h'"
  by (rule frame_more) (rule preserves_more)

lemma frame_adopts: "adopts r h h' \<Longrightarrow> client_ok h \<Longrightarrow> client_frame h h'"
  using client_okD(2) by (intro frame_more) (simp add: adopts_def)

lemma frame_session [simp]:
  "client_frame h (upd_entity r f h)" "client_frame h (upd_cable c g h)" "client_frame h (reap_cable c h)"
  "client_frame h (session_defer e h)" "client_frame h (cable_sync_op k c h)"
  "client_frame h (session_on_synchronisable_destroyed p b h)" "client_frame h (plug_forget q a h)"
  "client_frame h (h\<lparr>s_module := m\<rparr>)" "client_frame h (h\<lparr>m_session_events := d\<rparr>)"
  "client_frame h (h\<lparr>m_compute_events := d'\<rparr>)" "client_frame h (h\<lparr>m_outbox := ms\<rparr>)"
  "client_frame h (h\<lparr>m_hierarchy_events := d2\<rparr>)" "client_frame h (h\<lparr>m_graph_outbox := gs\<rparr>)"
  "client_frame h (remove_connected_performer u h)" "client_frame h (client_send ct as h)"
  by (auto simp: client_frame_def client_core_def upd_entity_def upd_cable_def reap_cable_def session_defer_def cable_sync_op_def
      session_on_synchronisable_destroyed_def plug_forget_def remove_connected_performer_def client_send_def Let_def
      split: option.split prod.split sync_ref.split)

lemma frame_fold:
  assumes "\<And>x g. client_frame g (f x g)"
  shows "client_frame h (fold f xs h)"
  by (rule fold_invariant [where I = "client_frame h"]) (auto intro: frame_trans assms)

lemma frame_process_event:
  assumes "\<And>e a g. client_frame g (fst (run e a g))" and "\<And>e st g. client_frame g (complete e st g)"
  shows "client_frame h (process_event alive run complete as e h)"
  by (rule process_event_invariant [where I = "client_frame h"]) (auto intro: frame_trans assms)

lemma frame_process_events:
  assumes "process_events get upd alive run complete n h = Some h'"
    and "\<And>f g. client_frame g (upd f g)" and "\<And>e a g. client_frame g (fst (run e a g))"
    and "\<And>e st g. client_frame g (complete e st g)"
  shows "client_frame h h'"
  by (rule process_events_invariant [OF assms(1), where I = "client_frame h"]) (auto intro: frame_trans assms(2-4))

text \<open>Cables.\<close>

lemma frame_create_cable: "client_frame h (fst (create_cable ip op h))"
  by (auto simp: create_cable_def add_new_cable_def cable_enqueue_activation_def Let_def client_frame_def client_core_def upd_entity_def
      cable_sync_op_def upd_cable_def session_defer_def split: option.split prod.split)

lemma frame_destroy_cable: "client_frame h (destroy_cable_complete V c h)"
proof -
  have "client_frame h (cable_enqueue_deactivation c (session_defer e (plug_forget a x (plug_forget b y h))))" for a b c e x y
    unfolding cable_enqueue_deactivation_def
    by (rule frame_trans [OF frame_session(7) frame_trans [OF frame_session(7) frame_trans [OF frame_session(4,5)]]])
  then show ?thesis by (simp add: destroy_cable_complete_def Let_def split: option.split)
qed

lemma frame_connect_cable: "client_frame h (fst (connect_cable ip op h))"
proof -
  have "client_frame h g" if "create_cable a b h = (g, res)" for a b g res
    using frame_create_cable [of h a b] that by simp
  then have "client_frame h (upd_cable c f g)" "client_frame h (upd_cable c f (upd_cable c k g))"
    if "create_cable a b h = (g, res)" for a b g res c f k
    using that by (blast intro: frame_trans [OF _ frame_session(2)])+
  then show ?thesis
    using \<open>\<And>res g b a. create_cable a b h = (g, res) \<Longrightarrow> client_frame h g\<close>
    by (auto simp: connect_cable_def cable_set_local_def Let_def split: option.split prod.split)
qed

lemma frame_cable_process: "client_frame h (cable_process_events c h)"
proof -
  have run: "client_frame g (fst (run_cable_event c ev a g))" for ev a g
    by (auto simp: run_cable_event_def Let_def intro: frame_trans [OF frame_session(2) frame_session(6)])
  have "client_frame g (fold (process_event (\<lambda>_. True) (run_cable_event c) (\<lambda>_ _ s. s) as) es g)" for as es g
    by (intro frame_fold frame_process_event) (simp_all add: run)
  then have "client_frame h (fold (process_event (\<lambda>_. True) (run_cable_event c) (\<lambda>_ _ s. s) as) es (upd_cable c f h))"
    for as es f using frame_trans frame_session(2) by blast
  then show ?thesis by (simp add: cable_process_events_def Let_def split: option.split)
qed

text \<open>Messages of the stage.\<close>

lemma frame_alloc: "alloc_entity mk h = (r, h') \<Longrightarrow> client_frame h h'"
  using alloc_more [of mk h] by (intro frame_more) simp

lemma frame_destroy_found: "client_ok h \<Longrightarrow> client_frame h (client_destroy_entity_complete (client_virtuals ft) (client_find_entity h u) h)"
  by (intro frame_preserves client_destroy_preserves) (auto dest: client_find_heap [OF client_okD(2)])

lemma frame_create_proxy_handler:
  assumes "client_ok h"
  shows "client_frame h (fst (create_proxy_entity_handler ft ind payload h))"
proof -
  have "hierarchy.more (fst (create_proxy_entity_handler ft ind payload h)) = hierarchy.more h"
    if ed: "get_entity_field payload = Inr ed" for ed
  proof -
    obtain h1 res where res: "client_create_proxy_entity ft ind payload ed h = (h1, res)" by fastforce
    then have "hierarchy.more h1 = hierarchy.more h \<and> hierarchy_ok h1 \<and> (\<forall>r. res = Inr (Some r) \<longrightarrow> heap h1 r \<noteq> None)"
      using client_reaper.create_proxy_more client_reaper.create_proxy_ok client_okD(2) [OF assms]
      by (fastforce simp: client_create_proxy_entity_def split: if_splits)
    then show ?thesis
      using ed res client_reaper.add_proxy_ok(2) [of h1 _ ft]
      by (cases res) (auto simp: create_proxy_entity_handler_def)
  qed
  then show ?thesis
    by (cases "get_entity_field payload") (auto simp: create_proxy_entity_handler_def intro: frame_more)
qed

lemma frame_update_proxy_handler:
  assumes "client_ok h"
  shows "client_frame h (fst (update_proxy_entity_handler ft payload path h))"
proof -
  have "preserves h (fst (update_proxy_entity (client_virtuals ft) r payload ed h))"
    if "client_find_entity h u = Some r" for r ed u
    using client_reaper.update_proxy_ok client_okD(2) [OF assms] client_find_heap that by blast
  then show ?thesis
    using frame_preserves
    by (fastforce simp: update_proxy_entity_handler_def client_update_proxy_entity_def split: sum.split option.split)
qed

lemma frame_root_add_child:
  assumes "client_ok h" and "heap h r \<noteq> None"
  shows "client_frame h (root_add_child ft r auto_activate h)"
  unfolding root_add_child_def
  by (rule frame_preserves, rule client_reaper.add_child_ok) (use assms in \<open>auto intro: client_reaper.set_parent_ok dest: client_okD(3)\<close>)

lemma frame_activate: "client_frame h (fst (client_activate_entity ft entity sendtype reply_to h))"
  by (rule frame_preserves [OF client_activate_preserves])

lemma frame_factory_create:
  "factory_create_entity construct factory path name h = (h1, res) \<Longrightarrow> client_frame h h1"
  by (auto simp: factory_create_entity_def intro: frame_trans [OF frame_alloc frame_session(1)]
      split: option.splits prod.splits)

lemma frame_factory_handler:
  assumes "client_ok h"
  shows "client_frame h (fst (client_factory_create_handler ft construct creatable name request_id h))"
proof -
  have "client_frame h (fst (client_activate_entity ft (Some r) ASYNC_REPLY i (root_add_child ft r b h1)))"
    "client_frame h (client_send ct as h1)"
    if h1: "factory_create_entity construct factory path nm h = (h1, res)" and "heap h1 r \<noteq> None"
    for factory path nm h1 res r i b ct as
    using frame_factory_create [OF h1] frame_root_add_child [OF client_factory_create_ok(1) [OF assms h1] that(2)]
    by (blast intro: frame_trans frame_activate frame_session(15))+
  moreover have "client_frame h (client_send ct as h1)" if "factory_create_entity construct factory path nm h = (h1, None)"
    for factory path nm h1 ct as
    using frame_factory_create [OF that] by (blast intro: frame_trans frame_session(15))
  ultimately show ?thesis
    using client_factory_create_ok(2) [OF assms]
    by (fastforce simp: client_factory_create_handler_def split: sum.split option.split prod.split)
qed

lemma frame_create_entity:
  assumes "client_ok h"
  shows "client_frame h (fst (client_create_entity ft construct path name sendtype h))"
proof -
  have "client_frame h (root_add_child ft r b h1)"
    if h1: "factory_create_entity construct factory path name h = (h1, Some r)" for factory h1 r b
    using frame_trans [OF frame_factory_create [OF h1] frame_root_add_child [OF client_factory_create_ok(1) [OF assms h1]]]
      client_factory_create_ok(2) [OF assms h1] by blast
  then show ?thesis
    using frame_factory_create by (fastforce simp: client_create_entity_def split: sum.split option.split prod.split)
qed

lemma frame_hierarchy_receive:
  "client_ok h \<Longrightarrow> client_frame h (fst (client_hierarchy_on_receive_msg ft construct ind msg h))"
  by (simp add: client_hierarchy_on_receive_msg_def client_leave_handler_def client_destroy_entity_handler_def
      frame_destroy_found frame_create_proxy_handler frame_update_proxy_handler frame_factory_handler
      split: message_content.split)

lemma frame_session_receive: "client_frame h (client_session_on_receive_msg ft b msg h)"
proof -
  have "client_frame g (entity_set_owner (client_virtuals ft) b c u g)" for c u and g :: client
    by (auto simp: entity_set_owner_def Let_def intro: frame_trans [OF frame_session(1) frame_session(1)])
  then have "client_frame h (client_ownership_handler ft b path owner h)" for path owner
    by (auto simp: client_ownership_handler_def intro!: frame_fold split: option.split)
  then show ?thesis
    by (simp add: client_session_on_receive_msg_def cable_create_handler_def cable_destroy_handler_def
        Let_def frame_create_cable frame_destroy_cable split: message_content.split)
qed

text \<open>Values.\<close>

lemma frame_take_value: "client_frame h (fst (plug_take_value f r h))"
  by (auto simp: plug_take_value_def plug_received_value_def defer_compute_def
      intro: frame_trans [OF frame_session(1) frame_session(10)] split: option.split sum.split)

lemma frame_deliver: "client_frame h (fst (deliver_value receiver f cs h))"
proof (induction receiver f cs h rule: deliver_value.induct)
  case (2 receiver f c cs h)
  have "client_frame h h1" if "plug_take_value f plug h = (h1, err)" for plug h1 err
    using frame_take_value [of h f plug] that by simp
  then have "client_frame h (fst (deliver_value receiver f cs h1))"
    if "plug_take_value f plug h = (h1, None)" "client_frame h1 (fst (deliver_value receiver f cs h1))" for plug h1
    using that by (blast intro: frame_trans)
  moreover have "client_frame h h1" if "plug_take_value f plug h = (h1, err)" for plug h1 err
    using frame_take_value [of h f plug] that by simp
  ultimately show ?case using 2 by (auto split: option.split sum.split prod.split)
qed simp

lemma frame_sync_op: "client_frame h (entity_sync_op f r h)"
  by (auto simp: entity_sync_op_def entity_notify_def Let_def client_frame_def client_core_def upd_entity_def
      split: option.split prod.split)

lemma frame_graph_msg: "client_frame h (fst (client_session_on_graph_msg msg h))"
proof -
  have "client_frame h (fst (deliver_value receiver f cs (entity_sync_op k r (upd_entity r g h))))" for receiver f cs k r g
    by (rule frame_trans [OF frame_trans [OF frame_session(1) frame_sync_op] frame_deliver])
  then show ?thesis
    by (simp add: client_session_on_graph_msg_def Let_def frame_deliver split: option.split sum.split)
qed

lemma frame_fire: "client_frame h (fst (output_plug_fire ft plug h))"
proof -
  have deliver: "client_frame h g" if "deliver_value receiver f cs h = (g, err)" for receiver f cs g err
    using frame_deliver [of h receiver f cs] that by simp
  have publish: "client_frame g g'" if "publish_value ft plug g = (g', err)" for g g' err
    using that by (auto simp: publish_value_def split: option.splits sum.splits if_splits)
  have clear: "client_frame h (upd_entity r k g')"
    if "deliver_value receiver f cs h = (g, err)" "publish_value ft plug g = (g', err')" for receiver f cs g g' err err' r k
    using frame_trans [OF frame_trans [OF deliver [OF that(1)] publish [OF that(2)]] frame_session(1)] .
  show ?thesis
    by (auto simp: output_plug_fire_def intro: deliver frame_trans [OF deliver publish] clear
        split: option.split prod.split)
qed

text \<open>Requests and the responses of hierarchy and session.\<close>

lemma frame_requests:
  shows "client_frame h (fst (client_connect_cable ip op sendtype h))"
    and "client_frame h (fst (client_destroy_cable cable sendtype h))"
    and "client_frame h (fst (client_observe_entity r sendtype h))"
    and "client_frame h (aquire_entity_ownership r h)" and "client_frame h (release_entity_ownership r h)"
proof -
  have send: "client_frame g (fst (send_cable_request content action sendtype c g))" for g content action c
    by (rule frame_preserves [OF outbox_step_frame(1) [OF send_cable_request_outbox]])
  have "client_frame h g" if "connect_cable ip op h = (g, res)" for g res
    using frame_connect_cable [of h ip op] that by simp
  moreover have "client_frame h g'"
    if "connect_cable ip op h = (g, res)" "send_cable_request content action sendtype c g = (g', err)" for g g' res err content action c
    using frame_trans [OF calculation [OF that(1)] send] that(2) by (metis fst_conv)
  ultimately show "client_frame h (fst (client_connect_cable ip op sendtype h))"
    by (auto simp: client_connect_cable_def split: option.split prod.split)
  show "client_frame h (fst (client_destroy_cable cable sendtype h))"
    using send by (simp add: client_destroy_cable_def split: option.split)
  show "client_frame h (fst (client_observe_entity r sendtype h))"
    by (simp add: client_observe_entity_def split: sum.split bool.split)
  show "client_frame h (aquire_entity_ownership r h)" "client_frame h (release_entity_ownership r h)"
    by (simp_all add: aquire_entity_ownership_def release_entity_ownership_def send_ownership_request_def)
qed

lemma frame_session_response: "client_frame h (fst (client_session_on_response ft action response h))"
  by (cases action) (simp_all add: session_response_defs frame_destroy_cable cable_enqueue_activation_def)

lemma frame_hierarchy_response:
  assumes "client_ok h" and "action_ready action h"
  shows "client_frame h (fst (client_hierarchy_on_response ft draft action response h))"
proof -
  have act: "client_frame h h1" if "client_activate_entity_complete ft draft r h = (h1, err)" "action = CL_EntityActivated r i"
    for r i h1 err
    using frame_preserves [OF client_activated_preserves [of h r ft draft]] assms that by (simp add: action_ready_def)
  have created: "client_frame h (factory_created_event factory created h)" for factory created
    unfolding factory_created_event_def by (rule frame_preserves [OF preserves_trans [OF preserves_upd preserves_notify]]) auto
  have destroyed: "client_frame h (client_destroy_entity_complete (client_virtuals ft) (Some r) h)" if "heap h r \<noteq> None" for r
    using that by (intro frame_preserves client_destroy_preserves) simp
  show ?thesis
    using act created destroyed
    by (cases action)
       (auto simp: hierarchy_response_defs intro: frame_trans [OF _ frame_session(15)] split: option.split prod.split message_content.split)
qed

text \<open>Events. The application keeps the frame when its \<open>compute\<close> does.\<close>

definition compute_inv :: "(ref \<Rightarrow> ref \<Rightarrow> client \<Rightarrow> client) \<Rightarrow> bool" where
  "compute_inv compute \<longleftrightarrow> compute_ok compute \<and> (\<forall>c p h. client_frame h (compute c p h))"

lemma frame_hierarchy_process:
  assumes "client_hierarchy_process_events ft draft n h = Some h'"
  shows "client_frame h h'"
proof -
  obtain g where g: "process_events m_hierarchy_events upd_client_hierarchy_events (\<lambda>_. True)
        (run_client_hierarchy_event ft draft) (\<lambda>_ _ h. h) n h = Some g"
      "hierarchy_process_sync_events (client_virtuals ft) n g = Some h'"
    using assms by (auto simp: client_hierarchy_process_events_def bind_eq_Some_conv)
  have run: "client_frame t (fst (run_client_hierarchy_event ft draft e a t))" for e a t
  proof -
    have "client_frame t (session_register_entity (client_virtuals ft) r t)" for r
      by (rule frame_preserves [OF preserves_session_register])
    moreover have "client_frame t t'" if "client_on_entity_arriving draft r t = (t', err)" for r t' err
      using frame_preserves [OF preserves_arriving [of t draft r]] that by simp
    ultimately show ?thesis by (cases e; cases a; simp split: prod.split)
  qed
  have "client_frame h g" by (rule frame_process_events [OF g(1)]) (simp_all add: upd_client_hierarchy_events_def run)
  also have "client_frame g h'" by (rule frame_more) (rule client_reaper.process_sync_more [OF g(2)])
  finally show ?thesis .
qed

lemma frame_own:
  assumes "compute_inv compute" and "session_process_own_events (client_virtuals ft) compute n h = Some h'"
  shows "client_frame h h'"
proof -
  obtain g where g: "process_events m_session_events upd_session_events (\<lambda>_. True) (\<lambda>_ _ s. (s, True))
        (\<lambda>_ _ s. s) n h = Some g"
      "process_events m_compute_events upd_compute_events (\<lambda>_. True) (run_compute_event (client_virtuals ft) compute)
        (\<lambda>_ _ s. s) n g = Some h'"
    using assms(2) by (auto simp: session_process_own_events_def bind_eq_Some_conv)
  have "client_frame h g" by (rule frame_process_events [OF g(1)]) (simp_all add: upd_session_events_def)
  also have "client_frame g h'"
    using assms(1)
    by (intro frame_process_events [OF g(2)])
       (auto simp: upd_compute_events_def run_compute_event_def compute_inv_def split: compute_event.split option.split)
  finally show ?thesis .
qed

lemma frame_session_sync:
  assumes "session_process_sync_events (client_virtuals ft) n h = Some h'"
  shows "client_frame h h'"
proof -
  obtain t where t: "process_events (\<lambda>s. m_module_events (s_module s)) upd_s_module_events (\<lambda>_. True)
      (run_session_module_event (client_virtuals ft)) (\<lambda>_ _ s. s) n h = Some t"
    and h': "h' = (session_reap_all (client_virtuals ft) t)
      \<lparr>s_module := (s_module (session_reap_all (client_virtuals ft) t))\<lparr>m_dead_syncronisable_IDS := {}\<rparr>\<rparr>"
    using assms by (auto simp: session_process_sync_events_def Let_def split: option.splits)
  have "client_frame g (fst (run_session_module_event (client_virtuals ft) pi a g))" for pi a g
    by (auto simp: run_session_module_event_def frame_cable_process
        intro: frame_preserves [OF client_reaper.entity_process_ok] split: sync_ref.split)
  then have "client_frame h t" by (intro frame_process_events [OF t]) (simp_all add: upd_s_module_events_def)
  also have "client_frame t (session_reap_all (client_virtuals ft) t)"
  proof -
    have "client_frame g (fold reap_cable cs g)" for cs g by (rule frame_fold) simp
    moreover have "client_frame g (fold (\<lambda>p s. case p of EntityRef r \<Rightarrow> delete_entity (client_virtuals ft) r s | CableRef _ \<Rightarrow> s) is g)" for "is" g
      by (rule frame_fold) (simp add: frame_more client_reaper.delete_entity_more split: sync_ref.split)
    ultimately show ?thesis
      unfolding session_reap_all_def Let_def
      by (intro frame_trans [OF frame_trans [OF frame_trans [OF frame_session(8)]] frame_session(8)])
  qed
  finally show ?thesis unfolding h' by (rule frame_trans) simp
qed

lemma frame_session_process:
  assumes "compute_inv compute" and "client_session_process_events ft draft compute n h = Some h'"
  shows "client_frame h h'"
proof -
  obtain t u where st: "client_hierarchy_process_events ft draft n h = Some t"
      "session_process_own_events (client_virtuals ft) compute n t = Some u"
      "session_process_sync_events (client_virtuals ft) n u = Some h'"
    using assms(2) unfolding client_session_process_events_def bind_eq_Some_conv
    by (elim exE conjE) (rule that; assumption)
  show ?thesis
    by (rule frame_trans [OF frame_trans [OF frame_hierarchy_process [OF st(1)] frame_own [OF assms(1) st(2)]]
          frame_session_sync [OF st(3)]])
qed

section \<open>The invariant\<close>

text \<open>
  A client is never connecting and connected at once, its heartbeat runs while it is connected, the beacons
  are ordered by name with one of each name, and every beacon has its time stamp. \<open>c_is_ending\<close> holds only
  within \<open>client_destroy\<close>.
\<close>

definition connection_ok :: "client \<Rightarrow> bool" where
  "connection_ok h \<longleftrightarrow>
     \<not> (m_connected_to_stage h \<and> m_is_connecting h) \<and> (m_connected_to_stage h \<longrightarrow> m_heartbeat_timer h) \<and>
     \<not> c_is_ending h \<and> m_connected_performers h = [] \<and>
     sorted_wrt server_address_less (m_server_beacons h) \<and>
     map fst (m_server_beacon_timestamps h) = m_server_beacons h"

definition client_inv :: "client \<Rightarrow> bool" where
  "client_inv h \<longleftrightarrow> client_ok h \<and> connection_ok h"

lemma connection_ok_frame: "client_frame h h' \<Longrightarrow> connection_ok h \<Longrightarrow> connection_ok h'"
  by (simp add: client_frame_def client_core_def connection_ok_def)

lemma client_inv_frame: "client_frame h h' \<Longrightarrow> client_ok h' \<Longrightarrow> client_inv h \<Longrightarrow> client_inv h'"
  using connection_ok_frame by (simp add: client_inv_def)

lemma client_inv_preserves: "preserves h h' \<Longrightarrow> client_inv h \<Longrightarrow> client_inv h'"
  by (rule client_inv_frame [OF frame_preserves]) (auto simp: client_inv_def intro: client_ok_preserves)

lemma client_inv_send [simp]: "client_inv h \<Longrightarrow> client_inv (client_send c a h)"
  by (rule client_inv_preserves [OF outbox_step_frame(1) [OF outbox_step_send]])

text \<open>The fields of \<open>ZstClient\<close> have no part in the invariant of session and hierarchy.\<close>

lemma client_ok_same:
  assumes "hierarchy.truncate h' = hierarchy.truncate h" and "session.truncate h' = session.truncate h" and "m_root h' = m_root h"
  shows "client_ok h' = client_ok h"
  using assms
  by (cases h; cases h')
     (simp add: client_ok_def session_ok_def root_ok_def hierarchy_ok_def lookup_sound_def cables_ok_def reap_items_def
       hierarchy_attached_def entity_test_def hierarchy.truncate_def session.truncate_def cable_at_def)

lemma client_ok_fields [simp]:
  "client_ok (h\<lparr>m_ping := x1\<rparr>) = client_ok h" "client_ok (h\<lparr>c_is_ending := x2\<rparr>) = client_ok h"
  "client_ok (h\<lparr>c_is_destroyed := x3\<rparr>) = client_ok h" "client_ok (h\<lparr>m_init_completed := x4\<rparr>) = client_ok h"
  "client_ok (h\<lparr>m_connected_to_stage := x5\<rparr>) = client_ok h" "client_ok (h\<lparr>m_is_connecting := x6\<rparr>) = client_ok h"
  "client_ok (h\<lparr>m_connected_server := x7\<rparr>) = client_ok h" "client_ok (h\<lparr>m_server_beacons := x8\<rparr>) = client_ok h"
  "client_ok (h\<lparr>m_server_beacon_timestamps := x9\<rparr>) = client_ok h" "client_ok (h\<lparr>m_auto_join_stage := x10\<rparr>) = client_ok h"
  "client_ok (h\<lparr>m_auto_join_stage_requests := x11\<rparr>) = client_ok h"
  "client_ok (h\<lparr>m_pending_peer_connections := x12\<rparr>) = client_ok h"
  "client_ok (h\<lparr>m_connection_timers := x13\<rparr>) = client_ok h" "client_ok (h\<lparr>m_heartbeat_timer := x14\<rparr>) = client_ok h"
  "client_ok (h\<lparr>m_connection_events := x15\<rparr>) = client_ok h" "client_ok (h\<lparr>m_stage_connection := x16\<rparr>) = client_ok h"
  "client_ok (h\<lparr>m_graph_connections := x17\<rparr>) = client_ok h"
  by (rule client_ok_same; simp add: hierarchy.defs session.defs)+

lemma client_inv_fields [simp]:
  "client_inv (h\<lparr>m_ping := x1\<rparr>) = client_inv h" "client_inv (h\<lparr>c_is_destroyed := x3\<rparr>) = client_inv h"
  "client_inv (h\<lparr>m_init_completed := x4\<rparr>) = client_inv h" "client_inv (h\<lparr>m_connected_server := x7\<rparr>) = client_inv h"
  "client_inv (h\<lparr>m_auto_join_stage := x10\<rparr>) = client_inv h"
  "client_inv (h\<lparr>m_auto_join_stage_requests := x11\<rparr>) = client_inv h"
  "client_inv (h\<lparr>m_pending_peer_connections := x12\<rparr>) = client_inv h"
  "client_inv (h\<lparr>m_connection_timers := x13\<rparr>) = client_inv h" "client_inv (h\<lparr>m_connection_events := x15\<rparr>) = client_inv h"
  "client_inv (h\<lparr>m_stage_connection := x16\<rparr>) = client_inv h" "client_inv (h\<lparr>m_graph_connections := x17\<rparr>) = client_inv h"
  "client_inv (h\<lparr>m_graph_outbox := x18\<rparr>) = client_inv h" "client_inv (connection_defer e h) = client_inv h"
  "client_inv (upd_connection_events f h) = client_inv h"
  by (simp_all add: client_inv_def connection_ok_def connection_defer_def upd_connection_events_def)

text \<open>\<open>await\<close> stands for steps of the same client.\<close>

definition await_ok :: "(client \<Rightarrow> client option) \<Rightarrow> bool" where
  "await_ok await \<longleftrightarrow> (\<forall>h h'. client_inv h \<longrightarrow> await h = Some h' \<longrightarrow> client_inv h')"

lemma compute_invD: "compute_inv compute \<Longrightarrow> compute_ok compute"
  by (simp add: compute_inv_def)

lemma hierarchy_process_inv:
  "client_inv h \<Longrightarrow> client_hierarchy_process_events ft draft n h = Some h' \<Longrightarrow> client_inv h'"
  using client_inv_frame frame_hierarchy_process client_hierarchy_process_ok by (metis client_inv_def)

lemma session_process_inv:
  "compute_inv compute \<Longrightarrow> client_inv h \<Longrightarrow> client_session_process_events ft draft compute n h = Some h' \<Longrightarrow> client_inv h'"
  using client_inv_frame frame_session_process client_session_process_ok compute_invD by (metis client_inv_def)

lemma process_events_inv:
  assumes "compute_inv compute" and "client_inv h" and "client_process_events ft draft compute n h = Some h'"
  shows "client_inv h'"
proof (cases "\<not> m_init_completed h \<or> c_is_destroyed h \<or> c_is_ending h")
  case False
  then obtain g where g: "client_session_process_events ft draft compute n h = Some g"
      "process_events m_connection_events upd_connection_events (\<lambda>_. True) (\<lambda>_ _ h. (h, True)) (\<lambda>_ _ h. h) n g = Some h'"
    using assms(3) by (auto simp: client_process_events_def bind_eq_Some_conv)
  show ?thesis
    by (rule process_events_invariant [OF g(2), where I = client_inv])
       (simp_all add: session_process_inv [OF assms(1,2) g(1)])
qed (use assms in \<open>simp add: client_process_events_def\<close>)

lemma process_if_sync_inv:
  "compute_inv compute \<Longrightarrow> client_inv h \<Longrightarrow> process_if_sync ft draft compute n sendtype h = Some h' \<Longrightarrow> client_inv h'"
  using process_events_inv by (auto simp: process_if_sync_def split: if_splits)

lemma enqueue_inv [simp]:
  "client_inv h \<Longrightarrow> client_inv (entity_enqueue_activation r h)" "client_inv h \<Longrightarrow> client_inv (entity_enqueue_deactivation r h)"
  by (erule client_inv_preserves [rotated], simp add: preserves_enqueue)+

lemma leave_complete_ok:
  assumes "compute_inv compute" and "client_inv (close_connections h)" and "\<not> m_connected_to_stage h \<longrightarrow> client_inv h"
    and "leave_stage_complete ft draft compute n sendtype h = Some h'"
  shows "client_inv h'"
proof (cases "m_connected_to_stage h")
  case True
  let ?h2 = "fold entity_enqueue_deactivation (root_and_children (close_connections h)) (close_connections h)"
  obtain h3 h4 where st: "process_if_sync ft draft compute n sendtype ?h2 = Some h3"
      "process_if_sync ft draft compute n sendtype
         (connection_defer CE_DisconnectedFromServer (dispatch_disconnected_from_stage h3)) = Some h4"
    and h': "h' = h4\<lparr>m_connected_server := \<lparr>server_name = '''', server_address = ''''\<rparr>\<rparr>"
    using assms(4) True by (auto simp: leave_stage_complete_def Let_def bind_eq_Some_conv)
  have "client_inv ?h2" by (rule fold_invariant [where I = client_inv]) (simp_all add: assms(2))
  then have "client_inv h3" by (rule process_if_sync_inv [OF assms(1) _ st(1)])
  then have "client_inv h4"
    by (intro process_if_sync_inv [OF assms(1) _ st(2)]) (simp add: dispatch_disconnected_from_stage_def)
  then show ?thesis by (simp add: h')
qed (use assms in \<open>simp add: leave_stage_complete_def\<close>)

lemma client_inv_close: "client_inv h \<Longrightarrow> client_inv (close_connections h)"
  by (simp add: client_inv_def connection_ok_def close_connections_def)

lemma leave_complete_inv:
  "compute_inv compute \<Longrightarrow> client_inv h \<Longrightarrow> leave_stage_complete ft draft compute n sendtype h = Some h' \<Longrightarrow> client_inv h'"
  using leave_complete_ok client_inv_close by blast

lemma leave_stage_inv:
  assumes "compute_inv compute" and "client_inv h" and "leave_stage ft draft compute n h = Some h'"
  shows "client_inv h'"
proof -
  let ?h1 = "if m_connected_to_stage h
     then client_send (Content_ClientLeaveRequest (uri_path (root_uri h)) ClientLeaveReason_QUIT) transport_args
            (h\<lparr>m_is_connecting := False\<rparr>) else h"
  obtain g where g: "leave_stage_complete ft draft compute n PUBLISH ?h1 = Some g"
      "client_process_events ft draft compute n g = Some h'"
    using assms(3) by (auto simp: leave_stage_def bind_eq_Some_conv)
  have "client_inv (h\<lparr>m_is_connecting := False\<rparr>)" using assms(2) by (simp add: client_inv_def connection_ok_def)
  then have "client_inv ?h1" using assms(2) by simp
  then show ?thesis by (rule process_events_inv [OF assms(1) leave_complete_inv [OF assms(1) _ g(1)] g(2)])
qed

lemma destroy_inv:
  assumes "compute_inv compute" and "client_inv h" and "client_destroy ft draft compute n h = Some h'"
  shows "client_inv h'"
proof -
  let ?h1 = "h\<lparr>m_init_completed := False\<rparr>"
  have h1: "client_inv ?h1" using assms(2) by simp
  show ?thesis
  proof (cases "c_is_ending h \<or> c_is_destroyed h")
    case False
    then obtain g where g: "(if m_connected_to_stage ?h1 then leave_stage ft draft compute n ?h1 else Some ?h1) = Some g"
        and h': "h' = g\<lparr>c_is_ending := False, c_is_destroyed := True\<rparr>"
      using assms(3) unfolding client_destroy_def Let_def by (auto simp only: if_False map_option_eq_Some)
    have "client_inv g"
      using g h1 leave_stage_inv [OF assms(1) h1] by (cases "m_connected_to_stage ?h1") simp_all
    then show ?thesis by (simp add: h' client_inv_def connection_ok_def)
  qed (use assms in \<open>simp add: client_destroy_def\<close>)
qed

text \<open>Joining.\<close>

lemma join_stage_inv: "client_inv h \<Longrightarrow> client_inv (fst (join_stage ft addrs server sendtype h))"
proof -
  assume inv: "client_inv h"
  have "client_inv (h\<lparr>m_is_connecting := True, m_stage_connection := x\<rparr>)" if "\<not> m_connected_to_stage h" for x
    using inv that by (simp add: client_inv_def connection_ok_def)
  with inv show ?thesis by (simp add: join_stage_def Let_def split: option.split)
qed

lemma join_activating_ok: "client_ok h \<Longrightarrow> client_ok (join_activating r h)"
proof -
  have "preserves h (upd_entity r attach_local h)"
    by (rule preserves_upd) (simp_all add: attach_local_def sync_add_adaptor_def identity_def)
  moreover have "preserves g (upd_entity r set_activating g)" for g :: client by (rule preserves_status(4))
  moreover have "preserves g (entity_enqueue_activation r g)" for g :: client by (rule preserves_enqueue(1))
  ultimately have "preserves h (join_activating r h)" unfolding join_activating_def by (blast intro: preserves_trans)
  then show "client_ok h \<Longrightarrow> client_ok (join_activating r h)" by (rule client_ok_preserves)
qed

lemma frame_join_activating: "client_frame h (join_activating r h)"
  unfolding join_activating_def entity_enqueue_activation_def
  by (rule frame_trans [OF frame_trans [OF frame_session(1) frame_session(1)] frame_sync_op])

lemma client_inv_activate: "client_inv h \<Longrightarrow> client_inv (fst (client_activate_entity ft entity sendtype reply_to h))"
  by (rule client_inv_preserves [OF client_activate_preserves])

lemma post_join_inv:
  assumes "await_ok await" and "client_inv h" and "post_join_activation ft draft await n sendtype cs h = Some (h', err)"
  shows "client_inv h'"
  using assms
proof (induction ft draft await n sendtype cs h rule: post_join_activation.induct)
  case (2 ft draft await n sendtype c cs h)
  obtain h1 e where h1: "client_activate_entity ft (Some c) sendtype None h = (h1, e)" by fastforce
  then have inv: "client_inv h1" using client_inv_activate [OF 2(4), of ft "Some c" sendtype None] by simp
  show ?case
  proof (cases e)
    case None
    show ?thesis
    proof (cases "activation_requested h c \<and> sendtype = SYNC_REPLY")
      case True
      then obtain g1 g2 where g: "await h1 = Some g1" "client_hierarchy_process_events ft draft n g1 = Some g2"
          "post_join_activation ft draft await n sendtype cs g2 = Some (h', err)"
        using 2(5) h1 None by (auto simp: bind_eq_Some_conv)
      have "client_inv g2" using inv g(1) 2(3) by (intro hierarchy_process_inv [OF _ g(2)]) (auto simp: await_ok_def)
      moreover have "Option.bind (await h1) (client_hierarchy_process_events ft draft n) = Some g2" using g by simp
      ultimately show ?thesis using 2(1) h1 None True g(3) 2(3) by auto
    next
      case False
      then show ?thesis using 2(2) h1 None 2(3,5) inv by auto
    qed
  qed (use 2(5) h1 inv in simp)
qed simp

lemma join_complete_inv:
  assumes "compute_inv compute" and "await_ok await" and "client_inv h"
    and "join_stage_complete ft draft compute await n server response sendtype h = Some (h', err)"
  shows "client_inv h'"
proof -
  define h1 where "h1 = h\<lparr>m_is_connecting := False, m_connected_to_stage := True, m_connected_server := server\<rparr>"
  show ?thesis
  proof (cases "verify_signal response Signal_OK")
    case False
    then have "leave_stage_complete ft draft compute n sendtype h1 = Some h'"
      using assms(4) by (auto simp: join_stage_complete_def h1_def Let_def)
    moreover have "client_inv (close_connections h1)"
      using assms(3) by (simp add: client_inv_def connection_ok_def close_connections_def h1_def)
    ultimately show ?thesis using assms(1) by (auto intro: leave_complete_ok simp: h1_def)
  next
    case True
    define g where "g = fold join_activating (root_and_children h1) h1"
    define h3 where "h3 = synchronise_graph sendtype ((dispatch_connected_to_stage g)\<lparr>m_heartbeat_timer := True\<rparr>)"
    have "client_ok h1" using assms(3) by (simp add: client_inv_def h1_def)
    then have "client_ok g" unfolding g_def by (rule fold_invariant [where I = client_ok]) (rule join_activating_ok)
    moreover have "client_frame h1 g" unfolding g_def by (rule frame_fold) (rule frame_join_activating)
    then have "client_frame h1 (dispatch_connected_to_stage g)"
      unfolding dispatch_connected_to_stage_def entity_enqueue_activation_def by (rule frame_trans) (rule frame_sync_op)
    then have "connection_ok ((dispatch_connected_to_stage g)\<lparr>m_heartbeat_timer := True\<rparr>)"
      using assms(3) by (auto simp: client_frame_def client_core_def connection_ok_def client_inv_def h1_def)
    ultimately have inv3: "client_inv h3"
      using client_ok_preserves [OF preserves_enqueue(1)]
      by (simp add: h3_def synchronise_graph_def client_inv_def [of "_\<lparr>m_heartbeat_timer := True\<rparr>"] dispatch_connected_to_stage_def)
    obtain h4 h5 e where st: "await_if_sync await sendtype h3 = Some h4"
        "post_join_activation ft draft await n sendtype
           (get_child_entities client_queries tree_depth h4 (m_root h4) False True ET_NONE) h4 = Some (h5, e)"
        "(case e of Some e \<Rightarrow> Some (h5, Some e)
          | None \<Rightarrow> map_option (\<lambda>g. (g, None)) (process_if_sync ft draft compute n sendtype
              (connection_defer (CE_ConnectedToServer server) (dispatch_connected_to_stage h5)))) = Some (h', err)"
      using assms(4) True
      unfolding join_stage_complete_def Let_def h1_def [symmetric] g_def [symmetric] h3_def [symmetric]
      by (auto simp: bind_eq_Some_conv split: option.splits)
    have "client_inv h4" using st(1) inv3 assms(2) by (auto simp: await_if_sync_def await_ok_def split: if_splits)
    then have inv5: "client_inv h5" by (rule post_join_inv [OF assms(2) _ st(2)])
    show ?thesis
      using st(3) inv5
      by (cases e)
         (auto simp: dispatch_connected_to_stage_def elim!: process_if_sync_inv [OF assms(1), rotated])
  qed
qed

text \<open>The heartbeat and the beacons.\<close>

lemma heartbeat_timer_inv: "client_inv h \<Longrightarrow> client_inv (heartbeat_timer now h)"
  by (simp add: heartbeat_timer_def client_inv_def connection_ok_def client_send_def)
     (metis client_ok_fields(14) client_ok_send client_send_def)

interpretation stamp_set: keyed_order stamp_less "\<lambda>p. map uchar (server_name (fst p))"
  by unfold_locales (simp add: stamp_less_def server_set.lt_key)

text \<open>A table whose keys are the set behaves as the set does: finding, inserting and erasing a key.\<close>

lemma stamps_insert:
  "map fst (oset_insert stamp_less (s, t) ts) = oset_insert server_address_less s (map fst ts)"
  by (induction ts) (auto simp: stamp_less_def)

lemma stamps_erase:
  "map fst (oset_erase stamp_less (s, t) ts) = oset_erase server_address_less s (map fst ts)"
  by (induction ts) (auto simp: stamp_less_def)

lemma stamps_find:
  "map_option fst (oset_find stamp_less (s, t) ts) = oset_find server_address_less s (map fst ts)"
  by (induction ts) (auto simp: stamp_less_def)

lemma set_timestamp_keys:
  "oset_member server_address_less s (map fst ts) \<Longrightarrow> map fst (set_timestamp s now ts) = map fst ts"
  using stamps_find [of s now ts] by (auto simp: set_timestamp_def split: option.split)

lemma discovery_inv: "client_inv h \<Longrightarrow> client_inv (fst (server_discovery_handler server now h))"
proof -
  assume inv: "client_inv h"
  then have keys: "map fst (m_server_beacon_timestamps h) = m_server_beacons h"
    and sorted: "sorted_wrt server_address_less (m_server_beacons h)"
    by (simp_all add: client_inv_def connection_ok_def)
  have "client_inv (h\<lparr>m_server_beacon_timestamps := set_timestamp server now (m_server_beacon_timestamps h)\<rparr>)"
    if "oset_member server_address_less server (m_server_beacons h)"
    using inv set_timestamp_keys [of server "m_server_beacon_timestamps h" now] keys that
    by (simp add: client_inv_def connection_ok_def)
  moreover have "client_inv (h\<lparr>m_server_beacons := oset_insert server_address_less server (m_server_beacons h),
      m_server_beacon_timestamps := oset_insert stamp_less (server, now) (m_server_beacon_timestamps h)\<rparr>)"
    using inv keys sorted by (simp add: client_inv_def connection_ok_def stamps_insert server_set.sorted_oset_insert)
  ultimately show ?thesis
    by (simp add: server_discovery_handler_def Let_def split: option.split beacon_promise.split)
qed

lemma lost_beacon_inv: "client_inv h \<Longrightarrow> client_inv (lost_server_beacon server h)"
  by (simp add: lost_server_beacon_def client_inv_def connection_ok_def stamps_erase server_set.sorted_oset_erase)
     (simp add: connection_defer_def upd_connection_events_def stamps_erase server_set.sorted_oset_erase)

lemma beaconcheck_inv: "client_inv h \<Longrightarrow> client_inv (beaconcheck_timer now h)"
  unfolding beaconcheck_timer_def by (rule fold_invariant [where I = client_inv]) (auto intro: lost_beacon_inv)

lemma auto_join_inv:
  "client_inv h \<Longrightarrow> client_inv (fst (auto_join_stage ft addrs name sendtype h))"
  "client_inv h \<Longrightarrow> client_inv (fst (join_on_beacon ft addrs name sendtype h))"
proof -
  show "client_inv h \<Longrightarrow> client_inv (fst (auto_join_stage ft addrs name sendtype h))"
    by (simp add: auto_join_stage_def Let_def join_stage_inv split: option.split)
  have "client_inv g" if "client_inv h" "join_stage ft addrs server sendtype h = (g, err)" for server g err
    using join_stage_inv [OF that(1), of ft addrs server sendtype] that(2) by simp
  then show "client_inv h \<Longrightarrow> client_inv (fst (join_on_beacon ft addrs name sendtype h))"
    by (auto simp: join_on_beacon_def forget_join_request_def split: option.split beacon_promise.split prod.split)
qed

text \<open>Messages for the client itself, plugins and responses.\<close>

lemma handshake_inv: "client_inv h \<Longrightarrow> client_inv (fst (connection_handshake_handler msg h))"
  by (simp add: connection_handshake_handler_def Let_def split: option.split)

lemma broadcast_inv: "client_inv h \<Longrightarrow> client_inv (fst (send_connection_broadcast receiver sender h))"
  by (simp add: send_connection_broadcast_def graph_send_def)

lemma client_receive_inv:
  assumes "compute_inv compute" and "client_inv h"
    and "client_on_receive_msg ft draft compute n connects msg h = Some (h', err)"
  shows "client_inv h'"
proof -
  have "client_inv (fst (start_connection_broadcast_handler p h))" "client_inv (fst (stop_connection_broadcast_handler p h))"
    "client_inv (listen_to_client_handler connects p a i h)" for p a i
    using assms(2)
    by (simp_all add: start_connection_broadcast_handler_def stop_connection_broadcast_handler_def
        listen_to_client_handler_def tcp_graph_connect_def split: option.split)
  then show ?thesis
    using assms(2,3) leave_complete_inv [OF assms(1,2)]
    by (auto simp: client_on_receive_msg_def server_status_handler_def split: message_content.splits if_splits)
       (metis fst_conv)+
qed

lemma plugin_loaded_preserves:
  assumes "client_ok h" and "\<forall>f\<in>set fs. heap h f \<noteq> None"
  shows "preserves h (fst (on_plugin_loaded ft fs h))"
  using assms
proof (induction ft fs h rule: on_plugin_loaded.induct)
  case (2 ft f fs h)
  let ?h1 = "root_add_child ft f True h"
  have p1: "preserves h ?h1"
    unfolding root_add_child_def using 2(3,4)
    by (intro client_reaper.add_child_ok client_reaper.set_parent_ok) (auto dest: client_okD(3))
  have live: "\<forall>f\<in>set fs. heap g f \<noteq> None" if "preserves h g" for g
    using 2(4) preserves_live [OF that] by auto
  obtain h2 e where h2: "client_activate_entity ft (Some f) ASYNC_REPLY None ?h1 = (h2, e)" by fastforce
  then have p2: "preserves h h2" using preserves_trans [OF p1 client_activate_preserves] by (metis fst_conv)
  note ok = client_ok_preserves [OF p1 2(3)] client_ok_preserves [OF p2 2(3)]
  show ?case
  proof (cases "m_connected_to_stage ?h1")
    case True
    then show ?thesis
      using 2(1) [OF refl True h2 [symmetric]] h2 p2 preserves_trans [OF p2] ok(2) live [OF p2] by (cases e) (simp_all add: Let_def)
  next
    case False
    then show ?thesis using preserves_trans [OF p1 2(2) [OF refl False ok(1) live [OF p1]]] by (simp add: Let_def)
  qed
qed simp

lemma plugin_loaded_inv:
  "client_inv h \<Longrightarrow> \<forall>f\<in>set fs. heap h f \<noteq> None \<Longrightarrow> client_inv (fst (on_plugin_loaded ft fs h))"
  using client_inv_preserves [OF plugin_loaded_preserves] by (simp add: client_inv_def)

lemma response_inv:
  assumes "compute_inv compute" and "await_ok await" and "client_inv h" and "action_ready action h"
    and "client_on_response ft draft compute await n now sendtype action response h = Some (h', err)"
  shows "client_inv h'"
proof -
  have ok: "client_ok h" using assms(3) by (simp add: client_inv_def)
  have hier: "client_inv g" if "client_hierarchy_on_response ft draft action response h = (g, e)" for g e
    using client_inv_frame [OF frame_hierarchy_response [OF ok assms(4)] client_hierarchy_response_ok [OF ok assms(4)] assms(3)]
      that by (metis fst_conv)
  have sess: "client_inv g" if "client_session_on_response ft action response h = (g, e)" for g e
    using client_inv_frame [OF frame_session_response client_session_response_ok [OF ok] assms(3)] that by (metis fst_conv)
  have sync: "client_inv (synchronise_graph_complete h)" using assms(3) by (simp add: synchronise_graph_complete_def)
  have join: "client_inv h'" if "join_response ft draft compute await n server response sendtype h = Some (h', err)" for server
    using that assms(3) join_complete_inv [OF assms(1,2,3)] by (auto simp: join_response_def split: if_splits)
  have beat: "client_inv g" if "heartbeat_response ft draft compute n start now response h = Some g" for start g
    using that assms(3) leave_complete_inv [OF assms(1,3)] by (auto simp: heartbeat_response_def split: if_splits)
  show ?thesis
    using assms(5) hier sess sync join beat assms(3) unfolding client_on_response_def
    by (cases action) (auto split: if_splits)
qed

lemma request_returns_inv:
  assumes "compute_inv compute" and "client_inv h"
    and "client_request_returns ft draft compute n action response h = Some h'"
  shows "client_inv h'"
  using assms(2,3) hierarchy_process_inv [OF assms(2)] session_process_inv [OF assms(1,2)]
  by (auto simp: client_request_returns_def split: client_action.splits if_splits)

end
