(* ===== verification/Zst_Client_Protocol.thy ===== *)
theory Zst_Client_Protocol
  imports Zst_Client_Invariant Zst_Relay
begin

text \<open>
  A client as a transition system: the steps its threads take, in any order. The invariant of
  \<open>Zst_Client_Invariant\<close> holds in every state that can be reached from \<open>init_client\<close> in one life of the client.
\<close>

section \<open>The initial state\<close>

lemma client_new_ok: "session_ok client_new" "connection_ok client_new"
  by (simp_all add: client_new_def session_ok_def hierarchy_ok_def lookup_sound_def cables_ok_def reap_items_def
      connection_ok_def sync_module_new_def cable_at_def)

lemma hierarchy_init_inv:
  assumes "session_ok h" and "connection_ok h" and "m_proxies h = []" and "heap h (m_root h) = None"
  shows "client_inv (client_hierarchy_init name h)"
proof -
  define d where "d = h\<lparr>m_hierarchy_events := add_adaptor HierarchyModule (m_hierarchy_events h)\<rparr>"
  have root: "h\<lparr>m_hierarchy_events := add_adaptor HierarchyModule (m_hierarchy_events h), heap := (heap h)(m_root h := None)\<rparr> = d"
    using assms(4) by (simp add: d_def fun_upd_idem)
  have d: "preserves h d" unfolding d_def by (rule preserves_hierarchy_events)
  obtain r h1 where r: "alloc_entity (\<lambda>s. performer_new s name) d = (r, h1)" by fastforce
  have dok: "hierarchy_ok d" using assms(1) preserves_ok [OF d] by (simp add: session_ok_def)
  have h1: "hierarchy_ok h1" "heap h1 r \<noteq> None" "hierarchy.more h1 = hierarchy.more h"
    using alloc_entity_ok [OF dok, of "\<lambda>s. performer_new s name"] alloc_more [of "\<lambda>s. performer_new s name" d] r
    by (simp_all add: d_def)
  have perf: "entity_test is_performer h1 r"
    using r by (auto simp: alloc_entity_def Let_def entity_test_def performer_new_def is_performer_def
        component_new_def entity_init_def set_entity_type_def set_component_type_def split: prod.splits)
  have px: "m_proxies h1 = []" using r assms(3) by (auto simp: alloc_entity_def Let_def d_def split: prod.splits)
  define g where "g = h1\<lparr>m_root := r\<rparr>"
  have "session_ok h1" by (rule session_ok_more [OF assms(1) h1(1,3)])
  then have gok: "session_ok g"
    by (simp add: g_def session_ok_def hierarchy_ok_def lookup_sound_def cables_ok_def reap_items_def cable_at_def)
  have reg: "preserves g (register_entity r g)"
    using h1(2) by (intro preserves_register) (simp add: g_def)
  then have "m_proxies (register_entity r g) = []" "m_root (register_entity r g) = r" "session_ok (register_entity r g)"
    using px root_of_more [OF preserves_more [OF reg]] session_ok_preserves [OF reg gok]
    by (simp_all add: preserves_def g_def)
  moreover have "entity_test is_performer (register_entity r g) r"
    using performer_same [of g "register_entity r g" r] reg perf by (simp add: preserves_def g_def entity_test_def)
  moreover have "hierarchy_attached (register_entity r g) r"
    using h1(2) by (auto simp: hierarchy_attached_def entity_test_def register_entity_def g_def)
  moreover have "connection_ok (register_entity r g)"
  proof -
    have "client_frame h h1" using h1(3) by (rule frame_more)
    then have "connection_ok h1" using assms(2) by (rule connection_ok_frame)
    then have "connection_ok g" by (simp add: g_def connection_ok_def)
    then show ?thesis by (rule connection_ok_frame [OF frame_preserves [OF reg]])
  qed
  ultimately show ?thesis
    using r by (simp add: client_hierarchy_init_def root g_def [symmetric] client_inv_def client_ok_def root_ok_def)
qed

lemma init_client_inv:
  assumes "compute_inv compute" and "init_client ft draft compute n name client_new = Some h"
  shows "client_inv h"
proof -
  define h0 where "h0 = client_new\<lparr>c_is_destroyed := False, c_is_ending := False, m_connection_timers := {}\<rparr>"
  have h0: "h0 = client_new" by (simp add: h0_def client_new_def)
  define h1 where "h1 = client_session_init name h0"
  have "session_ok (client_new\<lparr>m_hierarchy_events := d, m_compute_events := e\<rparr>)"
    "connection_ok (client_new\<lparr>m_hierarchy_events := d, m_compute_events := e\<rparr>)" for d e
    using client_new_ok
    by (simp_all add: session_ok_def hierarchy_ok_def lookup_sound_def cables_ok_def reap_items_def connection_ok_def cable_at_def)
  then have "client_inv h1"
    unfolding h1_def h0 client_session_init_def by (intro hierarchy_init_inv) (simp_all add: client_new_def)
  then have inv: "client_inv (session_register_entity (client_virtuals ft) (m_root h1) h1)" (is "client_inv ?h2")
    by (rule client_inv_preserves [OF preserves_session_register])
  then have "client_inv (?h2\<lparr>m_hierarchy_events := d\<rparr>)" for d
    by (rule client_inv_preserves [OF preserves_hierarchy_events])
  then have "client_inv (?h2\<lparr>m_hierarchy_events := d, m_init_completed := True\<rparr>)" for d by simp
  moreover have fresh: "c_is_ending client_new = False" "m_init_completed client_new = False"
    by (simp_all add: client_new_def)
  have "client_process_events ft draft compute n
      (?h2\<lparr>m_hierarchy_events := add_adaptor ClientModule (m_hierarchy_events ?h2), m_init_completed := True\<rparr>) = Some h"
    using assms(2) unfolding init_client_def client_modules_init_def Let_def h0_def [symmetric] h1_def [symmetric]
    by (simp only: simp_thms if_False fresh)
  ultimately show ?thesis using process_events_inv [OF assms(1)] by blast
qed

section \<open>Steps\<close>

text \<open>
  The application creates objects (\<open>construct\<close> gives what a factory creates, \<open>mk\<close> any other object), adds
  them to components and removes them, renames them, changes the values of plugs and the creatables of factories,
  fires plugs and sends requests. It does not delete an object, and it does not initialise a client a
  second time after \<open>destroy\<close>, which \<open>init_client\<close> would accept: a run here is one life of the
  client (\<open>reinitialised_root_dangles\<close> in \<open>Zst_Client_Process\<close> is about a second one). A step that raises leaves the state it has reached;
  when the process ends, no step follows. The label tells the acceptance of a join from the other steps.
\<close>

datatype client_label = JoinAccepted | OtherStep

definition response_label :: "client_action \<Rightarrow> ZstStageMessage option \<Rightarrow> client_label" where
  "response_label action response =
     (case action of
        CL_Joined _ \<Rightarrow> if verify_signal response Signal_OK then JoinAccepted else OtherStep
      | _ \<Rightarrow> OtherStep)"

inductive client_step ::
  "float_text \<Rightarrow> constructors \<Rightarrow> bool \<Rightarrow> (ref \<Rightarrow> ref \<Rightarrow> client \<Rightarrow> client) \<Rightarrow>
   client_label \<Rightarrow> client \<Rightarrow> client \<Rightarrow> bool"
  for ft construct draft_api compute where
  client_receives:
    "client_on_receive_msg ft draft_api compute n connects msg h = Some (h', err) \<Longrightarrow>
     client_step ft construct draft_api compute OtherStep h h'"
| client_session_receives:
    "client_step ft construct draft_api compute OtherStep h (client_session_on_receive_msg ft default_last msg h)"
| client_hierarchy_receives:
    "client_step ft construct draft_api compute OtherStep h (fst (client_hierarchy_on_receive_msg ft construct ind msg h))"
| value_received: "client_step ft construct draft_api compute OtherStep h (fst (client_session_on_graph_msg gm h))"
| handshake_received: "client_step ft construct draft_api compute OtherStep h (fst (connection_handshake_handler gm h))"
| response_received:
    "await_ok await \<Longrightarrow> action_ready action h \<Longrightarrow>
     client_on_response ft draft_api compute await n now sendtype action response h = Some (h', err) \<Longrightarrow>
     client_step ft construct draft_api compute (response_label action response) h h'"
| request_returns:
    "client_request_returns ft draft_api compute n action response h = Some h' \<Longrightarrow>
     client_step ft construct draft_api compute OtherStep h h'"
| heartbeat_due: "client_step ft construct draft_api compute OtherStep h (heartbeat_timer now h)"
| beacon_received: "client_step ft construct draft_api compute OtherStep h (fst (server_discovery_handler server now h))"
| beacons_checked: "client_step ft construct draft_api compute OtherStep h (beaconcheck_timer now h)"
| broadcast_due: "client_step ft construct draft_api compute OtherStep h (fst (send_connection_broadcast receiver sender h))"
| joins: "client_step ft construct draft_api compute OtherStep h (fst (join_stage ft addrs server sendtype h))"
| auto_joins: "client_step ft construct draft_api compute OtherStep h (fst (auto_join_stage ft addrs name sendtype h))"
| beacon_awaited: "client_step ft construct draft_api compute OtherStep h (fst (join_on_beacon ft addrs name sendtype h))"
| leaves: "leave_stage ft draft_api compute n h = Some h' \<Longrightarrow> client_step ft construct draft_api compute OtherStep h h'"
| destroyed: "client_destroy ft draft_api compute n h = Some h' \<Longrightarrow> client_step ft construct draft_api compute OtherStep h h'"
| events_processed:
    "client_process_events ft draft_api compute n h = Some h' \<Longrightarrow> client_step ft construct draft_api compute OtherStep h h'"
| plugin_loaded:
    "\<forall>f\<in>set fs. heap h f \<noteq> None \<Longrightarrow> client_step ft construct draft_api compute OtherStep h (fst (on_plugin_loaded ft fs h))"
| object_created: "alloc_entity mk h = (r, h') \<Longrightarrow> client_step ft construct draft_api compute OtherStep h h'"
| child_added:
    "heap h p \<noteq> None \<Longrightarrow> heap h c \<noteq> None \<Longrightarrow>
     client_step ft construct draft_api compute OtherStep h
       (add_child (set_parent (client_virtuals ft) tree_depth) (client_virtuals ft) p c auto_activate h)"
| child_removed:
    "heap h c \<noteq> None \<Longrightarrow>
     client_step ft construct draft_api compute OtherStep h (remove_child (set_parent (client_virtuals ft) tree_depth) p c h)"
| entity_renamed:
    "heap h r \<noteq> None \<Longrightarrow> client_step ft construct draft_api compute OtherStep h (set_name (client_virtuals ft) r name h)"
| value_changed:
    "client_step ft construct draft_api compute OtherStep h (upd_entity plug (\<lambda>e. plug_set_value (f (m_value e)) e) h)"
| creatable_added: "client_step ft construct draft_api compute OtherStep h (upd_entity r (add_creatable path creator) h)"
| creatable_removed: "client_step ft construct draft_api compute OtherStep h (upd_entity r (remove_creatable path) h)"
| creatables_updated:
    "heap h r \<noteq> None \<Longrightarrow> client_step ft construct draft_api compute OtherStep h (update_creatables (client_virtuals ft) r h)"
| entity_registered:
    "heap h r \<noteq> None \<Longrightarrow>
     client_step ft construct draft_api compute OtherStep h (register_entity r (session_register_entity (client_virtuals ft) r h))"
| entity_requested:
    "client_step ft construct draft_api compute OtherStep h (fst (client_create_entity ft construct path name sendtype h))"
| entity_activates:
    "client_step ft construct draft_api compute OtherStep h (fst (client_activate_entity ft entity sendtype None h))"
| entity_deactivates: "client_step ft construct draft_api compute OtherStep h (client_deactivate_entity ft entity sendtype h)"
| plug_fires: "client_step ft construct draft_api compute OtherStep h (fst (output_plug_fire ft plug h))"
| cable_requested: "client_step ft construct draft_api compute OtherStep h (fst (client_connect_cable ip op sendtype h))"
| cable_removed: "client_step ft construct draft_api compute OtherStep h (fst (client_destroy_cable cable sendtype h))"
| entity_observed: "client_step ft construct draft_api compute OtherStep h (fst (client_observe_entity r sendtype h))"
| ownership_aquired: "client_step ft construct draft_api compute OtherStep h (aquire_entity_ownership r h)"
| ownership_released: "client_step ft construct draft_api compute OtherStep h (release_entity_ownership r h)"

inductive client_reachable ::
  "float_text \<Rightarrow> constructors \<Rightarrow> bool \<Rightarrow> (ref \<Rightarrow> ref \<Rightarrow> client \<Rightarrow> client) \<Rightarrow> client \<Rightarrow> bool"
  for ft construct draft_api compute where
  client_starts:
    "init_client ft draft_api compute n name client_new = Some h \<Longrightarrow> client_reachable ft construct draft_api compute h"
| client_moves:
    "client_reachable ft construct draft_api compute h \<Longrightarrow> client_step ft construct draft_api compute l h h' \<Longrightarrow>
     client_reachable ft construct draft_api compute h'"

lemma alloc_inv:
  assumes "client_inv h" and "alloc_entity mk h = (r, h')"
  shows "client_inv h'"
  using client_inv_frame [OF frame_alloc [OF assms(2)] _ assms(1)] alloc_client_ok(1) [OF _ assms(2)] assms(1)
  by (simp add: client_inv_def)

text \<open>What a handler of hierarchy or session returns, by its two invariants.\<close>

lemma client_inv_handler:
  assumes "client_inv h" and "client_ok h \<Longrightarrow> client_ok h'" and "client_ok h \<Longrightarrow> client_frame h h'"
  shows "client_inv h'"
  using assms client_inv_frame by (simp add: client_inv_def)

lemmas client_step_invs =
  handshake_inv heartbeat_timer_inv discovery_inv beaconcheck_inv broadcast_inv join_stage_inv auto_join_inv
  client_inv_activate
  client_inv_handler [OF _ client_session_receive_ok frame_session_receive]
  client_inv_handler [OF _ client_hierarchy_receive_ok frame_hierarchy_receive]
  client_inv_handler [OF _ graph_msg_ok frame_graph_msg] client_inv_handler [OF _ fire_ok frame_fire]
  client_inv_handler [OF _ client_create_entity_ok frame_create_entity]
  client_inv_handler [OF _ client_requests_ok(1) frame_requests(1)]
  client_inv_handler [OF _ client_requests_ok(2) frame_requests(2)]
  client_inv_handler [OF _ client_requests_ok(3) frame_requests(3)]
  client_inv_handler [OF _ client_requests_ok(4) frame_requests(4)]
  client_inv_handler [OF _ client_requests_ok(5) frame_requests(5)]

lemma registered_preserves:
  assumes "heap h r \<noteq> None"
  shows "preserves h (register_entity r (session_register_entity (client_virtuals ft) r h))"
proof -
  have p: "preserves h (session_register_entity (client_virtuals ft) r h)" by (rule preserves_session_register)
  have "heap (session_register_entity (client_virtuals ft) r h) r \<noteq> None" using assms preserves_live [OF p, of r] by simp
  then show ?thesis by (rule preserves_trans [OF p preserves_register])
qed

text \<open>What the application does to its objects keeps what the hierarchy needs.\<close>

lemma object_steps_preserve:
  assumes "client_inv h"
  shows "heap h p \<noteq> None \<Longrightarrow> heap h c \<noteq> None \<Longrightarrow>
      preserves h (add_child (set_parent (client_virtuals ft) tree_depth) (client_virtuals ft) p c auto_activate h)"
    and "heap h c \<noteq> None \<Longrightarrow> preserves h (remove_child (set_parent (client_virtuals ft) tree_depth) p c h)"
    and "heap h r \<noteq> None \<Longrightarrow> preserves h (set_name (client_virtuals ft) r name h)"
    and "preserves h (upd_entity r (\<lambda>e. plug_set_value (f (m_value e)) e) h)"
    and "preserves h (upd_entity r (add_creatable path creator) h)"
    and "preserves h (upd_entity r (remove_creatable path) h)"
    and "heap h r \<noteq> None \<Longrightarrow> preserves h (update_creatables (client_virtuals ft) r h)"
proof -
  have ok: "hierarchy_ok h" using assms by (auto simp: client_inv_def dest: client_okD)
  show "heap h p \<noteq> None \<Longrightarrow> heap h c \<noteq> None \<Longrightarrow>
      preserves h (add_child (set_parent (client_virtuals ft) tree_depth) (client_virtuals ft) p c auto_activate h)"
    by (intro client_reaper.add_child_ok client_reaper.set_parent_ok)
  show "heap h c \<noteq> None \<Longrightarrow> preserves h (remove_child (set_parent (client_virtuals ft) tree_depth) p c h)"
    by (intro client_reaper.remove_child_ok client_reaper.set_parent_ok)
  show "heap h r \<noteq> None \<Longrightarrow> preserves h (set_name (client_virtuals ft) r name h)"
    by (rule client_reaper.set_name_ok [OF ok])
  show "heap h r \<noteq> None \<Longrightarrow> preserves h (update_creatables (client_virtuals ft) r h)"
    by (rule client_reaper.update_creatables_ok)
qed (rule preserves_upd; auto simp: plug_set_value_def add_creatable_def remove_creatable_def)+

lemma client_step_inv:
  assumes "compute_inv compute" and "client_step ft construct draft compute l h h'" and "client_inv h"
  shows "client_inv h'"
  using assms(2)
proof cases
  case (child_added p c auto_activate)
  then show ?thesis using client_inv_preserves [OF object_steps_preserve(1) [OF assms(3)] assms(3)] by simp
next
  case (child_removed c p)
  then show ?thesis using client_inv_preserves [OF object_steps_preserve(2) [OF assms(3)] assms(3)] by simp
next
  case (entity_renamed r name)
  then show ?thesis using client_inv_preserves [OF object_steps_preserve(3) [OF assms(3)] assms(3)] by simp
next
  case (value_changed plug f)
  then show ?thesis using client_inv_preserves [OF object_steps_preserve(4) [OF assms(3)] assms(3)] by simp
next
  case (creatable_added r path creator)
  then show ?thesis using client_inv_preserves [OF object_steps_preserve(5) [OF assms(3)] assms(3)] by simp
next
  case (creatable_removed r path)
  then show ?thesis using client_inv_preserves [OF object_steps_preserve(6) [OF assms(3)] assms(3)] by simp
next
  case (creatables_updated r)
  then show ?thesis using client_inv_preserves [OF object_steps_preserve(7) [OF assms(3)] assms(3)] by simp
next
  case (entity_registered r)
  then show ?thesis using client_inv_preserves [OF registered_preserves assms(3)] by simp
next
  case (entity_deactivates entity sendtype)
  then show ?thesis using client_inv_preserves [OF client_deactivate_preserves assms(3)] by simp
next
  case (response_received await action n now sendtype response err)
  then show ?thesis using response_inv [OF assms(1)] assms(3) by blast
next
  case (client_receives n connects msg err)
  then show ?thesis using client_receive_inv [OF assms(1,3)] by blast
next
  case (request_returns n action response)
  show ?thesis by (rule request_returns_inv [OF assms(1,3) request_returns(2)])
next
  case (leaves n)
  show ?thesis by (rule leave_stage_inv [OF assms(1,3) leaves(2)])
next
  case (destroyed n)
  show ?thesis by (rule destroy_inv [OF assms(1,3) destroyed(2)])
next
  case (events_processed n)
  show ?thesis by (rule process_events_inv [OF assms(1,3) events_processed(2)])
next
  case (object_created mk r)
  show ?thesis by (rule alloc_inv [OF assms(3) object_created(2)])
next
  case (plugin_loaded fs)
  then show ?thesis using plugin_loaded_inv [OF assms(3)] by simp
qed (simp_all only: client_step_invs [OF assms(3)])

lemma client_reachable_inv:
  assumes "compute_inv compute" and "client_reachable ft construct draft compute h"
  shows "client_inv h"
  using assms(2)
  by induction (auto intro: init_client_inv [OF assms(1)] client_step_inv [OF assms(1)])

section \<open>A join that is not accepted\<close>

lemma frame_client_process:
  assumes "compute_inv compute" and "client_process_events ft draft compute n h = Some h'"
  shows "client_frame h h'"
proof (cases "\<not> m_init_completed h \<or> c_is_destroyed h \<or> c_is_ending h")
  case False
  then obtain g where g: "client_session_process_events ft draft compute n h = Some g"
      "process_events m_connection_events upd_connection_events (\<lambda>_. True) (\<lambda>_ _ h. (h, True)) (\<lambda>_ _ h. h) n g = Some h'"
    using assms(2) by (auto simp: client_process_events_def bind_eq_Some_conv)
  have "client_frame g h'"
    by (rule frame_process_events [OF g(2)]) (simp_all add: upd_connection_events_def client_frame_def client_core_def)
  with frame_session_process [OF assms(1) g(1)] show ?thesis by (rule frame_trans)
qed (use assms in \<open>simp add: client_process_events_def\<close>)

lemma frame_connecting: "client_frame h h' \<Longrightarrow> m_is_connecting h' = m_is_connecting h"
  by (simp add: client_frame_def client_core_def)

lemma leave_unconnected:
  "\<not> m_connected_to_stage h \<Longrightarrow> leave_stage_complete ft draft compute n sendtype h = Some h"
  by (simp add: leave_stage_complete_def)

lemma leave_stage_connecting:
  assumes "compute_inv compute" and "\<not> m_connected_to_stage h" and "leave_stage ft draft compute n h = Some h'"
  shows "m_is_connecting h' = m_is_connecting h"
  using assms frame_connecting [OF frame_client_process [OF assms(1)]]
  by (simp add: leave_stage_def leave_unconnected)

lemma response_connecting:
  assumes "client_inv h" and "m_is_connecting h" and "action_ready action h" and "response_label action response = OtherStep"
    and "client_on_response ft draft compute await n now sendtype action response h = Some (h', err)"
  shows "m_is_connecting h'"
proof -
  have ok: "client_ok h" and un: "\<not> m_connected_to_stage h"
    using assms(1,2) by (auto simp: client_inv_def connection_ok_def)
  have "m_is_connecting g" if "client_hierarchy_on_response ft draft action response h = (g, e)" for g e
    using frame_connecting [OF frame_hierarchy_response [OF ok assms(3)]] that assms(2) by (metis fst_conv)
  moreover have "m_is_connecting g" if "client_session_on_response ft action response h = (g, e)" for g e
    using frame_connecting [OF frame_session_response] that assms(2) by (metis fst_conv)
  ultimately show ?thesis
    using assms(2,4,5) leave_unconnected [OF un]
    unfolding client_on_response_def join_response_def heartbeat_response_def response_label_def
    by (cases action) (auto simp: synchronise_graph_complete_def connection_defer_def upd_connection_events_def split: if_splits)
qed

lemma step_connecting:
  assumes "compute_inv compute" and "client_step ft construct draft compute OtherStep h h'" and "client_inv h"
    and "m_is_connecting h"
  shows "m_is_connecting h'"
  using assms(2)
proof cases
  case (client_receives n connects msg err)
  then show ?thesis
    using assms(3,4) leave_unconnected
    by (auto simp: client_on_receive_msg_def start_connection_broadcast_handler_def stop_connection_broadcast_handler_def
        listen_to_client_handler_def tcp_graph_connect_def server_status_handler_def client_inv_def connection_ok_def
        split: message_content.splits option.splits if_splits)
next
  case (response_received await action n now sendtype response err)
  show ?thesis
    by (rule response_connecting [OF assms(3,4) response_received(3) response_received(1) [symmetric] response_received(4)])
next
  case (request_returns n action response)
  then show ?thesis
    using frame_connecting [OF frame_hierarchy_process] frame_connecting [OF frame_session_process [OF assms(1)]] assms(4)
    by (auto simp: client_request_returns_def split: client_action.splits if_splits)
next
  case (leaves n)
  then show ?thesis
    using leave_stage_connecting [OF assms(1), of h] assms(3,4) by (auto simp: client_inv_def connection_ok_def)
next
  case (destroyed n)
  then show ?thesis
    using assms(3,4) by (auto simp: client_destroy_def client_inv_def connection_ok_def split: if_splits)
next
  case (events_processed n)
  then show ?thesis using frame_connecting [OF frame_client_process [OF assms(1)]] assms(4) by blast
next
  case (child_added p c auto_activate)
  then show ?thesis using frame_connecting [OF frame_preserves [OF object_steps_preserve(1) [OF assms(3)]]] assms(4) by simp
next
  case (child_removed c p)
  then show ?thesis using frame_connecting [OF frame_preserves [OF object_steps_preserve(2) [OF assms(3)]]] assms(4) by simp
next
  case (entity_renamed r name)
  then show ?thesis using frame_connecting [OF frame_preserves [OF object_steps_preserve(3) [OF assms(3)]]] assms(4) by simp
next
  case (creatables_updated r)
  then show ?thesis using frame_connecting [OF frame_preserves [OF object_steps_preserve(7) [OF assms(3)]]] assms(4) by simp
next
  case (entity_registered r)
  then show ?thesis using frame_connecting [OF frame_preserves [OF registered_preserves]] assms(4) by simp
next
  case (plugin_loaded fs)
  then show ?thesis
    using frame_connecting [OF frame_preserves [OF plugin_loaded_preserves]] assms(3,4) by (simp add: client_inv_def)
next
  case (beacons_checked now)
  have "m_is_connecting (fold lost_server_beacon ss h) = m_is_connecting h" for ss
    by (rule fold_frame) (simp add: lost_server_beacon_def connection_defer_def upd_connection_events_def)
  then show ?thesis using beacons_checked assms(4) by (simp add: beaconcheck_timer_def)
qed (use assms(3,4) in \<open>auto simp: client_inv_def frame_connecting [OF frame_session_receive]
      frame_connecting [OF frame_hierarchy_receive] frame_connecting [OF frame_graph_msg] frame_connecting [OF frame_fire]
      frame_connecting [OF frame_create_entity] frame_connecting [OF frame_activate]
      frame_connecting [OF frame_preserves [OF client_deactivate_preserves]]
      frame_connecting [OF frame_preserves [OF object_steps_preserve(4)]]
      frame_connecting [OF frame_preserves [OF object_steps_preserve(5)]]
      frame_connecting [OF frame_preserves [OF object_steps_preserve(6)]]
      frame_connecting [OF frame_requests(1)] frame_connecting [OF frame_requests(2)] frame_connecting [OF frame_requests(3)]
      frame_connecting [OF frame_requests(4)] frame_connecting [OF frame_requests(5)]
      connection_handshake_handler_def heartbeat_timer_def server_discovery_handler_def Let_def connection_defer_def
      upd_connection_events_def send_connection_broadcast_def graph_send_def join_stage_def auto_join_stage_def
      join_on_beacon_def forget_join_request_def client_send_def
      dest: frame_connecting [OF frame_alloc] split: option.splits beacon_promise.splits prod.splits if_splits\<close>)

section \<open>The properties\<close>

text \<open>
  C2. In every state of one life of a client, from its initialisation until it is initialised again if ever
  it is, its tables neither leak nor dangle: an entry of the lookup table
  leads to a live entity of that URI which the hierarchy manages, and no two cables join the same plugs.
  The root is a live performer, managed by the hierarchy and never one of the proxies that are deleted. The
  client is never connecting and connected at once, its heartbeat runs while it is connected, it has one
  beacon of each server name, and a time stamp for every beacon and for nothing else.
\<close>

theorem client_reachable_sound:
  assumes "compute_inv compute" and "client_reachable ft construct draft compute h"
  shows "(\<forall>u r. find_entity h u = Some r \<longrightarrow>
      (\<exists>e. heap h r = Some e \<and> uri_equal (m_uri e) u \<and> HierarchyModule \<in> set (m_hierarchy_adaptors e))) \<and>
    (\<forall>k\<in>set (m_cables h). \<forall>l\<in>set (m_cables h). address_eq (m_address k) (m_address l) \<longrightarrow> k = l) \<and>
    entity_test is_performer h (m_root h) \<and> hierarchy_attached h (m_root h) \<and> m_root h \<notin> set (m_proxies h) \<and>
    \<not> (m_connected_to_stage h \<and> m_is_connecting h) \<and> (m_connected_to_stage h \<longrightarrow> m_heartbeat_timer h) \<and>
    distinct (map server_name (m_server_beacons h)) \<and> map fst (m_server_beacon_timestamps h) = m_server_beacons h"
proof -
  note inv = client_reachable_inv [OF assms]
  have "session_ok h" "root_ok h" "connection_ok h" using inv by (simp_all add: client_inv_def client_ok_def)
  moreover from this(3) have "distinct (map (map uchar \<circ> server_name) (m_server_beacons h))"
    using server_set.keys_distinct by (simp add: connection_ok_def comp_def)
  then have "distinct (map server_name (m_server_beacons h))" by (auto simp: distinct_map inj_on_def)
  ultimately show ?thesis
    unfolding session_ok_def hierarchy_ok_def lookup_sound_def cables_ok_def root_ok_def connection_ok_def find_entity_def
    by (fastforce simp: uri_equal_path)
qed

definition idle_compute :: "ref \<Rightarrow> ref \<Rightarrow> client \<Rightarrow> client" where
  "idle_compute c p h = h"

definition plain_components :: constructors where
  "plain_components f name s = component_new s ''plain'' name"

definition sample_started :: client where
  "sample_started = the (init_client no_floats False idle_compute 0 ''ada'' client_new)"

lemma idle_compute_inv [simp]: "compute_inv idle_compute"
  by (simp add: compute_inv_def compute_ok_def idle_compute_def)

lemma sample_starts: "init_client no_floats False idle_compute 0 ''ada'' client_new = Some sample_started"
proof -
  have "\<not> Option.is_none (init_client no_floats False idle_compute 0 ''ada'' client_new)" by code_simp
  then show ?thesis by (auto simp: sample_started_def Option.is_none_def)
qed

lemma sample_started_reachable: "client_reachable no_floats plain_components False idle_compute sample_started"
  by (rule client_starts [OF sample_starts])

theorem client_reachable_sound_witness:
  "entity_test is_performer sample_started (m_root sample_started) \<and> m_root sample_started \<notin> set (m_proxies sample_started)"
  using client_reachable_sound [OF idle_compute_inv sample_started_reachable] by simp

text \<open>
  C13. A join that is not accepted is final. The response to it, an error or a timeout, changes nothing, so
  that the client stays connecting; from then on, whatever the client does or receives, short of an accepted
  join, it is still connecting and not connected, and every further \<open>join_stage\<close> is refused without a change
  of state: not even \<open>leave_stage\<close> or \<open>destroy\<close> reset the flag.
\<close>

theorem failed_join_final:
  assumes "compute_inv compute" and "client_reachable ft construct draft compute h" and "m_is_connecting h"
    and "\<not> verify_signal response Signal_OK"
    and "(client_step ft construct draft compute OtherStep)\<^sup>*\<^sup>* h h'"
  shows "join_response ft draft compute await n server response sendtype h = Some (h, None) \<and>
    m_is_connecting h' \<and> \<not> m_connected_to_stage h' \<and> join_stage ft addrs server' sendtype' h' = (h', None)"
proof -
  have "client_inv h' \<and> m_is_connecting h'"
    using assms(5)
  proof induction
    case base
    then show ?case using client_reachable_inv [OF assms(1,2)] assms(3) by simp
  next
    case (step g h')
    then show ?case using client_step_inv [OF assms(1)] step_connecting [OF assms(1)] by blast
  qed
  then show ?thesis
    using assms(4) by (auto simp: join_response_def join_stage_def client_inv_def connection_ok_def)
qed

definition sample_server :: ZstServerAddress where
  "sample_server = \<lparr>server_name = ''stage'', server_address = ''127.0.0.1:40004''\<rparr>"

definition sample_joining :: client where
  "sample_joining = fst (join_stage no_floats (''tcp://a'', '''') sample_server ASYNC_REPLY sample_started)"

lemma sample_joining_reachable: "client_reachable no_floats plain_components False idle_compute sample_joining"
  unfolding sample_joining_def by (rule client_moves [OF sample_started_reachable joins])

lemma sample_joining_connects: "m_is_connecting sample_joining"
  by code_simp

theorem failed_join_final_witness:
  "join_response no_floats False idle_compute Some 0 sample_server None ASYNC_REPLY sample_joining = Some (sample_joining, None) \<and>
   m_is_connecting sample_joining \<and>
   join_stage no_floats (''tcp://a'', '''') sample_server SYNC_REPLY sample_joining = (sample_joining, None)"
  using failed_join_final [OF idle_compute_inv sample_joining_reachable sample_joining_connects _ rtranclp.rtrancl_refl,
      of None Some 0 sample_server ASYNC_REPLY "(''tcp://a'', '''')" sample_server SYNC_REPLY]
  by (simp add: verify_signal_def)

end
