(* ===== verification/Zst_API.thy ===== *)
theory Zst_API
  imports Zst_Client_Protocol
begin

text \<open>
  \<open>ShowtimeClient\<close> (\<open>src/src/client/ShowtimeClient.cpp\<close>): the functions an application calls. Each guards a
  call of the client by the state of the library. Blocking and asynchronous variants differ in their
  \<open>sendtype\<close>; blocking ones are cut at the wait as in \<open>Zst_Client\<close>. Adaptors of the application are
  left out, log files are in \<open>Zst_Logging\<close>; the paths of plugins are in \<open>Zst_Plugins\<close>.
\<close>

section \<open>Guards\<close>

definition library_init_guard :: "client \<Rightarrow> bool" where
  "library_init_guard h \<longleftrightarrow> m_init_completed h"


section \<open>Joining and leaving\<close>


definition api_join ::
  "float_text \<Rightarrow> string \<times> string \<Rightarrow> string \<Rightarrow> ZstTransportRequestBehaviour \<Rightarrow> client \<Rightarrow> client outcome" where
  "api_join ft addrs stage_address sendtype h =
     (if library_init_guard h
      then join_stage ft addrs \<lparr>server_name = '''', server_address = cstr stage_address\<rparr> sendtype h
      else (h, None))"

definition api_join_by_name ::
  "float_text \<Rightarrow> string \<times> string \<Rightarrow> string \<Rightarrow> ZstTransportRequestBehaviour \<Rightarrow> client \<Rightarrow> client outcome" where
  "api_join_by_name ft addrs stage_name sendtype h =
     (if \<not> library_init_guard h then (h, None)
      else
        let discovered_server = get_discovered_server h (cstr stage_name)
        in if cstr (server_name discovered_server) \<noteq> cstr stage_name then (h, None)
           else api_join ft addrs (server_address discovered_server) sendtype h)"


definition api_get_discovered_servers :: "client \<Rightarrow> ZstServerAddress list \<Rightarrow> ZstServerAddress list" where
  "api_get_discovered_servers h servers = (if library_init_guard h then servers @ m_server_beacons h else servers)"

definition api_get_discovered_server :: "client \<Rightarrow> string \<Rightarrow> ZstServerAddress" where
  "api_get_discovered_server h name = get_discovered_server h (cstr name)"




section \<open>Entities\<close>






definition api_find_entity :: "client \<Rightarrow> ZstURI \<Rightarrow> ref option" where
  "api_find_entity h path = (if \<not> library_init_guard h then None else client_find_entity h path)"

definition api_get_performers :: "client \<Rightarrow> ref list \<Rightarrow> ref list" where
  "api_get_performers h bundle =
     (if \<not> library_init_guard h then bundle else bundle @ get_performers client_queries h)"

section \<open>Cables\<close>



text \<open>The guard of the two searches is the wrong way round.\<close>

definition api_find_cable :: "client \<Rightarrow> ZstCableAddress \<Rightarrow> cable_ref option" where
  "api_find_cable h address = (if \<not> library_init_guard h then find_cable h address else None)"

definition api_find_cable_by_URIs :: "client \<Rightarrow> ZstURI \<Rightarrow> ZstURI \<Rightarrow> cable_ref option" where
  "api_find_cable_by_URIs h input output = (if \<not> library_init_guard h then find_cable_by_URIs h input output else None)"

section \<open>Calls are steps\<close>







section \<open>Joining by name\<close>

text \<open>
  Joining by name in a client that can join: if a server of that name was discovered, the client connects to
  the address of its beacon, but joins a server without a name, which is what it reports as its server
  afterwards; if there is none, nothing happens, unless the name is empty: then it connects to the empty address.
\<close>

theorem join_by_name_cases:
  assumes "client_inv h" and "m_init_completed h" and "\<not> m_is_connecting h" and "\<not> m_connected_to_stage h"
    and "api_join_by_name ft addrs name sendtype h = (h', err)"
  shows "case find (\<lambda>s. server_name s = cstr name) (m_server_beacons h) of
      Some s \<Rightarrow> m_is_connecting h' \<and> m_stage_connection h' = Some (cstr (server_address s)) \<and>
        on_recv_response (out_args (last (m_outbox h'))) =
          RA_Client (CL_Joined \<lparr>server_name = '''', server_address = cstr (server_address s)\<rparr>)
    | None \<Rightarrow>
        if cstr name = '''' then m_is_connecting h' \<and> m_stage_connection h' = Some '''' else h' = h"
proof -
  have "heap h (m_root h) \<noteq> None" using assms(1) by (auto simp: client_inv_def dest: client_okD(3))
  then have join: "m_is_connecting (fst (join_stage ft addrs server sendtype h)) \<and>
      m_stage_connection (fst (join_stage ft addrs server sendtype h)) = Some (server_address server) \<and>
      on_recv_response (out_args (last (m_outbox (fst (join_stage ft addrs server sendtype h))))) = RA_Client (CL_Joined server)"
    for server using assms(2-4) by (auto simp: join_stage_def client_send_def Let_def)
  have h': "h' = fst (api_join_by_name ft addrs name sendtype h)" using assms(5) by simp
  show ?thesis
  proof (cases "find (\<lambda>s. server_name s = cstr name) (m_server_beacons h)")
    case (Some s)
    then have "server_name s = cstr name" by (auto simp: find_Some_iff)
    then show ?thesis
      using Some assms(2) join by (simp add: h' api_join_by_name_def get_discovered_server_def api_join_def library_init_guard_def)
  next
    case None
    then show ?thesis
      using assms(2) join
      by (auto simp: h' api_join_by_name_def get_discovered_server_def api_join_def library_init_guard_def cstr_Nil)
  qed
qed

definition sample_found :: client where
  "sample_found = fst (server_discovery_handler sample_server 1 sample_started)"

lemma sample_found_servers:
  "m_init_completed sample_found" "\<not> m_is_connecting sample_found" "\<not> m_connected_to_stage sample_found"
  "map server_name (m_server_beacons sample_found) = [''stage'']" "map server_address (m_server_beacons sample_found) = [''127.0.0.1:40004'']"
  by code_simp+

theorem join_by_name_cases_witness:
  "m_stage_connection (fst (api_join_by_name no_floats (''tcp://a'', '''') ''stage'' ASYNC_REPLY sample_found)) =
     Some ''127.0.0.1:40004'' \<and>
   m_stage_connection (fst (api_join_by_name no_floats (''tcp://a'', '''') '''' ASYNC_REPLY sample_found)) = Some ''''"
proof -
  have inv: "client_inv sample_found"
    unfolding sample_found_def by (intro discovery_inv client_reachable_inv [OF idle_compute_inv sample_started_reachable])
  obtain s where "m_server_beacons sample_found = [s]" "server_name s = ''stage''" "server_address s = ''127.0.0.1:40004''"
    using sample_found_servers(4,5) by auto
  moreover have "api_join_by_name no_floats (''tcp://a'', '''') name ASYNC_REPLY sample_found =
      (fst (api_join_by_name no_floats (''tcp://a'', '''') name ASYNC_REPLY sample_found),
       snd (api_join_by_name no_floats (''tcp://a'', '''') name ASYNC_REPLY sample_found))" for name by simp
  note join_by_name_cases [OF inv sample_found_servers(1-3) this, of "''stage''"]
    join_by_name_cases [OF inv sample_found_servers(1-3) this, of "''''"]
  ultimately show ?thesis by (simp add: nul_free_def)
qed

end
