(* ===== verification/Zst_Client_Behaviour.thy ===== *)
theory Zst_Client_Behaviour
  imports Zst_Client_Protocol
begin

text \<open>
  What the operations of a client compute: the announcements of an activation, the values a plug sends, the
  beacons and the handshake between clients, what a client ignores, and what its requests come to together
  with the stage.
\<close>

section \<open>Announcements\<close>

definition announcement :: "float_text \<Rightarrow> ZstTransportArgs \<Rightarrow> client \<Rightarrow> ref \<Rightarrow> outgoing option" where
  "announcement ft args h c =
     (case heap h c of
        None \<Rightarrow> None
      | Some e \<Rightarrow>
          (case entity_serialize ft e of
             Inl _ \<Rightarrow> None
           | Inr t \<Rightarrow> Some \<lparr>out_transport = client_transport,
               out_content = Content_EntityCreateRequest (serialized_entity_type (m_entity_type e)) t, out_args = args\<rparr>))"

lemma announcement_outbox [simp]: "announcement ft args (h\<lparr>m_outbox := ms\<rparr>) = announcement ft args h"
  by (intro ext) (simp add: announcement_def)

lemma announce_complete:
  "announce_entities ft args cs h = (h', None) \<Longrightarrow>
   \<exists>ms. map (announcement ft args h) cs = map Some ms \<and> h' = h\<lparr>m_outbox := m_outbox h @ ms\<rparr>"
proof (induction ft args cs h rule: announce_entities.induct)
  case (2 ft args c cs h)
  obtain e t where e: "heap h c = Some e" "entity_serialize ft e = Inr t"
    and rest: "announce_entities ft args cs
      (client_send (Content_EntityCreateRequest (serialized_entity_type (m_entity_type e)) t) args h) = (h', None)"
    using 2(2) by (auto split: option.splits sum.splits)
  obtain m where m: "announcement ft args h c = Some m"
    and send: "client_send (Content_EntityCreateRequest (serialized_entity_type (m_entity_type e)) t) args h =
      h\<lparr>m_outbox := m_outbox h @ [m]\<rparr>"
    using e by (simp add: announcement_def client_send_def)
  obtain ms where "map (announcement ft args h) cs = map Some ms" "h' = h\<lparr>m_outbox := (m_outbox h @ [m]) @ ms\<rparr>"
    using 2(1) [OF e rest] unfolding send by auto
  then show ?case using m by (intro exI [of _ "m # ms"]) simp
qed simp

text \<open>
  C35. Activating an entity announces it and everything below it, each once and in the order of the tree:
  when no exception ends the announcement, the entity is registered and the outbox grows by exactly one
  creation request for each, all with the response callback of the activated entity. An entity without a
  parent or one that is active already is left alone.
\<close>

theorem activation_announced:
  assumes "client_activate_entity ft (Some r) sendtype reply_to h = (h', None)"
  shows "if activation_requested h r
    then \<exists>ms. map (announcement ft (transport_args\<lparr>msg_send_behaviour := sendtype,
             on_recv_response := RA_Client (CL_EntityActivated r reply_to)\<rparr>) (register_entity r h))
           (entity_and_children (register_entity r h) r) = map Some ms \<and>
         h' = (register_entity r h)\<lparr>m_outbox := m_outbox h @ ms\<rparr>
    else h' = h"
proof (cases "heap h r")
  case (Some e)
  have "m_outbox (register_entity r h) = m_outbox h"
    by (simp add: register_entity_def upd_entity_def add_entity_to_lookup_def)
  then show ?thesis
    using assms Some announce_complete
    by (fastforce simp: client_activate_entity_def activation_requested_def entity_test_def base_activate_entity_def Let_def
        split: if_splits)
qed (use assms in \<open>simp add: client_activate_entity_def\<close>)

definition sample_owner :: client where
  "sample_owner =
     (case alloc_entity (\<lambda>s. component_new s ''box'' ''comp'') sample_started of
        (c, h) \<Rightarrow> root_add_child no_floats c True h)"

definition ok_message :: "ZstStageMessage option" where
  "ok_message =
     Some \<lparr>m_origin_UUID = 0, m_id = 7, m_owning_transport = 0, m_buffer = Content_SignalMessage Signal_OK\<rparr>"

lemma sample_activates:
  "activation_requested sample_owner 1"
  "Option.is_none (snd (client_activate_entity no_floats (Some 1) ASYNC_REPLY None sample_owner))"
  "entity_and_children (register_entity 1 sample_owner) 1 = [1]"
  by code_simp+

theorem activation_announced_witness:
  "\<exists>m. m_outbox (fst (client_activate_entity no_floats (Some 1) ASYNC_REPLY None sample_owner)) = m_outbox sample_owner @ [m]"
proof -
  obtain h' where "client_activate_entity no_floats (Some 1) ASYNC_REPLY None sample_owner = (h', None)"
    using sample_activates(2) by (metis Option.is_none_def prod.collapse)
  then show ?thesis
    using activation_announced [of no_floats 1 ASYNC_REPLY None sample_owner h'] sample_activates(1,3) by auto
qed

section \<open>Joining again\<close>

text \<open>The entities below the root are found through the lookup table.\<close>

definition child_paths :: "client \<Rightarrow> ZstURI list" where
  "child_paths h = (case heap h (m_root h) of None \<Rightarrow> [] | Some e \<Rightarrow> m_children e)"

lemma no_children_found:
  assumes "\<forall>p\<in>set (child_paths h). client_find_entity h p = None"
  shows "get_child_entities client_queries n h (m_root h) inc rec ET_NONE = base_child_entities h (m_root h) inc ET_NONE"
proof -
  have "get_child_by_URI client_queries h r p = None" if "p \<in> set (child_paths h)" for r p
    using assms that by (simp add: get_child_by_URI_def)
  then show ?thesis
    by (cases n) (auto simp: child_paths_def split: option.splits)
qed

lemma child_paths_upd:
  assumes "\<And>e. m_children (f e) = m_children e" and "\<And>e. m_uri (f e) = m_uri e"
  shows "child_paths (upd_entity r f h) = child_paths h" "client_find_entity (upd_entity r f h) = client_find_entity h"
  using assms
  by (auto simp: child_paths_def upd_entity_def client_find_entity_def find_entity_def entity_test_def fun_eq_iff
      split: option.split)

definition same_children :: "client \<Rightarrow> client \<Rightarrow> bool" where
  "same_children h h' \<longleftrightarrow>
     child_paths h' = child_paths h \<and> client_find_entity h' = client_find_entity h \<and> m_outbox h' = m_outbox h \<and> m_root h' = m_root h"

lemma same_children_refl [simp]: "same_children h h"
  by (simp add: same_children_def)

lemma same_children_trans: "same_children h g \<Longrightarrow> same_children g h' \<Longrightarrow> same_children h h'"
  by (simp add: same_children_def)

lemma same_children_upd:
  "(\<And>e. m_children (f e) = m_children e) \<Longrightarrow> (\<And>e. m_uri (f e) = m_uri e) \<Longrightarrow> same_children h (upd_entity r f h)"
  using child_paths_upd [of f r h] by (simp add: same_children_def) (simp add: upd_entity_def)

lemma same_children_fields [simp]:
  "same_children h (h\<lparr>h_module := m\<rparr>)" "same_children h (h\<lparr>m_heartbeat_timer := b\<rparr>)" "same_children h (connection_defer e h)"
  "same_children h (h\<lparr>m_is_connecting := c, m_connected_to_stage := d, m_connected_server := s\<rparr>)"
  by (simp_all add: same_children_def child_paths_def fun_eq_iff client_find_entity_def find_entity_def entity_test_def
      connection_defer_def upd_connection_events_def)

lemma child_paths_outbox [simp]:
  "child_paths (h\<lparr>m_outbox := ms\<rparr>) = child_paths h" "client_find_entity (h\<lparr>m_outbox := ms\<rparr>) = client_find_entity h"
  by (simp_all add: child_paths_def fun_eq_iff client_find_entity_def find_entity_def entity_test_def)

lemma same_children_enqueue: "same_children h (entity_enqueue_activation r h)"
proof (cases "heap h r")
  case None
  then show ?thesis by (simp add: entity_enqueue_activation_def entity_sync_op_def same_children_def)
next
  case (Some e)
  have "same_children h (upd_entity r (\<lambda>e. fst (enqueue_activation e)) h)"
    by (rule same_children_upd) (simp_all add: enqueue_activation_def sync_defer_def set_activation_status_def)
  moreover have "upd_entity r (\<lambda>_. fst (enqueue_activation e)) h = upd_entity r (\<lambda>e. fst (enqueue_activation e)) h"
    using Some by (simp add: upd_entity_def)
  moreover have "same_children g (entity_notify r g)" for g by (simp add: entity_notify_def split: option.split)
  ultimately show ?thesis
    using Some same_children_trans
    by (auto simp: entity_enqueue_activation_def entity_sync_op_def Let_def split: prod.split)
qed

lemma same_children_joining: "same_children h (join_activating r h)"
proof -
  have "same_children h (upd_entity r attach_local h)"
    by (rule same_children_upd) (simp_all add: attach_local_def sync_add_adaptor_def)
  moreover have "same_children g (upd_entity r set_activating g)" for g
    by (rule same_children_upd) (simp_all add: set_activating_def set_activation_status_def)
  ultimately show ?thesis unfolding join_activating_def using same_children_trans same_children_enqueue by blast
qed

text \<open>
  Joining announces what the lookup table still leads to. When it has no entry for any child of the root,
  an accepted join asks for the graph and announces nothing, although the root still has its children. The
  witness is a client that joined, left the stage and processed its events: leaving tears down the children
  of the root, which removes their entries, and nothing enters them again when the client joins the second time.
\<close>

theorem rejoin_announces_nothing:
  assumes "\<forall>p\<in>set (child_paths h). client_find_entity h p = None" and "verify_signal response Signal_OK"
  shows "\<exists>h'. join_response ft draft compute await n server response ASYNC_REPLY h = Some (h', None) \<and>
    m_connected_to_stage h' \<and> child_paths h' = child_paths h \<and>
    map out_content (m_outbox h') = map out_content (m_outbox h) @ [Content_SignalMessage Signal_CLIENT_SYNC]"
proof -
  define h1 where "h1 = h\<lparr>m_is_connecting := False, m_connected_to_stage := True, m_connected_server := server\<rparr>"
  define h2 where "h2 = (dispatch_connected_to_stage (fold join_activating (root_and_children h1) h1))\<lparr>m_heartbeat_timer := True\<rparr>"
  define h3 where "h3 = synchronise_graph ASYNC_REPLY h2"
  define g where "g = fold join_activating (root_and_children h1) h1"
  have "same_children h1 g"
    unfolding g_def
    by (rule fold_invariant [where I = "same_children h1"]) (simp, erule same_children_trans, rule same_children_joining)
  moreover have "same_children h h1" unfolding h1_def by (rule same_children_fields(4))
  moreover have "same_children g h2"
    unfolding h2_def g_def [symmetric] dispatch_connected_to_stage_def
    by (rule same_children_trans [OF same_children_enqueue same_children_fields(2)])
  ultimately have s2: "same_children h h2" using same_children_trans by blast
  then have ch3: "child_paths h3 = child_paths h" "client_find_entity h3 = client_find_entity h"
    by (simp_all add: h3_def synchronise_graph_def client_send_def same_children_def)
  have "get_child_entities client_queries tree_depth h3 (m_root h3) False True ET_NONE = []"
    using no_children_found [of h3] ch3 assms(1) by (simp add: base_child_entities_def)
  then have "join_response ft draft compute await n server response ASYNC_REPLY h =
      Some (connection_defer (CE_ConnectedToServer server) (dispatch_connected_to_stage h3), None)" (is "_ = Some (?h', None)")
    using assms(2)
    by (simp add: join_response_def join_stage_complete_def Let_def h1_def [symmetric] h2_def [symmetric] h3_def [symmetric]
        await_if_sync_def process_if_sync_def)
  moreover have "same_children h3 ?h'"
    unfolding dispatch_connected_to_stage_def using same_children_enqueue same_children_fields(3) same_children_trans by blast
  moreover have "m_connected_to_stage g" 
  proof -
    have "client_frame h1 g" unfolding g_def by (rule frame_fold) (rule frame_join_activating)
    then show ?thesis by (simp add: client_frame_def client_core_def h1_def)
  qed
  moreover have "m_connected_to_stage (entity_enqueue_activation r t) = m_connected_to_stage t" for r and t :: client
    using frame_sync_op [of t enqueue_activation r]
    by (simp add: entity_enqueue_activation_def client_frame_def client_core_def)
  moreover have "m_outbox h3 = m_outbox h @ [\<lparr>out_transport = client_transport,
      out_content = Content_SignalMessage Signal_CLIENT_SYNC,
      out_args = transport_args\<lparr>msg_send_behaviour := ASYNC_REPLY, on_recv_response := RA_Client CL_GraphSynchronised\<rparr>\<rparr>]"
    using s2 by (simp add: h3_def synchronise_graph_def client_send_def same_children_def)
  ultimately show ?thesis
    using ch3
    by (intro exI [of _ ?h'])
       (simp add: same_children_def connection_defer_def upd_connection_events_def dispatch_connected_to_stage_def
         h3_def synchronise_graph_def client_send_def h2_def g_def [symmetric])
qed

definition join_sample :: "client \<Rightarrow> client" where
  "join_sample h = fst (join_stage no_floats (''tcp://a'', '''') sample_server ASYNC_REPLY h)"

definition accept_sample :: "client \<Rightarrow> client" where
  "accept_sample h =
     fst (the (join_response no_floats False idle_compute Some 20 sample_server ok_message ASYNC_REPLY h))"

definition process_sample :: "client \<Rightarrow> client" where
  "process_sample h = the (client_process_events no_floats False idle_compute 20 h)"

text \<open>A client with one component joins, its entity becomes active, it leaves, and it asks to join again.\<close>

definition sample_rejoining :: client where
  "sample_rejoining =
     join_sample
       (the (leave_stage no_floats False idle_compute 20 (process_sample (accept_sample (join_sample sample_owner)))))"

lemma sample_rejoining_children:
  "list_all (\<lambda>p. client_find_entity sample_rejoining p = None) (child_paths sample_rejoining)"
  "map uri_path (child_paths sample_rejoining) = [''ada/comp'']"
  by code_simp+

theorem rejoin_announces_nothing_witness:
  "\<exists>h'. join_response no_floats False idle_compute Some 20 sample_server ok_message ASYNC_REPLY sample_rejoining = Some (h', None) \<and>
     m_connected_to_stage h' \<and> map uri_path (child_paths h') = [''ada/comp''] \<and>
     map out_content (m_outbox h') = map out_content (m_outbox sample_rejoining) @ [Content_SignalMessage Signal_CLIENT_SYNC]"
proof -
  have ok: "\<forall>p\<in>set (child_paths sample_rejoining). client_find_entity sample_rejoining p = None"
    using sample_rejoining_children(1) by (simp add: list_all_iff)
  have "verify_signal ok_message Signal_OK" by (simp add: verify_signal_def get_signal_def ok_message_def)
  with ok show ?thesis
    using rejoin_announces_nothing [OF ok, of ok_message no_floats False idle_compute Some 20 sample_server] sample_rejoining_children(2)
    by auto
qed

section \<open>Servers\<close>

lemma same_server_name: "map uchar (server_name a) = map uchar (server_name b) \<longleftrightarrow> server_name a = server_name b"
  by (simp add: inj_map_eq_map [OF inj_uchar])

lemma stamp_less_iff: "stamp_less p q \<longleftrightarrow> map uchar (server_name (fst p)) < map uchar (server_name (fst q))"
  by (simp add: stamp_set.lt_key)

lemma erase_filter:
  "sorted_wrt stamp_less ts \<Longrightarrow>
   oset_erase stamp_less (s, t) ts = filter (\<lambda>p. server_name (fst p) \<noteq> server_name s) ts"
proof (induction ts)
  case (Cons p ps)
  let ?k = "\<lambda>s. map uchar (server_name s)"
  have bigger: "?k (fst p) < ?k (fst q)" if "q \<in> set ps" for q using Cons.prems that by (simp add: stamp_less_iff)
  consider "?k s < ?k (fst p)" | "?k s = ?k (fst p)" | "?k (fst p) < ?k s" by (rule linorder_cases)
  then show ?case
  proof cases
    case 1
    have "server_name (fst q) \<noteq> server_name s" if "q \<in> set (p # ps)" for q
    proof -
      have "?k s < ?k (fst q)" using that 1 bigger [of q] less_trans [OF 1] by (metis set_ConsD)
      then show ?thesis by auto
    qed
    then have "filter (\<lambda>p. server_name (fst p) \<noteq> server_name s) (p # ps) = p # ps" by (simp add: filter_id_conv)
    moreover have "stamp_less (s, t) p" using 1 by (simp add: stamp_less_iff)
    ultimately show ?thesis by simp
  next
    case 2
    have "server_name (fst q) \<noteq> server_name s" if "q \<in> set ps" for q
    proof -
      have "?k s < ?k (fst q)" using bigger [OF that] by (simp only: 2)
      then show ?thesis by auto
    qed
    then have "filter (\<lambda>p. server_name (fst p) \<noteq> server_name s) ps = ps" by (simp add: filter_id_conv)
    moreover have "\<not> stamp_less (s, t) p" "\<not> stamp_less p (s, t)" "server_name (fst p) = server_name s"
      using 2 by (simp_all add: stamp_less_iff same_server_name)
    ultimately show ?thesis by simp
  next
    case 3
    then have "server_name (fst p) \<noteq> server_name s" "\<not> stamp_less (s, t) p" "stamp_less p (s, t)"
      by (auto simp: stamp_less_iff)
    then show ?thesis using Cons by simp
  qed
qed simp

lemma fold_erase_filter:
  "sorted_wrt stamp_less ts \<Longrightarrow>
   fold (\<lambda>s. oset_erase stamp_less (s, 0)) ss ts = filter (\<lambda>p. server_name (fst p) \<notin> server_name ` set ss) ts"
proof (induction ss arbitrary: ts)
  case (Cons s ss)
  then show ?case
    by (simp add: erase_filter sorted_wrt_filter)
qed simp

lemma fold_lost_beacons:
  "m_server_beacon_timestamps (fold lost_server_beacon ss h) =
     fold (\<lambda>s. oset_erase stamp_less (s, 0)) ss (m_server_beacon_timestamps h)"
  "m_events (m_connection_events (fold lost_server_beacon ss h)) = m_events (m_connection_events h) @ map CE_ServerLost ss"
  by (induction ss arbitrary: h) (simp_all add: lost_server_beacon_def connection_defer_def upd_connection_events_def)

text \<open>
  A server is forgotten when it has sent no beacon for more than \<open>STAGE_TIMEOUT\<close> milliseconds: after
  the timer exactly the servers whose last beacon is recent enough are left, with their time stamps as they
  were, and the application is told once of each lost one, in the order of their names.
\<close>

theorem silent_servers_lost:
  assumes "client_inv h"
  shows "m_server_beacon_timestamps (beaconcheck_timer now h) =
      filter (\<lambda>p. duration_ms (now - snd p) \<le> STAGE_TIMEOUT) (m_server_beacon_timestamps h) \<and>
    m_server_beacons (beaconcheck_timer now h) = map fst (m_server_beacon_timestamps (beaconcheck_timer now h)) \<and>
    m_events (m_connection_events (beaconcheck_timer now h)) =
      m_events (m_connection_events h) @ map CE_ServerLost (expired_beacons now h)"
proof -
  let ?ts = "m_server_beacon_timestamps h"
  let ?P = "\<lambda>p. duration_ms (now - snd p) > STAGE_TIMEOUT"
  have keys: "map fst ?ts = m_server_beacons h" and "sorted_wrt server_address_less (m_server_beacons h)"
    using assms by (simp_all add: client_inv_def connection_ok_def)
  then have "sorted_wrt server_address_less (map fst ?ts)" by simp
  then have sorted: "sorted_wrt stamp_less ?ts"
    by (simp add: sorted_wrt_map) (erule sorted_wrt_mono_rel [rotated], simp add: stamp_less_def)
  have "distinct (map (\<lambda>p. server_name (fst p)) ?ts)"
    using stamp_set.keys_distinct [OF sorted] by (auto simp: distinct_map inj_on_def)
  then have "server_name (fst p) \<notin> server_name ` fst ` set (filter ?P ?ts) \<longleftrightarrow> \<not> ?P p" if "p \<in> set ?ts" for p
    using that by (auto simp: distinct_map inj_on_def)
  then have "filter (\<lambda>p. server_name (fst p) \<notin> server_name ` fst ` set (filter ?P ?ts)) ?ts = filter (\<lambda>p. \<not> ?P p) ?ts"
    by (intro filter_cong) auto
  then have "m_server_beacon_timestamps (beaconcheck_timer now h) = filter (\<lambda>p. \<not> ?P p) ?ts"
    using fold_erase_filter [OF sorted] by (simp add: beaconcheck_timer_def fold_lost_beacons expired_beacons_def)
  moreover have "m_server_beacons (beaconcheck_timer now h) = map fst (m_server_beacon_timestamps (beaconcheck_timer now h))"
    using beaconcheck_inv [OF assms] by (simp add: client_inv_def connection_ok_def)
  ultimately show ?thesis by (simp add: beaconcheck_timer_def fold_lost_beacons not_less)
qed

definition other_server :: ZstServerAddress where
  "other_server = \<lparr>server_name = ''other'', server_address = ''10.0.0.2:40004''\<rparr>"

definition sample_discovered :: client where
  "sample_discovered =
     fst (server_discovery_handler sample_server 4000000000
       (fst (server_discovery_handler other_server 1000000000 sample_started)))"

theorem silent_servers_lost_witness:
  "m_server_beacons (beaconcheck_timer 6001000000 sample_discovered) = [sample_server] \<and>
   m_server_beacons (beaconcheck_timer 6000999999 sample_discovered) = [other_server, sample_server]"
proof -
  have inv: "client_inv sample_discovered"
    unfolding sample_discovered_def
    by (intro discovery_inv client_reachable_inv [OF idle_compute_inv sample_started_reachable])
  have "m_server_beacon_timestamps sample_discovered = [(other_server, 1000000000), (sample_server, 4000000000)]"
    by code_simp
  then show ?thesis
    using silent_servers_lost [OF inv, of 6001000000] silent_servers_lost [OF inv, of 6000999999]
    by (simp add: duration_ms_def ticks_per_ms_def STAGE_TIMEOUT_def)
qed

lemma set_timestamp_known:
  assumes "sorted_wrt stamp_less ts" and "p \<in> set ts" and "server_name (fst p) = server_name s"
  shows "set_timestamp s now ts = map (\<lambda>q. if server_name (fst q) = server_name s then (fst q, now) else q) ts"
proof -
  have same: "q = p" if "q \<in> set ts" "server_name (fst q) = server_name s" for q
    using stamp_set.oset_unique [OF assms(1) that(1) assms(2)] that(2) assms(3) by (simp add: stamp_set.equivalent_key)
  have "oset_find stamp_less (s, now) ts = Some p"
    using stamp_set.oset_find_Some [OF assms(1)] assms(2,3) by (simp add: stamp_set.equivalent_key)
  then have "set_timestamp s now ts = map (\<lambda>q. if fst q = fst p then (fst p, now) else q) ts"
    by (cases p) (simp add: set_timestamp_def)
  moreover have "(fst q = fst p) = (server_name (fst q) = server_name s)" if "q \<in> set ts" for q
    using same [OF that] assms(3) by auto
  ultimately show ?thesis using same by (auto intro!: map_cong)
qed

text \<open>
  A server is known by its name alone. A beacon with the name of a server that is remembered renews the
  time stamp of that server and does nothing else: its address is dropped and the application is not told,
  so that a server that restarted at another address is still reported at the old one.
\<close>

theorem known_server_keeps_address:
  assumes "client_inv h" and "s \<in> set (m_server_beacons h)" and "server_name beacon = server_name s"
  shows "server_discovery_handler beacon now h =
      (h\<lparr>m_server_beacon_timestamps := map (\<lambda>p. if server_name (fst p) = server_name s then (fst p, now) else p)
           (m_server_beacon_timestamps h)\<rparr>, None) \<and>
    get_discovered_server (fst (server_discovery_handler beacon now h)) (server_name beacon) = s"
proof -
  let ?ts = "m_server_beacon_timestamps h"
  have keys: "map fst ?ts = m_server_beacons h" and sorted: "sorted_wrt server_address_less (m_server_beacons h)"
    using assms(1) by (simp_all add: client_inv_def connection_ok_def)
  have "sorted_wrt server_address_less (map fst ?ts)" using keys sorted by simp
  then have stamps: "sorted_wrt stamp_less ?ts"
    by (simp add: sorted_wrt_map) (erule sorted_wrt_mono_rel [rotated], simp add: stamp_less_def)
  have "s \<in> fst ` set ?ts" using assms(2) keys by (metis list.set_map)
  then obtain p where p: "p \<in> set ?ts" "fst p = s" by blast
  have unique: "t = s" if "t \<in> set (m_server_beacons h)" "server_name t = server_name s" for t
    using server_set.oset_unique [OF sorted that(1) assms(2)] that(2) by (simp add: server_set.equivalent_key)
  have "oset_find server_address_less beacon (m_server_beacons h) = Some s"
    using server_set.oset_find_Some [OF sorted] assms(2,3) by (simp add: server_set.equivalent_key)
  then have "server_discovery_handler beacon now h = (h\<lparr>m_server_beacon_timestamps := set_timestamp beacon now ?ts\<rparr>, None)"
    by (simp add: server_discovery_handler_def)
  moreover have "set_timestamp beacon now ?ts =
      map (\<lambda>p. if server_name (fst p) = server_name s then (fst p, now) else p) ?ts"
    using set_timestamp_known [OF stamps p(1)] p(2) assms(3) by simp
  moreover have "find (\<lambda>t. server_name t = server_name s) (m_server_beacons h) = Some s"
  proof (cases "find (\<lambda>t. server_name t = server_name s) (m_server_beacons h)")
    case None
    then show ?thesis using assms(2) by (auto simp: find_None_iff)
  next
    case (Some t)
    then have "t \<in> set (m_server_beacons h) \<and> server_name t = server_name s"
      by (metis (mono_tags, lifting) find_Some_iff nth_mem)
    then show ?thesis using Some unique by simp
  qed
  ultimately show ?thesis using assms(3) by (simp add: get_discovered_server_def)
qed

lemma sample_discovered_inv: "client_inv sample_discovered"
  unfolding sample_discovered_def
  by (intro discovery_inv client_reachable_inv [OF idle_compute_inv sample_started_reachable])

theorem known_server_keeps_address_witness:
  "get_discovered_server
     (fst (server_discovery_handler \<lparr>server_name = ''stage'', server_address = ''10.9.9.9:1''\<rparr> 9000000000 sample_discovered))
     ''stage'' = sample_server"
proof -
  have "m_server_beacons sample_discovered = [other_server, sample_server]" by code_simp
  then show ?thesis
    using known_server_keeps_address [OF sample_discovered_inv, of sample_server
        "\<lparr>server_name = ''stage'', server_address = ''10.9.9.9:1''\<rparr>" 9000000000, THEN conjunct2]
    by (simp add: sample_server_def)
qed

section \<open>Handshakes\<close>

lemma listens_pending:
  assumes "ids \<noteq> []"
  shows "m_pending_peer_connections (fold (listen_to_client_handler c path address) ids h) =
      (m_pending_peer_connections h)(uri_path (string_uri path) \<mapsto> last ids)"
    and "m_outbox (fold (listen_to_client_handler c path address) ids h) = m_outbox h"
  using assms
proof (induction ids arbitrary: h)
  case (Cons i ids)
  have step: "m_pending_peer_connections (listen_to_client_handler c path address i h) =
      (m_pending_peer_connections h)(uri_path (string_uri path) \<mapsto> i)"
    "m_outbox (listen_to_client_handler c path address i h) = m_outbox h"
    for h by (simp_all add: listen_to_client_handler_def tcp_graph_connect_def)
  { case 1 show ?case
      using Cons(1) [of "listen_to_client_handler c path address i h"] by (cases "ids = []") (simp_all add: step fun_eq_iff) }
  { case 2 show ?case
      using Cons(2) [of "listen_to_client_handler c path address i h"] by (cases "ids = []") (simp_all add: step) }
qed simp_all

text \<open>
  The requests of the stage to listen to a performer are answered by the first handshake message of that
  performer, once, and with the id of the last of them: an earlier request for the same performer is never
  answered, and a further handshake message changes nothing.
\<close>

theorem handshake_answers_last_request:
  assumes "ids \<noteq> []" and "gm_sender msg = path" and "gm_value msg = Some PV_PlugHandshake"
  shows "\<exists>h'. connection_handshake_handler msg (fold (listen_to_client_handler connects path address) ids h) = (h', None) \<and>
    m_outbox h' = m_outbox h @ [\<lparr>out_transport = client_transport, out_content = Content_SignalMessage Signal_OK,
      out_args = transport_args\<lparr>msg_ID := last ids\<rparr>\<rparr>] \<and>
    m_pending_peer_connections h' = (m_pending_peer_connections h)(uri_path (string_uri path) := None) \<and>
    connection_handshake_handler msg h' = (h', None)"
  using assms by (simp add: connection_handshake_handler_def Let_def listens_pending client_send_def)

theorem handshake_answers_last_request_witness:
  "\<exists>h'. connection_handshake_handler \<lparr>gm_sender = ''bob'', gm_value = Some PV_PlugHandshake\<rparr>
      (listen_to_client_handler True ''bob'' ''tcp://b'' 6 (listen_to_client_handler True ''bob'' ''tcp://b'' 5 sample_joining)) =
      (h', None) \<and> m_pending_peer_connections h' ''bob'' = None \<and>
    map (msg_ID \<circ> out_args) (m_outbox h') = map (msg_ID \<circ> out_args) (m_outbox sample_joining) @ [6]"
  using handshake_answers_last_request
    [of "[5, 6]" "\<lparr>gm_sender = ''bob'', gm_value = Some PV_PlugHandshake\<rparr>" "''bob''" True "''tcp://b''" sample_joining]
  by (auto simp: nul_free_def)

section \<open>What the stage cannot change\<close>

definition concerns_own_entities :: "client \<Rightarrow> message_content \<Rightarrow> bool" where
  "concerns_own_entities h content =
     (case content of
        Content_EntityCreateRequest _ t \<Rightarrow> (case get_entity_field t of Inl _ \<Rightarrow> False | Inr ed \<Rightarrow> path_is_local h (table_uri ed))
      | Content_EntityUpdateRequest _ t _ \<Rightarrow> (case get_entity_field t of Inl _ \<Rightarrow> False | Inr ed \<Rightarrow> path_is_local h (table_uri ed))
      | Content_EntityDestroyRequest path \<Rightarrow> uri_equal (root_uri h) (string_uri path)
      | Content_ClientLeaveRequest path _ \<Rightarrow> uri_equal (root_uri h) (string_uri path)
      | _ \<Rightarrow> False)"

lemma root_found:
  assumes "client_inv h" and "uri_equal (root_uri h) u"
  shows "client_destroy_entity_complete V (client_find_entity h u) h = h"
proof -
  have "heap h (m_root h) \<noteq> None" using assms(1) by (auto simp: client_inv_def dest: client_okD(3))
  then obtain e where "heap h (m_root h) = Some e" by blast
  with assms(2) have "client_find_entity h u = Some (m_root h)"
    by (simp add: client_find_entity_def entity_test_def root_uri_def uri_at_def)
  moreover have "uri_equal (uri_at h (m_root h)) (root_uri h)" by (simp add: root_uri_def uri_equal_path)
  ultimately show ?thesis by (simp add: client_destroy_entity_complete_def)
qed

text \<open>
  A stage message about an entity of the client itself does not touch the client: a creation or an update
  whose data names a path below the root, in whatever kind of table, and the destruction of the root or its
  leaving, end without an exception in the state they started in. So a performer that is told of its own
  entities by a broadcast does not take them over as proxies, and nothing the stage says destroys its root.
\<close>

theorem own_entities_untouched:
  assumes "client_inv h" and "concerns_own_entities h (m_buffer msg)"
  shows "client_hierarchy_on_receive_msg ft construct ind msg h = (h, None)"
  using assms root_found [OF assms(1)]
  by (auto simp: concerns_own_entities_def client_hierarchy_on_receive_msg_def create_proxy_entity_handler_def
      client_create_proxy_entity_def update_proxy_entity_handler_def client_update_proxy_entity_def add_proxy_entity_def
      client_leave_handler_def client_destroy_entity_handler_def split: message_content.splits sum.splits)

theorem own_entities_untouched_witness:
  "client_hierarchy_on_receive_msg no_floats plain_components False
     \<lparr>m_origin_UUID = 0, m_id = 1, m_owning_transport = 0,
      m_buffer = Content_EntityCreateRequest EntityTypes_Component (T_Component \<lparr>ed_URI = ''ada/comp'', ed_owner = None\<rparr> None)\<rparr>
     sample_started = (sample_started, None)"
proof -
  have "path_is_local sample_started (table_uri \<lparr>ed_URI = ''ada/comp'', ed_owner = None\<rparr>)" by code_simp
  then show ?thesis
    using client_reachable_inv [OF idle_compute_inv sample_started_reachable]
    by (intro own_entities_untouched) (simp_all add: concerns_own_entities_def)
qed

section \<open>The end of a client\<close>

lemma enqueue_deactivation_frame:
  "m_outbox (entity_enqueue_deactivation r h) = m_outbox h"
  "m_connection_events (entity_enqueue_deactivation r h) = m_connection_events h"
  "m_init_completed (entity_enqueue_deactivation r h) = m_init_completed h"
  "m_connected_to_stage (entity_enqueue_deactivation r h) = m_connected_to_stage h" for h :: client
  by (simp_all add: entity_enqueue_deactivation_def entity_sync_op_def entity_notify_def upd_entity_def Let_def
      split: option.split prod.split)

lemma enqueue_deactivations_frame:
  "m_outbox (fold entity_enqueue_deactivation rs h) = m_outbox h"
  "m_connection_events (fold entity_enqueue_deactivation rs h) = m_connection_events h"
  "m_init_completed (fold entity_enqueue_deactivation rs h) = m_init_completed h"
  "m_connected_to_stage (fold entity_enqueue_deactivation rs h) = m_connected_to_stage h" for h :: client
  by (induction rs arbitrary: h) (simp_all add: enqueue_deactivation_frame)

lemma leave_complete_published:
  assumes "m_connected_to_stage h"
  shows "\<exists>h'. leave_stage_complete ft draft compute n PUBLISH h = Some h' \<and> m_outbox h' = m_outbox h \<and>
    m_connection_events h' = defer_event CE_DisconnectedFromServer (m_connection_events h) \<and>
    m_init_completed h' = m_init_completed h \<and> \<not> m_connected_to_stage h' \<and>
    m_connected_server h' = \<lparr>server_name = '''', server_address = ''''\<rparr>"
  using assms
  by (simp add: leave_stage_complete_def process_if_sync_def dispatch_disconnected_from_stage_def connection_defer_def
      upd_connection_events_def enqueue_deactivation_frame enqueue_deactivations_frame close_connections_def Let_def)

text \<open>
  The end of a client that is connected. \<open>destroy\<close> returns whatever bound is set on the events, sends the
  stage one message, that it leaves, and ends disconnected. As the client counts as not initialised from the
  start, it processes none of its events: the event of the disconnection is left in the queue, whose further
  processing is refused, and so is a second \<open>destroy\<close>.
\<close>

theorem destroy_leaves_unheard:
  assumes "m_connected_to_stage h" and "\<not> c_is_ending h" and "\<not> c_is_destroyed h"
  shows "\<exists>h'. client_destroy ft draft compute n h = Some h' \<and> c_is_destroyed h' \<and> \<not> m_connected_to_stage h' \<and>
    m_outbox h' = m_outbox h @ [\<lparr>out_transport = client_transport,
      out_content = Content_ClientLeaveRequest (uri_path (root_uri h)) ClientLeaveReason_QUIT, out_args = transport_args\<rparr>] \<and>
    m_events (m_connection_events h') = m_events (m_connection_events h) @ [CE_DisconnectedFromServer] \<and>
    client_process_events ft draft compute n h' = Some h' \<and> client_destroy ft draft compute n h' = Some h'"
proof -
  define h1 where "h1 = client_send (Content_ClientLeaveRequest (uri_path (root_uri h)) ClientLeaveReason_QUIT) transport_args
    (h\<lparr>m_init_completed := False, m_is_connecting := False\<rparr>)"
  have root: "root_uri (h\<lparr>m_init_completed := False\<rparr>) = root_uri h" by (simp add: root_uri_def uri_at_def)
  have "m_connected_to_stage h1" using assms(1) by (simp add: h1_def client_send_def)
  then obtain h2 where h2: "leave_stage_complete ft draft compute n PUBLISH h1 = Some h2" "m_outbox h2 = m_outbox h1"
      "m_connection_events h2 = defer_event CE_DisconnectedFromServer (m_connection_events h1)"
      "m_init_completed h2 = m_init_completed h1" "\<not> m_connected_to_stage h2"
    using leave_complete_published by blast
  moreover have "\<not> m_init_completed h1" by (simp add: h1_def client_send_def)
  ultimately have "leave_stage ft draft compute n (h\<lparr>m_init_completed := False\<rparr>) = Some h2"
    using assms(1) by (simp add: leave_stage_def root h1_def client_process_events_def)
  then have "client_destroy ft draft compute n h = Some (h2\<lparr>c_is_ending := False, c_is_destroyed := True\<rparr>)"
    using assms by (simp add: client_destroy_def)
  then show ?thesis
    using h2 by (simp add: h1_def client_send_def client_process_events_def client_destroy_def)
qed

theorem destroy_leaves_unheard_witness:
  "\<exists>h'. client_destroy no_floats False idle_compute 0 (accept_sample (join_sample sample_owner)) = Some h' \<and>
     client_process_events no_floats False idle_compute 0 h' = Some h' \<and>
     out_content (last (m_outbox h')) = Content_ClientLeaveRequest ''ada'' ClientLeaveReason_QUIT"
proof -
  have "m_connected_to_stage (accept_sample (join_sample sample_owner))" "\<not> c_is_ending (accept_sample (join_sample sample_owner))"
    "\<not> c_is_destroyed (accept_sample (join_sample sample_owner))"
    "uri_path (root_uri (accept_sample (join_sample sample_owner))) = ''ada''"
    by code_simp+
  then show ?thesis
    using destroy_leaves_unheard [of "accept_sample (join_sample sample_owner)" no_floats False idle_compute 0] by auto
qed

section \<open>Creation by a remote factory\<close>

text \<open>
  What the creation of an entity by another performer's factory reports. The acknowledgement that the
  stage sends to the client that asked, as its last message whatever the owner of the factory responded, names
  the factory. The client finds the factory under that name and reports it as the entity that was created; the
  path of what was created is never sent.
\<close>

theorem remote_creation_reports_factory:
  assumes "nul_free (uri_path path)" and "client_find_entity h path = Some factory" and "heap h factory \<noteq> None"
    and "heap s p \<noteq> None"
  shows "\<exists>ms ack. m_outbox (fst (stage_on_response (RA_FactoryCreated (Some p) path request_id) response s)) =
      m_outbox s @ ms @ [ack] \<and> msg_ID (out_args ack) = request_id \<and>
    (\<forall>msg. m_buffer msg = out_content ack \<longrightarrow>
       entity_created_response factory (Some msg) h = (factory_created_event factory factory h, None))"
proof -
  let ?args = "transport_args\<lparr>msg_ID := request_id\<rparr>"
  have "client_find_entity h (string_uri (uri_path path)) = Some factory"
    using assms(1,2) by (auto simp: client_find_entity_def find_entity_def uri_equal_path split: if_splits)
  then have "entity_created_response factory (Some msg) h = (factory_created_event factory factory h, None)"
    if "m_buffer msg = Content_FactoryCreateEntityACK (uri_path path)" for msg
    using that assms(3) by (simp add: entity_created_response_def get_signal_def)
  moreover have "m_outbox (fst (stage_on_response (RA_FactoryCreated (Some p) path request_id) response s)) =
      m_outbox s @ (if verify_signal response Signal_OK then []
        else [addressed s (Content_SignalMessage (get_signal response)) ?args p]) @
      [addressed s (Content_FactoryCreateEntityACK (uri_path path)) ?args p]" (is "_ = _ @ ?ms @ _")
    using assms(4) by (auto simp: stage_on_response_def reply_sends whisper_sends sends_def addressed_def)
  ultimately show ?thesis
    by (intro exI [of _ ?ms] exI [of _ "addressed s (Content_FactoryCreateEntityACK (uri_path path)) ?args p"])
       (simp add: addressed_def)
qed

definition sample_with_factory :: client where
  "sample_with_factory = sample_started
     \<lparr>heap := (heap sample_started)(5 \<mapsto> set_proxy (factory_from (fst (synchronisable_new 5))
        \<lparr>ed_URI = ''bob/makers'', ed_owner = None\<rparr> (Some [''bob/makers/synth'']))),
      m_entity_lookup := (m_entity_lookup sample_started)(''bob/makers'' \<mapsto> 5), m_proxies := [5], next_ref := 6\<rparr>"

theorem remote_creation_reports_factory_witness:
  "\<exists>ack. last (m_outbox (fst (stage_on_response (RA_FactoryCreated (Some 0) (uri_of ''bob/makers'') 9) None relay_sample))) = ack \<and>
     entity_created_response 5 (Some \<lparr>m_origin_UUID = 0, m_id = 9, m_owning_transport = 0, m_buffer = out_content ack\<rparr>)
       sample_with_factory = (factory_created_event 5 5 sample_with_factory, None)"
proof -
  have "client_find_entity sample_with_factory (uri_of ''bob/makers'') = Some 5"
    "\<not> Option.is_none (heap sample_with_factory 5)" "uri_path (uri_of ''bob/makers'') = ''bob/makers''"
    by code_simp+
  moreover from this have "heap sample_with_factory 5 \<noteq> None" by (simp add: Option.is_none_def)
  ultimately show ?thesis
    using remote_creation_reports_factory
      [of "uri_of ''bob/makers''" sample_with_factory 5 relay_sample 0 9 None]
    by (fastforce simp: nul_free_def)
qed

end
