(* ===== verification/Zst_Client_Stage.thy ===== *)
theory Zst_Client_Stage
  imports Zst_Client_Behaviour
begin

text \<open>
  Clients and the stage together: the request that one side sends is what the other side handles, and the
  answer comes back to the callback of the request.
\<close>

section \<open>Joining\<close>

definition can_join :: "client \<Rightarrow> bool" where
  "can_join h \<longleftrightarrow> m_init_completed h \<and> \<not> m_is_connecting h \<and> \<not> m_connected_to_stage h"

lemma join_sends:
  assumes "can_join h" and "heap h (m_root h) = Some e" and "join_stage ft addrs server sendtype h = (h1, err)"
  shows "err = None" "out_content (last (m_outbox h1)) = Content_ClientJoinRequest (entity_serialize_partial e)
      (Some (m_component_type e)) (Some (fst addrs)) (Some (snd addrs))"
    "m_is_connecting h1" "\<not> m_connected_to_stage h1"
  using assms by (auto simp: can_join_def join_stage_def client_send_def Let_def)

lemma post_join_async:
  "\<exists>h' err. post_join_activation ft draft await n ASYNC_REPLY cs h = Some (h', err) \<and> client_frame h h'"
proof (induction cs arbitrary: h)
  case (Cons c cs)
  obtain g e where g: "client_activate_entity ft (Some c) ASYNC_REPLY None h = (g, e)" by fastforce
  then have "client_frame h g" using frame_activate [of h ft "Some c" ASYNC_REPLY None] by simp
  moreover obtain h' err where "post_join_activation ft draft await n ASYNC_REPLY cs g = Some (h', err)" "client_frame g h'"
    using Cons by blast
  ultimately show ?case using g frame_trans by (cases e) auto
qed simp

lemma join_accepted_async:
  assumes "verify_signal response Signal_OK"
  shows "\<exists>h' err. join_response ft draft compute await n server response ASYNC_REPLY h = Some (h', err) \<and> m_connected_to_stage h'"
proof -
  define h1 where "h1 = h\<lparr>m_is_connecting := False, m_connected_to_stage := True, m_connected_server := server\<rparr>"
  define g where "g = dispatch_connected_to_stage (fold join_activating (root_and_children h1) h1)"
  define h3 where "h3 = synchronise_graph ASYNC_REPLY (g\<lparr>m_heartbeat_timer := True\<rparr>)"
  have "client_frame h1 (fold join_activating (root_and_children h1) h1)"
    by (rule frame_fold) (rule frame_join_activating)
  then have "client_frame h1 g"
    unfolding g_def dispatch_connected_to_stage_def entity_enqueue_activation_def by (rule frame_trans) (rule frame_sync_op)
  then have "m_connected_to_stage h3"
    by (simp add: h3_def h1_def synchronise_graph_def client_send_def client_frame_def client_core_def)
  moreover obtain h5 err where h5: "post_join_activation ft draft await n ASYNC_REPLY
      (get_child_entities client_queries tree_depth h3 (m_root h3) False True ET_NONE) h3 = Some (h5, err)" "client_frame h3 h5"
    using post_join_async by blast
  ultimately have "m_connected_to_stage h5" by (simp add: client_frame_def client_core_def)
  moreover have "m_connected_to_stage (dispatch_connected_to_stage h5) = m_connected_to_stage h5"
    using frame_sync_op [of h5 enqueue_activation "m_root h5"]
    by (simp add: dispatch_connected_to_stage_def entity_enqueue_activation_def client_frame_def client_core_def)
  ultimately show ?thesis
    using assms h5(1)
    by (cases err)
       (simp_all add: join_response_def join_stage_complete_def Let_def h1_def [symmetric] g_def [symmetric] h3_def [symmetric]
         await_if_sync_def process_if_sync_def connection_defer_def upd_connection_events_def)
qed

lemma adopt_outbox: "m_outbox (adopt_proxy V r h) = m_outbox h" for h :: "'z hierarchy_scheme"
proof -
  have "m_outbox (fold (\<lambda>c. upd_entity c proxy_activated) cs g) = m_outbox g" for cs and g :: "'z hierarchy_scheme"
    by (rule fold_frame) (simp add: upd_entity_def)
  moreover have "m_outbox (register_entity r g) = m_outbox g" for g :: "'z hierarchy_scheme"
    by (simp add: register_entity_def upd_entity_def add_entity_to_lookup_def)
  moreover have "m_outbox (dispatch_entity_arrived_event r g) = m_outbox g" for g :: "'z hierarchy_scheme"
    by (simp add: dispatch_entity_arrived_event_def hierarchy_defer_def split: option.split)
  ultimately show ?thesis by (simp add: adopt_proxy_def Let_def insert_proxy_def)
qed

lemma client_join_outbox:
  assumes "find_entity s (parent_uri (string_uri (ed_URI ed))) = None"
  shows "m_outbox (fst (create_client_handler ind msg ed ct rel unrel s)) = m_outbox s"
proof -
  define mk where "mk = (\<lambda>y. stage_proxy_new ind y ed ct (case rel of None \<Rightarrow> [] | Some a \<Rightarrow> a)
      (case unrel of None \<Rightarrow> [] | Some a \<Rightarrow> a) (m_origin_UUID msg) (m_owning_transport msg))"
  obtain r s1 where alloc: "alloc_entity mk s = (r, s1)" by fastforce
  then obtain y where e: "heap s1 r = Some (mk y)" "m_entity_lookup s1 = m_entity_lookup s" "m_outbox s1 = m_outbox s"
    by (auto simp: alloc_entity_def Let_def split: prod.splits)
  then have "uri_at s1 r = string_uri (ed_URI ed)" by (simp add: uri_at_def mk_def)
  then have "find_entity s1 (parent_uri (uri_at s1 r)) = None" using assms e(2) by (simp add: find_entity_def)
  then have "add_proxy_entity stage_virtuals (Some r) s1 = (adopt_proxy stage_virtuals r (upd_entity r set_proxy s1), None)"
    by (simp add: add_proxy_entity_def)
  moreover have "m_outbox (upd_entity r set_proxy s1) = m_outbox s" using e(3) by (simp add: upd_entity_def)
  ultimately show ?thesis
    using alloc by (simp add: create_client_handler_def Let_def mk_def [symmetric] adopt_outbox)
qed

text \<open>
  C11. Two clients of one name ask the stage to join, one after the other, while the name is free there. The
  stage answers each request once, to the endpoint and under the id it came with. The first answer makes the
  first client connected, whatever its entities are. The second answer changes nothing in the second client,
  which stays connecting.
\<close>

theorem first_join_wins:
  assumes "can_join h" and "heap h (m_root h) = Some e" and "join_stage ft addrs server ASYNC_REPLY h = (h1, x)"
    and "can_join g" and "heap g (m_root g) = Some d" and "join_stage ft' addrs' server ASYNC_REPLY g = (g1, y)"
    and "ed_URI (entity_serialize_partial d) = ed_URI (entity_serialize_partial e)"
    and "stage_ok s" and "find_entity s (string_uri (ed_URI (entity_serialize_partial e))) = None"
    and "find_entity s (parent_uri (string_uri (ed_URI (entity_serialize_partial e)))) = None"
    and "m_buffer m1 = out_content (last (m_outbox h1))" and "m_buffer m2 = out_content (last (m_outbox g1))"
  shows "\<exists>s1 s2 r1 r2.
    stage_hierarchy_on_receive_msg st ind m1 s = (s1, None) \<and> m_outbox s1 = m_outbox s @ [r1] \<and>
    target_endpoint_UUID (out_args r1) = m_origin_UUID m1 \<and> msg_ID (out_args r1) = m_id m1 \<and>
    stage_hierarchy_on_receive_msg st ind m2 s1 = (s2, None) \<and> m_outbox s2 = m_outbox s1 @ [r2] \<and>
    target_endpoint_UUID (out_args r2) = m_origin_UUID m2 \<and> msg_ID (out_args r2) = m_id m2 \<and>
    (\<forall>m. m_buffer m = out_content r1 \<longrightarrow>
       (\<exists>h2 z. join_response ft draft compute await n server (Some m) ASYNC_REPLY h1 = Some (h2, z) \<and> m_connected_to_stage h2)) \<and>
    (\<forall>m. m_buffer m = out_content r2 \<longrightarrow>
       join_response ft' draft compute await n server (Some m) ASYNC_REPLY g1 = Some (g1, None) \<and> m_is_connecting g1)"
proof -
  let ?ed = "entity_serialize_partial e" and ?dd = "entity_serialize_partial d"
  define reply where "reply msg signal = \<lparr>out_transport = m_owning_transport msg, out_content = Content_SignalMessage signal,
    out_args = transport_args\<lparr>target_endpoint_UUID := m_origin_UUID msg, msg_ID := m_id msg\<rparr>\<rparr>" for msg :: ZstStageMessage and signal
  obtain s' r where s': "create_client_handler ind m1 ?ed (Some (m_component_type e)) (Some (fst addrs)) (Some (snd addrs)) s = (s', Inr Signal_OK)"
      "find_entity s' (string_uri (ed_URI ?ed)) = Some r"
    using client_joins [OF assms(8-10)] by blast
  define s1 where "s1 = s'\<lparr>m_outbox := m_outbox s' @ [reply m1 Signal_OK]\<rparr>"
  define s2 where "s2 = s1\<lparr>m_outbox := m_outbox s1 @ [reply m2 Signal_ERR_STAGE_PERFORMER_ALREADY_EXISTS]\<rparr>"
  have out: "m_outbox s' = m_outbox s"
    using client_join_outbox [OF assms(10), of ind m1 "Some (m_component_type e)" "Some (fst addrs)" "Some (snd addrs)"] s'(1)
    by simp
  note sends = join_sends [OF assms(1-3)] join_sends [OF assms(4-6)]
  have "stage_hierarchy_on_receive_msg st ind m1 s = (s1, None)"
    using s'(1) by (simp add: stage_hierarchy_on_receive_msg_def assms(11) sends send_response_def send_msg_def s1_def reply_def)
  moreover have "find_entity s1 (string_uri (ed_URI ?dd)) = Some r" using s'(2) assms(7) by (simp add: s1_def find_entity_def)
  then have "stage_hierarchy_on_receive_msg st ind m2 s1 = (s2, None)"
    by (simp add: stage_hierarchy_on_receive_msg_def assms(12) sends send_response_def send_msg_def s2_def reply_def
        create_client_handler_def)
  moreover have "verify_signal (Some m) Signal_OK" if "m_buffer m = Content_SignalMessage Signal_OK" for m
    using that by (simp add: verify_signal_def get_signal_def)
  moreover have "join_response ft' draft compute await n server (Some m) ASYNC_REPLY g1 = Some (g1, None)"
    if "m_buffer m = Content_SignalMessage Signal_ERR_STAGE_PERFORMER_ALREADY_EXISTS" for m
    using that by (simp add: join_response_def verify_signal_def get_signal_def)
  ultimately show ?thesis
    using join_accepted_async sends(7)
    by (intro exI [of _ s1] exI [of _ s2] exI [of _ "reply m1 Signal_OK"] exI [of _ "reply m2 Signal_ERR_STAGE_PERFORMER_ALREADY_EXISTS"])
       (simp add: reply_def s1_def s2_def out)
qed

theorem first_join_wins_witness:
  "\<exists>s1 r1. stage_hierarchy_on_receive_msg no_floats False
       \<lparr>m_origin_UUID = 5, m_id = 1, m_owning_transport = 0, m_buffer = out_content (last (m_outbox sample_joining))\<rparr> stage_new = (s1, None) \<and>
     m_outbox s1 = [r1] \<and> target_endpoint_UUID (out_args r1) = 5"
proof -
  obtain e where e: "heap sample_started (m_root sample_started) = Some e"
    using client_reachable_inv [OF idle_compute_inv sample_started_reachable]
    by (auto simp: client_inv_def dest: client_okD(3))
  obtain x where j: "join_stage no_floats (''tcp://a'', '''') sample_server ASYNC_REPLY sample_started = (sample_joining, x)"
    by (simp add: sample_joining_def prod_eq_iff)
  have out: "m_outbox stage_new = []" by (simp add: stage_new_def)
  have "can_join sample_started" by code_simp
  then show ?thesis
    using first_join_wins [OF _ e j _ e j refl conjunct1 [OF stage_new_ok], of
        "\<lparr>m_origin_UUID = 5, m_id = 1, m_owning_transport = 0, m_buffer = out_content (last (m_outbox sample_joining))\<rparr>"
        "\<lparr>m_origin_UUID = 6, m_id = 1, m_owning_transport = 0, m_buffer = out_content (last (m_outbox sample_joining))\<rparr>" no_floats False False idle_compute Some 0]
    by (auto simp: out)
qed

end
