(* ===== verification/Zst_Replication.thy ===== *)
theory Zst_Replication
  imports Zst_Client_Stage Zst_Relay
begin

text \<open>
  How an entity gets from the client that owns it to the others: the announcement of one client, the handler of the
  stage, which makes a proxy, the event by which the stage tells the other clients, and their handler, which makes
  theirs. The modules are those of \<open>Zst_Stage\<close> and \<open>Zst_Client_Hierarchy\<close>; what both do with a new
  proxy is shown once, in the locale \<open>hierarchy_module\<close>.
\<close>

section \<open>The data of an entity\<close>

text \<open>What the table of an entity that is no factory is made of.\<close>

definition entity_data where
  "entity_data e = (m_uri e, m_class e, m_entity_type e, m_component_type e, m_current_owner e,
     m_direction e, m_max_connected_cables e, m_value e)"

lemma entity_data_fields [simp]:
  "entity_data (e\<lparr>m_parent := u\<rparr>) = entity_data e" "entity_data (e\<lparr>m_children := cs\<rparr>) = entity_data e"
  "entity_data (set_registered e) = entity_data e" "entity_data (attach_hierarchy e) = entity_data e"
  "entity_data (set_proxy e) = entity_data e" "entity_data (proxy_activated e) = entity_data e"
  by (simp_all add: entity_data_def set_registered_def attach_hierarchy_def proxy_activated_def sync_status_defs
      sync_add_adaptor_def)

lemma entity_serialize_data:
  "entity_data e = entity_data e' \<Longrightarrow> \<not> is_factory e \<Longrightarrow> entity_serialize ft e = entity_serialize ft e'"
  by (cases "m_class e")
     (auto simp: entity_data_def entity_serialize_def entity_serialize_partial_def plug_serialize_partial_def is_factory_def)

definition data_at where
  "data_at h r = map_option entity_data (heap h r)"

lemma data_upd: "(\<And>e. entity_data (f e) = entity_data e) \<Longrightarrow> data_at (upd_entity c f h) r = data_at h r"
  by (cases "heap h r") (auto simp: data_at_def upd_entity_def)

lemma data_register [simp]: "data_at (register_entity c h) r = data_at h r"
proof -
  have "data_at (add_entity_to_lookup c g) r = data_at g r" for g :: "'a hierarchy_scheme"
    by (simp add: data_at_def add_entity_to_lookup_def)
  then show ?thesis by (simp add: register_entity_def data_upd)
qed

lemma data_adopt_proxy: "data_at (adopt_proxy V r h) c = data_at h c"
proof -
  have "data_at (fold (\<lambda>c. upd_entity c proxy_activated) cs g) c = data_at g c" for cs and g :: "'a hierarchy_scheme"
    by (rule fold_frame) (simp add: data_upd)
  moreover have "data_at (dispatch_entity_arrived_event r g) c = data_at g c" for g :: "'a hierarchy_scheme"
    by (simp add: data_at_def dispatch_entity_arrived_event_def hierarchy_defer_def split: option.split)
  moreover have "data_at (insert_proxy r g) c = data_at g c" for g :: "'a hierarchy_scheme"
    by (simp add: data_at_def insert_proxy_def)
  ultimately show ?thesis by (simp add: adopt_proxy_def Let_def)
qed

text \<open>The last thing that happens to a new proxy is that its arrival is announced.\<close>

definition arrival_event :: "ZstEntityType \<Rightarrow> ref \<Rightarrow> hierarchy_event" where
  "arrival_event t r =
     (if t = ET_FACTORY then HE_FactoryArriving r else if t = ET_PERFORMER then HE_PerformerArriving r else HE_EntityArriving r)"

lemma adopt_proxy_arrives:
  assumes "heap h r = Some e" and "m_entity_type e \<noteq> ET_NONE"
  shows "\<exists>evs. m_events (m_hierarchy_events (adopt_proxy V r h)) = evs @ [arrival_event (m_entity_type e) r]"
proof -
  let ?h2 = "fold (\<lambda>c. upd_entity c proxy_activated)
      (get_child_entities V tree_depth (register_entity r h) r True True ET_NONE) (register_entity r h)"
  have "data_at ?h2 r = data_at (register_entity r h) r"
    by (rule fold_frame) (simp add: data_upd)
  then have "data_at ?h2 r = Some (entity_data e)" using assms(1) by (simp add: data_at_def[of h])
  then obtain e' where e': "heap ?h2 r = Some e'" "m_entity_type e' = m_entity_type e"
    by (auto simp: data_at_def entity_data_def)
  have "heap (insert_proxy r ?h2) r = Some e'" using e'(1) by (simp add: insert_proxy_def)
  then show ?thesis
    using e'(2) assms(2)
    by (cases "m_entity_type e")
       (simp_all add: adopt_proxy_def Let_def dispatch_entity_arrived_event_def hierarchy_defer_def defer_event_def arrival_event_def)
qed

section \<open>Adding a proxy to its parent\<close>

text \<open>
  A proxy that lies below its parent keeps its data, in every module that registers entities in its lookup table:
  a proxy is never activated by the parent it is added to.
\<close>

lemma add_child_proxy_data:
  assumes "v_request_entity_registration V = register_entity"
    and "heap h r = Some e" and "m_hierarchy_adaptors e = []" and "m_children e = []" and "p \<noteq> r" and "m_is_proxy e"
    and "reparented_uri (uri_at h p) (m_uri e) = m_uri e" and "\<not> is_factory e"
  shows "data_at (add_child (set_parent V n) V p r auto h) r = Some (entity_data e)"
proof -
  define e1 where "e1 = e\<lparr>m_parent := uri_at h p\<rparr>"
  let ?h1 = "base_set_parent V r (Some p) h"
  have b: "heap ?h1 r = Some e1"
    using assms by (auto simp: base_set_parent_def update_URI_def Let_def hierarchy_attached_def
        entity_test_def uri_at_def e1_def is_factory_def)
  have "get_child_entities V 1 ?h1 r False False ET_NONE = []"
    using b assms(4) by (simp add: base_child_entities_def e1_def)
  then have "\<exists>e2. heap (set_parent V n r (Some p) h) r = Some e2 \<and> entity_data e2 = entity_data e \<and> m_is_proxy e2"
    using b assms(2,6)
    by (subst set_parent.simps) (auto simp: Let_def reparent_children_def e1_def split: nat.split)
  then obtain e2 where e2: "heap (set_parent V n r (Some p) h) r = Some e2" "entity_data e2 = entity_data e" "m_is_proxy e2"
    by blast
  define h2 where "h2 = upd_entity p (\<lambda>q. q\<lparr>m_children := oset_insert uri_less
      (uri_at (set_parent V n r (Some p) h) r) (m_children q)\<rparr>) (set_parent V n r (Some p) h)"
  have h2: "heap h2 r = Some e2" using e2(1) assms(5) by (simp add: h2_def upd_entity_def)
  have proxy: "entity_test m_is_proxy (if b then register_entity r h2 else h2) r" for b
    using h2 e2(3) by (auto simp: entity_test_def register_entity_def add_entity_to_lookup_def upd_entity_def
        set_registered_def attach_hierarchy_def sync_add_adaptor_def)
  have d2: "data_at h2 r = Some (entity_data e)" "data_at (set_parent V n r (Some p) h) r = Some (entity_data e)"
    "data_at h r = Some (entity_data e)"
    using h2 e2 assms(2) by (simp_all add: data_at_def)
  note if_data = if_distrib[where f = "\<lambda>g. data_at g r"]
  have c: "data_at (component_add_child (set_parent V n) V p r a h) r = Some (entity_data e)" for a
    unfolding component_add_child_def Let_def h2_def[symmetric] assms(1)
    using proxy[of True] proxy[of False] by (simp add: if_data d2)
  show ?thesis unfolding add_child_def by (simp add: c d2)
qed

context hierarchy_module
begin

text \<open>
  A new proxy, just constructed from a table, is adopted: it is found under its URI, with its data, active, and its
  arrival is announced.
\<close>

lemma add_proxy_found:
  assumes "hierarchy_ok h" and "v_request_entity_registration V = register_entity"
    and "heap h r = Some e" and "m_hierarchy_adaptors e = []" and "m_children e = []" and "\<not> is_factory e"
    and "m_entity_type e \<noteq> ET_NONE" and "uri_ok (m_uri e)" and "uri_size (m_uri e) < 2 ^ 31"
    and "\<forall>p. v_find_entity V h (parent_uri (m_uri e)) = Some p \<longrightarrow>
      p \<noteq> r \<and> entity_test is_component h p \<and> uri_ok (uri_at h p) \<and> \<not> uri_is_empty (uri_at h p)"
  shows "\<exists>h' evs. add_proxy_entity V (Some r) h = (h', None) \<and> hierarchy_ok h' \<and> find_entity h' (m_uri e) = Some r \<and>
    data_at h' r = Some (entity_data e) \<and> entity_test (\<lambda>e. m_is_proxy e \<and> is_activated e) h' r \<and>
    m_events (m_hierarchy_events h') = evs @ [arrival_event (m_entity_type e) r]"
proof -
  let ?h1 = "upd_entity r set_proxy h"
  have at1: "uri_at ?h1 q = uri_at h q" for q by (simp add: uri_at_upd sync_status_defs)
  have at: "uri_at h r = m_uri e" using assms(3) by (simp add: uri_at_def)
  have h1r: "heap ?h1 r = Some (set_proxy e)" using assms(3) by simp
  have add: "\<exists>g. add_proxy_entity V (Some r) h = (adopt_proxy V r g, None) \<and> data_at g r = Some (entity_data e)"
  proof (cases "v_find_entity V h (parent_uri (m_uri e))")
    case None
    have "data_at ?h1 r = Some (entity_data e)" unfolding data_at_def h1r by simp
    then show ?thesis using None at by (intro exI[of _ ?h1]) (simp add: add_proxy_entity_def)
  next
    case (Some p)
    have p: "p \<noteq> r" "entity_test is_component h p" "uri_ok (uri_at h p)" "\<not> uri_is_empty (uri_at h p)"
      using assms(10) Some by auto
    obtain d where d: "heap h p = Some d" "uri_path (m_uri d) = uri_path (parent_uri (m_uri e))"
      using find_live[OF assms(1) Some] by blast
    have "uri_ok (parent_uri (m_uri e))" using assms(8,9) by (simp add: parent_uri_eq)
    then have "uri_at h p = parent_uri (m_uri e)" using p(3) d by (simp add: uri_ok_eq_iff uri_at_def)
    then have rp: "reparented_uri (uri_at ?h1 p) (m_uri (set_proxy e)) = m_uri (set_proxy e)"
      using p uri_contains_parent[OF assms(8,9)] by (simp add: at1 reparented_uri_def sync_status_defs)
    let ?g = "add_child (set_parent V tree_depth) V p r True ?h1"
    have "data_at ?g r = Some (entity_data (set_proxy e))"
      using assms(4-6) p(1) rp
      by (intro add_child_proxy_data[OF assms(2) h1r]) (auto simp: sync_status_defs is_factory_def)
    moreover have "entity_test is_component ?h1 p" using p by (simp add: entity_test_def)
    ultimately show ?thesis
      using Some at by (intro exI[of _ ?g]) (simp add: add_proxy_entity_def)
  qed
  then obtain g where g: "add_proxy_entity V (Some r) h = (adopt_proxy V r g, None)" "data_at g r = Some (entity_data e)"
    by blast
  then obtain e' where e': "heap g r = Some e'" "m_uri e' = m_uri e" "m_entity_type e' = m_entity_type e"
    by (auto simp: data_at_def entity_data_def)
  have "hierarchy_ok (fst (add_proxy_entity V (Some r) h))"
    using assms(1,3) by (intro add_proxy_ok) auto
  then show ?thesis
    using g e' assms(7) adopt_proxy_found[of g r V] adopt_proxy_arrives[OF e'(1), of V] data_adopt_proxy[of V r g r]
    by (auto simp: uri_at_def)
qed

end

section \<open>A component from its table\<close>

lemma component_from_fields [simp]:
  "m_hierarchy_adaptors (component_from s ed ct) = []" "m_children (component_from s ed ct) = []"
  "m_class (component_from s ed ct) = EC_Component" "m_entity_type (component_from s ed ct) = ET_COMPONENT"
  "m_uri (component_from s ed (Some t)) = table_uri ed" "m_component_type (component_from s ed (Some t)) = t"
  "m_uri (component_from s ed ct) = table_uri ed"
  by (cases s; simp add: component_from_def component_deserialize_partial_def entity_deserialize_partial_def
      entity_init_def set_entity_type_def table_uri_def ZstSynchronisable.defs split: option.split)+

lemma table_uri_path:
  assumes "nul_free (ed_URI ed)"
  shows "table_uri ed = uri_of (ed_URI ed)" "uri_ok (table_uri ed)" "uri_path (table_uri ed) = ed_URI ed"
    "uri_full_size (table_uri ed) = length (ed_URI ed)"
proof -
  show t: "table_uri ed = uri_of (ed_URI ed)" using assms uri_of_len_eq[of "ed_URI ed"] by (simp add: table_uri_def)
  show "uri_ok (table_uri ed)" "uri_path (table_uri ed) = ed_URI ed" "uri_full_size (table_uri ed) = length (ed_URI ed)"
    using assms unfolding t by (simp_all add: uri_full_size_def strlen_def flip: uri_path_def)
qed

text \<open>The table that the proxy of a component has: that of the component, but for the owner.\<close>

lemma component_table:
  assumes "entity_data e = entity_data (component_from s ed (Some t))" and "nul_free (ed_URI ed)"
  shows "\<exists>owner. entity_serialize ft e = Inr (T_Component \<lparr>ed_URI = ed_URI ed, ed_owner = owner\<rparr> (Some t))"
  using assms table_uri_path[OF assms(2)]
  by (simp add: entity_data_def entity_serialize_def entity_serialize_partial_def)

context hierarchy_module
begin

lemma component_proxy_made:
  assumes "hierarchy_ok h" and "v_request_entity_registration V = register_entity"
    and "v_find_entity V h (table_uri ed) = None" and "\<not> uri_is_empty (parent_uri (table_uri ed))"
    and "nul_free (ed_URI ed)" and "uri_size (table_uri ed) < 2 ^ 31"
    and same: "\<And>e u. v_find_entity V (snd (alloc_entity (\<lambda>_. e) h)) u = v_find_entity V h u"
    and parent: "\<forall>q. v_find_entity V h (parent_uri (table_uri ed)) = Some q \<longrightarrow>
      entity_test is_component h q \<and> uri_ok (uri_at h q) \<and> \<not> uri_is_empty (uri_at h q)"
  shows "\<exists>h1 r h' s evs. create_proxy_entity V ind (T_Component ed (Some t)) ed h = (h1, Inr (Some r)) \<and>
    add_proxy_entity V (Some r) h1 = (h', None) \<and> hierarchy_ok h' \<and> find_entity h' (table_uri ed) = Some r \<and>
    data_at h' r = Some (entity_data (component_from s ed (Some t))) \<and>
    entity_test (\<lambda>e. m_is_proxy e \<and> is_activated e) h' r \<and>
    m_events (m_hierarchy_events h') = evs @ [HE_EntityArriving r]"
proof -
  obtain s c where s: "synchronisable_new (s_instance_id_counter h) = (s, c)" by fastforce
  let ?e = "component_from s ed (Some t)"
  let ?h1 = "snd (alloc_entity (\<lambda>_. ?e) h)" and ?r = "next_ref h"
  have new: "alloc_entity (\<lambda>_. ?e) h = (?r, ?h1)" "heap ?h1 = (heap h)(?r \<mapsto> ?e)"
    by (simp_all add: alloc_entity_def s Let_def)
  have create: "create_proxy_entity V ind (T_Component ed (Some t)) ed h = (?h1, Inr (Some ?r))"
    using assms(3,4) by (simp add: create_proxy_entity_def is_performer_table_def s, subst new(1)) simp
  note uri = table_uri_path[OF assms(5)]
  have fresh: "heap h ?r = None" using assms(1) by (auto simp: hierarchy_ok_def)
  have p: "q \<noteq> ?r \<and> entity_test is_component ?h1 q \<and> uri_ok (uri_at ?h1 q) \<and> \<not> uri_is_empty (uri_at ?h1 q)"
    if "v_find_entity V ?h1 (parent_uri (m_uri ?e)) = Some q" for q
  proof -
    have q: "v_find_entity V h (parent_uri (table_uri ed)) = Some q" using that same by simp
    then have "q \<noteq> ?r" using find_live[OF assms(1) q] fresh by auto
    then show ?thesis using parent q by (auto simp: entity_test_def uri_at_def new(2))
  qed
  have "hierarchy_ok ?h1" using alloc_entity_ok[OF assms(1)] by blast
  from add_proxy_found[OF this assms(2), of ?r ?e] new(2) uri assms(6) p
  have "\<exists>h' evs. add_proxy_entity V (Some ?r) ?h1 = (h', None) \<and> hierarchy_ok h' \<and> find_entity h' (table_uri ed) = Some ?r \<and>
      data_at h' ?r = Some (entity_data ?e) \<and> entity_test (\<lambda>e. m_is_proxy e \<and> is_activated e) h' ?r \<and>
      m_events (m_hierarchy_events h') = evs @ [HE_EntityArriving ?r]"
    by (simp add: is_factory_def arrival_event_def)
  then show ?thesis using create by blast
qed

end

section \<open>From one client to the others\<close>

text \<open>The conditions under which a module takes a new component: its path is free and its parent, if known, a component.\<close>

definition accepts_component ::
  "('z hierarchy_scheme \<Rightarrow> ZstURI \<Rightarrow> ref option) \<Rightarrow> 'z hierarchy_scheme \<Rightarrow> ZstURI \<Rightarrow> bool" where
  "accepts_component finds h u \<longleftrightarrow> finds h u = None \<and>
     (\<forall>q. finds h (parent_uri u) = Some q \<longrightarrow>
        entity_test is_component h q \<and> uri_ok (uri_at h q) \<and> \<not> uri_is_empty (uri_at h q))"

definition component_path :: "string \<Rightarrow> bool" where
  "component_path w \<longleftrightarrow> nul_free w \<and> uri_size (uri_of w) < 2 ^ 31 \<and> \<not> uri_is_empty (parent_uri (uri_of w))"

text \<open>A client takes a component that is not its own.\<close>

lemma client_takes_component:
  assumes "client_ok h" and "component_path (ed_URI ed)" and "\<not> path_is_local h (table_uri ed)"
    and "accepts_component client_find_entity h (table_uri ed)"
  shows "\<exists>h' r s evs. create_proxy_entity_handler ft ind (T_Component ed (Some t)) h = (h', None) \<and>
    find_entity h' (table_uri ed) = Some r \<and> data_at h' r = Some (entity_data (component_from s ed (Some t))) \<and>
    entity_test (\<lambda>e. m_is_proxy e \<and> is_activated e) h' r \<and>
    m_events (m_hierarchy_events h') = evs @ [HE_EntityArriving r]"
proof -
  have ok: "hierarchy_ok h" "heap h (m_root h) \<noteq> None" using client_okD[OF assms(1)] by simp_all
  have path: "nul_free (ed_URI ed)" "uri_size (table_uri ed) < 2 ^ 31" "\<not> uri_is_empty (parent_uri (table_uri ed))"
    using assms(2) table_uri_path(1)[of ed] by (auto simp: component_path_def)
  have "client_find_entity (snd (alloc_entity (\<lambda>_. e) h)) u = client_find_entity h u" for e u
  proof -
    obtain r h1 where a: "alloc_entity (\<lambda>_. e) h = (r, h1)" by fastforce
    then have "heap h1 (m_root h1) = heap h (m_root h)" "m_entity_lookup h1 = m_entity_lookup h"
      using alloc_client_ok(3,4)[OF assms(1) a] by (auto simp: alloc_entity_def Let_def split: prod.splits)
    then show ?thesis
      using alloc_client_ok(4)[OF assms(1) a] a by (simp add: client_find_entity_def entity_test_def find_entity_def)
  qed
  then obtain h1 r h' s evs where
    "create_proxy_entity (client_virtuals ft) ind (T_Component ed (Some t)) ed h = (h1, Inr (Some r))"
    "add_proxy_entity (client_virtuals ft) (Some r) h1 = (h', None)" "find_entity h' (table_uri ed) = Some r"
    "data_at h' r = Some (entity_data (component_from s ed (Some t)))"
    "entity_test (\<lambda>e. m_is_proxy e \<and> is_activated e) h' r" "m_events (m_hierarchy_events h') = evs @ [HE_EntityArriving r]"
    using client_reaper.component_proxy_made[OF ok(1), of ft ed ind t] path assms(4)
    by (auto simp: accepts_component_def)
  then show ?thesis
    using assms(3) by (simp add: create_proxy_entity_handler_def client_create_proxy_entity_def) blast
qed

text \<open>The stage takes a component of the performer that sends it.\<close>

definition from_performer :: "stage \<Rightarrow> ref \<Rightarrow> ZstURI \<Rightarrow> bool" where
  "from_performer s p u \<longleftrightarrow>
     (case (uri_first (uri_at s p), uri_first u) of (Inr a, Inr b) \<Rightarrow> uri_equal a b | _ \<Rightarrow> False)"

lemma stage_takes_component:
  assumes "stage_ok s" and "component_path (ed_URI ed)" and "from_performer s p (table_uri ed)"
    and "accepts_component find_entity s (table_uri ed)"
  shows "\<exists>s' r y evs. create_entity_handler ind (T_Component ed (Some t)) (Some p) s = (s', Inr Signal_OK) \<and>
    find_entity s' (table_uri ed) = Some r \<and> data_at s' r = Some (entity_data (component_from y ed (Some t))) \<and>
    m_events (m_hierarchy_events s') = evs @ [HE_EntityArriving r]"
proof -
  have ok: "hierarchy_ok s" using assms(1) by (simp add: session_ok_def)
  have path: "nul_free (ed_URI ed)" "uri_size (table_uri ed) < 2 ^ 31" "\<not> uri_is_empty (parent_uri (table_uri ed))"
    using assms(2) table_uri_path(1)[of ed] by (auto simp: component_path_def)
  have "find_entity (snd (alloc_entity (\<lambda>_. e) s)) u = find_entity s u" for e u
    using alloc_entity_ok[OF ok] by (simp add: find_entity_def)
  then obtain s1 r s' y evs where new:
    "create_proxy_entity stage_virtuals ind (T_Component ed (Some t)) ed s = (s1, Inr (Some r))"
    "add_proxy_entity stage_virtuals (Some r) s1 = (s', None)" "find_entity s' (table_uri ed) = Some r"
    "data_at s' r = Some (entity_data (component_from y ed (Some t)))" "m_events (m_hierarchy_events s') = evs @ [HE_EntityArriving r]"
    using stage_tree.component_proxy_made[OF ok(1), of ed ind t] path assms(4)
    by (auto simp: accepts_component_def)
  obtain a b where "uri_first (uri_at s p) = Inr a" "uri_first (table_uri ed) = Inr b" "uri_equal a b"
    using assms(3) by (auto simp: from_performer_def split: sum.splits)
  then show ?thesis using new by (auto simp: create_entity_handler_def)
qed

text \<open>Whenever the event of an arrival is processed, the clients are told of the entity as it is then.\<close>

lemma arrival_told:
  assumes "heap s r = Some e" and "entity_serialize ft e = Inr t" and "uri_first (m_uri e) = Inr f"
  shows "run_hierarchy_event ft (HE_EntityArriving r) HierarchyModule s =
    (sends (map (addressed s (Content_EntityCreateRequest (serialized_entity_type (m_entity_type e)) t) transport_args)
       (filter (\<lambda>q. find_client s f \<noteq> Some q) (stage_clients s))) s, True)"
  using assms by (auto simp: stage_on_entity_arriving_def broadcast_sends eq_commute[of "Some _"] split: option.split intro!: filter_cong)

text \<open>
  C12. A component that a client announces reaches the other clients. The stage, asked by the client to which the
  component belongs, takes it, answers that it did and queues its arrival. In whatever state that arrival is
  processed, as long as the proxy is what it was, the stage sends one creation request to each client but the one the
  component belongs to; and each client to which one of these requests comes makes an active proxy of the same path and type,
  unless the path is its own, is taken, or lies below something that is no component.
\<close>

theorem component_reaches_clients:
  assumes "announcement ft args g c = Some out" and "heap g c = Some e" and "m_class e = EC_Component"
    and "m_entity_type e = ET_COMPONENT" and "uri_ok (m_uri e)" and "component_path (uri_path (m_uri e))"
    and "m_buffer msg = out_content out" and "stage_ok s"
    and "get_client_from_endpoint_UUID s (m_origin_UUID msg) = Some p" and "from_performer s p (m_uri e)"
    and "accepts_component find_entity s (m_uri e)"
  shows "\<exists>s1 r f told. stage_hierarchy_on_receive_msg ft ind msg s = (s1, None) \<and>
    find_entity s1 (m_uri e) = Some r \<and> uri_first (m_uri e) = Inr f \<and>
    out_content (last (m_outbox s1)) = Content_SignalMessage Signal_OK \<and>
    target_endpoint_UUID (out_args (last (m_outbox s1))) = m_origin_UUID msg \<and>
    last (m_events (m_hierarchy_events s1)) = HE_EntityArriving r \<and>
    (\<forall>t. data_at t r = data_at s1 r \<longrightarrow>
       run_hierarchy_event ft (HE_EntityArriving r) HierarchyModule t =
         (sends (map (addressed t told transport_args) (filter (\<lambda>q. find_client t f \<noteq> Some q) (stage_clients t))) t, True)) \<and>
    (\<forall>m h. m_buffer m = told \<and> client_ok h \<and> \<not> path_is_local h (m_uri e) \<and>
       accepts_component client_find_entity h (m_uri e) \<longrightarrow>
       (\<exists>h' q. client_hierarchy_on_receive_msg ft construct ind' m h = (h', None) \<and> find_entity h' (m_uri e) = Some q \<and>
          entity_test (\<lambda>d. m_is_proxy d \<and> is_activated d) h' q \<and>
          entity_test (\<lambda>d. m_uri d = m_uri e \<and> m_class d = EC_Component \<and> m_component_type d = m_component_type e) h' q))"
proof -
  define ed where "ed = entity_serialize_partial e"
  define ct where "ct = m_component_type e"
  have out: "out_content out = Content_EntityCreateRequest EntityTypes_Component (T_Component ed (Some ct))"
    using assms(1-4) by (auto simp: announcement_def entity_serialize_def ed_def ct_def)
  have path: "nul_free (ed_URI ed)" "ed_URI ed = uri_path (m_uri e)"
    using assms(6) by (simp_all add: ed_def entity_serialize_partial_def component_path_def)
  have u: "table_uri ed = m_uri e" using table_uri_path(1)[OF path(1)] path(2) assms(5) by simp
  obtain s' r y evs where s': "create_entity_handler ind (T_Component ed (Some ct)) (Some p) s = (s', Inr Signal_OK)"
    "find_entity s' (m_uri e) = Some r" "data_at s' r = Some (entity_data (component_from y ed (Some ct)))"
    "m_events (m_hierarchy_events s') = evs @ [HE_EntityArriving r]"
    using stage_takes_component[OF assms(8), of ed p ind ct] assms(6,10,11) path(2) u by auto
  obtain f where f: "uri_first (m_uri e) = Inr f" using assms(10) by (auto simp: from_performer_def split: sum.splits)
  define reply where "reply = \<lparr>out_transport = m_owning_transport msg, out_content = Content_SignalMessage Signal_OK,
    out_args = transport_args\<lparr>target_endpoint_UUID := m_origin_UUID msg, msg_ID := m_id msg\<rparr>\<rparr>"
  define s1 where "s1 = s'\<lparr>m_outbox := m_outbox s' @ [reply]\<rparr>"
  have s1: "stage_hierarchy_on_receive_msg ft ind msg s = (s1, None)" "find_entity s1 (m_uri e) = Some r"
    "out_content (last (m_outbox s1)) = Content_SignalMessage Signal_OK"
    "target_endpoint_UUID (out_args (last (m_outbox s1))) = m_origin_UUID msg"
    "last (m_events (m_hierarchy_events s1)) = HE_EntityArriving r" "data_at s1 r = data_at s' r"
    using s' assms(7,9) out
    by (simp_all add: stage_hierarchy_on_receive_msg_def send_response_def send_msg_def s1_def reply_def find_entity_def data_at_def)
  obtain owner where owner: "\<And>d. entity_data d = entity_data (component_from y ed (Some ct)) \<Longrightarrow>
    entity_serialize ft d = Inr (T_Component \<lparr>ed_URI = ed_URI ed, ed_owner = owner\<rparr> (Some ct))"
    using component_table[of "component_from y ed (Some ct)" y ed ct ft, OF refl path(1)] entity_serialize_data[of _ "component_from y ed (Some ct)" ft]
    by (fastforce simp: entity_data_def is_factory_def)
  define ed' where "ed' = \<lparr>ed_URI = ed_URI ed, ed_owner = owner\<rparr>"
  have u': "table_uri ed' = m_uri e" using u by (simp add: ed'_def table_uri_def)
  define told where "told = Content_EntityCreateRequest EntityTypes_Component (T_Component ed' (Some ct))"
  have tells: "run_hierarchy_event ft (HE_EntityArriving r) HierarchyModule t =
      (sends (map (addressed t told transport_args) (filter (\<lambda>q. find_client t f \<noteq> Some q) (stage_clients t))) t, True)"
    if "data_at t r = data_at s1 r" for t
  proof -
    have "data_at t r = Some (entity_data (component_from y ed (Some ct)))" using that s1(6) s'(3) by simp
    then obtain d where d: "heap t r = Some d" "entity_data d = entity_data (component_from y ed (Some ct))"
      by (auto simp: data_at_def)
    then have "m_uri d = m_uri e" "m_entity_type d = ET_COMPONENT" using u by (simp_all add: entity_data_def)
    then show ?thesis
      using arrival_told[OF d(1) owner[OF d(2)], of f] f by (simp add: told_def ed'_def)
  qed
  have "\<exists>h' q. client_hierarchy_on_receive_msg ft construct ind' m h = (h', None) \<and> find_entity h' (m_uri e) = Some q \<and>
      entity_test (\<lambda>d. m_is_proxy d \<and> is_activated d) h' q \<and>
      entity_test (\<lambda>d. m_uri d = m_uri e \<and> m_class d = EC_Component \<and> m_component_type d = ct) h' q"
    if m: "m_buffer m = told" "client_ok h" "\<not> path_is_local h (m_uri e)" "accepts_component client_find_entity h (m_uri e)" for m h
  proof -
    have "component_path (ed_URI ed')" using assms(6) path(2) by (simp add: ed'_def)
    then obtain h' q z evs' where "create_proxy_entity_handler ft ind' (T_Component ed' (Some ct)) h = (h', None)"
      "find_entity h' (m_uri e) = Some q" "data_at h' q = Some (entity_data (component_from z ed' (Some ct)))"
      "entity_test (\<lambda>e. m_is_proxy e \<and> is_activated e) h' q" "m_events (m_hierarchy_events h') = evs' @ [HE_EntityArriving q]"
      using client_takes_component[OF m(2), of ed' ft ind' ct] m(3,4) u' by auto
    then show ?thesis
      using m(1) u' by (auto simp: client_hierarchy_on_receive_msg_def told_def data_at_def entity_data_def entity_test_def)
  qed
  then show ?thesis
    using s1 f tells by (intro exI[of _ s1] exI[of _ r] exI[of _ f] exI[of _ told]) (simp add: ct_def)
qed

text \<open>Ada and Bob have joined; Ada announces a component, which Bob gets.\<close>

definition sample_started_bob :: client where
  "sample_started_bob = the (init_client no_floats False idle_compute 0 ''bob'' client_new)"

definition sample_join_of :: "client \<Rightarrow> uuid \<Rightarrow> ZstStageMessage" where
  "sample_join_of h u = \<lparr>m_origin_UUID = u, m_id = 1, m_owning_transport = 0,
     m_buffer = out_content (last (m_outbox (fst (join_stage no_floats ('''', '''') sample_server ASYNC_REPLY h))))\<rparr>"

definition sample_two_clients :: stage where
  "sample_two_clients =
     fst (stage_hierarchy_on_receive_msg no_floats False (sample_join_of sample_started_bob 6)
       (fst (stage_hierarchy_on_receive_msg no_floats False (sample_join_of sample_started 5) stage_new)))"

definition sample_told :: ZstStageMessage where
  "sample_told = \<lparr>m_origin_UUID = 5, m_id = 2, m_owning_transport = 0,
     m_buffer = out_content (the (announcement no_floats transport_args sample_owner 1))\<rparr>"

lemma bob_ok: "client_ok sample_started_bob"
proof -
  have "\<not> Option.is_none (init_client no_floats False idle_compute 0 ''bob'' client_new)" by code_simp
  then have "init_client no_floats False idle_compute 0 ''bob'' client_new = Some sample_started_bob"
    by (auto simp: sample_started_bob_def Option.is_none_def)
  then have "client_reachable no_floats plain_components False idle_compute sample_started_bob"
    by (rule client_starts)
  then show ?thesis using client_reachable_inv [OF idle_compute_inv] by (auto simp: client_inv_def)
qed

lemma two_clients_ok: "stage_ok sample_two_clients"
  unfolding sample_two_clients_def by (intro stage_hierarchy_receive_ok) (rule conjunct1 [OF stage_new_ok])

lemma sample_box:
  "case heap sample_owner 1 of None \<Rightarrow> False
   | Some e \<Rightarrow> m_class e = EC_Component \<and> m_entity_type e = ET_COMPONENT \<and> m_uri e = uri_of ''ada/comp''"
  "\<not> Option.is_none (announcement no_floats transport_args sample_owner 1)"
  "\<not> uri_is_empty (uri_of ''ada'')"
  by code_simp+

lemma box_path:
  "parent_uri (uri_of ''ada/comp'') = uri_of ''ada''" "component_path ''ada/comp''"
proof -
  show p: "parent_uri (uri_of ''ada/comp'') = uri_of ''ada''"
    by (simp add: parent_uri_eq cstr_def path_components_def)
  have "nul_free ''ada/comp''" "uri_size (uri_of ''ada/comp'') = 2"
    by (simp_all add: cstr_def path_components_def nul_free_def)
  then show "component_path ''ada/comp''" using p sample_box(3) by (simp add: component_path_def)
qed

definition stage_takes_box :: "stage \<Rightarrow> bool" where
  "stage_takes_box s \<longleftrightarrow> get_client_from_endpoint_UUID s 5 = Some 0 \<and> from_performer s 0 (uri_of ''ada/comp'') \<and>
     find_entity s (uri_of ''ada/comp'') = None \<and> find_entity s (uri_of ''ada'') = Some 0 \<and>
     entity_test is_component s 0 \<and> uri_at s 0 = uri_of ''ada''"

definition client_takes_box :: "client \<Rightarrow> bool" where
  "client_takes_box h \<longleftrightarrow> \<not> path_is_local h (uri_of ''ada/comp'') \<and> client_find_entity h (uri_of ''ada/comp'') = None \<and>
     client_find_entity h (uri_of ''ada'') = None"

lemma stage_takes_sample_box: "stage_takes_box sample_two_clients"
  by code_simp

lemma bob_takes_sample_box: "client_takes_box sample_started_bob"
  by code_simp

theorem component_reaches_clients_witness:
  "\<exists>s1 r told. stage_hierarchy_on_receive_msg no_floats False sample_told sample_two_clients = (s1, None) \<and>
     find_entity s1 (uri_of ''ada/comp'') = Some r \<and>
     (\<exists>h' q. client_hierarchy_on_receive_msg no_floats plain_components False
         \<lparr>m_origin_UUID = 0, m_id = 0, m_owning_transport = 0, m_buffer = told\<rparr> sample_started_bob = (h', None) \<and>
       find_entity h' (uri_of ''ada/comp'') = Some q)"
proof -
  obtain e out where e: "heap sample_owner 1 = Some e" "m_class e = EC_Component" "m_entity_type e = ET_COMPONENT"
    "m_uri e = uri_of ''ada/comp''" "announcement no_floats transport_args sample_owner 1 = Some out"
    using sample_box(1,2) by (auto simp: Option.is_none_def split: option.splits)
  note stage = stage_takes_sample_box[unfolded stage_takes_box_def]
    and client = bob_takes_sample_box[unfolded client_takes_box_def]
  have path: "component_path (uri_path (m_uri e))" "uri_ok (m_uri e)"
    using box_path(2) e(4) by (simp_all add: cstr_def)
  have took: "accepts_component find_entity sample_two_clients (m_uri e)"
    "accepts_component client_find_entity sample_started_bob (m_uri e)"
    using stage client sample_box(3) unfolding accepts_component_def e(4) box_path(1) by simp_all
  obtain s1 r told where s1: "stage_hierarchy_on_receive_msg no_floats False sample_told sample_two_clients = (s1, None)"
    "find_entity s1 (m_uri e) = Some r"
    "\<forall>m h. m_buffer m = told \<and> client_ok h \<and> \<not> path_is_local h (m_uri e) \<and> accepts_component client_find_entity h (m_uri e) \<longrightarrow>
       (\<exists>h' q. client_hierarchy_on_receive_msg no_floats plain_components False m h = (h', None) \<and> find_entity h' (m_uri e) = Some q)"
    using component_reaches_clients[OF e(5,1,2,3) path(2,1), of sample_told sample_two_clients 0 False plain_components False]
      e(4,5) took(1) stage two_clients_ok by (simp add: sample_told_def) blast
  have "\<exists>h' q. client_hierarchy_on_receive_msg no_floats plain_components False
      \<lparr>m_origin_UUID = 0, m_id = 0, m_owning_transport = 0, m_buffer = told\<rparr> sample_started_bob = (h', None) \<and>
      find_entity h' (m_uri e) = Some q"
    by (rule s1(3)[rule_format]) (use took(2) client bob_ok e(4) in simp)
  then show ?thesis using s1(1,2) unfolding e(4) by blast
qed

end
