(* ===== verification/Zst_Client_Values.thy ===== *)
theory Zst_Client_Values
  imports Zst_Client_Protocol
begin

text \<open>
  Values on their way from an output plug to the input plugs its cables lead to: what \<open>fire\<close> delivers within
  a client and publishes, and what the receiver of the published message makes of it.
\<close>

section \<open>Delivery\<close>

text \<open>The plugs that the loop over the cables gives the value to, as the state is before it.\<close>

definition receivers ::
  "(client \<Rightarrow> ref option \<Rightarrow> zst_exn + ref option) \<Rightarrow> client \<Rightarrow> cable_ref list \<Rightarrow> ref list" where
  "receivers test h cs =
     concat (map (\<lambda>c. case cable_at h c of
        None \<Rightarrow> []
      | Some k \<Rightarrow> (case test h (m_input k) of Inr (Some p) \<Rightarrow> [p] | _ \<Rightarrow> [])) cs)"

definition compute_of :: "client \<Rightarrow> ref \<Rightarrow> compute_event" where
  "compute_of h p = CV_Compute (the (entity_parent client_queries h p)) (uri_at h p)"

text \<open>What the delivery reads of a state: no values and none of the queues.\<close>

definition plug_view :: "entity \<Rightarrow> ZstURI \<times> ZstURI \<times> bool \<times> bool \<times> adaptor list" where
  "plug_view e = (m_uri e, m_parent e, m_registered e, m_is_proxy e, m_hierarchy_adaptors e)"

definition same_view :: "client \<Rightarrow> client \<Rightarrow> bool" where
  "same_view h g \<longleftrightarrow>
     m_root g = m_root h \<and> m_entity_lookup g = m_entity_lookup h \<and> m_cables g = m_cables h \<and>
     (\<forall>r. map_option plug_view (heap g r) = map_option plug_view (heap h r))"

lemma view_cases:
  assumes "same_view h g"
  obtains "heap h r = None" "heap g r = None"
    | e e' where "heap h r = Some e" "heap g r = Some e'" "m_uri e' = m_uri e" "m_parent e' = m_parent e"
        "m_registered e' = m_registered e" "m_is_proxy e' = m_is_proxy e" "m_hierarchy_adaptors e' = m_hierarchy_adaptors e"
proof -
  have "map_option plug_view (heap g r) = map_option plug_view (heap h r)" using assms by (simp add: same_view_def)
  then show thesis using that by (cases "heap h r"; cases "heap g r") (simp_all add: plug_view_def)
qed

lemma view_queries:
  assumes "same_view h g"
  shows "uri_at g r = uri_at h r" "client_find_entity g u = client_find_entity h u"
    "entity_parent client_queries g r = entity_parent client_queries h r" "compute_of g r = compute_of h r"
    "cable_at g c = cable_at h c"
proof -
  show uri: "uri_at g r = uri_at h r" for r by (cases rule: view_cases [OF assms, of r]) (simp_all add: uri_at_def)
  show find: "client_find_entity g u = client_find_entity h u" for u
    using assms by (cases rule: view_cases [OF assms, of "m_root h"])
      (simp_all add: client_find_entity_def entity_test_def find_entity_def same_view_def)
  show parent: "entity_parent client_queries g r = entity_parent client_queries h r" for r
    by (cases rule: view_cases [OF assms, of r])
      (simp_all add: entity_parent_def hierarchy_attached_def entity_test_def find)
  show "compute_of g r = compute_of h r" by (simp add: compute_of_def uri parent)
  show "cable_at g c = cable_at h c" using assms by (simp add: cable_at_def same_view_def)
qed

lemma view_tests:
  assumes "same_view h g"
  shows "is_local_plug g q = is_local_plug h q" "same_performer p g q = same_performer p h q"
proof -
  have local: "is_local_plug g (Some r) = is_local_plug h (Some r)" for r
    by (cases rule: view_cases [OF assms, of r]) (simp_all add: is_local_plug_def entity_test_def)
  show "is_local_plug g q = is_local_plug h q" using local by (cases q) (simp_all add: is_local_plug_def)
  have live: "(heap g r = None) = (heap h r = None)" for r by (cases rule: view_cases [OF assms, of r]) simp_all
  then show "same_performer p g q = same_performer p h q"
    by (cases q) (simp_all add: same_performer_def live view_queries(1) [OF assms])
qed

lemma view_upd: "(\<And>e. plug_view (f e) = plug_view e) \<Longrightarrow> same_view h (upd_entity r f h)"
  by (simp add: same_view_def upd_entity_def option.map_comp comp_def)

lemma view_value: "same_view h (upd_entity r (plug_set_value v) h)"
  by (rule view_upd) (simp add: plug_view_def plug_set_value_def)

lemma view_defer: "same_view h g \<Longrightarrow> same_view h (defer_compute ev g)"
  by (simp add: same_view_def defer_compute_def)

lemma defer_compute_fields [simp]:
  "heap (defer_compute ev h) = heap h" "m_cables (defer_compute ev h) = m_cables h"
  "m_graph_outbox (defer_compute ev h) = m_graph_outbox h"
  "m_events (m_compute_events (defer_compute ev h)) = m_events (m_compute_events h) @ [ev]"
  by (simp_all add: defer_compute_def defer_event_def)

text \<open>
  A test of receiving plugs depends on the view alone; a way of taking a value is settled when taking it
  twice is taking it once.
\<close>

definition blind_test :: "(client \<Rightarrow> ref option \<Rightarrow> zst_exn + ref option) \<Rightarrow> bool" where
  "blind_test test \<longleftrightarrow> (\<forall>h g. same_view h g \<longrightarrow> test g = test h)"

definition settled :: "(ZstValue \<Rightarrow> zst_exn + ZstValue) \<Rightarrow> bool" where
  "settled tv \<longleftrightarrow> (\<forall>w v. tv w = Inr v \<longrightarrow> tv v = Inr v)"

definition taken :: "(ZstValue \<Rightarrow> zst_exn + ZstValue) \<Rightarrow> entity \<Rightarrow> entity" where
  "taken tv e = (case tv (m_value e) of Inl _ \<Rightarrow> e | Inr v \<Rightarrow> plug_set_value v e)"

definition delivered ::
  "(ZstValue \<Rightarrow> zst_exn + ZstValue) \<Rightarrow> ref list \<Rightarrow> client \<Rightarrow> client \<Rightarrow> bool" where
  "delivered tv ps h h' \<longleftrightarrow>
     heap h' = (\<lambda>r. if r \<in> set ps then map_option (taken tv) (heap h r) else heap h r) \<and>
     m_cables h' = m_cables h \<and> m_graph_outbox h' = m_graph_outbox h \<and>
     m_events (m_compute_events h') = m_events (m_compute_events h) @ map (compute_of h) ps"

lemma taken_total [simp]: "taken (\<lambda>w. Inr (k w)) = (\<lambda>e. plug_set_value (k (m_value e)) e)"
  by (simp add: taken_def fun_eq_iff)

lemma take_delivers:
  assumes "plug_take_value tv p h = (h', None)"
  shows "\<exists>v. h' = defer_compute (compute_of h p) (upd_entity p (plug_set_value v) h)" "delivered tv [p] h h'"
proof -
  obtain e v where e: "heap h p = Some e" "tv (m_value e) = Inr v"
    and r: "plug_received_value p (upd_entity p (plug_set_value v) h) = (h', None)"
    using assms by (auto simp: plug_take_value_def split: option.splits sum.splits)
  have h': "h' = defer_compute (compute_of h p) (upd_entity p (plug_set_value v) h)"
    using r view_queries(1,3) [OF view_value [of h p v]]
    by (auto simp: plug_received_value_def compute_of_def split: option.splits if_splits)
  then show "\<exists>v. h' = defer_compute (compute_of h p) (upd_entity p (plug_set_value v) h)" by blast
  have "heap (upd_entity p (plug_set_value v) h) = (\<lambda>r. if r \<in> set [p] then map_option (taken tv) (heap h r) else heap h r)"
    using e by (auto simp: upd_entity_def taken_def fun_eq_iff)
  moreover have "m_compute_events (upd_entity p (plug_set_value v) h) = m_compute_events h"
    "m_graph_outbox (upd_entity p (plug_set_value v) h) = m_graph_outbox h"
    "m_cables (upd_entity p (plug_set_value v) h) = m_cables h"
    by (simp_all add: upd_entity_def)
  ultimately show "delivered tv [p] h h'" by (simp add: delivered_def h')
qed

lemma delivered_append:
  assumes "settled tv" and "delivered tv ps h g" and "delivered tv qs g h'" and "map (compute_of g) qs = map (compute_of h) qs"
  shows "delivered tv (ps @ qs) h h'"
proof -
  have "taken tv (taken tv e) = taken tv e" for e
    using assms(1) by (auto simp: taken_def settled_def plug_set_value_def split: sum.split)
  then have "heap h' = (\<lambda>r. if r \<in> set (ps @ qs) then map_option (taken tv) (heap h r) else heap h r)"
    using assms(2,3) by (auto simp: delivered_def fun_eq_iff option.map_comp comp_def)
  then show ?thesis using assms(2-4) by (simp add: delivered_def)
qed

lemma deliver_delivers:
  assumes "blind_test test" and "settled tv"
  shows "deliver_value test tv cs h = (h', None) \<Longrightarrow> delivered tv (receivers test h cs) h h'"
proof (induction cs arbitrary: h)
  case (Cons c cs)
  obtain k where k: "cable_at h c = Some k" using Cons.prems by (auto split: option.splits)
  consider "test h (m_input k) = Inr None" "deliver_value test tv cs h = (h', None)"
    | p g where "test h (m_input k) = Inr (Some p)" "plug_take_value tv p h = (g, None)"
        "deliver_value test tv cs g = (h', None)"
    using Cons.prems k by (auto split: sum.splits option.splits prod.splits)
  then show ?case
  proof cases
    case 1
    then show ?thesis using Cons.IH k by (simp add: receivers_def)
  next
    case (2 p g)
    obtain v where g: "g = defer_compute (compute_of h p) (upd_entity p (plug_set_value v) h)"
      using take_delivers(1) [OF 2(2)] by blast
    have view: "same_view h g" unfolding g by (rule view_defer [OF view_value])
    note same = view_queries(4,5) [OF view]
    have tests: "test g = test h" using assms(1) view by (simp add: blind_test_def)
    have "receivers test g cs = receivers test h cs" unfolding receivers_def same tests by (rule refl)
    then have "delivered tv (receivers test h cs) g h'" using Cons.IH [OF 2(3)] by simp
    then have "delivered tv ([p] @ receivers test h cs) h h'"
      by (rule delivered_append [OF assms(2) take_delivers(2) [OF 2(2)]]) (simp add: same)
    then show ?thesis using k 2(1) by (simp add: receivers_def)
  qed
qed (simp add: delivered_def receivers_def)

section \<open>Sending\<close>

lemma blind_tests: "blind_test is_local_plug" "blind_test (same_performer p)"
  using view_tests by (simp_all add: blind_test_def fun_eq_iff)

lemma settled_ways: "settled (\<lambda>w. Inr (value_copy v w))" "settled (value_deserialize b)"
  by (auto simp: settled_def value_copy_def value_deserialize_def split: option.splits PlugValue.splits)

lemma fire_steps:
  assumes "heap h p = Some e" and "m_can_fire e" and "output_plug_fire ft p h = (h', None)"
  obtains g v where "delivered (\<lambda>w. Inr (value_copy (m_value e) w)) (receivers (same_performer p) h (plug_child_cables h e [])) h g"
    and "heap g p = Some e" and "value_serialize ft (m_value e) = Inr v"
    and "h' = upd_entity p (\<lambda>e. plug_set_value (value_clear (m_value e)) e)
      (g\<lparr>m_graph_outbox := m_graph_outbox h @
         replicate (length (m_graph_adaptors e)) \<lparr>gm_sender = uri_path (m_uri e), gm_value = v\<rparr>\<rparr>)"
proof -
  let ?f = "\<lambda>w. Inr (value_copy (m_value e) w)"
  obtain g g2 where d: "deliver_value (same_performer p) ?f (plug_child_cables h e []) h = (g, None)"
      and pub: "publish_value ft p g = (g2, None)"
      and h': "h' = upd_entity p (\<lambda>e. plug_set_value (value_clear (m_value e)) e) g2"
    using assms by (auto simp: output_plug_fire_def split: prod.splits option.splits)
  have del: "delivered ?f (receivers (same_performer p) h (plug_child_cables h e [])) h g"
    by (rule deliver_delivers [OF blind_tests(2) settled_ways(1) d])
  have "plug_set_value (value_copy (m_value e) (m_value e)) e = e" by (simp add: plug_set_value_def value_copy_def)
  then have p: "heap g p = Some e" using del assms(1) by (auto simp: delivered_def taken_def)
  obtain v where v: "value_serialize ft (m_value e) = Inr v"
      "g2 = g\<lparr>m_graph_outbox := m_graph_outbox g @
         replicate (length (m_graph_adaptors e)) \<lparr>gm_sender = uri_path (m_uri e), gm_value = v\<rparr>\<rparr>"
    using pub p by (auto simp: publish_value_def map_replicate_const split: sum.splits)
  have "m_graph_outbox g = m_graph_outbox h" using del by (simp add: delivered_def)
  then show thesis using that [OF del p v(1)] h' v(2) by simp
qed

text \<open>
  C32. Firing an output plug that may fire. When no exception interrupts it, the input plugs of the same
  performer at the ends of its cables hold the values it held, their components are scheduled for computation
  in the order of the cables, its value could be serialised and one message with it is published through each transport it has,
  its own values are cleared, and no other object changes.
\<close>

theorem fire_delivers_and_publishes:
  assumes "heap h p = Some e" and "m_can_fire e" and "output_plug_fire ft p h = (h', None)"
  shows "\<exists>v. value_serialize ft (m_value e) = Inr v \<and>
    m_graph_outbox h' = m_graph_outbox h @ replicate (length (m_graph_adaptors e)) \<lparr>gm_sender = uri_path (m_uri e), gm_value = v\<rparr> \<and>
    m_events (m_compute_events h') = m_events (m_compute_events h) @
      map (compute_of h) (receivers (same_performer p) h (plug_child_cables h e [])) \<and>
    heap h' p = Some (plug_set_value (value_clear (m_value e)) e) \<and>
    (\<forall>r. r \<noteq> p \<longrightarrow> heap h' r =
       (if r \<in> set (receivers (same_performer p) h (plug_child_cables h e []))
        then map_option (\<lambda>e'. plug_set_value (value_copy (m_value e) (m_value e')) e') (heap h r) else heap h r))"
proof -
  obtain g v where "delivered (\<lambda>w. Inr (value_copy (m_value e) w))
        (receivers (same_performer p) h (plug_child_cables h e [])) h g" "heap g p = Some e"
      "value_serialize ft (m_value e) = Inr v"
      "h' = upd_entity p (\<lambda>e. plug_set_value (value_clear (m_value e)) e)
         (g\<lparr>m_graph_outbox := m_graph_outbox h @
            replicate (length (m_graph_adaptors e)) \<lparr>gm_sender = uri_path (m_uri e), gm_value = v\<rparr>\<rparr>)"
    using fire_steps [OF assms] by blast
  then show ?thesis by (intro exI [of _ v]) (auto simp: delivered_def taken_def upd_entity_def)
qed

text \<open>
  A performer with an output plug, which is its own or the proxy of the one of \<open>ada\<close>, and a cable from it to
  an input plug of its own.
\<close>

definition sample_patch :: "string \<Rightarrow> bool \<Rightarrow> client" where
  "sample_patch owner remote =
     (let s = fst (synchronisable_new 0);
          input = owner @ ''/c/in'';
          address = cable_address (uri_of input) (uri_of ''ada/c/out'')
      in client_new
        \<lparr>heap := [0 \<mapsto> performer_new s owner, 1 \<mapsto> component_new s '''' (owner @ ''/c''),
            2 \<mapsto> (output_plug_new False s ''ada/c/out'' VT_IntList True)
               \<lparr>m_value := \<lparr>m_values = [VInt 5, VInt (- 2)], m_default_type = VT_IntList\<rparr>, m_can_fire := \<not> remote,
                m_is_proxy := remote, m_graph_adaptors := [1], m_session_adaptors := [SessionModule], m_plug_cables := [address]\<rparr>,
            3 \<mapsto> (input_plug_new s input VT_FloatList 1)
               \<lparr>m_parent := uri_of (owner @ ''/c''), m_registered := True, m_hierarchy_adaptors := [HierarchyModule]\<rparr>],
         m_entity_lookup := [owner \<mapsto> 0, owner @ ''/c'' \<mapsto> 1, ''ada/c/out'' \<mapsto> 2, input \<mapsto> 3],
         m_cables := [cable_new s 0 address 3 2]\<rparr>)"

definition sample_fired :: client where
  "sample_fired = fst (output_plug_fire no_floats 2 (sample_patch ''ada'' False))"

lemma sample_patch_fires:
  "Option.is_none (snd (output_plug_fire no_floats 2 (sample_patch ''ada'' False)))"
  "list_all (\<lambda>h. map_option m_can_fire (heap h 2) = Some True \<and> map_option m_graph_adaptors (heap h 2) = Some [1] \<and>
     map_option m_value (heap h 2) = Some \<lparr>m_values = [VInt 5, VInt (- 2)], m_default_type = VT_IntList\<rparr> \<and>
     map_option (uri_path \<circ> m_uri) (heap h 2) = Some ''ada/c/out'' \<and>
     receivers (same_performer 2) h (plug_child_cables h (the (heap h 2)) []) = [3] \<and>
     map_option m_default_type (map_option m_value (heap h 3)) = Some VT_FloatList \<and> m_graph_outbox h = [])
     [sample_patch ''ada'' False]"
  by code_simp+

theorem fire_delivers_and_publishes_witness:
  "\<exists>e. heap sample_fired 3 = Some e \<and> m_value e = \<lparr>m_values = [VInt 5, VInt (- 2)], m_default_type = VT_FloatList\<rparr> \<and>
     length (m_graph_outbox sample_fired) = 1"
proof -
  let ?h = "sample_patch ''ada'' False"
  have fires: "output_plug_fire no_floats 2 ?h = (sample_fired, None)"
    using sample_patch_fires(1) by (simp add: sample_fired_def prod_eq_iff Option.is_none_def)
  obtain e e3 where "heap ?h 2 = Some e" "m_can_fire e" "m_graph_adaptors e = [1]" "heap ?h 3 = Some e3"
      "m_value e = \<lparr>m_values = [VInt 5, VInt (- 2)], m_default_type = VT_IntList\<rparr>" "m_default_type (m_value e3) = VT_FloatList"
      "receivers (same_performer 2) ?h (plug_child_cables ?h e []) = [3]" "m_graph_outbox ?h = []"
    using sample_patch_fires(2) by auto
  then show ?thesis
    using fire_delivers_and_publishes [of ?h 2 e no_floats sample_fired, OF _ _ fires]
    by (auto simp: plug_set_value_def value_copy_def)
qed

text \<open>
  C9. A fired value arrives. A list value that an output plug fires in one client is, once another client has
  processed any of the messages it published without an exception, the value of every input plug of that client
  at the end of a cable of the sender's proxy, list type included, whatever those plugs held before; their
  components are scheduled for computation in the order of the cables, and apart from the proxy no other object
  of the receiving client changes.
\<close>

theorem fired_value_arrives:
  assumes "heap s p = Some e" and "m_can_fire e" and "value_typed (m_value e)" and "output_plug_fire ft p s = (s', None)"
    and "msg \<in> set (drop (length (m_graph_outbox s)) (m_graph_outbox s'))"
    and "find_as is_output_plug client_queries h (string_uri (uri_path (m_uri e))) = Some q" and "heap h q = Some eq"
    and "client_session_on_graph_msg msg h = (h', None)"
  shows "let rs = receivers is_local_plug h (plug_child_cables h eq []) in
    (\<forall>r\<in>set rs. heap h' r = map_option (plug_set_value (m_value e)) (heap h r)) \<and>
    (\<forall>r. r \<notin> set rs \<longrightarrow> r \<noteq> q \<longrightarrow> heap h' r = heap h r) \<and>
    m_events (m_compute_events h') = m_events (m_compute_events h) @ map (compute_of h) rs"
proof -
  obtain v where v: "m_graph_adaptors e \<noteq> [] \<longrightarrow> value_serialize ft (m_value e) = Inr v"
    and out: "m_graph_outbox s' = m_graph_outbox s @
      replicate (length (m_graph_adaptors e)) \<lparr>gm_sender = uri_path (m_uri e), gm_value = v\<rparr>"
    by (rule fire_steps [OF assms(1,2,4)]) (auto simp: upd_entity_def)
  obtain b where b: "value_serialize ft (m_value e) = Inr (Some b)" "b \<noteq> PV_PlugHandshake"
      "\<And>w. value_deserialize (Some b) w = Inr (m_value e)"
    using serialize_typed [OF assms(3)] by blast
  have msg: "msg = \<lparr>gm_sender = uri_path (m_uri e), gm_value = Some b\<rparr>"
    using assms(5) v b(1) by (cases "m_graph_adaptors e = []") (simp_all add: out)
  define f where "f = value_deserialize (Some b)"
  define rs where "rs = receivers is_local_plug h (plug_child_cables h eq [])"
  define g where "g = (if m_is_proxy eq then entity_sync_op announce_update q (upd_entity q (plug_set_value (m_value e)) h) else h)"
  have "deliver_value is_local_plug f (plug_child_cables h eq []) g = (h', None)"
    using assms(6-8) b by (auto simp: client_session_on_graph_msg_def msg Let_def f_def g_def)
  then have del: "delivered f (receivers is_local_plug g (plug_child_cables h eq [])) g h'"
    unfolding f_def by (rule deliver_delivers [OF blind_tests(1) settled_ways(2)])
  have proxy: "heap g r = heap h r" if "r \<noteq> q \<or> \<not> m_is_proxy eq" for r
    using that by (auto simp: g_def entity_sync_op_def entity_notify_def announce_update_def upd_entity_def Let_def split: option.split)
  have view: "same_view h g" and queue: "m_compute_events g = m_compute_events h"
    using assms(7) by (auto simp: g_def same_view_def entity_sync_op_def entity_notify_def announce_update_def upd_entity_def Let_def
        plug_view_def plug_set_value_def sync_defer_def split: option.split)
  have "receivers is_local_plug g (plug_child_cables h eq []) = rs"
    unfolding rs_def receivers_def view_queries [OF view] view_tests [OF view] by (rule refl)
  with del have "delivered f rs g h'" by simp
  moreover have "map (compute_of g) rs = map (compute_of h) rs" using view_queries(4) [OF view] by simp
  moreover have "r \<noteq> q \<or> \<not> m_is_proxy eq" if "r \<in> set rs" for r
    using that assms(7) by (auto simp: rs_def receivers_def is_local_plug_def entity_test_def split: option.splits if_splits)
  moreover have "taken f = plug_set_value (m_value e)" using b(3) by (simp add: taken_def f_def fun_eq_iff)
  ultimately show ?thesis
    using proxy queue unfolding rs_def [symmetric] delivered_def Let_def by auto
qed

lemma sample_patch_receives:
  "Option.is_none (snd (client_session_on_graph_msg (hd (m_graph_outbox sample_fired)) (sample_patch ''bob'' True)))"
  "find_as is_output_plug client_queries (sample_patch ''bob'' True) (string_uri ''ada/c/out'') = Some 2"
  "list_all (\<lambda>h. \<not> Option.is_none (heap h 2) \<and> \<not> Option.is_none (heap h 3) \<and>
     receivers is_local_plug h (plug_child_cables h (the (heap h 2)) []) = [3]) [sample_patch ''bob'' True]"
  "length (m_graph_outbox sample_fired) = 1"
  by code_simp+

theorem fired_value_arrives_witness:
  "\<exists>h' e. client_session_on_graph_msg (hd (m_graph_outbox sample_fired)) (sample_patch ''bob'' True) = (h', None) \<and>
     heap h' 3 = Some e \<and> m_value e = \<lparr>m_values = [VInt 5, VInt (- 2)], m_default_type = VT_IntList\<rparr>"
proof -
  let ?s = "sample_patch ''ada'' False" and ?h = "sample_patch ''bob'' True" and ?msg = "hd (m_graph_outbox sample_fired)"
  have fires: "output_plug_fire no_floats 2 ?s = (sample_fired, None)"
    using sample_patch_fires(1) by (simp add: sample_fired_def prod_eq_iff Option.is_none_def)
  obtain e where e: "heap ?s 2 = Some e" "m_can_fire e" "uri_path (m_uri e) = ''ada/c/out''" "m_graph_outbox ?s = []"
      "m_value e = \<lparr>m_values = [VInt 5, VInt (- 2)], m_default_type = VT_IntList\<rparr>"
    using sample_patch_fires(2) by auto
  then have typed: "value_typed (m_value e)" by (simp add: value_typed_def list_type_def)
  have msg: "?msg \<in> set (drop (length (m_graph_outbox ?s)) (m_graph_outbox sample_fired))"
    using e(4) sample_patch_receives(4) by (cases "m_graph_outbox sample_fired") auto
  obtain h' where h': "client_session_on_graph_msg ?msg ?h = (h', None)"
    using sample_patch_receives(1) by (metis Option.is_none_def prod.collapse)
  have plug: "find_as is_output_plug client_queries ?h (string_uri (uri_path (m_uri e))) = Some 2"
    using sample_patch_receives(2) e(3) by simp
  obtain q r where q: "heap ?h 2 = Some q" "heap ?h 3 = Some r" "receivers is_local_plug ?h (plug_child_cables ?h q []) = [3]"
    using sample_patch_receives(3) by (auto simp: Option.is_none_def)
  show ?thesis
    using fired_value_arrives [OF e(1,2) typed fires msg plug q(1) h'] q(2,3) e(5) h' by (auto simp: plug_set_value_def)
qed

end
