(* ===== verification/Zst_Adder.thy ===== *)
theory Zst_Adder
  imports Zst_Client_Values
begin

text \<open>
  The component that the library itself ships: \<open>Adder\<close> with its factory
  (\<open>src/src/plugins/core_entities\<close>), on top of the accessors of plugs (\<open>src/src/core/entities/ZstPlug.cpp\<close>)
  and the addition of floats. It is an instance of the argument \<open>compute\<close> of the event processing of clients.

  The bit pattern of a NaN that an addition gives depends on the machine: it is the argument \<open>nan\<close>.
\<close>

section \<open>Plugs\<close>

definition plug_clear :: "entity \<Rightarrow> entity" where
  "plug_clear e = plug_set_value (value_clear (m_value e)) e"

definition plug_append_int :: "i32 \<Rightarrow> entity \<Rightarrow> entity" where
  "plug_append_int value e = plug_set_value (value_append_int value (m_value e)) e"

definition plug_append_float :: "float32 \<Rightarrow> entity \<Rightarrow> entity" where
  "plug_append_float value e = plug_set_value (value_append_float value (m_value e)) e"

definition plug_append_char :: "string \<Rightarrow> entity \<Rightarrow> entity" where
  "plug_append_char value e = plug_set_value (value_append_char value (m_value e)) e"

definition plug_size :: "entity \<Rightarrow> nat" where
  "plug_size e = value_size (m_value e)"

definition plug_int_at :: "entity \<Rightarrow> nat \<Rightarrow> zst_exn + i32" where
  "plug_int_at e position = value_int_at (m_value e) position"

definition plug_float_at :: "float_text \<Rightarrow> entity \<Rightarrow> nat \<Rightarrow> zst_exn + float32" where
  "plug_float_at ft e position = value_float_at ft (m_value e) position"

definition plug_char_at :: "float_text \<Rightarrow> entity \<Rightarrow> nat \<Rightarrow> zst_exn + string option" where
  "plug_char_at ft e position = value_char_at ft (m_value e) position"

definition plug_size_at :: "float_text \<Rightarrow> entity \<Rightarrow> nat \<Rightarrow> zst_exn + nat" where
  "plug_size_at ft e position = value_size_at ft (m_value e) position"

definition plug_default_type :: "entity \<Rightarrow> ZstValueType" where
  "plug_default_type e = m_default_type (m_value e)"

section \<open>Addition of floats\<close>

text \<open>
  IEEE-754 binary32, to nearest with ties to even. Finite floats are multiples of \<open>2 ^ -149\<close>:
  \<open>float_units\<close> is their value in these units, and below \<open>2 ^ 24\<close> units the bit pattern is the number itself.
\<close>

definition float_exponent :: "float32 \<Rightarrow> nat" where
  "float_exponent f = (unat f div 2 ^ 23) mod 2 ^ 8"

definition float_fraction :: "float32 \<Rightarrow> nat" where
  "float_fraction f = unat f mod 2 ^ 23"

definition float_negative :: "float32 \<Rightarrow> bool" where
  "float_negative f \<longleftrightarrow> 2 ^ 31 \<le> unat f"

definition float_is_nan :: "float32 \<Rightarrow> bool" where
  "float_is_nan f \<longleftrightarrow> float_exponent f = 255 \<and> float_fraction f \<noteq> 0"

definition float_is_infinite :: "float32 \<Rightarrow> bool" where
  "float_is_infinite f \<longleftrightarrow> float_exponent f = 255 \<and> float_fraction f = 0"

definition float_units :: "float32 \<Rightarrow> int" where
  "float_units f =
     (let e = float_exponent f; m = float_fraction f;
          n = (if e = 0 then m else (2 ^ 23 + m) * 2 ^ (e - 1))
      in if float_negative f then - int n else int n)"

definition units_bits :: "nat \<Rightarrow> nat" where
  "units_bits n =
     (if n < 2 ^ 24 then n
      else case round_24 n of (m, e) \<Rightarrow> min ((e - 149) * 2 ^ 23 + (m - 2 ^ 23)) (255 * 2 ^ 23))"

definition float_of_units :: "int \<Rightarrow> float32" where
  "float_of_units z = of_nat ((if z < 0 then 2 ^ 31 else 0) + units_bits (nat \<bar>z\<bar>))"

definition float_add :: "(float32 \<Rightarrow> float32 \<Rightarrow> float32) \<Rightarrow> float32 \<Rightarrow> float32 \<Rightarrow> float32" where
  "float_add nan f g =
     (if float_is_nan f \<or> float_is_nan g then nan f g
      else if float_is_infinite f then (if float_is_infinite g \<and> f \<noteq> g then nan f g else f)
      else if float_is_infinite g then g
      else if float_units f + float_units g = 0 then (if float_negative f \<and> float_negative g then 2 ^ 31 else 0)
      else float_of_units (float_units f + float_units g))"

section \<open>The component\<close>

text \<open>The members of an \<open>Adder\<close>; the names of the two input plugs are exchanged.\<close>

record adder =
  m_augend :: ref
  m_addend :: ref
  m_sum :: ref

definition ADDITION_FILTER_TYPE :: string where
  "ADDITION_FILTER_TYPE = ''addition''"

definition adder_new :: "bool \<Rightarrow> string \<Rightarrow> client \<Rightarrow> (ref \<times> adder) \<times> client" where
  "adder_new draft_api name h =
     (case alloc_entity (\<lambda>s. component_new s ADDITION_FILTER_TYPE name) h of (r, h1) \<Rightarrow>
      case alloc_entity (\<lambda>s. input_plug_new s ''addend'' VT_FloatList PLUG_DEFAULT_MAX_CABLES) h1 of (augend, h2) \<Rightarrow>
      case alloc_entity (\<lambda>s. input_plug_new s ''augend'' VT_FloatList PLUG_DEFAULT_MAX_CABLES) h2 of (addend, h3) \<Rightarrow>
      case alloc_entity (\<lambda>s. output_plug_new draft_api s ''sum'' VT_FloatList True) h3 of (sum_plug, h4) \<Rightarrow>
        ((r, \<lparr>m_augend = augend, m_addend = addend, m_sum = sum_plug\<rparr>), h4))"

definition adder_on_registered :: "float_text \<Rightarrow> ref \<Rightarrow> adder \<Rightarrow> client \<Rightarrow> client" where
  "adder_on_registered ft r a h =
     fold (\<lambda>c. add_child (set_parent (client_virtuals ft) tree_depth) (client_virtuals ft) r c True)
       [m_addend a, m_augend a, m_sum a] h"

text \<open>One turn of the loop gives the value to append, none when neither plug has one.\<close>

definition adder_element ::
  "float_text \<Rightarrow> (float32 \<Rightarrow> float32 \<Rightarrow> float32) \<Rightarrow> entity \<Rightarrow> entity \<Rightarrow> nat \<Rightarrow> zst_exn + float32 option" where
  "adder_element ft nan augend addend i =
     (if i < plug_size augend \<and> i < plug_size addend
      then case plug_float_at ft augend i of
             Inl x \<Rightarrow> Inl x
           | Inr f \<Rightarrow> map_sum id (\<lambda>g. Some (float_add nan f g)) (plug_float_at ft addend i)
      else if i < plug_size augend then map_sum id Some (plug_float_at ft augend i)
      else if i < plug_size addend then map_sum id Some (plug_float_at ft addend i)
      else Inr None)"

fun adder_loop ::
  "float_text \<Rightarrow> (float32 \<Rightarrow> float32 \<Rightarrow> float32) \<Rightarrow> adder \<Rightarrow> nat list \<Rightarrow> client \<Rightarrow> client outcome" where
  "adder_loop ft nan a [] h = (h, None)"
| "adder_loop ft nan a (i # is) h =
     (case (heap h (m_augend a), heap h (m_addend a)) of
        (Some augend, Some addend) \<Rightarrow>
          (case adder_element ft nan augend addend i of
             Inl x \<Rightarrow> (h, Some x)
           | Inr None \<Rightarrow> adder_loop ft nan a is h
           | Inr (Some f) \<Rightarrow> adder_loop ft nan a is (upd_entity (m_sum a) (plug_append_float f) h))
      | _ \<Rightarrow> (h, Some UndefinedBehaviour))"

definition adder_compute ::
  "float_text \<Rightarrow> (float32 \<Rightarrow> float32 \<Rightarrow> float32) \<Rightarrow> adder \<Rightarrow> client \<Rightarrow> client outcome" where
  "adder_compute ft nan a h =
     (case (heap h (m_augend a), heap h (m_addend a)) of
        (Some augend, Some addend) \<Rightarrow>
          (case adder_loop ft nan a [0 ..< max (plug_size addend) (plug_size augend)] h of
             (h1, Some x) \<Rightarrow> (h1, Some x)
           | (h1, None) \<Rightarrow> output_plug_fire ft (m_sum a) h1)
      | _ \<Rightarrow> (h, Some UndefinedBehaviour))"

text \<open>\<open>ZstSession::on_compute\<close> catches what a component raises; \<open>adders\<close> are the components that are adders.\<close>

definition adders_compute ::
  "float_text \<Rightarrow> (float32 \<Rightarrow> float32 \<Rightarrow> float32) \<Rightarrow> (ref \<Rightarrow> adder option) \<Rightarrow> ref \<Rightarrow> ref \<Rightarrow> client \<Rightarrow> client" where
  "adders_compute ft nan adders component plug h =
     (case adders component of None \<Rightarrow> h | Some a \<Rightarrow> fst (adder_compute ft nan a h))"

text \<open>The factory of the plugin; \<open>adder_creator\<close> is the creator of adders.\<close>

definition math_factory_new :: "creator \<Rightarrow> ZstSynchronisable \<Rightarrow> string \<Rightarrow> entity" where
  "math_factory_new adder_creator s name = add_creatable (uri_of ''adder'') adder_creator (factory_new s name)"

section \<open>Addition of small integers\<close>

lemma bit_length_shift: "0 < n \<Longrightarrow> bit_length (n * 2 ^ j) = bit_length n + j"
proof (induction j)
  case (Suc j)
  have "bit_length (n * 2 ^ Suc j) = Suc (bit_length (n * 2 ^ Suc j div 2))"
    using Suc.prems by (subst bit_length.simps) simp
  also have "n * 2 ^ Suc j div 2 = n * 2 ^ j" by simp
  finally show ?case using Suc by simp
qed simp

lemma round_24_shift:
  assumes "0 < n" and "bit_length n \<le> 24" and "24 < bit_length n + j"
  shows "round_24 (n * 2 ^ j) = (n * 2 ^ (24 - bit_length n), bit_length n + j + 126)"
proof -
  let ?l = "bit_length n"
  have split: "n * 2 ^ j = n * 2 ^ (24 - ?l) * 2 ^ (?l + j - 24)" using assms(2,3) by (simp flip: power_add)
  have l: "bit_length (n * 2 ^ j) = ?l + j" by (rule bit_length_shift [OF assms(1)])
  have "n * 2 ^ (24 - ?l) < 2 ^ ?l * 2 ^ (24 - ?l)" using bit_length_bounds [OF assms(1)] by simp
  also have "(2::nat) ^ ?l * 2 ^ (24 - ?l) = 2 ^ 24" using assms(2) by (simp flip: power_add)
  finally have "n * 2 ^ (24 - ?l) \<noteq> 2 ^ 24" by simp
  moreover have "n * 2 ^ j div 2 ^ (?l + j - 24) = n * 2 ^ (24 - ?l)" "n * 2 ^ j mod 2 ^ (?l + j - 24) = 0"
    unfolding split by simp_all
  moreover have "\<not> ?l + j \<le> 24" using assms(3) by simp
  ultimately show ?thesis by (simp add: round_24_def l Let_def)
qed

lemma small_int_fields:
  assumes "0 < n" and "n < 2 ^ 24"
  defines "m \<equiv> n * 2 ^ (24 - bit_length n)"
  shows "2 ^ 23 \<le> m" and "m < 2 ^ 24" and "round_24 n = (m, bit_length n + 126)" and "0 < bit_length n" and "bit_length n \<le> 24"
proof -
  obtain m' e where r: "round_24 n = (m', e)" "2 ^ 23 \<le> m'" "m' < 2 ^ 24" using round_24_exact [OF assms(1,2)] by blast
  show l: "bit_length n \<le> 24" by (rule bit_length_le [OF assms(1,2)])
  then show "round_24 n = (m, bit_length n + 126)" by (simp add: round_24_def Let_def m_def)
  with r show "2 ^ 23 \<le> m" "m < 2 ^ 24" by simp_all
  show "0 < bit_length n" using bit_length_bounds [OF assms(1)] by simp
qed

lemma int_to_float_units:
  assumes "\<bar>sint i\<bar> < 2 ^ 24"
  shows "float_units (int_to_float i) = sint i * 2 ^ 149" and "float_negative (int_to_float i) \<longleftrightarrow> sint i < 0"
    and "float_exponent (int_to_float i) < 255"
proof -
  define n where "n = nat \<bar>sint i\<bar>"
  define s :: nat where "s = (if sint i < 0 then 1 else 0)"
  have "float_units (int_to_float i) = sint i * 2 ^ 149 \<and> (float_negative (int_to_float i) \<longleftrightarrow> sint i < 0) \<and>
    float_exponent (int_to_float i) < 255"
  proof (cases "n = 0")
    case True
    then show ?thesis
      by (simp add: int_to_float_def n_def float_units_def float_negative_def float_exponent_def float_fraction_def Let_def)
  next
    case False
    define l where "l = bit_length n"
    define m where "m = n * 2 ^ (24 - l)"
    have n: "0 < n" "n < 2 ^ 24" using False assms by (auto simp: n_def nat_less_iff)
    note f = small_int_fields [OF n, folded l_def, folded m_def]
    have s: "s < 2" by (simp add: s_def)
    then have bits: "int_to_float i = of_nat (s * 2 ^ 31 + (l + 126) * 2 ^ 23 + (m - 2 ^ 23))"
      using n f(3) by (simp add: int_to_float_def s_def n_def Let_def)
    have "l + 126 < 2 ^ 8" "m - 2 ^ 23 < 2 ^ 23" using f s by auto
    note fields = float_fields [OF s this, folded bits]
    have "2 ^ 31 \<le> s * 2 ^ 31 + (l + 126) * 2 ^ 23 + (m - 2 ^ 23) \<longleftrightarrow> s = 1"
      using s f \<open>l + 126 < 2 ^ 8\<close> \<open>m - 2 ^ 23 < 2 ^ 23\<close> by (cases "s = 0") auto
    then have neg: "float_negative (int_to_float i) \<longleftrightarrow> sint i < 0" by (simp add: float_negative_def fields(1) s_def)
    have ex: "float_exponent (int_to_float i) = l + 126" "float_fraction (int_to_float i) = m - 2 ^ 23"
      unfolding float_exponent_def float_fraction_def fields by (rule refl)+
    have "(2 ^ 23 + (m - 2 ^ 23)) * 2 ^ (l + 126 - 1) = n * (2 ^ (24 - l) * 2 ^ (l + 125))"
      using f s by (simp add: m_def)
    also have "\<dots> = n * 2 ^ 149" using f(5) s by (simp flip: power_add)
    finally have units: "(2 ^ 23 + (m - 2 ^ 23)) * 2 ^ (l + 126 - 1) = n * 2 ^ 149" .
    have "float_units (int_to_float i) = (if sint i < 0 then - int (n * 2 ^ 149) else int (n * 2 ^ 149))"
      unfolding float_units_def Let_def ex neg units [symmetric] by simp
    also have "\<dots> = sint i * 2 ^ 149" by (simp add: n_def)
    finally show ?thesis using neg ex(1) f(5) s by simp
  qed
  then show "float_units (int_to_float i) = sint i * 2 ^ 149" "float_negative (int_to_float i) \<longleftrightarrow> sint i < 0"
    "float_exponent (int_to_float i) < 255" by blast+
qed

lemma units_bits_shift:
  assumes "0 < n" and "n < 2 ^ 24" and "24 \<le> j" and "j \<le> 200"
  shows "units_bits (n * 2 ^ j) = (bit_length n + j - 23) * 2 ^ 23 + (n * 2 ^ (24 - bit_length n) - 2 ^ 23)"
proof -
  define l where "l = bit_length n"
  define m where "m = n * 2 ^ (24 - l)"
  note f = small_int_fields [OF assms(1,2), folded l_def, folded m_def]
  have "(2::nat) ^ 24 \<le> 2 ^ j" using assms(3) by (intro power_increasing) simp_all
  also have "\<dots> \<le> n * 2 ^ j" using assms(1) by simp
  finally have big: "\<not> n * 2 ^ j < 2 ^ 24" by simp
  have e: "l + j + 126 - 149 = l + j - 23" using f by simp
  have "l + j - 23 \<le> 201" using f(5) assms(4) by simp
  then have "(l + j - 23) * 2 ^ 23 \<le> 201 * 2 ^ 23" by (rule mult_le_mono1)
  then have "(l + j - 23) * 2 ^ 23 + (m - 2 ^ 23) \<le> 255 * 2 ^ 23" using f(2) by simp
  then show ?thesis
    using big round_24_shift [of n j, folded l_def, folded m_def] assms f(4,5) e
    by (simp add: units_bits_def l_def [symmetric] m_def [symmetric])
qed

lemma float_of_int_units:
  assumes "\<bar>sint i\<bar> < 2 ^ 24" and "sint i \<noteq> 0"
  shows "float_of_units (sint i * 2 ^ 149) = int_to_float i"
proof -
  define n where "n = nat \<bar>sint i\<bar>"
  define j :: nat where "j = 149"
  have n: "0 < n" "n < 2 ^ 24" using assms by (auto simp: n_def nat_less_iff)
  have mag: "nat \<bar>sint i * 2 ^ j\<bar> = n * 2 ^ j" by (simp add: n_def abs_mult nat_mult_distrib nat_power_eq)
  have j: "24 \<le> j" "j \<le> 200" "bit_length n + j - 23 = bit_length n + 126" by (simp_all add: j_def)
  have "float_of_units (sint i * 2 ^ j) = int_to_float i"
    using n small_int_fields(3) [OF n] units_bits_shift [OF n j(1,2), unfolded j(3)]
    by (simp add: float_of_units_def mag int_to_float_def Let_def n_def [symmetric] mult_less_0_iff)
  then show ?thesis by (simp only: j_def)
qed

lemma sint_add_small: "\<bar>sint i + sint j\<bar> < 2 ^ 24 \<Longrightarrow> sint (i + j) = sint i + sint j" for i j :: i32
  by (simp add: sint_word_ariths(1) signed_take_bit_int_eq_self)

lemma float_add_ints:
  assumes "\<bar>sint i\<bar> < 2 ^ 24" and "\<bar>sint j\<bar> < 2 ^ 24" and "\<bar>sint i + sint j\<bar> < 2 ^ 24"
  shows "float_add nan (int_to_float i) (int_to_float j) = int_to_float (i + j)"
proof -
  note ui = int_to_float_units [OF assms(1)] and uj = int_to_float_units [OF assms(2)]
  have plain: "\<not> float_is_nan (int_to_float i)" "\<not> float_is_nan (int_to_float j)"
    "\<not> float_is_infinite (int_to_float i)" "\<not> float_is_infinite (int_to_float j)"
    using ui(3) uj(3) by (simp_all add: float_is_nan_def float_is_infinite_def)
  have total: "sint (i + j) = sint i + sint j"
    by (rule sint_add_small [OF assms(3)])
  have units: "float_units (int_to_float i) + float_units (int_to_float j) = sint (i + j) * 2 ^ 149"
    by (simp add: ui uj total algebra_simps)
  show ?thesis
  proof (cases "sint (i + j) = 0")
    case True
    then have "i + j = 0" by (metis signed_0 signed_word_eqI)
    then have "int_to_float (i + j) = 0" by (simp add: int_to_float_def)
    moreover have "\<not> (sint i < 0 \<and> sint j < 0)" using True total by auto
    ultimately show ?thesis using plain units True by (simp add: float_add_def ui(2) uj(2))
  next
    case False
    then show ?thesis
      using plain units float_of_int_units [of "i + j"] assms(3) total by (simp add: float_add_def)
  qed
qed

section \<open>What an adder computes\<close>

text \<open>
  The reference: the sums by recursion over the values of the two plugs, up to the first that is no float, with
  the exception it raises.
\<close>

fun sum_values ::
  "float_text \<Rightarrow> (float32 \<Rightarrow> float32 \<Rightarrow> float32) \<Rightarrow> ZstValueVariant list \<Rightarrow> ZstValueVariant list \<Rightarrow>
   float32 list \<times> zst_exn option" where
  "sum_values ft nan [] [] = ([], None)"
| "sum_values ft nan (x # xs) [] =
     (case ZstValueFloatVisitor ft x of
        Inl e \<Rightarrow> ([], Some e) | Inr f \<Rightarrow> apfst (Cons f) (sum_values ft nan xs []))"
| "sum_values ft nan [] (y # ys) =
     (case ZstValueFloatVisitor ft y of
        Inl e \<Rightarrow> ([], Some e) | Inr g \<Rightarrow> apfst (Cons g) (sum_values ft nan [] ys))"
| "sum_values ft nan (x # xs) (y # ys) =
     (case (ZstValueFloatVisitor ft x, ZstValueFloatVisitor ft y) of
        (Inr f, Inr g) \<Rightarrow> apfst (Cons (float_add nan f g)) (sum_values ft nan xs ys)
      | (Inl e, _) \<Rightarrow> ([], Some e)
      | (_, Inl e) \<Rightarrow> ([], Some e))"

definition append_floats :: "float32 list \<Rightarrow> entity \<Rightarrow> entity" where
  "append_floats fs e = plug_set_value ((m_value e)\<lparr>m_values := m_values (m_value e) @ map VFloat fs\<rparr>) e"

lemma append_floats_simps [simp]:
  "append_floats [] e = e" "append_floats fs (plug_append_float f e) = append_floats (f # fs) e"
  by (simp_all add: append_floats_def plug_append_float_def plug_set_value_def value_append_float_def)

lemma upd_entity_fuse: "upd_entity r f (upd_entity r g h) = upd_entity r (\<lambda>e. f (g e)) h"
  by (simp add: upd_entity_def option.map_comp comp_def)

lemma upd_append_nothing [simp]: "upd_entity r (append_floats []) h = h"
proof -
  have "append_floats [] = (\<lambda>e. e)" by (rule ext) simp
  then show ?thesis by (simp add: upd_entity_def option.map_ident)
qed

text \<open>One turn of the loop is one step of the reference.\<close>

lemma element_sum:
  assumes "i < max (plug_size x) (plug_size y)"
  shows "sum_values ft nan (drop i (m_values (m_value x))) (drop i (m_values (m_value y))) =
    (case adder_element ft nan x y i of
       Inl e \<Rightarrow> ([], Some e)
     | Inr None \<Rightarrow> ([], None)
     | Inr (Some f) \<Rightarrow>
         apfst (Cons f) (sum_values ft nan (drop (Suc i) (m_values (m_value x))) (drop (Suc i) (m_values (m_value y)))))"
proof -
  note defs = adder_element_def plug_size_def plug_float_at_def value_size_def value_float_at_def list_index_def
  let ?xs = "m_values (m_value x)" and ?ys = "m_values (m_value y)"
  consider "i < length ?xs" "i < length ?ys" | "i < length ?xs" "\<not> i < length ?ys" | "\<not> i < length ?xs" "i < length ?ys"
    using assms unfolding plug_size_def value_size_def less_max_iff_disj by blast
  then show ?thesis
  proof cases
    case 1
    then show ?thesis
      by (simp add: defs Cons_nth_drop_Suc [symmetric] split: sum.split)
  next
    case 2
    then show ?thesis
      by (simp add: defs Cons_nth_drop_Suc [of i ?xs, symmetric] split: sum.split)
  next
    case 3
    then show ?thesis
      by (simp add: defs Cons_nth_drop_Suc [of i ?ys, symmetric] split: sum.split)
  qed
qed

lemma element_some:
  "i < max (plug_size x) (plug_size y) \<Longrightarrow> adder_element ft nan x y i \<noteq> Inr None"
  by (auto simp: adder_element_def map_sum_def split: sum.split)

lemma loop_sums:
  assumes "heap h (m_augend a) = Some x" and "heap h (m_addend a) = Some y"
    and "m_sum a \<noteq> m_augend a" and "m_sum a \<noteq> m_addend a" and "i \<le> n" and "n = max (plug_size x) (plug_size y)"
  shows "adder_loop ft nan a [i ..< n] h =
    (case sum_values ft nan (drop i (m_values (m_value x))) (drop i (m_values (m_value y))) of
       (fs, err) \<Rightarrow> (upd_entity (m_sum a) (append_floats fs) h, err))"
  using assms(5,1,2)
proof (induction i arbitrary: h rule: inc_induct)
  case base
  then show ?case by (simp add: assms(6) plug_size_def value_size_def)
next
  case (step i)
  have i: "i < max (plug_size x) (plug_size y)" using step.hyps assms(6) by simp
  note s = element_sum [OF i, of ft nan]
  have plugs: "heap (upd_entity (m_sum a) f h) (m_augend a) = Some x" "heap (upd_entity (m_sum a) f h) (m_addend a) = Some y" for f
    using step.prems assms(3,4) by (simp_all add: upd_entity_def)
  have loop: "adder_loop ft nan a [i ..< n] h =
    (case adder_element ft nan x y i of
       Inl e \<Rightarrow> (h, Some e)
     | Inr None \<Rightarrow> adder_loop ft nan a [Suc i ..< n] h
     | Inr (Some f) \<Rightarrow> adder_loop ft nan a [Suc i ..< n] (upd_entity (m_sum a) (plug_append_float f) h))"
    using step.prems step.hyps(2) by (simp add: upt_conv_Cons)
  show ?case
  proof (cases "adder_element ft nan x y i")
    case (Inl e)
    then show ?thesis by (simp add: loop s)
  next
    case (Inr f)
    then obtain g where "f = Some g" using element_some [OF i, of ft nan] by (cases f) auto
    with Inr show ?thesis
      by (simp add: loop s step.IH [OF plugs] upd_entity_fuse split: prod.split)
  qed
qed

lemma adder_computes_eq:
  assumes "heap h (m_augend a) = Some x" and "heap h (m_addend a) = Some y"
    and "m_sum a \<noteq> m_augend a" and "m_sum a \<noteq> m_addend a"
    and "sum_values ft nan (m_values (m_value x)) (m_values (m_value y)) = (fs, err)"
  shows "adder_compute ft nan a h =
    (let g = upd_entity (m_sum a) (append_floats fs) h
     in case err of Some e \<Rightarrow> (g, Some e) | None \<Rightarrow> output_plug_fire ft (m_sum a) g)"
proof -
  have "adder_loop ft nan a [0 ..< max (plug_size y) (plug_size x)] h = (upd_entity (m_sum a) (append_floats fs) h, err)"
    using loop_sums [OF assms(1-4), of 0 "max (plug_size y) (plug_size x)" ft nan] assms(5) by (simp add: max.commute)
  then show ?thesis using assms(1,2) by (simp add: adder_compute_def Let_def split: option.split)
qed

text \<open>
  Computing an adder appends to the sum plug the sums of the values its two input plugs hold, converted to
  floats, element by element and the rest of the longer list as it is, and fires it. When a value is no float,
  nothing is fired, and the sums of the values before it stay in the sum plug, as does everything a plug holds
  that may not fire, so that the next computation fires them with its own.
\<close>

theorem adder_computes:
  assumes "heap h (m_augend a) = Some x" and "heap h (m_addend a) = Some y"
    and "m_sum a \<noteq> m_augend a" and "m_sum a \<noteq> m_addend a"
    and "sum_values ft nan (m_values (m_value x)) (m_values (m_value y)) = (fs, err)"
  shows "let g = upd_entity (m_sum a) (append_floats fs) h in
    adder_compute ft nan a h =
      (case err of
         Some e \<Rightarrow> (g, Some e)
       | None \<Rightarrow> if entity_test (\<lambda>e. \<not> m_can_fire e) g (m_sum a) then (g, None) else output_plug_fire ft (m_sum a) g)"
  using adder_computes_eq [OF assms]
  by (auto simp: Let_def output_plug_fire_def entity_test_def split: option.split)

text \<open>An adder whose plugs have values, and whose sum plug may fire on one transport.\<close>

definition sample_adder :: "ZstValueVariant list \<Rightarrow> ZstValueVariant list \<Rightarrow> adder \<times> client" where
  "sample_adder xs ys =
     (case adder_new False ''add'' client_new of
        ((_, a), h) \<Rightarrow>
          (a, upd_entity (m_sum a) (\<lambda>e. e\<lparr>m_can_fire := True, m_graph_adaptors := [1]\<rparr>)
                (upd_entity (m_addend a) (\<lambda>e. e\<lparr>m_value := (m_value e)\<lparr>m_values := ys\<rparr>\<rparr>)
                (upd_entity (m_augend a) (\<lambda>e. e\<lparr>m_value := (m_value e)\<lparr>m_values := xs\<rparr>\<rparr>) h))))"

lemma sample_adder_plugs:
  "\<exists>x y e a h. sample_adder xs ys = (a, h) \<and> heap h (m_augend a) = Some x \<and> heap h (m_addend a) = Some y \<and> heap h (m_sum a) = Some e \<and>
     m_sum a \<noteq> m_augend a \<and> m_sum a \<noteq> m_addend a \<and> m_values (m_value x) = xs \<and> m_values (m_value y) = ys \<and>
     m_can_fire e \<and> m_value e = value_new VT_FloatList \<and> m_graph_adaptors e = [1] \<and> m_plug_cables e = [] \<and> m_graph_outbox h = []"
  by (simp add: sample_adder_def adder_new_def alloc_entity_def client_new_def upd_entity_def entity_new_defs Let_def
      synchronisable_new_def PLUG_DEFAULT_MAX_CABLES_def)

theorem adder_computes_witness:
  "\<exists>a h. sample_adder [VInt 2, VStr ''x''] [VInt 3, VInt 4] = (a, h) \<and>
     adder_compute no_floats (\<lambda>f g. f) a h =
       (upd_entity (m_sum a) (append_floats [int_to_float 5]) h, Some InvalidArgument)"
proof -
  obtain a h x y where s: "sample_adder [VInt 2, VStr ''x''] [VInt 3, VInt 4] = (a, h)" "heap h (m_augend a) = Some x"
      "heap h (m_addend a) = Some y" "m_sum a \<noteq> m_augend a" "m_sum a \<noteq> m_addend a"
      "m_values (m_value x) = [VInt 2, VStr ''x'']" "m_values (m_value y) = [VInt 3, VInt 4]"
    using sample_adder_plugs [of "[VInt 2, VStr ''x'']" "[VInt 3, VInt 4]"] by blast
  have "float_add (\<lambda>f g. f) (int_to_float 2) (int_to_float 3) = int_to_float 5"
    using float_add_ints [of 2 3] by simp
  then have "sum_values no_floats (\<lambda>f g. f) (m_values (m_value x)) (m_values (m_value y)) = ([int_to_float 5], Some InvalidArgument)"
    by (simp add: s no_floats_def)
  from adder_computes [OF s(2-5) this] show ?thesis using s(1) by simp
qed

section \<open>Integers\<close>

fun sum_ints :: "i32 list \<Rightarrow> i32 list \<Rightarrow> i32 list" where
  "sum_ints [] js = js"
| "sum_ints is [] = is"
| "sum_ints (i # is) (j # js) = (i + j) # sum_ints is js"

fun small_sums :: "i32 list \<Rightarrow> i32 list \<Rightarrow> bool" where
  "small_sums (i # is) (j # js) \<longleftrightarrow> \<bar>sint i + sint j\<bar> < 2 ^ 24 \<and> small_sums is js"
| "small_sums _ _ \<longleftrightarrow> True"

definition small_ints :: "i32 list \<Rightarrow> bool" where
  "small_ints is \<longleftrightarrow> (\<forall>i\<in>set is. \<bar>sint i\<bar> < 2 ^ 24)"

lemma sum_values_ints:
  assumes "small_ints is" and "small_ints js" and "small_sums is js"
  shows "sum_values ft nan (map VInt is) (map VInt js) = (map int_to_float (sum_ints is js), None)"
proof -
  have one: "sum_values ft nan (map VInt ks) [] = (map int_to_float ks, None)"
    "sum_values ft nan [] (map VInt ks) = (map int_to_float ks, None)" for ks
    by (induction ks) simp_all
  show ?thesis
    using assms
  proof (induction "is" js rule: sum_ints.induct)
    case (3 i "is" j js)
    then show ?case using float_add_ints [of i j nan] by (simp add: small_ints_def)
  next
    case (2 i "is")
    then show ?case using one(1) [of "i # is"] by simp
  qed (simp add: one)
qed

lemma sum_ints_small: "small_ints is \<Longrightarrow> small_ints js \<Longrightarrow> small_sums is js \<Longrightarrow> small_ints (sum_ints is js)"
proof (induction "is" js rule: sum_ints.induct)
  case (3 i "is" j js)
  have small: "\<bar>sint i + sint j\<bar> < 2 ^ 24" "small_sums is js" using "3.prems"(3) by simp_all
  have "small_ints is" "small_ints js" using "3.prems"(1,2) by (simp_all add: small_ints_def)
  then have "small_ints (sum_ints is js)" by (rule "3.IH") (rule small(2))
  then show ?case using small(1) by (simp add: small_ints_def sint_add_small)
qed simp_all

lemma ints_read_back: "small_ints is \<Longrightarrow> map_exn ZstValueIntVisitor (map VFloat (map int_to_float is)) = Inr is"
  by (induction "is") (simp_all add: small_ints_def int_float_int)

text \<open>
  C33. An adder whose input plugs hold integers below \<open>2 ^ 24\<close> with sums below it, and whose empty sum plug may
  fire, publishes on every transport of the plug a message from which whoever receives it reads, as integers,
  exactly the sums; afterwards the sum plug is empty again.
\<close>

theorem adder_adds_ints:
  assumes "heap h (m_augend a) = Some x" and "heap h (m_addend a) = Some y" and "heap h (m_sum a) = Some e"
    and "m_sum a \<noteq> m_augend a" and "m_sum a \<noteq> m_addend a"
    and "m_can_fire e" and "m_value e = value_new VT_FloatList"
    and "m_values (m_value x) = map VInt is" and "m_values (m_value y) = map VInt js"
    and "small_ints is" and "small_ints js" and "small_sums is js"
    and "adder_compute ft nan a h = (h', None)"
  shows "\<exists>msg. m_graph_outbox h' = m_graph_outbox h @ replicate (length (m_graph_adaptors e)) msg \<and>
    (m_graph_adaptors e \<noteq> [] \<longrightarrow> gm_sender msg = uri_path (m_uri e) \<and>
       (\<forall>w. \<exists>v. value_deserialize (gm_value msg) w = Inr v \<and> as_int_vector v = Inr (sum_ints is js))) \<and>
    map_option m_value (heap h' (m_sum a)) = Some (value_new VT_FloatList)"
proof -
  define fs where "fs = map int_to_float (sum_ints is js)"
  define e' where "e' = append_floats fs e"
  define g where "g = upd_entity (m_sum a) (append_floats fs) h"
  have v: "m_value e' = \<lparr>m_values = map VFloat fs, m_default_type = VT_FloatList\<rparr>"
    and e': "heap g (m_sum a) = Some e'" "m_can_fire e'" "m_graph_adaptors e' = m_graph_adaptors e" "m_uri e' = m_uri e"
    using assms(3,6,7) by (simp_all add: e'_def g_def append_floats_def plug_set_value_def value_new_def upd_entity_def)
  have "adder_compute ft nan a h = output_plug_fire ft (m_sum a) g"
    using adder_computes_eq [OF assms(1,2,4,5), of ft nan fs None] sum_values_ints [OF assms(10-12), of ft nan] assms(8,9)
    by (simp add: g_def fs_def)
  then have fires: "output_plug_fire ft (m_sum a) g = (h', None)" using assms(13) by simp
  obtain g2 w where w: "m_graph_adaptors e \<noteq> [] \<longrightarrow> value_serialize ft (m_value e') = Inr w"
      "h' = upd_entity (m_sum a) (\<lambda>e. plug_set_value (value_clear (m_value e)) e)
        (g2\<lparr>m_graph_outbox := m_graph_outbox g @
          replicate (length (m_graph_adaptors e)) \<lparr>gm_sender = uri_path (m_uri e), gm_value = w\<rparr>\<rparr>)"
      "heap g2 (m_sum a) = Some e'"
    using fire_steps [OF e'(1,2) fires] unfolding e'(3,4) by blast
  have typed: "value_typed (m_value e')" unfolding v by (rule value_typedI)
  have read: "as_int_vector (m_value e') = Inr (sum_ints is js)"
    unfolding v as_int_vector_def fs_def using ints_read_back [OF sum_ints_small [OF assms(10-12)]] by simp
  have "\<exists>v. value_deserialize w u = Inr v \<and> as_int_vector v = Inr (sum_ints is js)" if "m_graph_adaptors e \<noteq> []" for u
    using serialize_typed [OF typed, of ft] w(1) read that by auto
  moreover have "m_graph_outbox h' = m_graph_outbox h @
      replicate (length (m_graph_adaptors e)) \<lparr>gm_sender = uri_path (m_uri e), gm_value = w\<rparr>"
    by (simp add: w(2) upd_entity_def g_def)
  moreover have "map_option m_value (heap h' (m_sum a)) = Some (value_new VT_FloatList)"
    using w(3) v by (simp add: w(2) upd_entity_def plug_set_value_def value_clear_def value_new_def)
  ultimately show ?thesis by (intro exI [of _ "\<lparr>gm_sender = uri_path (m_uri e), gm_value = w\<rparr>"]) auto
qed

theorem adder_adds_ints_witness:
  "\<exists>a h h' v. sample_adder [VInt 2] [VInt (- 5), VInt 4] = (a, h) \<and> adder_compute no_floats (\<lambda>f g. f) a h = (h', None) \<and>
     (\<exists>msg. m_graph_outbox h' = [msg] \<and> value_deserialize (gm_value msg) value_default = Inr v) \<and> as_int_vector v = Inr [- 3, 4]"
proof -
  obtain a h x y e where s: "sample_adder [VInt 2] [VInt (- 5), VInt 4] = (a, h)" "heap h (m_augend a) = Some x"
      "heap h (m_addend a) = Some y" "heap h (m_sum a) = Some e" "m_sum a \<noteq> m_augend a" "m_sum a \<noteq> m_addend a" "m_can_fire e"
      "m_value e = value_new VT_FloatList" "m_values (m_value x) = map VInt [2]" "m_values (m_value y) = map VInt [- 5, 4]"
    and t: "m_graph_adaptors e = [1]" "m_plug_cables e = []" "m_graph_outbox h = []"
    using sample_adder_plugs [of "[VInt 2]" "[VInt (- 5), VInt 4]"] by auto
  have small: "small_ints [2]" "small_ints [- 5, 4]" "small_sums [2] [- 5, 4]" by code_simp+
  obtain h' where h': "adder_compute no_floats (\<lambda>f g. f) a h = (h', None)"
    using adder_computes_eq [OF s(2,3,5,6) sum_values_ints [OF small, folded s(9,10)]] s(4,7,8) t
    by (simp add: output_plug_fire_def publish_value_def upd_entity_def append_floats_def plug_set_value_def plug_child_cables_def
        value_new_def value_serialize_def as_float_vector_def)
  show ?thesis
    using adder_adds_ints [OF s(2-10) small h'] s(1) t h' by auto
qed

section \<open>The invariant of the client\<close>


text \<open>
  The adders keep the invariant of a client whatever plugs they are given and however their computation ends:
  the hypothesis on the \<open>compute\<close> of an application, under which a client is sound in every state it can reach,
  holds of the component the library ships.
\<close>

theorem adders_keep_client: "compute_inv (adders_compute ft nan adders)"
proof -
  have append: "client_ok h \<longrightarrow> client_ok (upd_entity r (plug_append_float f) h)" for r f h
    by (intro impI client_ok_upd) (simp_all add: plug_append_float_def plug_set_value_def identity_def)
  have loop: "(client_ok h \<longrightarrow> client_ok (fst (adder_loop ft nan a is h))) \<and> client_frame h (fst (adder_loop ft nan a is h))"
    for a "is" h
    using append
    by (induction "is" arbitrary: h)
       (auto split: option.split sum.split intro: frame_trans [OF frame_session(1)])
  have "(client_ok h \<longrightarrow> client_ok (fst (adder_compute ft nan a h))) \<and> client_frame h (fst (adder_compute ft nan a h))" for a h
  proof (cases "adder_loop ft nan a [0 ..< max (plug_size (the (heap h (m_addend a)))) (plug_size (the (heap h (m_augend a))))] h")
    case (Pair g err)
    then have "client_ok h \<longrightarrow> client_ok g" "client_frame h g" using loop by (metis fst_conv)+
    then show ?thesis
      using Pair fire_ok frame_trans [OF _ frame_fire] by (auto simp: adder_compute_def split: option.split)
  qed
  then show ?thesis
    by (auto simp: compute_inv_def compute_ok_def adders_compute_def split: option.split)
qed

end
