(* ===== verification/Zst_Wakeup.thy ===== *)
theory Zst_Wakeup
  imports Zst_Prelude
begin

text \<open>
  How the event loop of the stage sleeps and wakes: \<open>ZstSemaphore\<close> (\<open>src/src/core/ZstSemaphore.h\<close>), the
  part of \<open>ZstEventDispatcher::defer\<close> that notifies it, the wiring of the dispatchers
  (\<open>set_wake_condition\<close> in \<open>src/src/server\<close>) and \<open>ZstStage::event_loop\<close> and \<open>destroy\<close>, as a transition system
  whose steps are the steps of threads: any thread may defer an event to any dispatcher at any time, first the
  enqueueing and later the notification, and one thread runs the loop. \<open>Zst_Stage\<close> has what the events do, \<open>Zst_Rest\<close> why the loop comes to rest.
\<close>

section \<open>The semaphore\<close>

text \<open>
  Only one thread waits for a semaphore, the one that runs the loop. It waits in \<open>cv.wait\<close> (\<open>sem_asleep\<close>) or not.
  The count, an \<open>int\<close> of the source, is taken to stay below its bound.
\<close>

record ZstSemaphore =
  sem_count :: int
  sem_asleep :: bool

definition semaphore_new :: ZstSemaphore where
  "semaphore_new = \<lparr>sem_count = 0, sem_asleep = False\<rparr>"

definition sem_notify :: "ZstSemaphore \<Rightarrow> ZstSemaphore" where
  "sem_notify x = x\<lparr>sem_count := sem_count x + 1, sem_asleep := False\<rparr>"

text \<open>One turn of the loop in \<open>wait\<close>: the thread falls asleep, or takes one from the count and returns.\<close>

definition sem_wait_turn :: "ZstSemaphore \<Rightarrow> ZstSemaphore \<times> bool" where
  "sem_wait_turn x =
     (if sem_count x = 0 then (x\<lparr>sem_asleep := True\<rparr>, False) else (x\<lparr>sem_count := sem_count x - 1\<rparr>, True))"

section \<open>The dispatchers of the stage\<close>

datatype dispatcher_name =
    SessionEvents | SessionSync | SessionRouter | ComputeEvents
  | HierarchyEvents | HierarchySync | HierarchyRouter | LogEvents

text \<open>Which dispatchers notify the semaphore when an event is deferred to them.\<close>

type_synonym wiring = "dispatcher_name \<Rightarrow> bool"

definition set_wake_condition :: "dispatcher_name \<Rightarrow> wiring \<Rightarrow> wiring" where
  "set_wake_condition d w = w(d := True)"

definition stage_module_set_wake_condition :: "dispatcher_name \<Rightarrow> wiring \<Rightarrow> wiring" where
  "stage_module_set_wake_condition router_events w = set_wake_condition router_events w"

definition stage_hierarchy_set_wake_condition :: "wiring \<Rightarrow> wiring" where
  "stage_hierarchy_set_wake_condition w =
     set_wake_condition HierarchySync (set_wake_condition HierarchyEvents
       (stage_module_set_wake_condition HierarchyRouter w))"

definition stage_session_set_wake_condition :: "wiring \<Rightarrow> wiring" where
  "stage_session_set_wake_condition w =
     set_wake_condition SessionSync (set_wake_condition SessionEvents
       (stage_hierarchy_set_wake_condition (stage_module_set_wake_condition SessionRouter w)))"

text \<open>The constructor of \<open>ZstStage\<close>.\<close>

definition stage_wired :: wiring where
  "stage_wired = stage_session_set_wake_condition (\<lambda>_. False)"

text \<open>The order in which \<open>ZstStage::process_events\<close> drains the dispatchers.\<close>

definition sync_module_order :: "dispatcher_name \<Rightarrow> dispatcher_name list" where
  "sync_module_order sync = [sync]"

definition stage_module_order :: "dispatcher_name \<Rightarrow> dispatcher_name list" where
  "stage_module_order router = [router]"

definition hierarchy_order :: "dispatcher_name list" where
  "hierarchy_order = HierarchyEvents # sync_module_order HierarchySync"

definition stage_hierarchy_order :: "dispatcher_name list" where
  "stage_hierarchy_order = stage_module_order HierarchyRouter @ hierarchy_order"

definition session_order :: "dispatcher_name list" where
  "session_order = stage_hierarchy_order @ [SessionEvents, ComputeEvents] @ sync_module_order SessionSync"

definition stage_session_order :: "dispatcher_name list" where
  "stage_session_order = session_order @ stage_module_order SessionRouter @ stage_hierarchy_order"

definition stage_order :: "dispatcher_name list" where
  "stage_order = stage_session_order @ [LogEvents]"

lemmas stage_order_defs = stage_order_def stage_session_order_def session_order_def stage_hierarchy_order_def
  hierarchy_order_def stage_module_order_def sync_module_order_def

lemmas stage_wired_defs = stage_wired_def stage_session_set_wake_condition_def stage_hierarchy_set_wake_condition_def
  stage_module_set_wake_condition_def set_wake_condition_def

lemma stage_wired_iff: "stage_wired d \<longleftrightarrow> d \<noteq> ComputeEvents \<and> d \<noteq> LogEvents"
  by (cases d) (simp_all add: stage_wired_defs)

lemma all_in_stage_order: "d \<in> set stage_order"
  by (cases d) (simp_all add: stage_order_defs)

section \<open>The event loop\<close>

text \<open>Where the thread of the loop is; \<open>Draining\<close> has the dispatchers that are still to be drained.\<close>

datatype loop_pc =
    LoopHead          \<comment> \<open>before the interruption point\<close>
  | AtWait            \<comment> \<open>in \<open>wait\<close>\<close>
  | Woken             \<comment> \<open>before the test of \<open>is_destroyed\<close>\<close>
  | Draining "dispatcher_name list"
  | Exited

record 'e loop_state =
  ls_queues :: "dispatcher_name \<Rightarrow> 'e list"
  ls_pending :: "dispatcher_name list"
    \<comment> \<open>calls of \<open>defer\<close> that have enqueued and have not notified yet\<close>
  ls_semaphore :: ZstSemaphore
  ls_pc :: loop_pc
  ls_destroyed :: bool
  ls_interrupted :: bool
  ls_processed :: "(dispatcher_name \<times> 'e) list"

definition loop_start :: "'e loop_state" where
  "loop_start =
     \<lparr>ls_queues = (\<lambda>_. []), ls_pending = [], ls_semaphore = semaphore_new, ls_pc = LoopHead, ls_destroyed = False,
      ls_interrupted = False, ls_processed = []\<rparr>"

text \<open>\<open>defer\<close>: \<open>enqueue\<close>, then \<open>notify\<close>, which does nothing without a wake condition.\<close>

definition defer_enqueue :: "dispatcher_name \<Rightarrow> 'e \<Rightarrow> 'e loop_state \<Rightarrow> 'e loop_state" where
  "defer_enqueue d e s =
     s\<lparr>ls_queues := (ls_queues s)(d := ls_queues s d @ [e]), ls_pending := d # ls_pending s\<rparr>"

definition defer_notify :: "wiring \<Rightarrow> dispatcher_name \<Rightarrow> 'e loop_state \<Rightarrow> 'e loop_state" where
  "defer_notify wired d s =
     s\<lparr>ls_pending := remove1 d (ls_pending s),
       ls_semaphore := (if wired d then sem_notify (ls_semaphore s) else ls_semaphore s)\<rparr>"

text \<open>\<open>destroy\<close> of the stage: the flag, then \<open>interrupt\<close>, then \<open>notify\<close>.\<close>

definition destroy_flag :: "'e loop_state \<Rightarrow> 'e loop_state" where
  "destroy_flag s = s\<lparr>ls_destroyed := True\<rparr>"

definition destroy_interrupt :: "'e loop_state \<Rightarrow> 'e loop_state" where
  "destroy_interrupt s = s\<lparr>ls_interrupted := True\<rparr>"

definition destroy_notify :: "'e loop_state \<Rightarrow> 'e loop_state" where
  "destroy_notify s = s\<lparr>ls_semaphore := sem_notify (ls_semaphore s)\<rparr>"

text \<open>
  One step of the thread of the loop; a thread that is asleep or has ended makes none. An event is processed by the
  modules; what it defers is deferred by steps of the relation below. The queues are lists; the concurrent queue of the
  source keeps only the order of each producer, but which of the waiting events is taken first is of no
  importance for when the loop sleeps and ends.
\<close>

definition loop_step :: "dispatcher_name list \<Rightarrow> 'e loop_state \<Rightarrow> 'e loop_state" where
  "loop_step order s =
     (case ls_pc s of
        LoopHead \<Rightarrow> s\<lparr>ls_pc := (if ls_interrupted s then Exited else AtWait)\<rparr>
      | AtWait \<Rightarrow>
          (if sem_asleep (ls_semaphore s) then s
           else
             let (x, returns) = sem_wait_turn (ls_semaphore s)
             in s\<lparr>ls_semaphore := x, ls_pc := (if returns then Woken else AtWait)\<rparr>)
      | Woken \<Rightarrow> s\<lparr>ls_pc := (if ls_destroyed s then Exited else Draining order)\<rparr>
      | Draining [] \<Rightarrow> s\<lparr>ls_pc := LoopHead\<rparr>
      | Draining (d # ds) \<Rightarrow>
          (case ls_queues s d of
             [] \<Rightarrow> s\<lparr>ls_pc := Draining ds\<rparr>
           | e # es \<Rightarrow> s\<lparr>ls_queues := (ls_queues s)(d := es), ls_processed := ls_processed s @ [(d, e)]\<rparr>)
      | Exited \<Rightarrow> s)"

inductive loop_reachable :: "wiring \<Rightarrow> dispatcher_name list \<Rightarrow> 'e loop_state \<Rightarrow> bool"
  for wired order where
  reach_start: "loop_reachable wired order loop_start"
| reach_enqueue: "loop_reachable wired order s \<Longrightarrow> loop_reachable wired order (defer_enqueue d e s)"
| reach_notify: "loop_reachable wired order s \<Longrightarrow> d \<in> set (ls_pending s) \<Longrightarrow>
    loop_reachable wired order (defer_notify wired d s)"
| reach_loop: "loop_reachable wired order s \<Longrightarrow> loop_reachable wired order (loop_step order s)"
| reach_flag: "loop_reachable wired order s \<Longrightarrow> loop_reachable wired order (destroy_flag s)"
| reach_interrupt: "loop_reachable wired order s \<Longrightarrow> ls_destroyed s \<Longrightarrow> loop_reachable wired order (destroy_interrupt s)"
| reach_destroy_notify: "loop_reachable wired order s \<Longrightarrow> ls_interrupted s \<Longrightarrow>
    loop_reachable wired order (destroy_notify s)"

section \<open>No wake-up is lost\<close>

text \<open>
  An event of a dispatcher with a wake condition is covered when something will bring the loop to it: a
  notification that is on its way or counted, or the round that is being run.
\<close>

definition covered :: "dispatcher_name \<Rightarrow> 'e loop_state \<Rightarrow> bool" where
  "covered d s \<longleftrightarrow>
     d \<in> set (ls_pending s) \<or> 0 < sem_count (ls_semaphore s) \<or> ls_pc s = Woken \<or> ls_pc s = Exited \<or>
     (\<exists>ds. ls_pc s = Draining ds \<and> d \<in> set ds)"

definition wake_inv :: "wiring \<Rightarrow> 'e loop_state \<Rightarrow> bool" where
  "wake_inv wired s \<longleftrightarrow>
     0 \<le> sem_count (ls_semaphore s) \<and>
     (sem_asleep (ls_semaphore s) \<longrightarrow> sem_count (ls_semaphore s) = 0 \<and> ls_pc s = AtWait) \<and>
     (ls_interrupted s \<longrightarrow> ls_destroyed s) \<and> (ls_pc s = Exited \<longrightarrow> ls_destroyed s) \<and>
     (\<forall>d. wired d \<longrightarrow> ls_queues s d \<noteq> [] \<longrightarrow> covered d s)"

lemma wake_inv_loop_step:
  assumes "wake_inv wired s" and "\<And>d. wired d \<Longrightarrow> d \<in> set order"
  shows "wake_inv wired (loop_step order s)"
proof (cases "ls_pc s")
  case AtWait
  then show ?thesis
    using assms by (auto simp: wake_inv_def covered_def loop_step_def sem_wait_turn_def Let_def)
next
  case Woken
  then show ?thesis using assms by (auto simp: wake_inv_def covered_def loop_step_def)
next
  case (Draining ds)
  show ?thesis
  proof (cases ds)
    case (Cons d ds')
    then show ?thesis using assms Draining
      by (cases "ls_queues s d") (auto simp: wake_inv_def covered_def loop_step_def)
  qed (use assms Draining in \<open>auto simp: wake_inv_def covered_def loop_step_def\<close>)
qed (use assms in \<open>auto simp: wake_inv_def covered_def loop_step_def\<close>)

lemma wake_inv_reachable:
  assumes "loop_reachable wired order s" and "\<And>d. wired d \<Longrightarrow> d \<in> set order"
  shows "wake_inv wired s"
  using assms(1)
proof (induction rule: loop_reachable.induct)
  case reach_start
  then show ?case by (simp add: wake_inv_def loop_start_def semaphore_new_def)
next
  case (reach_loop s)
  show ?case by (rule wake_inv_loop_step[OF reach_loop.IH assms(2)])
next
  case (reach_notify s d)
  have other: "c \<in> set (remove1 d (ls_pending s)) \<longleftrightarrow> c \<in> set (ls_pending s)" if "wired c" "\<not> wired d" for c
    using that by (metis in_set_remove1)
  show ?case
    using reach_notify.IH other
    by (cases "wired d") (auto simp: wake_inv_def covered_def defer_notify_def sem_notify_def)
qed (auto simp: wake_inv_def covered_def defer_enqueue_def destroy_flag_def destroy_interrupt_def
      destroy_notify_def sem_notify_def)

lemma asleep_covers_nothing:
  assumes "wake_inv wired s" and "sem_asleep (ls_semaphore s)" and "ls_pending s = []" and "wired d"
  shows "ls_queues s d = []"
proof -
  have "\<not> covered d s" using assms(1-3) by (simp add: wake_inv_def covered_def)
  then show ?thesis using assms(1,4) by (auto simp: wake_inv_def)
qed

text \<open>A log event of the stage while its loop is asleep.\<close>

definition loop_asleep :: "'e loop_state" where
  "loop_asleep = loop_step stage_order (loop_step stage_order loop_start)"

definition deferred_asleep :: "dispatcher_name \<Rightarrow> 'e \<Rightarrow> 'e loop_state" where
  "deferred_asleep d e = defer_notify stage_wired d (defer_enqueue d e loop_asleep)"

lemma deferred_asleep_reachable: "loop_reachable stage_wired stage_order (deferred_asleep d e)"
  unfolding deferred_asleep_def loop_asleep_def
  by (intro reach_notify reach_enqueue reach_loop reach_start) (simp add: defer_enqueue_def)

lemma loop_asleep_simps [simp]:
  "ls_queues loop_asleep = (\<lambda>_. [])" "ls_pending loop_asleep = []" "sem_asleep (ls_semaphore loop_asleep)"
  by (simp_all add: loop_asleep_def loop_step_def loop_start_def semaphore_new_def sem_wait_turn_def)

lemma deferred_asleep_simps [simp]:
  "ls_queues (deferred_asleep d e) d = [e]" "ls_pending (deferred_asleep d e) = []"
  "sem_asleep (ls_semaphore (deferred_asleep d e)) \<longleftrightarrow> \<not> stage_wired d"
  by (simp_all add: deferred_asleep_def defer_notify_def defer_enqueue_def sem_notify_def)

text \<open>
  C6. A dispatcher of the stage has a wake condition if and only if, whenever its event loop is asleep and no call of
  \<open>defer\<close> is under way, no event is waiting in it: for the dispatchers that are wired no wake-up is ever
  lost, however the threads interleave, and events of the other two, the log events and the
  compute events, can wait without bound.
\<close>

theorem wired_iff_no_lost_wakeup:
  "stage_wired d \<longleftrightarrow>
     (\<forall>s :: 'e loop_state. loop_reachable stage_wired stage_order s \<longrightarrow> sem_asleep (ls_semaphore s) \<longrightarrow>
        ls_pending s = [] \<longrightarrow> ls_queues s d = [])"
proof
  assume "stage_wired d"
  then show "\<forall>s :: 'e loop_state. loop_reachable stage_wired stage_order s \<longrightarrow> sem_asleep (ls_semaphore s) \<longrightarrow>
        ls_pending s = [] \<longrightarrow> ls_queues s d = []"
    using asleep_covers_nothing[OF wake_inv_reachable[OF _ all_in_stage_order]] by blast
next
  assume all: "\<forall>s :: 'e loop_state. loop_reachable stage_wired stage_order s \<longrightarrow> sem_asleep (ls_semaphore s) \<longrightarrow>
        ls_pending s = [] \<longrightarrow> ls_queues s d = []"
  show "stage_wired d"
  proof (rule ccontr)
    assume "\<not> stage_wired d"
    then have "ls_queues (deferred_asleep d (undefined :: 'e)) d = []"
      using all[rule_format, OF deferred_asleep_reachable[of d "undefined :: 'e"]] by simp
    then show False by simp
  qed
qed

theorem wired_iff_no_lost_wakeup_witness:
  "ls_queues (loop_asleep :: nat loop_state) HierarchyEvents = [] \<and> ls_queues (deferred_asleep LogEvents (7 :: nat)) LogEvents = [7]"
proof -
  have "loop_reachable stage_wired stage_order (loop_asleep :: nat loop_state)"
    unfolding loop_asleep_def by (intro reach_loop reach_start)
  moreover have "stage_wired HierarchyEvents" by (simp add: stage_wired_iff)
  ultimately have "ls_queues (loop_asleep :: nat loop_state) HierarchyEvents = []"
    using wired_iff_no_lost_wakeup[of HierarchyEvents, where 'e = nat] by simp
  then show ?thesis by simp
qed

section \<open>The loop ends\<close>

text \<open>The events that are queued, and the steps that are left when the stage is being destroyed.\<close>

definition queued :: "'e loop_state \<Rightarrow> nat" where
  "queued s = sum_list (map (length \<circ> ls_queues s)
     [SessionEvents, SessionSync, SessionRouter, ComputeEvents, HierarchyEvents, HierarchySync, HierarchyRouter, LogEvents])"

lemma queued_dequeue:
  "ls_queues s d = e # es \<Longrightarrow> queued (s\<lparr>ls_queues := (ls_queues s)(d := es), ls_processed := p\<rparr>) < queued s"
  by (cases d) (simp_all add: queued_def)

lemma queued_other [simp]:
  "queued (s\<lparr>ls_pc := pc\<rparr>) = queued s" "queued (s\<lparr>ls_semaphore := x\<rparr>) = queued s" "queued (s\<lparr>ls_semaphore := x, ls_pc := pc\<rparr>) = queued s"
  by (simp_all add: queued_def)

fun exit_bound :: "'e loop_state \<Rightarrow> loop_pc \<Rightarrow> nat" where
  "exit_bound s (Draining ds) = queued s + length ds + 2"
| "exit_bound s AtWait = 2"
| "exit_bound s Exited = 0"
| "exit_bound s _ = 1"

definition leaves :: "'e loop_state \<Rightarrow> bool" where
  "leaves s \<longleftrightarrow> ls_destroyed s \<and> ls_interrupted s \<and>
     (ls_pc s = AtWait \<longrightarrow> 0 < sem_count (ls_semaphore s) \<and> \<not> sem_asleep (ls_semaphore s))"

lemma leaves_step:
  assumes "leaves s" and "ls_pc s \<noteq> Exited"
  shows "leaves (loop_step order s) \<and> exit_bound (loop_step order s) (ls_pc (loop_step order s)) < exit_bound s (ls_pc s)"
proof (cases "ls_pc s")
  case (Draining ds)
  show ?thesis
  proof (cases ds)
    case (Cons d ds')
    then show ?thesis
      using assms Draining
      by (cases "ls_queues s d") (auto simp: loop_step_def leaves_def queued_dequeue)
  qed (use assms Draining in \<open>simp add: loop_step_def leaves_def\<close>)
qed (use assms in \<open>auto simp: loop_step_def leaves_def sem_wait_turn_def\<close>)

lemma leaves_within:
  assumes "leaves s"
  shows "\<exists>n \<le> exit_bound s (ls_pc s). ls_pc ((loop_step order ^^ n) s) = Exited"
  using assms
proof (induction "exit_bound s (ls_pc s)" arbitrary: s rule: less_induct)
  case less
  show ?case
  proof (cases "ls_pc s = Exited")
    case False
    note step = leaves_step[OF less.prems False, of order]
    from less.hyps[OF step[THEN conjunct2] step[THEN conjunct1]]
    obtain n where "n \<le> exit_bound (loop_step order s) (ls_pc (loop_step order s))"
      "ls_pc ((loop_step order ^^ n) (loop_step order s)) = Exited" by blast
    then show ?thesis using step by (intro exI[of _ "Suc n"]) (simp add: funpow_swap1)
  qed (auto intro: exI[of _ 0])
qed

definition in_round :: "'e loop_state \<Rightarrow> bool" where
  "in_round s \<longleftrightarrow> (\<exists>ds. ls_pc s = Draining ds)"

lemma leaves_outside_step:
  assumes "leaves s" and "\<not> in_round s"
  shows "leaves (loop_step order s) \<and> \<not> in_round (loop_step order s) \<and> ls_processed (loop_step order s) = ls_processed s"
  using assms by (cases "ls_pc s") (auto simp: loop_step_def leaves_def in_round_def sem_wait_turn_def)

lemma leaves_outside_round:
  assumes "leaves s" and "\<not> in_round s"
  shows "leaves ((loop_step order ^^ n) s) \<and> \<not> in_round ((loop_step order ^^ n) s) \<and>
    ls_processed ((loop_step order ^^ n) s) = ls_processed s"
  by (induction n) (use assms leaves_outside_step in auto)

lemma leaves_notified:
  assumes "wake_inv wired s" and "ls_interrupted s"
  shows "leaves (destroy_notify s)"
  using assms by (auto simp: leaves_def destroy_notify_def sem_notify_def wake_inv_def)

text \<open>
  C8. \<open>destroy\<close> ends the event loop: once it has notified the semaphore, the thread of the loop ends within the
  steps of the round it is in, and outside of a round without processing another event, wherever it was.
\<close>

theorem destroy_ends_loop:
  assumes "loop_reachable stage_wired stage_order s" and "ls_interrupted s"
  shows "(\<exists>n \<le> exit_bound (destroy_notify s) (ls_pc s). ls_pc ((loop_step stage_order ^^ n) (destroy_notify s)) = Exited) \<and>
    (\<not> in_round s \<longrightarrow> ls_processed ((loop_step stage_order ^^ m) (destroy_notify s)) = ls_processed s)"
proof -
  have l: "leaves (destroy_notify s)"
    by (rule leaves_notified[OF wake_inv_reachable[OF assms(1) all_in_stage_order] assms(2)])
  have [simp]: "ls_pc (destroy_notify s) = ls_pc s" "ls_processed (destroy_notify s) = ls_processed s"
    "in_round (destroy_notify s) = in_round s"
    by (simp_all add: destroy_notify_def in_round_def)
  show ?thesis using leaves_within[OF l] leaves_outside_round[OF l] by auto
qed

definition sample_interrupted :: "nat loop_state" where
  "sample_interrupted = destroy_interrupt (destroy_flag (deferred_asleep LogEvents 7))"

theorem destroy_ends_loop_witness:
  "ls_processed ((loop_step stage_order ^^ 2) (destroy_notify sample_interrupted)) = []"
proof -
  have "loop_reachable stage_wired stage_order sample_interrupted"
    unfolding sample_interrupted_def
    by (intro reach_interrupt reach_flag deferred_asleep_reachable) (simp add: destroy_flag_def)
  moreover have "ls_interrupted sample_interrupted" "\<not> in_round sample_interrupted" "ls_processed sample_interrupted = []"
    by (simp_all add: sample_interrupted_def destroy_interrupt_def destroy_flag_def in_round_def deferred_asleep_def
        defer_notify_def defer_enqueue_def loop_asleep_def loop_step_def loop_start_def semaphore_new_def sem_wait_turn_def)
  ultimately show ?thesis using destroy_ends_loop by metis
qed

end
