(* ===== verification/Zst_Rest.thy ===== *)
theory Zst_Rest
  imports Zst_Rounds Zst_Wakeup
begin

text \<open>
  The event loop of the stage (\<open>ZstStage::event_loop\<close>, \<open>src/src/server/ZstStage.cpp\<close>) over the real state of the
  stage: \<open>Zst_Wakeup\<close> has the semaphore the loop waits for, \<open>Zst_Stage\<close> what a round of \<open>process_events\<close> does.
  The handlers of events defer further events, so that a round wakes the loop again; here is why it comes to rest.
\<close>

section \<open>What a round leaves in the queues\<close>

text \<open>
  The queues of the stage that its handlers defer to: the events of the hierarchy and of its module, of the session
  and of its module, and the compute events. Nothing is ever deferred to the routers. What the handlers log is
  left out: log events wake nothing.
\<close>

definition drained :: "stage \<Rightarrow> bool" where
  "drained s \<longleftrightarrow> m_events (m_hierarchy_events s) = [] \<and> m_events (h_queue s) = [] \<and>
     m_events (m_session_events s) = [] \<and> m_events (m_compute_events s) = [] \<and> m_events (s_queue s) = []"

lemma process_events_empties:
  assumes "process_events get upd alive run complete n s = Some s'" and "\<And>f s. get (upd f s) = f (get s)"
  shows "m_events (get s') = []"
  using assms(1)
proof (induction n arbitrary: s)
  case 0
  then show ?case by (subst (asm) process_events.simps) (auto simp: assms(2) split: list.splits)
next
  case (Suc n)
  then show ?case by (subst (asm) (2) process_events.simps) (auto simp: assms(2) split: list.splits)
qed

lemma process_events_idle:
  "m_events (get s) = [] \<Longrightarrow> process_events get upd alive run complete n s = Some (upd (m_has_event_update (\<lambda>_. False)) s)"
  by (subst process_events.simps) simp

lemma compute_events_more: "hierarchy.more s' = hierarchy.more s \<Longrightarrow> m_compute_events s' = m_compute_events s"
  by (cases s; cases s'; simp)

text \<open>The queues of the session, which the hierarchy does not touch, and those of the hierarchy.\<close>

definition session_queues ::
  "stage \<Rightarrow> (adaptor, session_event) dispatcher \<times> (adaptor, compute_event) dispatcher \<times> (adaptor, sync_ref \<times> instance_id) dispatcher" where
  "session_queues s = (m_session_events s, m_compute_events s, s_queue s)"

definition hierarchy_queues :: "stage \<Rightarrow> (adaptor, hierarchy_event) dispatcher \<times> (adaptor, ref \<times> instance_id) dispatcher" where
  "hierarchy_queues s = (m_hierarchy_events s, h_queue s)"

lemma session_queues_more: "hierarchy.more s' = hierarchy.more s \<Longrightarrow> session_queues s' = session_queues s"
  using more_session [of s' s] compute_events_more [of s' s] by (simp add: session_queues_def s_queue_def)

lemma hierarchy_phase:
  assumes "stage_hierarchy_process_events ft n s = Some s'"
  shows "m_events (m_hierarchy_events s') = []" and "m_events (h_queue s') = []"
    and "m_events (m_hierarchy_events s) = [] \<Longrightarrow> session_queues s' = session_queues s"
proof -
  obtain t where t: "stage_process_hierarchy_events ft n s = Some t"
      "hierarchy_process_sync_events stage_virtuals n t = Some s'"
    using assms by (auto simp: stage_hierarchy_process_events_def bind_eq_Some_conv)
  have "m_events (m_hierarchy_events t) = []"
    using t(1) unfolding stage_process_hierarchy_events_def by (rule process_events_empties) (simp add: upd_hierarchy_events_def)
  then show "m_events (m_hierarchy_events s') = []" using hierarchy_sync_quiet [OF t(2)] by simp
  obtain u where u: "process_events (\<lambda>h. m_module_events (h_module h)) upd_module_events (\<lambda>_. True)
        (run_module_event stage_virtuals) (\<lambda>_ _ h. h) n t = Some u"
      "s' = (reap_all stage_virtuals u)\<lparr>h_module := (h_module (reap_all stage_virtuals u))\<lparr>m_dead_syncronisable_IDS := {}\<rparr>\<rparr>"
    using t(2) by (auto simp: hierarchy_process_sync_events_def Let_def split: option.splits)
  have "m_events (h_queue u) = []"
    using process_events_empties [OF u(1)] by (simp add: upd_module_events_def h_queue_def)
  moreover have "h_queue (fold (reap_entity stage_virtuals) cs g) = h_queue g" for cs and g :: stage
    by (rule fold_frame) simp
  then have "h_queue (reap_all stage_virtuals u) = h_queue u" by (simp add: reap_all_def) (simp add: h_queue_def)
  ultimately show "m_events (h_queue s') = []" by (simp add: u(2) h_queue_def)
  assume "m_events (m_hierarchy_events s) = []"
  then have idle: "process_events m_hierarchy_events upd_hierarchy_events (\<lambda>_. True) (run_hierarchy_event ft) (\<lambda>_ _ s. s) n s =
      Some (upd_hierarchy_events (m_has_event_update (\<lambda>_. False)) s)" by (rule process_events_idle)
  have "t = upd_hierarchy_events (m_has_event_update (\<lambda>_. False)) s"
    using t(1) unfolding stage_process_hierarchy_events_def idle by (rule option.inject [THEN iffD1, symmetric])
  then have "hierarchy.more t = hierarchy.more s" by (simp add: upd_hierarchy_events_def)
  with stage_tree.process_sync_more [OF t(2)] show "session_queues s' = session_queues s" by (intro session_queues_more) simp
qed

lemma session_own_phase:
  assumes "session_process_own_events stage_virtuals proxy_compute n s = Some s'"
  shows "m_events (m_session_events s') = []" and "m_events (m_compute_events s') = []" and "hierarchy_queues s' = hierarchy_queues s"
proof -
  obtain t where t: "process_events m_session_events upd_session_events (\<lambda>_. True) (\<lambda>_ _ s. (s, True)) (\<lambda>_ _ s. s) n s = Some t"
      "process_events m_compute_events upd_compute_events (\<lambda>_. True) (run_compute_event stage_virtuals proxy_compute) (\<lambda>_ _ s. s) n t = Some s'"
    using assms by (auto simp: session_process_own_events_def bind_eq_Some_conv)
  have compute: "fst (run_compute_event stage_virtuals proxy_compute e a u) = u" for e a and u :: stage
    by (simp add: run_compute_event_def proxy_compute_def split: compute_event.split option.split)
  have frame: "hierarchy_queues (upd_session_events f u) = hierarchy_queues u" "hierarchy_queues (upd_compute_events g u) = hierarchy_queues u"
      "m_session_events (upd_compute_events g u) = m_session_events u" for f g u
    by (simp_all add: hierarchy_queues_def upd_session_events_def upd_compute_events_def h_queue_def)
  have "m_events (m_session_events t) = []" using t(1) by (rule process_events_empties) (simp add: upd_session_events_def)
  moreover have "m_session_events s' = m_session_events t"
    by (rule process_events_invariant [OF t(2), where I = "\<lambda>u. m_session_events u = m_session_events t"]) (simp_all add: frame compute)
  ultimately show "m_events (m_session_events s') = []" by simp
  show "m_events (m_compute_events s') = []" using t(2) by (rule process_events_empties) (simp add: upd_compute_events_def)
  have "hierarchy_queues t = hierarchy_queues s"
    by (rule process_events_invariant [OF t(1), where I = "\<lambda>u. hierarchy_queues u = hierarchy_queues s"]) (simp_all add: frame)
  moreover have "hierarchy_queues s' = hierarchy_queues t"
    by (rule process_events_invariant [OF t(2), where I = "\<lambda>u. hierarchy_queues u = hierarchy_queues t"]) (simp_all add: frame compute)
  ultimately show "hierarchy_queues s' = hierarchy_queues s" by simp
qed

text \<open>What the module of the session runs and reaps defers nothing to any other queue.\<close>

definition other_queues :: "stage \<Rightarrow> ((adaptor, hierarchy_event) dispatcher \<times> (adaptor, ref \<times> instance_id) dispatcher) \<times>
    (adaptor, session_event) dispatcher \<times> (adaptor, compute_event) dispatcher" where
  "other_queues s = (hierarchy_queues s, m_session_events s, m_compute_events s)"

lemma other_queues_frame [simp]:
  "other_queues (upd_cable c f s) = other_queues s" "other_queues (session_on_synchronisable_destroyed p b s) = other_queues s"
  "other_queues (upd_s_module_events g s) = other_queues s" "other_queues (reap_cable c s) = other_queues s"
  "other_queues (s\<lparr>s_module := m\<rparr>) = other_queues s"
  by (simp_all add: other_queues_def hierarchy_queues_def h_queue_def upd_cable_def session_on_synchronisable_destroyed_def
      upd_s_module_events_def reap_cable_def split: sync_ref.split option.split)

lemma other_queues_entity [simp]:
  "other_queues (entity_process_events stage_virtuals r s) = other_queues s"
  "other_queues (delete_entity stage_virtuals r s) = other_queues s"
proof -
  have "hierarchy.more (entity_process_events stage_virtuals r s) = hierarchy.more s"
    by (rule preserves_more) (rule stage_tree.entity_process_ok)
  then show "other_queues (entity_process_events stage_virtuals r s) = other_queues s"
    using session_queues_more [of "entity_process_events stage_virtuals r s" s]
    by (simp add: other_queues_def hierarchy_queues_def session_queues_def)
  have "m_hierarchy_events (fold (entity_deactivate stage_virtuals) rs g) = m_hierarchy_events g" for rs and g :: stage
    by (rule fold_frame) (simp add: entity_deactivate_def)
  then have "m_hierarchy_events (delete_entity stage_virtuals r s) = m_hierarchy_events s"
    by (simp add: delete_entity_def dispatch_destroyed_def Let_def)
  then show "other_queues (delete_entity stage_virtuals r s) = other_queues s"
    using session_queues_more [OF stage_tree.delete_entity_more, of r s]
    by (simp add: other_queues_def hierarchy_queues_def session_queues_def)
qed

lemma other_queues_module_event [simp]:
  "other_queues (fst (run_session_module_event stage_virtuals e a s)) = other_queues s"
proof -
  have "other_queues (process_event (\<lambda>_. True) (run_cable_event c) (\<lambda>_ _ s. s) as ev t) = other_queues t" for c as ev t
    by (rule process_event_invariant [where I = "\<lambda>u. other_queues u = other_queues t"]) (simp_all add: run_cable_event_def Let_def)
  then have "other_queues (fold (process_event (\<lambda>_. True) (run_cable_event c) (\<lambda>_ _ s. s) as) es t) = other_queues t" for c as es t
    by (rule fold_frame)
  then have "other_queues (cable_process_events c s) = other_queues s" for c
    by (simp add: cable_process_events_def Let_def split: option.split)
  then show ?thesis by (simp add: run_session_module_event_def split: sync_ref.split)
qed

lemma reaper_queues:
  "other_queues (session_reap_all stage_virtuals s) = other_queues s" "s_queue (session_reap_all stage_virtuals s) = s_queue s"
proof -
  have queue: "s_queue (reap_cable c t) = s_queue t" "s_queue (delete_entity stage_virtuals r t) = s_queue t" for c r and t :: stage
    using s_queue_more [OF stage_tree.delete_entity_more, of r t] by (simp_all add: s_queue_def reap_cable_def split: option.split)
  have reaps: "I (session_reap_all stage_virtuals s)"
    if "\<And>t m. I t \<Longrightarrow> m_module_events m = m_module_events (s_module t) \<Longrightarrow> I (t\<lparr>s_module := m\<rparr>)"
      and "\<And>t c. I t \<Longrightarrow> I (reap_cable c t)" and "\<And>t r. I t \<Longrightarrow> I (delete_entity stage_virtuals r t)" and "I s" for I
  proof -
    have "I (fold reap_cable cs t)" if "I t" for cs t
      using that \<open>\<And>t c. I t \<Longrightarrow> I (reap_cable c t)\<close> by (induction cs arbitrary: t) auto
    moreover have "I (fold (\<lambda>p s. case p of EntityRef r \<Rightarrow> delete_entity stage_virtuals r s | CableRef _ \<Rightarrow> s) ps t)" if "I t" for ps t
      using that \<open>\<And>t r. I t \<Longrightarrow> I (delete_entity stage_virtuals r t)\<close>
      by (induction ps arbitrary: t) (auto split: sync_ref.split)
    ultimately show ?thesis using that(1,4) by (simp add: session_reap_all_def Let_def)
  qed
  show "other_queues (session_reap_all stage_virtuals s) = other_queues s"
    by (rule reaps [where I = "\<lambda>t. other_queues t = other_queues s"]) simp_all
  show "s_queue (session_reap_all stage_virtuals s) = s_queue s"
    by (rule reaps [where I = "\<lambda>t. s_queue t = s_queue s"]) (simp_all add: queue, simp add: s_queue_def)
qed

lemma session_sync_phase:
  assumes "session_process_sync_events stage_virtuals n s = Some s'"
  shows "m_events (s_queue s') = []" and "other_queues s' = other_queues s"
proof -
  obtain t where t: "process_events (\<lambda>s. m_module_events (s_module s)) upd_s_module_events (\<lambda>_. True)
        (run_session_module_event stage_virtuals) (\<lambda>_ _ s. s) n s = Some t"
    and s': "s' = (session_reap_all stage_virtuals t)
      \<lparr>s_module := (s_module (session_reap_all stage_virtuals t))\<lparr>m_dead_syncronisable_IDS := {}\<rparr>\<rparr>"
    using assms by (auto simp: session_process_sync_events_def Let_def split: option.splits)
  have "m_events (s_queue t) = []"
    using process_events_empties [OF t] by (simp add: upd_s_module_events_def s_queue_def)
  moreover have "s_queue s' = s_queue (session_reap_all stage_virtuals t)" by (simp add: s' s_queue_def)
  ultimately show "m_events (s_queue s') = []" by (simp add: reaper_queues)
  have "other_queues t = other_queues s"
    by (rule process_events_invariant [OF t, where I = "\<lambda>u. other_queues u = other_queues s"]) simp_all
  then show "other_queues s' = other_queues s" by (simp add: s' reaper_queues)
qed

text \<open>A round drains everything, also what its own handlers defer: they defer only to what is drained later.\<close>

lemma round_drains:
  assumes "stage_process_events ft proxy_compute n s = Some s'"
  shows "drained s'"
proof -
  obtain t u v where st: "stage_hierarchy_process_events ft n s = Some t"
      "session_process_own_events stage_virtuals proxy_compute n t = Some u"
      "session_process_sync_events stage_virtuals n u = Some v" "stage_hierarchy_process_events ft n v = Some s'"
    using assms unfolding stage_process_events_def bind_eq_Some_conv by (elim exE conjE) (rule that; assumption)
  note h1 = hierarchy_phase [OF st(1)] and own = session_own_phase [OF st(2)] and sync = session_sync_phase [OF st(3)]
    and h2 = hierarchy_phase [OF st(4)]
  have "m_events (m_hierarchy_events v) = []"
    using h1(1) own(3) sync(2) by (simp add: other_queues_def hierarchy_queues_def)
  from h2(3) [OF this] have "session_queues s' = session_queues v" .
  then show ?thesis
    using h2(1,2) own(1,2) sync by (simp add: drained_def session_queues_def other_queues_def)
qed

section \<open>The loop\<close>

text \<open>
  A turn of the loop while no other thread acts and the stage is not being destroyed: \<open>wait\<close> returns and a round is
  run, whose handlers defer events to dispatchers that notify the semaphore, \<open>k\<close> times. Where nothing is queued no
  handler runs: then there is nothing that could notify (\<open>drained_round\<close>).
\<close>

inductive loop_turn :: "float_text \<Rightarrow> stage \<times> ZstSemaphore \<Rightarrow> stage \<times> ZstSemaphore \<Rightarrow> bool" for ft where
  loop_turns: "sem_wait_turn x = (y, True) \<Longrightarrow> stage_process_events ft proxy_compute n s = Some s' \<Longrightarrow> (drained s \<longrightarrow> k = 0) \<Longrightarrow>
    loop_turn ft (s, x) (s', (sem_notify ^^ k) y)"

inductive_cases loop_turnE: "loop_turn ft (s, x) (s', x')"

text \<open>A round that finds nothing queued stays so in each of its four parts, also while it reaps.\<close>

lemma drained_round:
  assumes "drained s" and "stage_hierarchy_process_events ft n s = Some t"
    and "session_process_own_events stage_virtuals proxy_compute n t = Some u"
    and "session_process_sync_events stage_virtuals n u = Some v"
  shows "drained t \<and> drained u \<and> drained v"
proof -
  have t: "drained t" using hierarchy_phase [OF assms(2)] assms(1) by (simp add: drained_def session_queues_def)
  have own: "process_events m_session_events upd_session_events (\<lambda>_. True) (\<lambda>_ _ s. (s, True)) (\<lambda>_ _ s. s) n t =
      Some (upd_session_events (m_has_event_update (\<lambda>_. False)) t)"
    using t by (intro process_events_idle) (simp add: drained_def)
  have "s_queue u = s_queue t"
    using assms(3) t
    by (auto simp: session_process_own_events_def own process_events_idle drained_def upd_session_events_def upd_compute_events_def
        s_queue_def simp del: process_events.simps)
  then have u: "drained u" using session_own_phase [OF assms(3)] t by (simp add: drained_def hierarchy_queues_def)
  have "drained v" using session_sync_phase [OF assms(4)] u by (simp add: drained_def other_queues_def hierarchy_queues_def)
  with t u show ?thesis by simp
qed

lemma notified [simp]: "sem_count ((sem_notify ^^ k) x) = sem_count x + int k"
  by (induction k) (simp_all add: sem_notify_def)

lemma turn_result:
  assumes "loop_turn ft (s, x) (s', x')"
  shows "drained s'" and "drained s \<Longrightarrow> sem_count x' = sem_count x - 1" and "sem_count x \<noteq> 0" and "sem_count x - 1 \<le> sem_count x'"
  using assms
  by (elim loop_turnE; auto simp: sem_wait_turn_def round_drains split: if_splits)+

lemma turn_exists:
  assumes "sem_count x \<noteq> 0"
  shows "\<exists>y. loop_turn ft (s, x) y"
proof -
  obtain n s' where "stage_process_events ft proxy_compute n s = Some s'" using stage_round_runs by blast
  with loop_turns [of x _ ft n s s' 0] show ?thesis using assms by (auto simp: sem_wait_turn_def)
qed

lemma turns_result:
  assumes "(loop_turn ft ^^ m) (s, x) (s', x')" and "drained s" and "0 \<le> sem_count x"
  shows "drained s' \<and> sem_count x' = sem_count x - int m \<and> 0 \<le> sem_count x'"
  using assms(1)
proof (induction m arbitrary: s' x')
  case (Suc m)
  then obtain t y where t: "(loop_turn ft ^^ m) (s, x) (t, y)" "loop_turn ft (t, y) (s', x')" by auto
  from Suc.IH [OF t(1)] turn_result [OF t(2)] show ?case by auto
qed (use assms(2,3) in simp)

text \<open>
  C7. The event loop of the stage comes to rest, although the handlers of events defer further events, each of which
  wakes it again. When its semaphore has been notified the loop takes a turn: whatever is queued, the round
  ends and leaves no event in any queue of the hierarchy and the session, and this includes what their handlers
  defer in that round. While no other thread acts it then takes exactly as many turns as there are notifications left
  and falls asleep, with the queues still empty. The queues may hold anything at the start, in any order, so
  that the order in which the concurrent queue gives out the events of different threads is of no importance.
\<close>

theorem stage_loop_comes_to_rest:
  assumes "0 < sem_count x"
  shows "(\<exists>y. loop_turn ft (s, x) y) \<and>
    (\<forall>s1 x1 m s2 x2. loop_turn ft (s, x) (s1, x1) \<longrightarrow> (loop_turn ft ^^ m) (s1, x1) (s2, x2) \<longrightarrow>
       drained s2 \<and> sem_count x2 = sem_count x1 - int m \<and> 0 \<le> sem_count x2 \<and>
       (if sem_count x2 = 0 then sem_wait_turn x2 = (x2\<lparr>sem_asleep := True\<rparr>, False)
        else \<exists>y. loop_turn ft (s2, x2) y))"
proof -
  have "drained s2 \<and> sem_count x2 = sem_count x1 - int m \<and> 0 \<le> sem_count x2"
    if "loop_turn ft (s, x) (s1, x1)" "(loop_turn ft ^^ m) (s1, x1) (s2, x2)" for s1 x1 m s2 x2
    using turns_result [OF that(2) turn_result(1) [OF that(1)]] turn_result(4) [OF that(1)] assms by simp
  then show ?thesis using assms turn_exists by (fastforce simp: sem_wait_turn_def)
qed

text \<open>A stage that has been told to announce that an entity leaves.\<close>

definition leaving_sample :: stage where
  "leaving_sample = hierarchy_defer (HE_EntityLeaving (uri_of ''ada/a'')) (fst (create_client_handler False (join_message ''ada'' 1)
     \<lparr>ed_URI = ''ada'', ed_owner = None\<rparr> None None None stage_new))"

theorem stage_loop_comes_to_rest_witness:
  "\<exists>s x. loop_turn no_floats (leaving_sample, sem_notify semaphore_new) (s, x) \<and> drained s \<and>
     m_events (m_hierarchy_events leaving_sample) \<noteq> []"
proof -
  have count: "0 < sem_count (sem_notify semaphore_new)" by (simp add: sem_notify_def semaphore_new_def)
  note r = stage_loop_comes_to_rest [OF count, of no_floats leaving_sample]
  then obtain s x where "loop_turn no_floats (leaving_sample, sem_notify semaphore_new) (s, x)" by auto
  moreover from this r have "drained s" by (metis relpowp_0_I)
  moreover have "m_events (m_hierarchy_events leaving_sample) \<noteq> []"
    by (simp add: leaving_sample_def hierarchy_defer_def defer_event_def)
  ultimately show ?thesis by blast
qed

end
