(* ===== verification/Zst_Transport.thy ===== *)
theory Zst_Transport
  imports Zst_Message
begin

text \<open>
  The transport of stage messages: \<open>ZstTransportLayer\<close> (\<open>src/src/core/transports/ZstTransportLayerBase.hpp\<close>)
  with the message pool and \<open>ZstMessageSupervisor\<close> (\<open>src/src/core\<close>), \<open>ZstStageTransport\<close>, and the frames
  of the router socket (\<open>src/src/server/ZstZMQServerTransport.cpp\<close>, \<open>src/src/client/ZstZMQClientTransport.cpp\<close>).

  Messages are objects behind pointers, kept in a map. A request blocks a thread until its promise has a
  value or the time is up: a call of \<open>blocking_send\<close> is split at the wait into \<open>blocking_send_begin\<close> and
  \<open>blocking_send_end\<close>, and in between it is listed in \<open>t_blocked\<close>. The calls into other modules are
  recorded: \<open>t_delivered\<close> are the messages given to adaptors, \<open>t_responses\<close> the response callbacks with the
  message they saw, \<open>t_outgoing\<close> what was handed to the socket and \<open>t_freed\<close> the frames that the
  completion callbacks destroyed.
\<close>

section \<open>Messages\<close>

type_synonym msg_ref = nat
type_synonym frame = nat

record 'b message_object =
  mo_origin :: uuid
  mo_id :: uuid
  mo_buffer :: "'b option"
  mo_owning_transport :: "transport option"
  m_response :: bool

definition message_new :: "'b message_object" where
  "message_new = \<lparr>mo_origin = 0, mo_id = 0, mo_buffer = None, mo_owning_transport = None, m_response = False\<rparr>"

definition message_reset :: "'b message_object \<Rightarrow> 'b message_object" where
  "message_reset m = m\<lparr>mo_origin := 0, mo_buffer := None, mo_owning_transport := None\<rparr>"

definition message_init :: "'b \<Rightarrow> uuid \<Rightarrow> uuid \<Rightarrow> transport \<Rightarrow> 'b message_object \<Rightarrow> 'b message_object" where
  "message_init buffer origin msg_id owner m =
     (message_reset m)\<lparr>mo_buffer := Some buffer, mo_id := msg_id, mo_origin := origin, mo_owning_transport := Some owner\<rparr>"

definition set_has_promise :: "'b message_object \<Rightarrow> 'b message_object" where
  "set_has_promise m = m\<lparr>m_response := True\<rparr>"

text \<open>What a callback reads of a message; a message that was reset has no buffer to read.\<close>

definition message_view :: "message_content message_object \<Rightarrow> ZstStageMessage option" where
  "message_view m =
     (case (mo_buffer m, mo_owning_transport m) of
        (Some b, Some t) \<Rightarrow>
          Some \<lparr>m_origin_UUID = mo_origin m, m_id = mo_id m, m_owning_transport = t, m_buffer = b\<rparr>
      | _ \<Rightarrow> None)"

section \<open>The state of a transport\<close>

record promise =
  pr_future_taken :: bool
  pr_value :: "msg_ref option"

record response =
  rs_id :: uuid
  rs_action :: response_action
  rs_message :: "ZstStageMessage option option"
    \<comment> \<open>\<open>None\<close> is a null pointer, \<open>Some None\<close> a message without a buffer\<close>

record 'b transport_layer =
  t_self :: transport
  m_is_connected :: bool
  t_messages :: "msg_ref \<Rightarrow> 'b message_object option"
  t_next :: nat
  m_message_pool :: "msg_ref list"
  m_dispatch_events :: "(adaptor, msg_ref \<times> frame) dispatcher"
  m_response_promises :: "uuid \<Rightarrow> promise option"
  m_owned_messages :: "uuid \<Rightarrow> (msg_ref \<times> frame) option"
  m_dead_promises :: "uuid list"
  t_posted :: "('b \<times> ZstTransportArgs) list"
  t_blocked :: "ZstTransportArgs list"
  t_outgoing :: "('b \<times> ZstTransportArgs) list"
  t_delivered :: "(adaptor \<times> 'b message_object option) list"
  t_responses :: "response list"
  t_freed :: "frame list"

type_synonym stage_transport = "message_content transport_layer"

definition upd_message :: "msg_ref \<Rightarrow> ('b message_object \<Rightarrow> 'b message_object) \<Rightarrow> 'b transport_layer \<Rightarrow> 'b transport_layer" where
  "upd_message r f t = t\<lparr>t_messages := (t_messages t)(r := map_option f (t_messages t r))\<rparr>"

definition message_test :: "('b message_object \<Rightarrow> bool) \<Rightarrow> 'b transport_layer \<Rightarrow> msg_ref \<Rightarrow> bool" where
  "message_test P t r = (case t_messages t r of None \<Rightarrow> False | Some m \<Rightarrow> P m)"

section \<open>The pool of messages\<close>

definition MESSAGE_POOL_BLOCK :: nat where
  "MESSAGE_POOL_BLOCK = 4096"

fun populate :: "nat \<Rightarrow> 'b transport_layer \<Rightarrow> 'b transport_layer" where
  "populate 0 t = t"
| "populate (Suc n) t =
     populate n
       (t\<lparr>t_messages := (t_messages t)(t_next t \<mapsto> message_new), m_message_pool := m_message_pool t @ [t_next t],
          t_next := t_next t + 1\<rparr>)"

definition transport_new :: "transport \<Rightarrow> 'b transport_layer" where
  "transport_new self =
     populate MESSAGE_POOL_BLOCK
       \<lparr>t_self = self, m_is_connected = False, t_messages = (\<lambda>_. None), t_next = 0, m_message_pool = [],
        m_dispatch_events = dispatcher_new DefaultAdaptor, m_response_promises = (\<lambda>_. None),
        m_owned_messages = (\<lambda>_. None), m_dead_promises = [], t_posted = [], t_blocked = [], t_outgoing = [],
        t_delivered = [], t_responses = [], t_freed = []\<rparr>"

definition try_dequeue_msg :: "'b transport_layer \<Rightarrow> msg_ref option \<times> 'b transport_layer" where
  "try_dequeue_msg t =
     (case m_message_pool t of [] \<Rightarrow> (None, t) | r # rs \<Rightarrow> (Some r, t\<lparr>m_message_pool := rs\<rparr>))"

definition get_msg :: "'b transport_layer \<Rightarrow> msg_ref option \<times> 'b transport_layer" where
  "get_msg t =
     (case try_dequeue_msg t of
        (Some r, t1) \<Rightarrow> (Some r, t1)
      | (None, t1) \<Rightarrow> try_dequeue_msg (populate MESSAGE_POOL_BLOCK t1))"

definition release :: "msg_ref \<Rightarrow> 'b transport_layer \<Rightarrow> 'b transport_layer" where
  "release r t = (upd_message r message_reset t)\<lparr>m_message_pool := m_message_pool t @ [r]\<rparr>"

section \<open>The message supervisor\<close>

definition register_response :: "uuid \<Rightarrow> 'b transport_layer \<Rightarrow> zst_exn + 'b transport_layer" where
  "register_response i t =
     (let p = (case m_response_promises t i of None \<Rightarrow> \<lparr>pr_future_taken = False, pr_value = None\<rparr> | Some p \<Rightarrow> p)
      in if pr_future_taken p then Inl FutureError
         else Inr (t\<lparr>m_response_promises := (m_response_promises t)(i \<mapsto> p\<lparr>pr_future_taken := True\<rparr>)\<rparr>))"

definition enqueue_resolved_promise :: "uuid \<Rightarrow> 'b transport_layer \<Rightarrow> 'b transport_layer" where
  "enqueue_resolved_promise i t = t\<lparr>m_dead_promises := m_dead_promises t @ [i]\<rparr>"

definition remove_response_promise :: "uuid \<Rightarrow> 'b transport_layer \<Rightarrow> 'b transport_layer" where
  "remove_response_promise i t =
     (if m_response_promises t i \<noteq> None then t\<lparr>m_response_promises := (m_response_promises t)(i := None)\<rparr> else t)"

definition cleanup_response_messages :: "'b transport_layer \<Rightarrow> 'b transport_layer" where
  "cleanup_response_messages t =
     fold remove_response_promise (m_dead_promises t) (t\<lparr>m_dead_promises := []\<rparr>)"

definition take_message_ownership :: "msg_ref \<Rightarrow> frame \<Rightarrow> 'b transport_layer \<Rightarrow> 'b transport_layer" where
  "take_message_ownership r cleanup t =
     (case t_messages t r of
        None \<Rightarrow> t
      | Some m \<Rightarrow> t\<lparr>m_owned_messages := (m_owned_messages t)(mo_id m \<mapsto> (r, cleanup))\<rparr>)"

text \<open>The completion callback of a message destroys its frame.\<close>

definition on_complete :: "frame \<Rightarrow> 'b transport_layer \<Rightarrow> 'b transport_layer" where
  "on_complete f t = t\<lparr>t_freed := t_freed t @ [f]\<rparr>"

definition release_owned_message :: "msg_ref \<Rightarrow> 'b transport_layer \<Rightarrow> 'b transport_layer" where
  "release_owned_message r t =
     (case t_messages t r of
        None \<Rightarrow> t
      | Some m \<Rightarrow>
          (case m_owned_messages t (mo_id m) of
             None \<Rightarrow> t
           | Some (_, cleanup) \<Rightarrow>
               (on_complete cleanup t)\<lparr>m_owned_messages := (m_owned_messages t)(mo_id m := None)\<rparr>))"

text \<open>A promise that has a value already raises, which is caught here; the ownership is taken first.\<close>

definition process_message_response :: "msg_ref \<Rightarrow> frame \<Rightarrow> 'b transport_layer \<Rightarrow> 'b transport_layer \<times> zst_exn option" where
  "process_message_response r cleanup t =
     (case t_messages t r of
        None \<Rightarrow> (t, Some NullDereference)
      | Some m \<Rightarrow>
          (case m_response_promises t (mo_id m) of
             None \<Rightarrow> (t, Some OutOfRange)
           | Some p \<Rightarrow>
               let t1 = take_message_ownership r cleanup (upd_message r set_has_promise t)
               in (if pr_value p \<noteq> None then t1
                   else t1\<lparr>m_response_promises := (m_response_promises t1)(mo_id m \<mapsto> p\<lparr>pr_value := Some r\<rparr>)\<rparr>,
                   None)))"

section \<open>Sending\<close>

definition send_message_impl :: "'b \<Rightarrow> ZstTransportArgs \<Rightarrow> 'b transport_layer \<Rightarrow> 'b transport_layer" where
  "send_message_impl content args t = t\<lparr>t_outgoing := t_outgoing t @ [(content, args)]\<rparr>"

definition blocking_send_begin :: "'b \<Rightarrow> ZstTransportArgs \<Rightarrow> 'b transport_layer \<Rightarrow> zst_exn + 'b transport_layer" where
  "blocking_send_begin content args t =
     (case register_response (msg_ID args) t of
        Inl e \<Rightarrow> Inl e
      | Inr t1 \<Rightarrow> Inr ((send_message_impl content args t1)\<lparr>t_blocked := t_blocked t1 @ [args]\<rparr>))"

text \<open>After the wait: \<open>msg\<close> is the value of the future, or a null pointer when the time was up.\<close>

definition blocking_send_end :: "ZstTransportArgs \<Rightarrow> msg_ref option \<Rightarrow> stage_transport \<Rightarrow> stage_transport" where
  "blocking_send_end args msg t =
     (let seen = map_option (\<lambda>r. Option.bind (t_messages t r) message_view) msg;
          t1 = t\<lparr>t_blocked := remove1 args (t_blocked t),
                 t_responses := t_responses t @
                   [\<lparr>rs_id = msg_ID args, rs_action = on_recv_response args, rs_message = seen\<rparr>]\<rparr>;
          t2 = (case msg of
                  None \<Rightarrow> t1
                | Some r \<Rightarrow> if message_test m_response t1 r then release_owned_message r t1 else t1)
      in enqueue_resolved_promise (msg_ID args) t2)"

definition begin_send_message :: "'b \<Rightarrow> ZstTransportArgs \<Rightarrow> 'b transport_layer \<Rightarrow> zst_exn + 'b transport_layer" where
  "begin_send_message content args t =
     (if \<not> m_is_connected t then Inr t
      else case msg_send_behaviour args of
             ASYNC_REPLY \<Rightarrow> Inr (t\<lparr>t_posted := t_posted t @ [(content, args)]\<rparr>)
           | SYNC_REPLY \<Rightarrow> blocking_send_begin content args t
           | PUBLISH \<Rightarrow> Inr (send_message_impl content args t))"

text \<open>\<open>next_id\<close> is what the generator of random UUIDs returns.\<close>

definition stage_transport_send_msg ::
  "uuid \<Rightarrow> message_content \<Rightarrow> ZstTransportArgs \<Rightarrow> stage_transport \<Rightarrow> (zst_exn + stage_transport) \<times> Signal" where
  "stage_transport_send_msg next_id content args t =
     (begin_send_message content (args\<lparr>msg_ID := (if msg_ID args = 0 then next_id else msg_ID args)\<rparr>) t, Signal_OK)"

text \<open>
  The four threads of the pool take posted requests in order. Taking a request, registering its promise and sending it
  is one step here; \<open>Zst_Teardown\<close> has these apart, for a transport that is being closed.
\<close>

definition async_threads :: nat where
  "async_threads = 4"

definition async_busy :: "'b transport_layer \<Rightarrow> nat" where
  "async_busy t = length (filter (\<lambda>a. msg_send_behaviour a = ASYNC_REPLY) (t_blocked t))"

definition async_start :: "'b transport_layer \<Rightarrow> zst_exn + 'b transport_layer" where
  "async_start t =
     (case t_posted t of
        [] \<Rightarrow> Inr t
      | (content, args) # rest \<Rightarrow>
          if async_busy t < async_threads then blocking_send_begin content args (t\<lparr>t_posted := rest\<rparr>) else Inr t)"

section \<open>Receiving\<close>

definition upd_dispatch_events ::
  "((adaptor, msg_ref \<times> frame) dispatcher \<Rightarrow> (adaptor, msg_ref \<times> frame) dispatcher) \<Rightarrow>
   'b transport_layer \<Rightarrow> 'b transport_layer" where
  "upd_dispatch_events f t = t\<lparr>m_dispatch_events := f (m_dispatch_events t)\<rparr>"

definition dispatch_receive_event :: "msg_ref \<Rightarrow> frame \<Rightarrow> 'b transport_layer \<Rightarrow> 'b transport_layer" where
  "dispatch_receive_event r f t = upd_dispatch_events (defer_event (r, f)) t"

text \<open>
  A message that arrives at a socket: the identity of its sender (nil at a client), its id, and its
  payload, which is missing, malformed or a message in frame \<open>f\<close>. The server tells the sender of a
  malformed message at once.
\<close>

datatype payload = No_Payload | Malformed | Payload message_content

definition signal_client_direct :: "Signal \<Rightarrow> uuid \<Rightarrow> uuid \<Rightarrow> stage_transport \<Rightarrow> stage_transport" where
  "signal_client_direct signal msg_id client t =
     send_message_impl (Content_SignalMessage signal)
       (transport_args\<lparr>target_endpoint_UUID := client, msg_ID := msg_id\<rparr>) t"

definition accept_message :: "uuid \<Rightarrow> uuid \<Rightarrow> 'b \<Rightarrow> frame \<Rightarrow> 'b transport_layer \<Rightarrow> 'b transport_layer" where
  "accept_message client_uuid msg_id buffer f t =
     (case get_msg t of
        (None, t1) \<Rightarrow> t1
      | (Some r, t1) \<Rightarrow>
          dispatch_receive_event r f (upd_message r (message_init buffer client_uuid msg_id (t_self t1)) t1))"

definition server_sock_recv :: "uuid \<Rightarrow> uuid \<Rightarrow> payload \<Rightarrow> frame \<Rightarrow> stage_transport \<Rightarrow> stage_transport" where
  "server_sock_recv client_uuid msg_id p f t =
     (case p of
        No_Payload \<Rightarrow> t
      | Malformed \<Rightarrow> signal_client_direct Signal_ERR_MSG_MALFORMED msg_id client_uuid t
      | Payload b \<Rightarrow> accept_message client_uuid msg_id b f t)"

definition client_sock_recv :: "bool \<Rightarrow> uuid \<Rightarrow> payload \<Rightarrow> frame \<Rightarrow> stage_transport \<Rightarrow> stage_transport" where
  "client_sock_recv is_active msg_id p f t =
     (if \<not> is_active then t
      else case p of Payload b \<Rightarrow> accept_message 0 msg_id b f t | _ \<Rightarrow> t)"

text \<open>The deferred event: every adaptor is given the message, then it may resolve a promise.\<close>

definition run_receive_event ::
  "msg_ref \<times> frame \<Rightarrow> adaptor \<Rightarrow> 'b transport_layer \<Rightarrow> 'b transport_layer \<times> bool" where
  "run_receive_event rf a t =
     (t\<lparr>t_delivered := t_delivered t @ [(a, t_messages t (fst rf))]\<rparr>, True)"

definition complete_receive_event ::
  "msg_ref \<times> frame \<Rightarrow> ZstEventStatus \<Rightarrow> 'b transport_layer \<Rightarrow> 'b transport_layer" where
  "complete_receive_event rf status t =
     (if message_test m_response t (fst rf) then t
      else case process_message_response (fst rf) (snd rf) t of
             (t1, None) \<Rightarrow> t1
           | (t1, Some _) \<Rightarrow> release (fst rf) (on_complete (snd rf) t1))"

definition transport_process_one :: "'b transport_layer \<Rightarrow> 'b transport_layer" where
  "transport_process_one =
     process_one_event m_dispatch_events upd_dispatch_events (\<lambda>_. True) run_receive_event complete_receive_event"

definition transport_process_events :: "'b transport_layer \<Rightarrow> 'b transport_layer" where
  "transport_process_events t = transport_process_one (cleanup_response_messages t)"

end
