(* ===== verification/Zst_Requests.thy ===== *)
theory Zst_Requests
  imports Zst_Transport "HOL-Library.Multiset"
begin

text \<open>
  The threads of a transport as a transition system: the threads that send and wait, the thread of the
  socket and the event loop, in any order of their steps. The invariant says who holds which message,
  frame and request; from it follow what a response callback sees and that frames are freed once.
\<close>

section \<open>The transition system\<close>

text \<open>
  A request has an id that no other request had, which the generator of random UUIDs promises, and a frame
  that arrives is a new object.
\<close>

definition request_ids :: "stage_transport \<Rightarrow> uuid list" where
  "request_ids t = map msg_ID (t_blocked t) @ map (\<lambda>ca. msg_ID (snd ca)) (t_posted t) @ map rs_id (t_responses t)"

definition new_request :: "uuid \<Rightarrow> stage_transport \<Rightarrow> bool" where
  "new_request i t \<longleftrightarrow> i \<notin> set (request_ids t)"

definition new_frame :: "frame \<Rightarrow> stage_transport \<Rightarrow> bool" where
  "new_frame f t \<longleftrightarrow> f \<notin> set (t_freed t) \<and> f \<notin> snd ` set (m_events (m_dispatch_events t)) \<and>
     (\<forall>i r. m_owned_messages t i \<noteq> Some (r, f))"

inductive transport_step :: "stage_transport \<Rightarrow> stage_transport \<Rightarrow> bool" where
  sends: "msg_send_behaviour args = PUBLISH \<or> new_request (if msg_ID args = 0 then i else msg_ID args) t \<Longrightarrow>
    stage_transport_send_msg i content args t = (Inr t', g) \<Longrightarrow> transport_step t t'"
| pool_thread_starts: "async_start t = Inr t' \<Longrightarrow> transport_step t t'"
| server_receives: "new_frame f t \<Longrightarrow> transport_step t (server_sock_recv u i p f t)"
| client_receives: "new_frame f t \<Longrightarrow> transport_step t (client_sock_recv active i p f t)"
| promises_cleaned: "transport_step t (cleanup_response_messages t)"
| event_processed: "transport_step t (transport_process_one t)"
| response_ready: "a \<in> set (t_blocked t) \<Longrightarrow> m_response_promises t (msg_ID a) = Some p \<Longrightarrow> pr_value p = Some r \<Longrightarrow>
    transport_step t (blocking_send_end a (Some r) t)"
| request_times_out: "a \<in> set (t_blocked t) \<Longrightarrow> transport_step t (blocking_send_end a None t)"
| connection_changes: "transport_step t (t\<lparr>m_is_connected := b\<rparr>)"
| adaptor_added: "transport_step t (upd_dispatch_events (add_adaptor a) t)"

inductive transport_reachable :: "transport \<Rightarrow> stage_transport \<Rightarrow> bool" for self where
  transport_starts: "transport_reachable self (transport_new self)"
| transport_moves: "transport_reachable self t \<Longrightarrow> transport_step t t' \<Longrightarrow> transport_reachable self t'"

section \<open>The invariant\<close>

text \<open>A message that is the value of a promise or owned by the supervisor.\<close>

definition held :: "stage_transport \<Rightarrow> uuid \<Rightarrow> msg_ref \<Rightarrow> bool" where
  "held t i r \<longleftrightarrow> message_test (\<lambda>m. mo_id m = i \<and> m_response m \<and> message_view m \<noteq> None) t r"

abbreviation queue :: "stage_transport \<Rightarrow> (msg_ref \<times> frame) list" where
  "queue t \<equiv> m_events (m_dispatch_events t)"

definition messages_ok :: "stage_transport \<Rightarrow> bool" where
  "messages_ok t \<longleftrightarrow>
     distinct (m_message_pool t @ map fst (queue t)) \<and> (\<forall>r. t_next t \<le> r \<longrightarrow> t_messages t r = None) \<and>
     (\<forall>r\<in>set (m_message_pool t). message_test (\<lambda>m. \<not> m_response m) t r) \<and>
     (\<forall>e\<in>set (queue t). message_test (\<lambda>m. \<not> m_response m \<and> message_view m \<noteq> None) t (fst e)) \<and>
     (\<forall>i r f. m_owned_messages t i = Some (r, f) \<longrightarrow> held t i r) \<and>
     (\<forall>i p r. m_response_promises t i = Some p \<longrightarrow> pr_value p = Some r \<longrightarrow> held t i r)"

definition requests_ok :: "stage_transport \<Rightarrow> bool" where
  "requests_ok t \<longleftrightarrow>
     distinct (request_ids t) \<and>
     dom (m_response_promises t) \<subseteq> msg_ID ` set (t_blocked t) \<union> set (m_dead_promises t) \<and>
     set (m_dead_promises t) \<subseteq> rs_id ` set (t_responses t) \<and>
     (\<forall>a\<in>set (t_blocked t). m_response_promises t (msg_ID a) \<noteq> None) \<and>
     (\<forall>rs\<in>set (t_responses t). rs_message rs \<noteq> None \<longrightarrow> (\<exists>m. rs_message rs = Some (Some m) \<and> m_id m = rs_id rs))"

definition frames_ok :: "stage_transport \<Rightarrow> bool" where
  "frames_ok t \<longleftrightarrow>
     distinct (t_freed t @ map snd (queue t)) \<and>
     (\<forall>i r f. m_owned_messages t i = Some (r, f) \<longrightarrow> f \<notin> set (t_freed t) \<and> f \<notin> snd ` set (queue t)) \<and>
     (\<forall>i j r q f. m_owned_messages t i = Some (r, f) \<longrightarrow> m_owned_messages t j = Some (q, f) \<longrightarrow> i = j)"

definition transport_ok :: "stage_transport \<Rightarrow> bool" where
  "transport_ok t \<longleftrightarrow> messages_ok t \<and> requests_ok t \<and> frames_ok t"

lemma messages_okD:
  assumes "messages_ok t"
  shows "distinct (m_message_pool t @ map fst (queue t))" and "t_next t \<le> r \<Longrightarrow> t_messages t r = None"
    and "r \<in> set (m_message_pool t) \<Longrightarrow> message_test (\<lambda>m. \<not> m_response m) t r"
    and "e \<in> set (queue t) \<Longrightarrow> message_test (\<lambda>m. \<not> m_response m \<and> message_view m \<noteq> None) t (fst e)"
    and "m_owned_messages t i = Some (r, f) \<Longrightarrow> held t i r"
    and "m_response_promises t i = Some p \<Longrightarrow> pr_value p = Some r \<Longrightarrow> held t i r"
  using assms unfolding messages_ok_def by blast+

lemma messages_okI:
  assumes "distinct (m_message_pool t @ map fst (queue t))" and "\<And>r. t_next t \<le> r \<Longrightarrow> t_messages t r = None"
    and "\<And>r. r \<in> set (m_message_pool t) \<Longrightarrow> message_test (\<lambda>m. \<not> m_response m) t r"
    and "\<And>e. e \<in> set (queue t) \<Longrightarrow> message_test (\<lambda>m. \<not> m_response m \<and> message_view m \<noteq> None) t (fst e)"
    and "\<And>i r f. m_owned_messages t i = Some (r, f) \<Longrightarrow> held t i r"
    and "\<And>i p r. m_response_promises t i = Some p \<Longrightarrow> pr_value p = Some r \<Longrightarrow> held t i r"
  shows "messages_ok t"
  using assms unfolding messages_ok_def by blast

lemma held_cong:
  assumes "held t i r" and "t_messages t' r = t_messages t r"
  shows "held t' i r"
  using assms by (simp add: held_def message_test_def)

section \<open>The pool\<close>

lemma populate_frame [simp]:
  "m_dispatch_events (populate n t) = m_dispatch_events t" "m_response_promises (populate n t) = m_response_promises t"
  "m_owned_messages (populate n t) = m_owned_messages t" "m_dead_promises (populate n t) = m_dead_promises t"
  "t_posted (populate n t) = t_posted t" "t_blocked (populate n t) = t_blocked t" "t_responses (populate n t) = t_responses t"
  "t_freed (populate n t) = t_freed t" "t_self (populate n t) = t_self t" "t_outgoing (populate n t) = t_outgoing t"
  "m_is_connected (populate n t) = m_is_connected t" "t_delivered (populate n t) = t_delivered t"
  by (induction n arbitrary: t) simp_all

lemma populate_messages:
  "m_message_pool (populate n t) = m_message_pool t @ [t_next t ..< t_next t + n]"
  "t_next (populate n t) = t_next t + n"
  "t_messages (populate n t) = (\<lambda>r. if t_next t \<le> r \<and> r < t_next t + n then Some message_new else t_messages t r)"
proof (induction n arbitrary: t)
  case 0
  { case 1 then show ?case by simp }
  { case 2 then show ?case by simp }
  { case 3 then show ?case by (rule ext) auto }
next
  case (Suc n)
  { case 1 then show ?case using Suc(1) by (simp add: upt_rec) }
  { case 2 then show ?case using Suc(2) by simp }
  { case 3 then show ?case by (rule ext) (auto simp: Suc(3) fun_upd_def) }
qed

lemma populate_ok: "messages_ok t \<Longrightarrow> messages_ok (populate n t)"
proof -
  assume ok: "messages_ok t"
  have old: "r < t_next t" if "message_test P t r" for P r
    using that messages_okD(2) [OF ok, of r] by (cases "t_next t \<le> r") (simp_all add: message_test_def)
  have same: "message_test P (populate n t) r" if "message_test P t r" for P r
    using that old [OF that] by (simp add: message_test_def populate_messages(3))
  have new: "message_test (\<lambda>m. \<not> m_response m) (populate n t) r" if "t_next t \<le> r" "r < t_next t + n" for r
    using that by (simp add: message_test_def populate_messages message_new_def)
  have "r < t_next t" if "r \<in> set (m_message_pool t)" for r using old [OF messages_okD(3) [OF ok that]] .
  moreover have "r < t_next t" if "r \<in> set (map fst (queue t))" for r
    using old [OF messages_okD(4) [OF ok]] that by auto
  ultimately have "set [t_next t ..< t_next t + n] \<inter> set (m_message_pool t @ map fst (queue t)) = {}"
    by (simp only: set_append disjoint_iff set_upt Un_iff) (meson atLeastLessThan_iff not_le)
  then have "distinct (m_message_pool (populate n t) @ map fst (queue t))"
    using messages_okD(1) [OF ok] by (auto simp: populate_messages(1))
  note dist = this
  show ?thesis
  proof (rule messages_okI)
    show "distinct (m_message_pool (populate n t) @ map fst (queue (populate n t)))" using dist by simp
    show "t_messages (populate n t) r = None" if "t_next (populate n t) \<le> r" for r
      using that messages_okD(2) [OF ok, of r] by (simp add: populate_messages)
    show "message_test (\<lambda>m. \<not> m_response m) (populate n t) r" if "r \<in> set (m_message_pool (populate n t))" for r
      using that same [OF messages_okD(3) [OF ok]] new by (auto simp: populate_messages(1))
      show "message_test (\<lambda>m. \<not> m_response m \<and> message_view m \<noteq> None) (populate n t) (fst e)"
      if "e \<in> set (queue (populate n t))" for e
      using same [OF messages_okD(4) [OF ok]] that by simp
    show "held (populate n t) i r" if "m_owned_messages (populate n t) i = Some (r, f)" for i r f
      using same [OF messages_okD(5) [OF ok, unfolded held_def]] that by (simp add: held_def)
    show "held (populate n t) i r" if "m_response_promises (populate n t) i = Some p" "pr_value p = Some r" for i p r
      using same [OF messages_okD(6) [OF ok, unfolded held_def]] that by (simp add: held_def)
  qed
qed

lemma try_dequeue_ok:
  assumes "messages_ok t" and "m_message_pool t = r # rs"
  shows "try_dequeue_msg t = (Some r, t\<lparr>m_message_pool := rs\<rparr>)" and "messages_ok (t\<lparr>m_message_pool := rs\<rparr>)"
    and "r \<notin> set rs" and "r \<notin> fst ` set (queue t)" and "message_test (\<lambda>m. \<not> m_response m) t r"
  using assms by (auto simp: try_dequeue_msg_def messages_ok_def message_test_def held_def)

text \<open>\<open>get_msg\<close> never fails, and the message it gives out is used by nobody else.\<close>

definition same_but_pool :: "stage_transport \<Rightarrow> stage_transport \<Rightarrow> bool" where
  "same_but_pool t t' \<longleftrightarrow>
     (\<exists>ms n rs. t' = t\<lparr>t_messages := ms, t_next := n, m_message_pool := rs\<rparr> \<and>
       (\<forall>r. t_messages t r \<noteq> None \<longrightarrow> ms r = t_messages t r))"

lemma get_msg_ok:
  assumes "messages_ok t"
  shows "\<exists>r t'. get_msg t = (Some r, t') \<and> messages_ok t' \<and> r \<notin> set (m_message_pool t') \<and>
    r \<notin> fst ` set (queue t') \<and> message_test (\<lambda>m. \<not> m_response m) t' r \<and> same_but_pool t t'"
proof (cases "m_message_pool t")
  case (Cons r rs)
  note d = try_dequeue_ok [OF assms Cons]
  have "same_but_pool t (t\<lparr>m_message_pool := rs\<rparr>)"
    unfolding same_but_pool_def by (intro exI [of _ "t_messages t"] exI [of _ "t_next t"] exI [of _ rs]) simp
  then show ?thesis using d by (simp add: get_msg_def message_test_def)
next
  case Nil
  define u where "u = populate MESSAGE_POOL_BLOCK t"
  have ok: "messages_ok u" unfolding u_def by (rule populate_ok [OF assms])
  have pool: "m_message_pool u = t_next t # [Suc (t_next t) ..< t_next t + MESSAGE_POOL_BLOCK]"
    using Nil upt_conv_Cons [of "t_next t" "t_next t + MESSAGE_POOL_BLOCK"]
    by (simp add: u_def populate_messages(1) MESSAGE_POOL_BLOCK_def)
  note d = try_dequeue_ok [OF ok pool]
  have "t_next t \<le> r \<Longrightarrow> t_messages t r = None" for r using assms by (simp add: messages_ok_def)
  then have "t_messages t r \<noteq> None \<longrightarrow> t_messages u r = t_messages t r" for r
    by (auto simp: u_def populate_messages)
  moreover have "u\<lparr>m_message_pool := rs\<rparr> = t\<lparr>t_messages := t_messages u, t_next := t_next u, m_message_pool := rs\<rparr>" for rs
    by (rule transport_layer.equality) (simp_all add: u_def)
  ultimately have "same_but_pool t (u\<lparr>m_message_pool := rs\<rparr>)" for rs
    unfolding same_but_pool_def by (intro exI [of _ "t_messages u"] exI [of _ "t_next u"] exI [of _ rs]) simp
  moreover have "get_msg t = (Some (t_next t), u\<lparr>m_message_pool := [Suc (t_next t) ..< t_next t + MESSAGE_POOL_BLOCK]\<rparr>)"
    using Nil d(1) by (simp add: get_msg_def try_dequeue_msg_def u_def)
  ultimately show ?thesis using d(2-5) by (simp add: message_test_def)
qed

section \<open>Receiving keeps the invariant\<close>

lemma upd_message_frame [simp]:
  "m_dispatch_events (upd_message r g t) = m_dispatch_events t" "m_response_promises (upd_message r g t) = m_response_promises t"
  "m_owned_messages (upd_message r g t) = m_owned_messages t" "m_dead_promises (upd_message r g t) = m_dead_promises t"
  "t_posted (upd_message r g t) = t_posted t" "t_blocked (upd_message r g t) = t_blocked t"
  "t_responses (upd_message r g t) = t_responses t" "t_freed (upd_message r g t) = t_freed t"
  "m_message_pool (upd_message r g t) = m_message_pool t" "t_next (upd_message r g t) = t_next t"
  "t_self (upd_message r g t) = t_self t"
  by (simp_all add: upd_message_def)

lemma message_test_upd [simp]:
  "message_test P (upd_message r g t) q \<longleftrightarrow>
     (if q = r then message_test (\<lambda>m. P (g m)) t r else message_test P t q)"
  by (simp add: message_test_def upd_message_def split: option.split)

lemma message_test_mono: "message_test P t r \<Longrightarrow> (\<And>m. P m \<Longrightarrow> Q m) \<Longrightarrow> message_test Q t r"
  by (simp add: message_test_def split: option.splits)

lemma message_test_cong: "t_messages t' = t_messages t \<Longrightarrow> message_test P t' r = message_test P t r"
  by (simp add: message_test_def)

lemma held_upd:
  assumes "held t i q" and "message_test (\<lambda>m. \<not> m_response m) t r"
  shows "held (upd_message r g t) i q"
proof -
  have "q \<noteq> r" using assms by (auto simp: held_def message_test_def split: option.splits)
  then show ?thesis using assms(1) by (simp add: held_def)
qed

lemma upd_message_None [simp]: "t_messages (upd_message r g t) q = None \<longleftrightarrow> t_messages t q = None"
  by (simp add: upd_message_def)

lemma messages_ok_cong:
  assumes "t_messages t' = t_messages t" and "t_next t' = t_next t" and "m_message_pool t' = m_message_pool t"
    and "queue t' = queue t" and "m_owned_messages t' = m_owned_messages t"
    and "m_response_promises t' = m_response_promises t"
  shows "messages_ok t' = messages_ok t"
  unfolding messages_ok_def held_def message_test_def assms ..

lemma frames_ok_cong:
  assumes "t_freed t' = t_freed t" and "queue t' = queue t" and "m_owned_messages t' = m_owned_messages t"
  shows "frames_ok t' = frames_ok t"
  unfolding frames_ok_def assms ..

lemma requests_ok_cong:
  assumes "t_blocked t' = t_blocked t" and "t_posted t' = t_posted t" and "t_responses t' = t_responses t"
    and "m_dead_promises t' = m_dead_promises t" and "m_response_promises t' = m_response_promises t"
  shows "requests_ok t' = requests_ok t"
  unfolding requests_ok_def request_ids_def assms ..

lemma same_but_pool_ok:
  assumes "same_but_pool t t'"
  shows "requests_ok t' = requests_ok t" "frames_ok t' = frames_ok t" "new_frame f t' = new_frame f t"
    "m_dispatch_events t' = m_dispatch_events t"
proof -
  obtain ms n rs where t': "t' = t\<lparr>t_messages := ms, t_next := n, m_message_pool := rs\<rparr>"
    using assms by (auto simp: same_but_pool_def)
  show "requests_ok t' = requests_ok t" by (rule requests_ok_cong) (simp_all add: t')
  show "frames_ok t' = frames_ok t" by (rule frames_ok_cong) (simp_all add: t')
  show "new_frame f t' = new_frame f t" by (simp add: new_frame_def t')
  show "m_dispatch_events t' = m_dispatch_events t" by (simp add: t')
qed

lemma accept_messages_ok:
  assumes "messages_ok t" and "r \<notin> set (m_message_pool t)" and "r \<notin> fst ` set (queue t)"
    and "message_test (\<lambda>m. \<not> m_response m) t r"
  shows "messages_ok (dispatch_receive_event r f (upd_message r (message_init b u i (t_self t)) t))" (is "messages_ok ?t")
proof -
  have q: "m_events (m_dispatch_events ?t) = queue t @ [(r, f)]"
    by (simp add: dispatch_receive_event_def upd_dispatch_events_def)
  have fr: "m_message_pool ?t = m_message_pool t" "t_next ?t = t_next t" "m_owned_messages ?t = m_owned_messages t"
    "m_response_promises ?t = m_response_promises t"
    "t_messages ?t = t_messages (upd_message r (message_init b u i (t_self t)) t)"
    by (simp_all add: dispatch_receive_event_def upd_dispatch_events_def)
  note test = message_test_cong [OF fr(5)]
  show ?thesis
  proof (rule messages_okI)
    show "distinct (m_message_pool ?t @ map fst (m_events (m_dispatch_events ?t)))"
      using messages_okD(1) [OF assms(1)] assms(2,3) by (auto simp: q fr)
    show "t_messages ?t q = None" if "t_next ?t \<le> q" for q
      using messages_okD(2) [OF assms(1), of q] that unfolding fr by simp
    show "message_test (\<lambda>m. \<not> m_response m) ?t q" if "q \<in> set (m_message_pool ?t)" for q
      using messages_okD(3) [OF assms(1), of q] that assms(2) by (auto simp: test fr)
    show "message_test (\<lambda>m. \<not> m_response m \<and> message_view m \<noteq> None) ?t (fst e)"
      if "e \<in> set (m_events (m_dispatch_events ?t))" for e
    proof (cases "fst e = r")
      case True
      then show ?thesis
        using assms(4) by (simp add: test message_init_def message_reset_def message_view_def)
    next
      case False
      then show ?thesis using messages_okD(4) [OF assms(1), of e] that by (auto simp: test q)
    qed
    show "held ?t j q" if "m_owned_messages ?t j = Some (q, g)" for j q g
      using held_upd [OF messages_okD(5) [OF assms(1)] assms(4)] that unfolding held_def test fr by blast
    show "held ?t j q" if "m_response_promises ?t j = Some p" "pr_value p = Some q" for j p q
      using held_upd [OF messages_okD(6) [OF assms(1)] assms(4)] that unfolding held_def test fr by blast
  qed
qed

lemma accept_ok:
  assumes "transport_ok t" and "new_frame f t"
  shows "transport_ok (accept_message u i b f t)"
proof -
  have ok: "messages_ok t" "requests_ok t" "frames_ok t" using assms(1) by (simp_all add: transport_ok_def)
  obtain r t1 where g: "get_msg t = (Some r, t1)" "messages_ok t1" "r \<notin> set (m_message_pool t1)"
    "r \<notin> fst ` set (queue t1)" "message_test (\<lambda>m. \<not> m_response m) t1 r" "same_but_pool t t1"
    using get_msg_ok [OF ok(1)] by (elim exE conjE) (rule that; assumption)
  note same = same_but_pool_ok [OF g(6)]
  define t2 where "t2 = dispatch_receive_event r f (upd_message r (message_init b u i (t_self t1)) t1)"
  have "messages_ok t2" unfolding t2_def by (rule accept_messages_ok [OF g(2-5)])
  moreover have "requests_ok t2 = requests_ok t1"
    by (simp add: t2_def requests_ok_def request_ids_def dispatch_receive_event_def upd_dispatch_events_def)
  moreover have "frames_ok t2"
  proof -
    have "frames_ok t1" "new_frame f t1" using same ok(3) assms(2) by simp_all
    then show ?thesis
      by (auto simp: t2_def frames_ok_def new_frame_def dispatch_receive_event_def upd_dispatch_events_def)
  qed
  ultimately show ?thesis using same ok(2) g(1) by (simp add: accept_message_def t2_def [symmetric] transport_ok_def)
qed

section \<open>The event loop keeps the invariant\<close>

lemma release_messages_ok:
  assumes "messages_ok t" and "r \<notin> set (m_message_pool t)" and "r \<notin> fst ` set (queue t)"
    and "message_test (\<lambda>m. \<not> m_response m) t r"
  shows "messages_ok (release r t)"
proof -
  have fr: "m_message_pool (release r t) = m_message_pool t @ [r]" "t_next (release r t) = t_next t"
    "m_owned_messages (release r t) = m_owned_messages t" "m_response_promises (release r t) = m_response_promises t"
    "m_dispatch_events (release r t) = m_dispatch_events t"
    "t_messages (release r t) = t_messages (upd_message r message_reset t)"
    by (simp_all add: release_def)
  note test = message_test_cong [OF fr(6)]
  show ?thesis
  proof (rule messages_okI)
    show "distinct (m_message_pool (release r t) @ map fst (queue (release r t)))"
      using messages_okD(1) [OF assms(1)] assms(2,3) by (auto simp: fr)
    show "t_messages (release r t) q = None" if "t_next (release r t) \<le> q" for q
      using messages_okD(2) [OF assms(1), of q] that unfolding fr by simp
    show "message_test (\<lambda>m. \<not> m_response m) (release r t) q" if "q \<in> set (m_message_pool (release r t))" for q
      using messages_okD(3) [OF assms(1), of q] that assms(4) by (auto simp: test fr message_reset_def)
    show "message_test (\<lambda>m. \<not> m_response m \<and> message_view m \<noteq> None) (release r t) (fst e)"
      if "e \<in> set (queue (release r t))" for e
      using messages_okD(4) [OF assms(1), of e] that assms(3) by (auto simp: test fr)
    show "held (release r t) j q" if "m_owned_messages (release r t) j = Some (q, g)" for j q g
      using held_upd [OF messages_okD(5) [OF assms(1)] assms(4)] that unfolding held_def test fr by blast
    show "held (release r t) j q" if "m_response_promises (release r t) j = Some p" "pr_value p = Some q" for j p q
      using held_upd [OF messages_okD(6) [OF assms(1)] assms(4)] that unfolding held_def test fr by blast
  qed
qed

text \<open>A message that answers a request: it becomes held, and the value of the promise if that has none.\<close>

lemma process_response_fields:
  assumes "t_messages t r = Some m" and "m_response_promises t (mo_id m) = Some p"
    and "process_message_response r f t = (t', None)"
  shows "t_messages t' = t_messages (upd_message r set_has_promise t)" and "t_next t' = t_next t"
    and "m_message_pool t' = m_message_pool t" and "m_dispatch_events t' = m_dispatch_events t"
    and "m_owned_messages t' = (m_owned_messages t)(mo_id m \<mapsto> (r, f))" and "t_freed t' = t_freed t"
    and "m_response_promises t' = (m_response_promises t)(mo_id m \<mapsto> (if pr_value p \<noteq> None then p else p\<lparr>pr_value := Some r\<rparr>))"
    and "t_blocked t' = t_blocked t" "t_posted t' = t_posted t" "t_responses t' = t_responses t"
    "m_dead_promises t' = m_dead_promises t"
proof -
  have taken: "take_message_ownership r f (upd_message r set_has_promise t) =
      (upd_message r set_has_promise t)\<lparr>m_owned_messages := (m_owned_messages t)(mo_id m \<mapsto> (r, f))\<rparr>"
    using assms(1) by (simp add: take_message_ownership_def upd_message_def set_has_promise_def)
  have same: "(m_response_promises t)(mo_id m \<mapsto> p) = m_response_promises t"
    using assms(2) by (simp add: fun_upd_idem)
  define u where "u = (upd_message r set_has_promise t)\<lparr>m_owned_messages := (m_owned_messages t)(mo_id m \<mapsto> (r, f))\<rparr>"
  have t': "t' = (if pr_value p \<noteq> None then u
      else u\<lparr>m_response_promises := (m_response_promises u)(mo_id m \<mapsto> p\<lparr>pr_value := Some r\<rparr>)\<rparr>)"
    using assms by (simp add: process_message_response_def taken Let_def u_def split: if_splits)
  show "t_messages t' = t_messages (upd_message r set_has_promise t)" "t_next t' = t_next t"
    "m_message_pool t' = m_message_pool t" "m_dispatch_events t' = m_dispatch_events t"
    "m_owned_messages t' = (m_owned_messages t)(mo_id m \<mapsto> (r, f))" "t_freed t' = t_freed t"
    "m_response_promises t' = (m_response_promises t)(mo_id m \<mapsto> (if pr_value p \<noteq> None then p else p\<lparr>pr_value := Some r\<rparr>))"
    "t_blocked t' = t_blocked t" "t_posted t' = t_posted t" "t_responses t' = t_responses t"
    "m_dead_promises t' = m_dead_promises t"
    by (cases "pr_value p"; simp add: t' u_def same)+
qed

lemma process_response_ok:
  assumes "transport_ok t" and "t_messages t r = Some m" and "m_response_promises t (mo_id m) = Some p"
    and "process_message_response r f t = (t', None)"
    and "r \<notin> set (m_message_pool t)" and "r \<notin> fst ` set (queue t)" and "\<not> m_response m" and "message_view m \<noteq> None"
    and "new_frame f t"
  shows "transport_ok t'"
proof -
  note fr = process_response_fields [OF assms(2-4)]
  have ok: "messages_ok t" "requests_ok t" "frames_ok t" using assms(1) by (simp_all add: transport_ok_def)
  have fresh: "message_test (\<lambda>m. \<not> m_response m) t r" using assms(2,7) by (simp add: message_test_def)
  note test = message_test_cong [OF fr(1)]
  have kept: "held t' j q" if "held t j q" for j q
    using held_upd [OF that fresh] unfolding held_def test .
  have now: "held t' (mo_id m) r"
    using assms(2,8) unfolding held_def test
    by (simp add: message_test_def set_has_promise_def message_view_def upd_message_def split: option.splits)
  have "messages_ok t'"
  proof (rule messages_okI)
    show "distinct (m_message_pool t' @ map fst (queue t'))" using messages_okD(1) [OF ok(1)] by (simp add: fr)
    show "t_messages t' q = None" if "t_next t' \<le> q" for q
      using messages_okD(2) [OF ok(1), of q] that unfolding fr by simp
    show "message_test (\<lambda>m. \<not> m_response m) t' q" if "q \<in> set (m_message_pool t')" for q
      using messages_okD(3) [OF ok(1), of q] that assms(5) unfolding test fr by auto
    show "message_test (\<lambda>m. \<not> m_response m \<and> message_view m \<noteq> None) t' (fst e)" if "e \<in> set (queue t')" for e
      using messages_okD(4) [OF ok(1), of e] that assms(6) unfolding test fr by auto
    show "held t' j q" if "m_owned_messages t' j = Some (q, g)" for j q g
      using that now kept [OF messages_okD(5) [OF ok(1)]] unfolding fr by (cases "j = mo_id m") auto
    show "held t' j q" if "m_response_promises t' j = Some p'" "pr_value p' = Some q" for j p' q
    proof (cases "j = mo_id m")
      case True
      then show ?thesis
        using that now kept [OF messages_okD(6) [OF ok(1) assms(3)]] unfolding fr
        by (cases "pr_value p") auto
    next
      case False
      then show ?thesis using that kept [OF messages_okD(6) [OF ok(1)]] unfolding fr by auto
    qed
  qed
  moreover have "requests_ok t'"
  proof -
    have "dom (m_response_promises t') = dom (m_response_promises t)" using assms(3) unfolding fr by (auto simp: dom_def)
    moreover from this have "m_response_promises t' i = None \<longleftrightarrow> m_response_promises t i = None" for i by (metis domIff)
    ultimately show ?thesis
      using ok(2) unfolding requests_ok_def request_ids_def fr(8-11) by simp
  qed
  moreover have "frames_ok t'"
    using ok(3) assms(9) unfolding frames_ok_def new_frame_def fr by (auto split: if_splits)
  ultimately show ?thesis by (simp add: transport_ok_def)
qed

lemma deliver_all:
  "\<exists>ds. fold (run_adaptor (\<lambda>_. True) run_receive_event e) as (t, b) = (t\<lparr>t_delivered := ds\<rparr>, b)"
proof (induction as arbitrary: t)
  case Nil
  show ?case by (rule exI [of _ "t_delivered t"]) simp
next
  case (Cons a as)
  show ?case
    using Cons [of "fst (run_receive_event e a t)"] by (auto simp: run_adaptor_def run_receive_event_def)
qed

lemma process_one_ok:
  assumes "transport_ok t"
  shows "transport_ok (transport_process_one t)"
proof (cases "queue t")
  case Nil
  then show ?thesis using assms by (simp add: transport_process_one_def process_one_event_def)
next
  case (Cons e es)
  obtain r f where e: "e = (r, f)" by fastforce
  define u where "u = upd_dispatch_events (m_events_update (\<lambda>_. es)) t"
  obtain ds where ds: "fold (run_adaptor (\<lambda>_. True) run_receive_event (r, f)) (m_adaptors (m_dispatch_events t)) (u, True) =
      (u\<lparr>t_delivered := ds\<rparr>, True)" using deliver_all by blast
  define v where "v = u\<lparr>t_delivered := ds\<rparr>"
  have step: "transport_process_one t = complete_receive_event (r, f) EV_SUCCESS v"
    using Cons by (simp add: transport_process_one_def process_one_event_def process_event_def e u_def [symmetric] ds v_def)
  have fr: "t_messages v = t_messages t" "t_next v = t_next t" "m_message_pool v = m_message_pool t"
    "queue v = es" "m_owned_messages v = m_owned_messages t" "m_response_promises v = m_response_promises t"
    "t_freed v = t_freed t" "t_blocked v = t_blocked t" "t_posted v = t_posted t" "t_responses v = t_responses t"
    "m_dead_promises v = m_dead_promises t"
    by (simp_all add: v_def u_def upd_dispatch_events_def)
  have ok: "messages_ok t" "requests_ok t" "frames_ok t" using assms by (simp_all add: transport_ok_def)
  note test = message_test_cong [OF fr(1)]
  have held: "held v i q = held t i q" for i q by (simp add: held_def test)
  have okv: "transport_ok v"
    unfolding transport_ok_def
  proof (intro conjI)
    show "messages_ok v"
      using ok(1) Cons unfolding messages_ok_def fr held test by auto
    show "requests_ok v" using ok(2) requests_ok_cong [of v t] fr by simp
    show "frames_ok v" using ok(3) Cons unfolding frames_ok_def fr by auto
  qed
  have fresh: "r \<notin> set (m_message_pool v)" "r \<notin> fst ` set (queue v)"
    using messages_okD(1) [OF ok(1)] Cons by (auto simp: fr e)
  have "message_test (\<lambda>m. \<not> m_response m \<and> message_view m \<noteq> None) v r"
    using messages_okD(4) [OF ok(1), of e] Cons by (simp add: test e)
  then obtain m where m: "t_messages v r = Some m" "\<not> m_response m" "message_view m \<noteq> None"
    by (auto simp: message_test_def split: option.splits)
  have newf: "new_frame f v"
    using ok(3) Cons unfolding frames_ok_def new_frame_def fr by (auto simp: e) (metis)
  show ?thesis
  proof (cases "m_response_promises v (mo_id m)")
    case (Some p)
    obtain w where w: "process_message_response r f v = (w, None)"
      using m(1) Some by (auto simp: process_message_response_def Let_def)
    have "transport_process_one t = w"
      using m(1,2) w by (simp add: step complete_receive_event_def message_test_def)
    then show ?thesis using process_response_ok [OF okv m(1) Some w fresh m(2,3) newf] by simp
  next
    case None
    define w where "w = on_complete f v"
    have "transport_process_one t = release r w"
      using m None by (simp add: step complete_receive_event_def message_test_def process_message_response_def w_def)
    moreover have "messages_ok (release r w)"
    proof (rule release_messages_ok)
      show "messages_ok w" using okv messages_ok_cong [of w v] by (simp add: w_def on_complete_def transport_ok_def)
    qed (use fresh m in \<open>simp_all add: w_def on_complete_def message_test_def\<close>)
    moreover have "requests_ok (release r w)"
      using okv requests_ok_cong [of "release r w" v] by (simp add: w_def on_complete_def release_def transport_ok_def)
    moreover have "frames_ok (release r w)"
      using okv newf by (auto simp: w_def on_complete_def release_def transport_ok_def frames_ok_def new_frame_def)
    ultimately show ?thesis by (simp add: transport_ok_def)
  qed
qed

section \<open>Sending keeps the invariant\<close>

lemma remove_promises:
  "fold remove_response_promise is t =
     t\<lparr>m_response_promises := (\<lambda>i. if i \<in> set is then None else m_response_promises t i)\<rparr>"
  by (induction "is" arbitrary: t) (auto simp: remove_response_promise_def fun_eq_iff intro!: transport_layer.equality)

lemma cleanup_eq:
  "cleanup_response_messages t =
     t\<lparr>m_dead_promises := [],
        m_response_promises := (\<lambda>i. if i \<in> set (m_dead_promises t) then None else m_response_promises t i)\<rparr>"
  by (simp add: cleanup_response_messages_def remove_promises cong: if_cong)

lemma dead_not_blocked:
  assumes "requests_ok t" and "a \<in> set (t_blocked t)"
  shows "msg_ID a \<notin> set (m_dead_promises t)"
  using assms by (auto simp: requests_ok_def request_ids_def)

lemma cleanup_ok:
  assumes "transport_ok t"
  shows "transport_ok (cleanup_response_messages t)" (is "transport_ok ?t")
proof -
  have ok: "messages_ok t" "requests_ok t" "frames_ok t" using assms by (simp_all add: transport_ok_def)
  have "messages_ok ?t"
    using ok(1) by (auto simp: cleanup_eq messages_ok_def held_def message_test_def)
  moreover have "requests_ok ?t"
    using ok(2) dead_not_blocked [OF ok(2)] unfolding requests_ok_def request_ids_def cleanup_eq
    by (simp add: subset_iff domIff) blast
  moreover have "frames_ok ?t" using ok(3) frames_ok_cong [of ?t t] by (simp add: cleanup_eq)
  ultimately show ?thesis by (simp add: transport_ok_def)
qed

lemma new_request_no_promise:
  assumes "requests_ok t" and "new_request i t"
  shows "m_response_promises t i = None"
proof (rule ccontr)
  assume "m_response_promises t i \<noteq> None"
  then have "i \<in> msg_ID ` set (t_blocked t) \<union> rs_id ` set (t_responses t)"
    using assms(1) unfolding requests_ok_def by blast
  then show False using assms(2) by (auto simp: new_request_def request_ids_def)
qed

text \<open>With an id of its own a request is registered, and the call blocks without an exception.\<close>

definition blocked_on :: "message_content \<Rightarrow> ZstTransportArgs \<Rightarrow> stage_transport \<Rightarrow> stage_transport" where
  "blocked_on content args t =
     t\<lparr>m_response_promises := (m_response_promises t)(msg_ID args \<mapsto> \<lparr>pr_future_taken = True, pr_value = None\<rparr>),
        t_outgoing := t_outgoing t @ [(content, args)], t_blocked := t_blocked t @ [args]\<rparr>"

lemma blocking_begin:
  assumes "m_response_promises t (msg_ID args) = None"
  shows "blocking_send_begin content args t = Inr (blocked_on content args t)"
  using assms by (simp add: blocking_send_begin_def register_response_def send_message_impl_def blocked_on_def)

lemma blocked_ok:
  assumes "transport_ok t" and "m_response_promises t (msg_ID args) = None"
    and "distinct (msg_ID args # request_ids t)"
  shows "transport_ok (blocked_on content args t)" (is "transport_ok ?t")
proof -
  have ok: "messages_ok t" "requests_ok t" "frames_ok t" using assms(1) by (simp_all add: transport_ok_def)
  have "messages_ok ?t"
    using ok(1) by (auto simp: blocked_on_def messages_ok_def held_def message_test_def)
  moreover have "requests_ok ?t"
  proof -
    have "request_ids ?t = map msg_ID (t_blocked t) @ msg_ID args # map (\<lambda>ca. msg_ID (snd ca)) (t_posted t) @ map rs_id (t_responses t)"
      by (simp add: request_ids_def blocked_on_def)
    then have "distinct (request_ids ?t)" using assms(3) by (auto simp: request_ids_def)
    then show ?thesis using ok(2) unfolding requests_ok_def by (auto simp: blocked_on_def)
  qed
  moreover have "frames_ok ?t" using ok(3) frames_ok_cong [of ?t t] by (simp add: blocked_on_def)
  ultimately show ?thesis by (simp add: transport_ok_def)
qed

lemma fields_ok:
  assumes "transport_ok t"
  shows "transport_ok (t\<lparr>t_outgoing := os\<rparr>)" "transport_ok (t\<lparr>m_is_connected := b\<rparr>)"
    "transport_ok (upd_dispatch_events (add_adaptor a) t)"
proof -
  have ok: "messages_ok t" "requests_ok t" "frames_ok t" using assms by (simp_all add: transport_ok_def)
  show "transport_ok (t\<lparr>t_outgoing := os\<rparr>)"
    using ok messages_ok_cong [of "t\<lparr>t_outgoing := os\<rparr>" t] requests_ok_cong [of "t\<lparr>t_outgoing := os\<rparr>" t]
      frames_ok_cong [of "t\<lparr>t_outgoing := os\<rparr>" t] by (simp add: transport_ok_def)
  show "transport_ok (t\<lparr>m_is_connected := b\<rparr>)"
    using ok messages_ok_cong [of "t\<lparr>m_is_connected := b\<rparr>" t] requests_ok_cong [of "t\<lparr>m_is_connected := b\<rparr>" t]
      frames_ok_cong [of "t\<lparr>m_is_connected := b\<rparr>" t] by (simp add: transport_ok_def)
  let ?u = "upd_dispatch_events (add_adaptor a) t"
  show "transport_ok ?u"
    using ok messages_ok_cong [of ?u t] requests_ok_cong [of ?u t] frames_ok_cong [of ?u t]
    by (simp add: transport_ok_def upd_dispatch_events_def)
qed

lemma send_ok:
  assumes "transport_ok t" and "stage_transport_send_msg i content args t = (Inr t', g)"
    and "msg_send_behaviour args = PUBLISH \<or> new_request (if msg_ID args = 0 then i else msg_ID args) t"
  shows "transport_ok t'"
proof -
  define j where "j = (if msg_ID args = 0 then i else msg_ID args)"
  have beg: "begin_send_message content (args\<lparr>msg_ID := j\<rparr>) t = Inr t'"
    using assms(2) by (simp add: stage_transport_send_msg_def j_def)
  have ok: "messages_ok t" "requests_ok t" "frames_ok t" using assms(1) by (simp_all add: transport_ok_def)
  show ?thesis
  proof (cases "m_is_connected t")
    case False
    then show ?thesis using beg assms(1) by (simp add: begin_send_message_def)
  next
    case True
    show ?thesis
    proof (cases "msg_send_behaviour args")
      case PUBLISH
      then show ?thesis
        using beg True fields_ok(1) [OF assms(1)] by (auto simp: begin_send_message_def send_message_impl_def)
    next
      case SYNC_REPLY
      then have new: "new_request j t" using assms(3) by (simp add: j_def)
      note none = new_request_no_promise [OF ok(2) new]
      have "t' = blocked_on content (args\<lparr>msg_ID := j\<rparr>) t"
        using beg True SYNC_REPLY blocking_begin [of t "args\<lparr>msg_ID := j\<rparr>"] none by (simp add: begin_send_message_def)
      then show ?thesis
        using blocked_ok [OF assms(1), of "args\<lparr>msg_ID := j\<rparr>"] none new ok(2)
        by (simp add: new_request_def requests_ok_def)
    next
      case ASYNC_REPLY
      then have new: "new_request j t" using assms(3) by (simp add: j_def)
      have t': "t' = t\<lparr>t_posted := t_posted t @ [(content, args\<lparr>msg_ID := j\<rparr>)]\<rparr>"
        using beg True ASYNC_REPLY by (simp add: begin_send_message_def)
      have "requests_ok t'"
        using ok(2) new unfolding requests_ok_def new_request_def request_ids_def by (auto simp: t')
      moreover have "messages_ok t'" using ok(1) messages_ok_cong [of t' t] by (simp add: t')
      moreover have "frames_ok t'" using ok(3) frames_ok_cong [of t' t] by (simp add: t')
      ultimately show ?thesis by (simp add: transport_ok_def)
    qed
  qed
qed

lemma async_start_ok:
  assumes "transport_ok t"
  shows "\<exists>t'. async_start t = Inr t' \<and> transport_ok t'"
proof (cases "t_posted t")
  case Nil
  then show ?thesis using assms by (simp add: async_start_def)
next
  case (Cons ca rest)
  obtain c a where ca: "ca = (c, a)" by fastforce
  have ok: "messages_ok t" "requests_ok t" "frames_ok t" using assms by (simp_all add: transport_ok_def)
  define u where "u = t\<lparr>t_posted := rest\<rparr>"
  have ids: "distinct (msg_ID a # request_ids u)"
    using ok(2) Cons by (auto simp: requests_ok_def request_ids_def u_def ca)
  have "requests_ok u"
    using ok(2) Cons unfolding requests_ok_def request_ids_def by (auto simp: u_def)
  moreover have "messages_ok u" using ok(1) messages_ok_cong [of u t] by (simp add: u_def)
  moreover have "frames_ok u" using ok(3) frames_ok_cong [of u t] by (simp add: u_def)
  ultimately have oku: "transport_ok u" by (simp add: transport_ok_def)
  have none: "m_response_promises u (msg_ID a) = None"
    using new_request_no_promise [OF \<open>requests_ok u\<close>, of "msg_ID a"] ids by (simp add: new_request_def)
  show ?thesis
    using Cons assms blocked_ok [OF oku none ids] blocking_begin [OF none]
    by (simp add: async_start_def ca u_def [symmetric])
qed

section \<open>Waiting ends\<close>

text \<open>
  Taking the request off the list of blocked calls and recording what its callback saw keeps the requests
  in order.
\<close>

definition answered :: "ZstTransportArgs \<Rightarrow> ZstStageMessage option option \<Rightarrow> stage_transport \<Rightarrow> stage_transport" where
  "answered a seen t =
     t\<lparr>t_blocked := remove1 a (t_blocked t),
       t_responses := t_responses t @ [\<lparr>rs_id = msg_ID a, rs_action = on_recv_response a, rs_message = seen\<rparr>],
       m_dead_promises := m_dead_promises t @ [msg_ID a]\<rparr>"

lemma mset_map_remove1: "x \<in> set xs \<Longrightarrow> mset (map g xs) = add_mset (g x) (mset (map g (remove1 x xs)))"
  by (induction xs) auto

lemma answered_ok:
  assumes "transport_ok t" and "a \<in> set (t_blocked t)"
    and "seen = None \<or> (\<exists>m. seen = Some (Some m) \<and> m_id m = msg_ID a)"
  shows "transport_ok (answered a seen t)" (is "transport_ok ?t")
proof -
  have ok: "messages_ok t" "requests_ok t" "frames_ok t" using assms(1) by (simp_all add: transport_ok_def)
  have "messages_ok ?t" using ok(1) messages_ok_cong [of ?t t] by (simp add: answered_def)
  moreover have "frames_ok ?t" using ok(3) frames_ok_cong [of ?t t] by (simp add: answered_def)
  moreover have "requests_ok ?t"
  proof -
    have split: "mset (map msg_ID (t_blocked t)) = add_mset (msg_ID a) (mset (map msg_ID (remove1 a (t_blocked t))))"
      using assms(2) by (rule mset_map_remove1)
    have "mset (request_ids ?t) = mset (request_ids t)"
      using split by (simp add: request_ids_def answered_def del: mset_map)
    then have "distinct (request_ids ?t)" using ok(2) by (metis mset_eq_imp_distinct_iff requests_ok_def)
    moreover have "msg_ID ` set (t_blocked t) = insert (msg_ID a) (msg_ID ` set (remove1 a (t_blocked t)))"
      using arg_cong [OF split, of set_mset] by (simp only: set_mset_mset set_mset_add_mset_insert set_map)
    moreover have "set (remove1 a (t_blocked t)) \<subseteq> set (t_blocked t)" by (rule set_remove1_subset)
    ultimately show ?thesis
      using ok(2) assms(3) unfolding requests_ok_def by (auto simp: answered_def)
  qed
  ultimately show ?thesis by (simp add: transport_ok_def)
qed

text \<open>The supervisor lets go of a message: its frame is destroyed.\<close>

lemma release_owned_ok:
  assumes "transport_ok t"
  shows "transport_ok (release_owned_message r t)"
proof (cases "t_messages t r")
  case None
  then show ?thesis using assms by (simp add: release_owned_message_def)
next
  case (Some m)
  show ?thesis
  proof (cases "m_owned_messages t (mo_id m)")
    case None
    then show ?thesis using assms Some by (simp add: release_owned_message_def)
  next
    case (Some rf)
    obtain q f where rf: "rf = (q, f)" by fastforce
    define u where "u = t\<lparr>t_freed := t_freed t @ [f], m_owned_messages := (m_owned_messages t)(mo_id m := None)\<rparr>"
    have u: "release_owned_message r t = u"
      using Some \<open>t_messages t r = Some m\<close> by (simp add: release_owned_message_def rf u_def on_complete_def)
    have ok: "messages_ok t" "requests_ok t" "frames_ok t" using assms by (simp_all add: transport_ok_def)
    have "messages_ok u"
      using ok(1) unfolding messages_ok_def u_def held_def message_test_def by auto
    moreover have "requests_ok u" using ok(2) requests_ok_cong [of u t] by (simp add: u_def)
    moreover have "frames_ok u"
      using ok(3) Some unfolding frames_ok_def u_def by (auto simp: rf split: if_splits)
    ultimately show ?thesis by (simp add: u transport_ok_def)
  qed
qed

lemma release_owned_frame [simp]:
  "t_blocked (release_owned_message r t) = t_blocked t" "t_responses (release_owned_message r t) = t_responses t"
  "m_dead_promises (release_owned_message r t) = m_dead_promises t" "t_messages (release_owned_message r t) = t_messages t"
  "m_response_promises (release_owned_message r t) = m_response_promises t"
  by (simp_all add: release_owned_message_def on_complete_def split: option.split)

lemma release_owned_answered:
  "release_owned_message r (answered a seen t) = answered a seen (release_owned_message r t)"
  by (simp add: release_owned_message_def answered_def on_complete_def split: option.split)

lemma blocking_end_answered:
  "blocking_send_end a msg t =
     (let u = answered a (map_option (\<lambda>r. Option.bind (t_messages t r) message_view) msg) t
      in case msg of
           None \<Rightarrow> u
         | Some r \<Rightarrow> if message_test m_response t r then release_owned_message r u else u)"
  by (auto simp: blocking_send_end_def answered_def enqueue_resolved_promise_def release_owned_message_def
      on_complete_def message_test_def Let_def split: option.split)

lemma blocking_end_ok:
  assumes "transport_ok t" and "a \<in> set (t_blocked t)"
    and "msg = None \<or> (\<exists>p r. m_response_promises t (msg_ID a) = Some p \<and> pr_value p = Some r \<and> msg = Some r)"
  shows "transport_ok (blocking_send_end a msg t)"
proof (cases msg)
  case None
  then show ?thesis using answered_ok [OF assms(1,2)] by (simp add: blocking_end_answered Let_def)
next
  case (Some r)
  then obtain p where "m_response_promises t (msg_ID a) = Some p" "pr_value p = Some r" using assms(3) by auto
  then have "held t (msg_ID a) r" using assms(1) messages_okD(6) by (simp add: transport_ok_def)
  then obtain m w where m: "t_messages t r = Some m" "mo_id m = msg_ID a" "m_response m" "message_view m = Some w"
    by (auto simp: held_def message_test_def split: option.splits)
  have "m_id w = msg_ID a" using m(2,4) by (auto simp: message_view_def split: option.splits)
  then have "transport_ok (answered a (Some (Some w)) t)" using answered_ok [OF assms(1,2)] by simp
  then show ?thesis
    using Some m release_owned_ok by (simp add: blocking_end_answered Let_def message_test_def)
qed

section \<open>Every reachable state\<close>

lemma transport_new_ok: "transport_ok (transport_new self)"
proof -
  let ?t = "\<lparr>t_self = self, m_is_connected = False, t_messages = (\<lambda>_. None), t_next = 0, m_message_pool = [],
        m_dispatch_events = dispatcher_new DefaultAdaptor, m_response_promises = (\<lambda>_. None),
        m_owned_messages = (\<lambda>_. None), m_dead_promises = [], t_posted = [], t_blocked = [], t_outgoing = [],
        t_delivered = [], t_responses = [], t_freed = []\<rparr>"
  have "messages_ok ?t" by (simp add: messages_ok_def dispatcher_new_def)
  then have "messages_ok (transport_new self)" unfolding transport_new_def by (rule populate_ok)
  moreover have "requests_ok (transport_new self)" "frames_ok (transport_new self)"
    by (simp_all add: transport_new_def requests_ok_def request_ids_def frames_ok_def dispatcher_new_def)
  ultimately show ?thesis by (simp add: transport_ok_def)
qed

lemma transport_step_ok: "transport_step t t' \<Longrightarrow> transport_ok t \<Longrightarrow> transport_ok t'"
proof (induction rule: transport_step.induct)
  case (sends args i t content t' g)
  then show ?case using send_ok by blast
next
  case (pool_thread_starts t t')
  then show ?case using async_start_ok by fastforce
next
  case (server_receives f t u i p)
  then show ?case
    by (cases p) (simp_all add: server_sock_recv_def accept_ok signal_client_direct_def send_message_impl_def fields_ok)
next
  case (client_receives f t active i p)
  then show ?case by (cases p) (simp_all add: client_sock_recv_def accept_ok)
next
  case (response_ready a t p r)
  then show ?case using blocking_end_ok by blast
next
  case (request_times_out a t)
  then show ?case using blocking_end_ok by blast
qed (simp_all add: cleanup_ok process_one_ok fields_ok)

lemma transport_reachable_ok: "transport_reachable self t \<Longrightarrow> transport_ok t"
  by (induction rule: transport_reachable.induct) (simp_all add: transport_new_ok transport_step_ok)

section \<open>A request and its response\<close>

lemma accept_result:
  assumes "messages_ok t" and "queue t = []"
  shows "\<exists>r t'. accept_message u i b f t = t' \<and> queue t' = [(r, f)] \<and>
    (\<exists>m. t_messages t' r = Some m \<and> \<not> m_response m \<and> mo_id m = i \<and>
      message_view m = Some \<lparr>m_origin_UUID = u, m_id = i, m_owning_transport = t_self t, m_buffer = b\<rparr>) \<and>
    m_response_promises t' = m_response_promises t \<and> m_owned_messages t' = m_owned_messages t \<and>
    t_responses t' = t_responses t \<and> t_freed t' = t_freed t \<and> t_blocked t' = t_blocked t \<and>
    m_dead_promises t' = m_dead_promises t"
proof -
  obtain r t1 where g: "get_msg t = (Some r, t1)" "message_test (\<lambda>m. \<not> m_response m) t1 r" "same_but_pool t t1"
    using get_msg_ok [OF assms(1)] by (elim exE conjE) (rule that; assumption)
  obtain ms n rs where t1: "t1 = t\<lparr>t_messages := ms, t_next := n, m_message_pool := rs\<rparr>"
    using g(3) by (auto simp: same_but_pool_def)
  obtain m where m: "t_messages t1 r = Some m" "\<not> m_response m"
    using g(2) by (auto simp: message_test_def split: option.splits)
  show ?thesis
    using g(1) m assms(2)
    by (intro exI [of _ r] exI [of _ "accept_message u i b f t"] conjI exI [of _ "message_init b u i (t_self t) m"])
       (simp_all add: accept_message_def dispatch_receive_event_def upd_dispatch_events_def upd_message_def
         message_init_def message_reset_def message_view_def t1)
qed

lemma process_response:
  assumes "queue t = [(r, f)]" and "t_messages t r = Some m" and "\<not> m_response m"
    and "m_response_promises t (mo_id m) = Some p" and "pr_value p = None"
  defines "t' \<equiv> transport_process_one t"
  shows "m_response_promises t' = (m_response_promises t)(mo_id m \<mapsto> p\<lparr>pr_value := Some r\<rparr>)"
    and "m_owned_messages t' = (m_owned_messages t)(mo_id m \<mapsto> (r, f))"
    and "t_messages t' r = Some (set_has_promise m)" and "t_freed t' = t_freed t" and "t_responses t' = t_responses t"
    and "t_blocked t' = t_blocked t" and "m_dead_promises t' = m_dead_promises t" and "queue t' = []"
proof -
  define u where "u = upd_dispatch_events (m_events_update (\<lambda>_. [])) t"
  obtain ds where ds: "fold (run_adaptor (\<lambda>_. True) run_receive_event (r, f)) (m_adaptors (m_dispatch_events t)) (u, True) =
      (u\<lparr>t_delivered := ds\<rparr>, True)" using deliver_all by blast
  define v where "v = u\<lparr>t_delivered := ds\<rparr>"
  have v: "t_messages v r = Some m" "m_response_promises v (mo_id m) = Some p"
    using assms(2,4) by (simp_all add: v_def u_def upd_dispatch_events_def)
  obtain w where w: "process_message_response r f v = (w, None)"
    using v by (auto simp: process_message_response_def Let_def)
  have "t' = w"
    using assms(1,3) v(1) w
    by (simp add: t'_def transport_process_one_def process_one_event_def process_event_def u_def [symmetric] ds
        v_def [symmetric] complete_receive_event_def message_test_def)
  note fr = process_response_fields [OF v w, folded \<open>t' = w\<close>]
  show "m_response_promises t' = (m_response_promises t)(mo_id m \<mapsto> p\<lparr>pr_value := Some r\<rparr>)"
    "m_owned_messages t' = (m_owned_messages t)(mo_id m \<mapsto> (r, f))"
    "t_messages t' r = Some (set_has_promise m)" "t_freed t' = t_freed t" "t_responses t' = t_responses t"
    "t_blocked t' = t_blocked t" "m_dead_promises t' = m_dead_promises t" "queue t' = []"
    using assms(5) v unfolding fr by (simp_all add: v_def u_def upd_dispatch_events_def upd_message_def)
qed

section \<open>Properties\<close>

text \<open>
  C3. Whatever the order in which the threads of a transport run, a request is answered at most once and
  never while it waits; a response callback gets a null pointer or an intact message whose id is that of
  its request; a frame is destroyed at most once; and no message is in the pool twice, or in the pool
  while the supervisor owns it.
\<close>

theorem transport_reachable_sound:
  assumes "transport_reachable self t"
  shows "distinct (map msg_ID (t_blocked t) @ map rs_id (t_responses t)) \<and>
    (\<forall>rs\<in>set (t_responses t). rs_message rs = None \<or> (\<exists>m. rs_message rs = Some (Some m) \<and> m_id m = rs_id rs)) \<and>
    distinct (t_freed t) \<and> distinct (m_message_pool t) \<and>
    (\<forall>i r f. m_owned_messages t i = Some (r, f) \<longrightarrow> r \<notin> set (m_message_pool t) \<and> f \<notin> set (t_freed t))"
proof -
  have ok: "messages_ok t" "requests_ok t" "frames_ok t"
    using transport_reachable_ok [OF assms] by (simp_all add: transport_ok_def)
  have "r \<notin> set (m_message_pool t)" if "m_owned_messages t i = Some (r, f)" for i r f
    using messages_okD(5) [OF ok(1) that] messages_okD(3) [OF ok(1), of r]
    by (auto simp: held_def message_test_def split: option.splits)
  then show ?thesis
    using ok(2,3) messages_okD(1) [OF ok(1)] unfolding requests_ok_def frames_ok_def request_ids_def by auto
qed

text \<open>
  C18. A request and its response: after the request is sent, a message that arrives with its id becomes the
  value of its promise, the waiting call ends with exactly that message for its callback, the frame of the
  message is destroyed, nothing of it stays with the supervisor, and the promise goes at the next cleanup.
\<close>

theorem request_gets_response:
  assumes "transport_ok t" and "queue t = []" and "new_request (msg_ID args) t" and "m_owned_messages t (msg_ID args) = None"
  shows "\<exists>t1 t2 p r. blocking_send_begin content args t = Inr t1 \<and>
    t2 = transport_process_one (accept_message u (msg_ID args) b f t1) \<and>
    m_response_promises t2 (msg_ID args) = Some p \<and> pr_value p = Some r \<and>
    (let t3 = blocking_send_end args (Some r) t2
     in t_responses t3 = t_responses t @ [\<lparr>rs_id = msg_ID args, rs_action = on_recv_response args,
            rs_message = Some (Some \<lparr>m_origin_UUID = u, m_id = msg_ID args, m_owning_transport = t_self t, m_buffer = b\<rparr>)\<rparr>] \<and>
        t_freed t3 = t_freed t @ [f] \<and> m_owned_messages t3 (msg_ID args) = None \<and>
        m_response_promises (cleanup_response_messages t3) (msg_ID args) = None)"
proof -
  have ok: "requests_ok t" "messages_ok t" using assms(1) by (simp_all add: transport_ok_def)
  note none = new_request_no_promise [OF ok(1) assms(3)]
  define t1 where "t1 = blocked_on content args t"
  have t1: "queue t1 = []" "t_self t1 = t_self t" "t_responses t1 = t_responses t" "t_freed t1 = t_freed t"
    "m_response_promises t1 (msg_ID args) = Some \<lparr>pr_future_taken = True, pr_value = None\<rparr>"
    using assms(2) by (simp_all add: t1_def blocked_on_def)
  have "messages_ok t1"
    using ok(2) by (auto simp: t1_def blocked_on_def messages_ok_def held_def message_test_def)
  define v where "v = \<lparr>m_origin_UUID = u, m_id = msg_ID args, m_owning_transport = t_self t, m_buffer = b\<rparr>"
  obtain r m where a: "queue (accept_message u (msg_ID args) b f t1) = [(r, f)]"
      "t_messages (accept_message u (msg_ID args) b f t1) r = Some m" "\<not> m_response m" "mo_id m = msg_ID args"
      "message_view m = Some v"
      "m_response_promises (accept_message u (msg_ID args) b f t1) = m_response_promises t1"
      "t_responses (accept_message u (msg_ID args) b f t1) = t_responses t1"
      "t_freed (accept_message u (msg_ID args) b f t1) = t_freed t1"
    using accept_result [OF \<open>messages_ok t1\<close> t1(1), of u "msg_ID args" b f] unfolding v_def t1(2)
    by (elim exE conjE) (rule that; simp add: v_def)
  define t2 where "t2 = transport_process_one (accept_message u (msg_ID args) b f t1)"
  note p = process_response [OF a(1-3), of "\<lparr>pr_future_taken = True, pr_value = None\<rparr>", folded t2_def, unfolded a(4,6-8) t1]
  have view: "message_view (set_has_promise m) = Some v"
    using a(5) by (auto simp: message_view_def set_has_promise_def split: option.splits)
  have t2: "m_response_promises t2 (msg_ID args) = Some \<lparr>pr_future_taken = True, pr_value = Some r\<rparr>"
    "m_owned_messages t2 (msg_ID args) = Some (r, f)" "t_messages t2 r = Some (set_has_promise m)"
    "t_freed t2 = t_freed t" "t_responses t2 = t_responses t"
    using p by simp_all
  have "mo_id (set_has_promise m) = msg_ID args" "m_response (set_has_promise m)"
    using a(4) by (simp_all add: set_has_promise_def)
  then have "let t3 = blocking_send_end args (Some r) t2
     in t_responses t3 = t_responses t @ [\<lparr>rs_id = msg_ID args, rs_action = on_recv_response args, rs_message = Some (Some v)\<rparr>] \<and>
        t_freed t3 = t_freed t @ [f] \<and> m_owned_messages t3 (msg_ID args) = None \<and>
        m_response_promises (cleanup_response_messages t3) (msg_ID args) = None"
    using t2 view
    by (simp add: blocking_end_answered Let_def message_test_def cleanup_eq release_owned_message_def on_complete_def answered_def)
  then show ?thesis
    using blocking_begin [OF none, of content, folded t1_def] t2(1)
    unfolding v_def t2_def by (intro exI conjI) (assumption | rule refl | simp)+
qed

section \<open>Late responses\<close>

text \<open>
  A message that is owned for a request that is over, and whose promise is gone: nothing releases it.
\<close>

definition lost :: "uuid \<Rightarrow> msg_ref \<Rightarrow> frame \<Rightarrow> stage_transport \<Rightarrow> bool" where
  "lost i r f t \<longleftrightarrow> m_owned_messages t i = Some (r, f) \<and> m_response_promises t i = None \<and>
     i \<in> rs_id ` set (t_responses t)"

lemma lost_cong:
  assumes "m_owned_messages t' = m_owned_messages t" and "m_response_promises t' i = m_response_promises t i"
    and "set (t_responses t) \<subseteq> set (t_responses t')" and "lost i r f t"
  shows "lost i r f t'"
  using assms by (auto simp: lost_def)

lemma lost_blocked:
  assumes "lost i r f t" and "msg_ID args \<noteq> i"
  shows "lost i r f (blocked_on content args t)"
  using assms by (simp add: lost_def blocked_on_def)

lemma lost_not_requested: "lost i r f t \<Longrightarrow> new_request j t \<Longrightarrow> j \<noteq> i"
  by (auto simp: lost_def new_request_def request_ids_def)

lemma get_msg_same:
  assumes "messages_ok t"
  shows "m_owned_messages (accept_message u j b f t) = m_owned_messages t"
    and "m_response_promises (accept_message u j b f t) = m_response_promises t"
    and "t_responses (accept_message u j b f t) = t_responses t"
proof -
  obtain r t1 where g: "get_msg t = (Some r, t1)" "same_but_pool t t1"
    using get_msg_ok [OF assms] by (elim exE conjE) (rule that; assumption)
  then show "m_owned_messages (accept_message u j b f t) = m_owned_messages t"
    "m_response_promises (accept_message u j b f t) = m_response_promises t"
    "t_responses (accept_message u j b f t) = t_responses t"
    by (auto simp: accept_message_def dispatch_receive_event_def upd_dispatch_events_def same_but_pool_def)
qed

lemma lost_process_one:
  assumes "lost i r f t"
  shows "lost i r f (transport_process_one t)"
proof (cases "queue t")
  case Nil
  then show ?thesis using assms by (simp add: transport_process_one_def process_one_event_def)
next
  case (Cons e es)
  obtain q g where e: "e = (q, g)" by fastforce
  define u where "u = upd_dispatch_events (m_events_update (\<lambda>_. es)) t"
  obtain ds where ds: "fold (run_adaptor (\<lambda>_. True) run_receive_event (q, g)) (m_adaptors (m_dispatch_events t)) (u, True) =
      (u\<lparr>t_delivered := ds\<rparr>, True)" using deliver_all by blast
  define v where "v = u\<lparr>t_delivered := ds\<rparr>"
  have step: "transport_process_one t = complete_receive_event (q, g) EV_SUCCESS v"
    using Cons by (simp add: transport_process_one_def process_one_event_def process_event_def e u_def [symmetric] ds v_def)
  have v: "lost i r f v" using assms by (simp add: lost_def v_def u_def upd_dispatch_events_def)
  have rel: "lost i r f (release q (on_complete g v))"
    using v by (simp add: lost_def release_def on_complete_def)
  show ?thesis
  proof (cases "t_messages v q")
    case None
    then show ?thesis using rel by (simp add: step complete_receive_event_def message_test_def process_message_response_def)
  next
    case (Some m)
    show ?thesis
    proof (cases "m_response_promises v (mo_id m)")
      case None
      then show ?thesis
        using rel v Some by (simp add: step complete_receive_event_def message_test_def process_message_response_def)
    next
      case (Some p)
      obtain w where w: "process_message_response q g v = (w, None)"
        using Some \<open>t_messages v q = Some m\<close> by (auto simp: process_message_response_def Let_def)
      have ne: "mo_id m \<noteq> i" using v Some by (auto simp: lost_def)
      note fr = process_response_fields [OF \<open>t_messages v q = Some m\<close> Some w]
      have "lost i r f w" using v ne unfolding lost_def fr by simp
      then show ?thesis
        using v w \<open>t_messages v q = Some m\<close> by (simp add: step complete_receive_event_def message_test_def)
    qed
  qed
qed

lemma lost_end:
  assumes "transport_ok t" and "lost i r f t" and "a \<in> set (t_blocked t)"
    and "msg = None \<or> (\<exists>p q. m_response_promises t (msg_ID a) = Some p \<and> pr_value p = Some q \<and> msg = Some q)"
  shows "lost i r f (blocking_send_end a msg t)"
proof -
  have ok: "messages_ok t" "requests_ok t" using assms(1) by (simp_all add: transport_ok_def)
  have ans: "lost i r f (answered a seen t)" for seen using assms(2) by (auto simp: lost_def answered_def)
  show ?thesis
  proof (cases msg)
    case None
    then show ?thesis using ans by (simp add: blocking_end_answered Let_def)
  next
    case (Some q)
    then obtain p where "m_response_promises t (msg_ID a) = Some p" "pr_value p = Some q" using assms(4) by auto
    then have "held t (msg_ID a) q" by (rule messages_okD(6) [OF ok(1)])
    moreover have "msg_ID a \<noteq> i"
      using ok(2) assms(2,3) by (auto simp: requests_ok_def request_ids_def lost_def)
    ultimately have "lost i r f (release_owned_message q (answered a seen t))" for seen
      using ans [of seen]
      by (auto simp: lost_def release_owned_message_def held_def message_test_def answered_def on_complete_def
          split: option.splits)
    then show ?thesis using Some ans by (simp add: blocking_end_answered Let_def)
  qed
qed

lemma lost_step:
  assumes "transport_step t t'" and "transport_ok t" and "lost i r f t"
  shows "lost i r f t'"
  using assms
proof cases
  case (sends args j content g)
  define k where "k = (if msg_ID args = 0 then j else msg_ID args)"
  have beg: "begin_send_message content (args\<lparr>msg_ID := k\<rparr>) t = Inr t'"
    using sends(2) by (simp add: stage_transport_send_msg_def k_def)
  show ?thesis
  proof (cases "m_is_connected t \<and> msg_send_behaviour args = SYNC_REPLY")
    case True
    then have new: "new_request k t" using sends(1) by (simp add: k_def)
    have "m_response_promises t k = None"
      using new_request_no_promise [OF _ new] assms(2) by (simp add: transport_ok_def)
    then have "t' = blocked_on content (args\<lparr>msg_ID := k\<rparr>) t"
      using beg True blocking_begin [of t "args\<lparr>msg_ID := k\<rparr>"] by (simp add: begin_send_message_def)
    then show ?thesis using lost_blocked [OF assms(3)] lost_not_requested [OF assms(3) new] by simp
  next
    case False
    then show ?thesis
      using beg assms(3)
      by (cases "msg_send_behaviour args") (auto simp: begin_send_message_def send_message_impl_def lost_def split: if_splits)
  qed
next
  case pool_thread_starts
  show ?thesis
  proof (cases "t_posted t")
    case Nil
    then show ?thesis using pool_thread_starts assms(3) by (simp add: async_start_def)
  next
    case (Cons ca rest)
    obtain c a where ca: "ca = (c, a)" by fastforce
    define u where "u = t\<lparr>t_posted := rest\<rparr>"
    have req: "requests_ok t" using assms(2) by (simp add: transport_ok_def)
    have ne: "msg_ID a \<noteq> i" using req assms(3) Cons by (auto simp: requests_ok_def request_ids_def lost_def ca)
    have "msg_ID a \<notin> dom (m_response_promises t)"
    proof
      assume "msg_ID a \<in> dom (m_response_promises t)"
      then have "msg_ID a \<in> msg_ID ` set (t_blocked t) \<union> rs_id ` set (t_responses t)"
        using req unfolding requests_ok_def by blast
      then show False using req Cons by (auto simp: requests_ok_def request_ids_def ca)
    qed
    then have none: "m_response_promises u (msg_ID a) = None" by (auto simp: u_def)
    have "lost i r f u" using assms(3) by (simp add: lost_def u_def)
    then have "lost i r f (blocked_on c a u)" using ne by (rule lost_blocked)
    then show ?thesis
      using pool_thread_starts assms(3) Cons blocking_begin [OF none]
      by (auto simp: async_start_def ca u_def [symmetric] split: if_splits)
  qed
next
  case (server_receives g u j p)
  have "messages_ok t" using assms(2) by (simp add: transport_ok_def)
  note same = get_msg_same [OF this]
  show ?thesis
    using assms(3) server_receives(1)
    by (cases p) (simp_all add: server_sock_recv_def lost_def same signal_client_direct_def send_message_impl_def)
next
  case (client_receives g active j p)
  have "messages_ok t" using assms(2) by (simp add: transport_ok_def)
  note same = get_msg_same [OF this]
  show ?thesis using assms(3) client_receives(1) by (cases p) (simp_all add: client_sock_recv_def lost_def same)
next
  case promises_cleaned
  then show ?thesis using assms(3) by (simp add: cleanup_eq lost_def)
next
  case event_processed
  then show ?thesis using lost_process_one [OF assms(3)] by simp
next
  case (response_ready a p q)
  then show ?thesis using lost_end [OF assms(2,3)] by blast
next
  case (request_times_out a)
  then show ?thesis using lost_end [OF assms(2,3)] by blast
qed (use assms(3) in \<open>simp_all add: lost_def upd_dispatch_events_def\<close>)

lemma lost_stays:
  assumes "transport_step\<^sup>*\<^sup>* t t'" and "transport_ok t" and "lost i r f t"
  shows "transport_ok t' \<and> lost i r f t'"
  using assms by (induction rule: rtranclp_induct) (auto intro: transport_step_ok lost_step)

text \<open>A response that finds no promise is put back, and its frame destroyed.\<close>

lemma process_unrequested:
  assumes "queue t = [(r, f)]" and "t_messages t r = Some m" and "\<not> m_response m" and "m_response_promises t (mo_id m) = None"
  defines "t' \<equiv> transport_process_one t"
  shows "t_freed t' = t_freed t @ [f]" and "m_owned_messages t' = m_owned_messages t"
    and "m_message_pool t' = m_message_pool t @ [r]"
proof -
  define u where "u = upd_dispatch_events (m_events_update (\<lambda>_. [])) t"
  obtain ds where ds: "fold (run_adaptor (\<lambda>_. True) run_receive_event (r, f)) (m_adaptors (m_dispatch_events t)) (u, True) =
      (u\<lparr>t_delivered := ds\<rparr>, True)" using deliver_all by blast
  have "process_message_response r f (u\<lparr>t_delivered := ds\<rparr>) = (u\<lparr>t_delivered := ds\<rparr>, Some OutOfRange)"
    "t_messages (u\<lparr>t_delivered := ds\<rparr>) r = Some m"
    using assms(2,4) by (simp_all add: process_message_response_def u_def upd_dispatch_events_def)
  then have "t' = release r (on_complete f (u\<lparr>t_delivered := ds\<rparr>))"
    using assms(1,3)
    by (simp add: t'_def transport_process_one_def process_one_event_def process_event_def u_def [symmetric] ds
        complete_receive_event_def message_test_def)
  then show "t_freed t' = t_freed t @ [f]" "m_owned_messages t' = m_owned_messages t"
    "m_message_pool t' = m_message_pool t @ [r]"
    by (simp_all add: release_def on_complete_def u_def upd_dispatch_events_def)
qed

text \<open>
  A response that comes too late is harmless only after the cleanup of its promise, when its frame is
  destroyed and its message returns to the pool. If the event loop gets to it between the time-out and
  the cleanup, the supervisor takes the message, and whatever the threads do from the next cleanup on,
  it keeps it: the frame is never destroyed.
\<close>

theorem late_response_leaks:
  assumes "transport_ok t" and "queue t = []" and "new_request (msg_ID args) t" and "m_owned_messages t (msg_ID args) = None"
    and "new_frame f t"
  shows "\<exists>t1. blocking_send_begin content args t = Inr t1 \<and>
    (let t2 = blocking_send_end args None t1;
         late = transport_process_one (accept_message u (msg_ID args) b f t2);
         cleaned = transport_process_one (accept_message u (msg_ID args) b f (cleanup_response_messages t2))
     in (\<exists>r. \<forall>t3. transport_step\<^sup>*\<^sup>* (cleanup_response_messages late) t3 \<longrightarrow>
           m_owned_messages t3 (msg_ID args) = Some (r, f) \<and> f \<notin> set (t_freed t3)) \<and>
        m_owned_messages cleaned (msg_ID args) = None \<and> t_freed cleaned = t_freed t @ [f])"
proof -
  let ?i = "msg_ID args"
  have req: "requests_ok t" using assms(1) by (simp add: transport_ok_def)
  note none = new_request_no_promise [OF req assms(3)]
  define t1 where "t1 = blocked_on content args t"
  have begun: "blocking_send_begin content args t = Inr t1" using blocking_begin [OF none] by (simp add: t1_def)
  have ok1: "transport_ok t1"
    unfolding t1_def using assms(1,3) none req by (intro blocked_ok) (simp_all add: new_request_def requests_ok_def)
  define t2 where "t2 = blocking_send_end args None t1"
  have ok2: "transport_ok t2" unfolding t2_def using ok1 by (rule blocking_end_ok) (simp_all add: t1_def blocked_on_def)
  have t2: "m_response_promises t2 ?i = Some \<lparr>pr_future_taken = True, pr_value = None\<rparr>" "queue t2 = []"
    "t_freed t2 = t_freed t" "m_owned_messages t2 = m_owned_messages t" "?i \<in> set (m_dead_promises t2)"
    "?i \<in> rs_id ` set (t_responses t2)" "new_frame f t2"
    using assms(2,5) by (simp_all add: t2_def t1_def blocked_on_def blocking_end_answered answered_def Let_def new_frame_def)
  have ok2': "messages_ok t2" using ok2 by (simp add: transport_ok_def)
  define a where "a = accept_message u ?i b f t2"
  obtain r m where am: "queue a = [(r, f)]" "t_messages a r = Some m" "\<not> m_response m" "mo_id m = ?i"
      "m_response_promises a = m_response_promises t2" "t_responses a = t_responses t2"
      "m_dead_promises a = m_dead_promises t2"
    using accept_result [OF ok2' t2(2), of u ?i b f] by (elim exE conjE) (rule that; simp add: a_def)
  have oka: "transport_ok a" unfolding a_def by (rule accept_ok [OF ok2 t2(7)])
  define late where "late = transport_process_one a"
  have ok3: "transport_ok (cleanup_response_messages late)"
    unfolding late_def by (rule cleanup_ok [OF process_one_ok [OF oka]])
  note l = process_response [OF am(1-3), unfolded am(4,5), OF t2(1), folded late_def]
  have "lost ?i r f (cleanup_response_messages late)"
    using l(1,2,5,7) t2 am(6,7) by (simp add: lost_def cleanup_eq)
  then have stays: "m_owned_messages t3 ?i = Some (r, f) \<and> f \<notin> set (t_freed t3)"
    if "transport_step\<^sup>*\<^sup>* (cleanup_response_messages late) t3" for t3
    using lost_stays [OF that ok3] unfolding lost_def transport_ok_def frames_ok_def by blast
  define c where "c = cleanup_response_messages t2"
  have okc: "messages_ok c" "queue c = []" "m_response_promises c ?i = None" "t_freed c = t_freed t"
    "m_owned_messages c = m_owned_messages t"
    using cleanup_ok [OF ok2] t2 by (simp_all add: c_def transport_ok_def cleanup_eq)
  obtain q n where cm: "queue (accept_message u ?i b f c) = [(q, f)]" "t_messages (accept_message u ?i b f c) q = Some n"
      "\<not> m_response n" "mo_id n = ?i" "m_response_promises (accept_message u ?i b f c) = m_response_promises c"
      "t_freed (accept_message u ?i b f c) = t_freed c"
      "m_owned_messages (accept_message u ?i b f c) = m_owned_messages c"
    using accept_result [OF okc(1,2), of u ?i b f] by (elim exE conjE) (rule that; simp)
  note cl = process_unrequested [OF cm(1-3), unfolded cm(4,5), OF okc(3), unfolded cm(6,7) okc(4,5)]
  have "\<exists>r. \<forall>t3. transport_step\<^sup>*\<^sup>* (cleanup_response_messages late) t3 \<longrightarrow>
      m_owned_messages t3 ?i = Some (r, f) \<and> f \<notin> set (t_freed t3)"
    using stays by (intro exI [of _ r]) simp
  then show ?thesis
    using begun cl(1,2) assms(4) by (simp add: Let_def t2_def [symmetric] a_def [symmetric] late_def [symmetric] c_def [symmetric])
qed

section \<open>The threads of the pool\<close>

lemma async_busy_fields [simp]:
  "async_busy (t\<lparr>t_outgoing := os\<rparr>) = async_busy t" "async_busy (t\<lparr>t_posted := ps\<rparr>) = async_busy t"
  "async_busy (upd_dispatch_events g t) = async_busy t" "async_busy (t\<lparr>m_is_connected := b\<rparr>) = async_busy t"
  "async_busy (cleanup_response_messages t) = async_busy t"
  by (simp_all add: async_busy_def upd_dispatch_events_def cleanup_eq)

lemma async_busy_blocked: "t_blocked t' = t_blocked t \<Longrightarrow> async_busy t' = async_busy t"
  by (simp add: async_busy_def)

lemma blocking_begin_blocked:
  "blocking_send_begin c a t = Inr t' \<Longrightarrow> t_blocked t' = t_blocked t @ [a]"
  by (auto simp: blocking_send_begin_def register_response_def send_message_impl_def Let_def split: if_splits)

lemma blocking_end_blocked: "t_blocked (blocking_send_end a msg t) = remove1 a (t_blocked t)"
  by (simp add: blocking_end_answered Let_def answered_def split: option.split)

lemma accept_blocked: "t_blocked (accept_message u j b f t) = t_blocked t"
  by (simp add: accept_message_def get_msg_def try_dequeue_msg_def dispatch_receive_event_def upd_dispatch_events_def
      split: list.split prod.split option.split)

lemma process_one_blocked: "t_blocked (transport_process_one t) = t_blocked t" for t :: "'b transport_layer"
proof -
  have "t_blocked (fst (process_message_response r f v)) = t_blocked v" for r f and v :: "'b transport_layer"
    by (simp add: process_message_response_def take_message_ownership_def Let_def split: option.split)
  then have "t_blocked (complete_receive_event e st v) = t_blocked v" for e st and v :: "'b transport_layer"
    by (auto simp: complete_receive_event_def release_def on_complete_def split: prod.split option.split)
       (metis fst_conv)+
  then have "t_blocked (process_event (\<lambda>_. True) run_receive_event complete_receive_event as e v) = t_blocked v"
    for as e and v :: "'b transport_layer"
    by (intro process_event_invariant [where I = "\<lambda>u. t_blocked u = t_blocked v"]) (simp_all add: run_receive_event_def)
  then show ?thesis
    by (simp add: transport_process_one_def process_one_event_def upd_dispatch_events_def split: list.split)
qed

lemma async_busy_step: "transport_step t t' \<Longrightarrow> async_busy t \<le> async_threads \<Longrightarrow> async_busy t' \<le> async_threads"
proof (induction rule: transport_step.induct)
  case (sends args i t content t' g)
  then show ?case
    by (auto simp: stage_transport_send_msg_def begin_send_message_def send_message_impl_def async_busy_def
        dest: blocking_begin_blocked split: if_splits ZstTransportRequestBehaviour.splits)
next
  case (pool_thread_starts t t')
  then show ?case
    by (auto simp: async_start_def async_busy_def dest!: blocking_begin_blocked split: list.splits if_splits)
next
  case (server_receives f t u i p)
  then show ?case
    by (cases p) (simp_all add: server_sock_recv_def async_busy_blocked [OF accept_blocked] signal_client_direct_def
        send_message_impl_def)
next
  case (client_receives f t active i p)
  then show ?case by (cases p) (simp_all add: client_sock_recv_def async_busy_blocked [OF accept_blocked])
next
  case (event_processed t)
  then show ?case by (simp add: async_busy_blocked [OF process_one_blocked])
next
  case (response_ready a t p r)
  have "async_busy (blocking_send_end a (Some r) t) \<le> async_busy t"
    by (simp add: async_busy_def blocking_end_blocked filter_remove1 length_remove1)
  then show ?case using response_ready by simp
next
  case (request_times_out a t)
  have "async_busy (blocking_send_end a None t) \<le> async_busy t"
    by (simp add: async_busy_def blocking_end_blocked filter_remove1 length_remove1)
  then show ?case using request_times_out by simp
qed simp_all

lemma async_busy_reachable: "transport_reachable self t \<Longrightarrow> async_busy t \<le> async_threads"
  by (induction rule: transport_reachable.induct)
     (simp_all add: async_busy_step, simp add: transport_new_def async_busy_def)

text \<open>
  At most four asynchronous requests of a transport wait for their response at a time. A further one
  is posted, and it is sent as soon as one of the four is over: starting it never raises, and without a
  free thread it changes nothing.
\<close>

theorem async_requests_bounded:
  assumes "transport_reachable self t"
  shows "async_busy t \<le> 4 \<and>
    (\<exists>t'. async_start t = Inr t' \<and>
      (case t_posted t of
         [] \<Rightarrow> t' = t
       | (content, args) # rest \<Rightarrow>
           if async_busy t = 4 then t' = t
           else t_posted t' = rest \<and> t_blocked t' = t_blocked t @ [args] \<and>
             t_outgoing t' = t_outgoing t @ [(content, args)]))"
proof -
  have busy: "async_busy t \<le> 4" using async_busy_reachable [OF assms] by (simp add: async_threads_def)
  obtain t' where t': "async_start t = Inr t'" using async_start_ok [OF transport_reachable_ok [OF assms]] by blast
  have "t_posted t' = rest \<and> t_blocked t' = t_blocked t @ [args] \<and> t_outgoing t' = t_outgoing t @ [(content, args)]"
    if "t_posted t = (content, args) # rest" "async_busy t \<noteq> 4" for content args rest
    using t' that busy
    by (auto simp: async_start_def async_threads_def blocking_send_begin_def register_response_def Let_def
        send_message_impl_def split: if_splits)
  then show ?thesis using busy t' by (auto simp: async_start_def async_threads_def split: list.splits)
qed

section \<open>Concrete runs\<close>

definition sample_request :: ZstTransportArgs where
  "sample_request = transport_args\<lparr>msg_send_behaviour := ASYNC_REPLY, msg_ID := 9\<rparr>"

lemma sample_request_fields [simp]: "msg_ID sample_request = 9" "on_recv_response sample_request = RA_None"
  by (simp_all add: sample_request_def transport_args_def)

lemma transport_new_fields [simp]:
  "queue (transport_new self) = []" "m_response_promises (transport_new self) = (\<lambda>_. None)"
  "m_owned_messages (transport_new self) = (\<lambda>_. None)" "t_freed (transport_new self) = []"
  "t_blocked (transport_new self) = []" "t_posted (transport_new self) = []" "t_responses (transport_new self) = []"
  "t_self (transport_new self) = self" "request_ids (transport_new self) = []"
  "t_outgoing (transport_new self) = []"
  by (simp_all add: transport_new_def dispatcher_new_def request_ids_def)

lemma sample_request_new: "new_request i (transport_new self)" "new_frame f (transport_new self)"
  by (simp_all add: new_request_def new_frame_def)

theorem transport_reachable_sound_witness:
  "distinct (t_freed (server_sock_recv 1 2 (Payload (Content_SignalMessage Signal_OK)) 0 (transport_new 0))) \<and>
   distinct (m_message_pool (server_sock_recv 1 2 (Payload (Content_SignalMessage Signal_OK)) 0 (transport_new 0)))"
  using transport_reachable_sound [OF transport_moves [OF transport_starts server_receives [OF sample_request_new(2)]]]
  by blast

theorem request_gets_response_witness:
  "\<exists>t1 r. blocking_send_begin (Content_SignalMessage Signal_CLIENT_SYNC) sample_request (transport_new 0) = Inr t1 \<and>
    t_responses (blocking_send_end sample_request (Some r)
      (transport_process_one (accept_message 0 9 (Content_SignalMessage Signal_OK) 5 t1))) =
      [\<lparr>rs_id = 9, rs_action = RA_None, rs_message =
         Some (Some \<lparr>m_origin_UUID = 0, m_id = 9, m_owning_transport = 0, m_buffer = Content_SignalMessage Signal_OK\<rparr>)\<rparr>]"
  using request_gets_response [OF transport_new_ok, of 0 sample_request "Content_SignalMessage Signal_CLIENT_SYNC" 0
      "Content_SignalMessage Signal_OK" 5] sample_request_new(1) [of 9 0]
  by (auto simp: Let_def)

theorem late_response_leaks_witness:
  "\<exists>t1 r. blocking_send_begin (Content_SignalMessage Signal_CLIENT_SYNC) sample_request (transport_new 0) = Inr t1 \<and>
    m_owned_messages (cleanup_response_messages (transport_process_one
      (accept_message 0 9 (Content_SignalMessage Signal_OK) 5 (blocking_send_end sample_request None t1)))) 9 = Some (r, 5)"
  using late_response_leaks [OF transport_new_ok, of 0 sample_request 5 "Content_SignalMessage Signal_CLIENT_SYNC" 0
      "Content_SignalMessage Signal_OK"] sample_request_new
  by (fastforce simp: Let_def)

theorem async_requests_bounded_witness:
  "async_busy (transport_new 0 :: stage_transport) \<le> 4 \<and> async_start (transport_new 0 :: stage_transport) = Inr (transport_new 0)"
  using async_requests_bounded [OF transport_starts [of 0]] by simp

end
