(* ===== verification/Zst_Datagrams.thy ===== *)
theory Zst_Datagrams
  imports Zst_Requests Zst_Client
begin

text \<open>
  The two transports without requests: the graph transports that carry the values of plugs
  (\<open>ZstGraphTransport\<close>, \<open>ZstTCPGraphTransport\<close> and \<open>ZstUDPGraphTransport\<close> with the messages
  \<open>ZstPerformanceMessage\<close>), and \<open>ZstServiceDiscoveryTransport\<close> with the beacons of servers
  (\<open>ZstServerBeaconMessage\<close>), all in \<open>src/src/core\<close>. Both are transport layers as in
  \<open>Zst_Transport\<close>, whose messages all have the nil id. What the sockets and beacons of czmq do is an argument.
\<close>

section \<open>Graph transports\<close>

record graph_transport =
  gt_layer :: "graph_message transport_layer"
  m_graph_in :: bool
  m_graph_out :: bool
  m_graph_in_addr :: string
  m_graph_out_addr :: string
  m_connected_addresses :: "string set"
  gt_connections :: "string set"
    \<comment> \<open>what the socket is connected to\<close>

definition upd_layer ::
  "(graph_message transport_layer \<Rightarrow> graph_message transport_layer) \<Rightarrow> graph_transport \<Rightarrow> graph_transport" where
  "upd_layer f g = g\<lparr>gt_layer := f (gt_layer g)\<rparr>"

definition graph_transport_new :: "transport \<Rightarrow> graph_transport" where
  "graph_transport_new self =
     \<lparr>gt_layer = transport_new self, m_graph_in = False, m_graph_out = False, m_graph_in_addr = '''',
      m_graph_out_addr = '''', m_connected_addresses = {}, gt_connections = {}\<rparr>"

text \<open>The id of a performance message is always nil.\<close>

definition performance_message_init ::
  "graph_message \<Rightarrow> transport \<Rightarrow> graph_message message_object \<Rightarrow> graph_message message_object" where
  "performance_message_init buffer owner m =
     (message_reset m)\<lparr>mo_buffer := Some buffer, mo_id := 0, mo_owning_transport := Some owner\<rparr>"

definition graph_sock_recv :: "graph_message \<Rightarrow> frame \<Rightarrow> graph_message transport_layer \<Rightarrow> graph_message transport_layer" where
  "graph_sock_recv buffer f t =
     (case get_msg t of
        (None, t1) \<Rightarrow> t1
      | (Some r, t1) \<Rightarrow> dispatch_receive_event r f (upd_message r (performance_message_init buffer (t_self t1)) t1))"

text \<open>A message that cannot be sent is only reported to the log; the receipt says it was.\<close>

definition graph_send_message_impl :: "graph_message \<Rightarrow> ZstTransportArgs \<Rightarrow> graph_transport \<Rightarrow> graph_transport" where
  "graph_send_message_impl msg args g = (if m_graph_out g then upd_layer (send_message_impl msg args) g else g)"

definition graph_send_msg :: "graph_message \<Rightarrow> ZstTransportArgs \<Rightarrow> graph_transport \<Rightarrow> graph_transport \<times> Signal" where
  "graph_send_msg msg args g = (graph_send_message_impl msg args g, Signal_OK)"

definition set_graph_addresses :: "string \<Rightarrow> string \<Rightarrow> graph_transport \<Rightarrow> graph_transport" where
  "set_graph_addresses in_addr out_addr g = g\<lparr>m_graph_out_addr := out_addr, m_graph_in_addr := in_addr\<rparr>"

definition attach_graph_sockets :: "bool \<Rightarrow> bool \<Rightarrow> graph_transport \<Rightarrow> graph_transport" where
  "attach_graph_sockets in_sock out_sock g = g\<lparr>m_graph_in := in_sock, m_graph_out := out_sock\<rparr>"

definition destroy_graph_sockets :: "graph_transport \<Rightarrow> graph_transport" where
  "destroy_graph_sockets g = g\<lparr>m_graph_in := False, m_graph_out := False\<rparr>"

text \<open>\<open>interfaces\<close> are the addresses of the network interfaces.\<close>

definition first_available_ext_ip :: "string list \<Rightarrow> string" where
  "first_available_ext_ip interfaces = (case interfaces of [] \<Rightarrow> ''127.0.0.1'' | a # _ \<Rightarrow> a)"

text \<open>\<open>last_endpoint\<close> is the endpoint that binding the output socket to an address with any port gives.\<close>

definition tcp_init_graph_sockets :: "(string \<Rightarrow> string) \<Rightarrow> string list \<Rightarrow> graph_transport \<Rightarrow> graph_transport" where
  "tcp_init_graph_sockets last_endpoint interfaces g =
     attach_graph_sockets True True
       (set_graph_addresses '''' (last_endpoint (''tcp://'' @ first_available_ext_ip interfaces @ '':*'')) g)"

definition tcp_connect :: "bool \<Rightarrow> string \<Rightarrow> graph_transport \<Rightarrow> graph_transport" where
  "tcp_connect connects address g =
     (if \<not> m_graph_in g then g
      else if address \<in> m_connected_addresses g then g
      else if connects
      then upd_layer (\<lambda>t. t\<lparr>m_is_connected := True\<rparr>)
             (g\<lparr>m_connected_addresses := insert address (m_connected_addresses g), gt_connections := insert address (gt_connections g)\<rparr>)
      else g)"

definition tcp_disconnect :: "graph_transport \<Rightarrow> graph_transport" where
  "tcp_disconnect g =
     g\<lparr>m_connected_addresses := {}, gt_connections := gt_connections g - m_connected_addresses g\<rparr>"

definition CLIENT_MULTICAST_ADDR :: string where
  "CLIENT_MULTICAST_ADDR = ''239.0.0.8''"

definition CLIENT_UNRELIABLE_PORT :: nat where
  "CLIENT_UNRELIABLE_PORT = 40006"

text \<open>The Booleans say whether the output and the input socket could be created.\<close>

definition udp_init_graph_sockets :: "bool \<Rightarrow> bool \<Rightarrow> string list \<Rightarrow> graph_transport \<Rightarrow> graph_transport" where
  "udp_init_graph_sockets out_sock in_sock interfaces g =
     (if \<not> out_sock then g
      else if \<not> in_sock then g
      else set_graph_addresses
             (''udp://'' @ first_available_ext_ip interfaces @ '':'' @ digits_of CLIENT_UNRELIABLE_PORT) ''''
             (attach_graph_sockets True True g))"

definition udp_connect :: "string \<Rightarrow> graph_transport \<Rightarrow> graph_transport" where
  "udp_connect address g = (if m_graph_out g then g\<lparr>gt_connections := insert address (gt_connections g)\<rparr> else g)"

section \<open>Service discovery\<close>

record beacon_content =
  bc_name :: string
  bc_port :: i32

record server_beacon =
  sb_address :: string
  sb_content :: beacon_content

record service_discovery =
  sd_layer :: "server_beacon transport_layer"
  m_beacon :: bool
  m_name :: string
  m_port :: i32
  sd_published :: "(beacon_content \<times> int) option"
  sd_subscribed :: bool

definition service_discovery_new :: "transport \<Rightarrow> service_discovery" where
  "service_discovery_new self =
     \<lparr>sd_layer = transport_new self, m_beacon = False, m_name = '''', m_port = 0, sd_published = None,
      sd_subscribed = False\<rparr>"

text \<open>Without a network interface there is no beacon; \<open>created\<close> says whether its actor could be created.\<close>

definition discovery_init :: "string list \<Rightarrow> bool \<Rightarrow> service_discovery \<Rightarrow> service_discovery" where
  "discovery_init interfaces created s =
     (if interfaces = [] then s
      else if created then s\<lparr>m_beacon := True, sd_layer := (sd_layer s)\<lparr>m_is_connected := True\<rparr>\<rparr>
      else s\<lparr>m_beacon := False\<rparr>)"

definition start_broadcast :: "string \<Rightarrow> i32 \<Rightarrow> int \<Rightarrow> service_discovery \<Rightarrow> service_discovery" where
  "start_broadcast name port interval s =
     (if \<not> m_beacon s then s
      else s\<lparr>m_name := name, m_port := port, sd_published := Some (\<lparr>bc_name = name, bc_port = port\<rparr>, interval)\<rparr>)"

definition stop_broadcast :: "service_discovery \<Rightarrow> service_discovery" where
  "stop_broadcast s = (if m_beacon s then s\<lparr>sd_published := None\<rparr> else s)"

definition start_listening :: "service_discovery \<Rightarrow> service_discovery" where
  "start_listening s = (if m_beacon s then s\<lparr>sd_subscribed := True\<rparr> else s)"

definition stop_listening :: "service_discovery \<Rightarrow> service_discovery" where
  "stop_listening s = (if m_beacon s then s\<lparr>sd_subscribed := False\<rparr> else s)"

definition discovery_destroy :: "service_discovery \<Rightarrow> service_discovery" where
  "discovery_destroy s =
     (let s1 = stop_listening (stop_broadcast s)
      in s1\<lparr>m_beacon := False, sd_layer := (sd_layer s1)\<lparr>m_is_connected := False\<rparr>\<rparr>)"

text \<open>
  A beacon that arrives from an IP address, with the address of the first interface. It is marked as one with a
  promise and its frame is given to the supervisor before the event that delivers it is deferred.
\<close>

definition beacon_address :: "string option \<Rightarrow> string \<Rightarrow> string" where
  "beacon_address first_interface ip = (if first_interface = Some ip then ''localhost'' else ip)"

definition beacon_message_init ::
  "beacon_content \<Rightarrow> string \<Rightarrow> transport \<Rightarrow> server_beacon message_object \<Rightarrow> server_beacon message_object" where
  "beacon_message_init buffer address owner m =
     m\<lparr>mo_buffer := Some \<lparr>sb_address = address, sb_content = buffer\<rparr>, mo_id := 0, mo_origin := 0,
       mo_owning_transport := Some owner\<rparr>"

definition s_handle_beacon ::
  "string option \<Rightarrow> string option \<Rightarrow> beacon_content \<Rightarrow> frame \<Rightarrow> server_beacon transport_layer \<Rightarrow> server_beacon transport_layer" where
  "s_handle_beacon first_interface ipaddress content f t =
     (case ipaddress of
        None \<Rightarrow> t
      | Some ip \<Rightarrow>
          (case get_msg t of
             (None, t1) \<Rightarrow> t1
           | (Some r, t1) \<Rightarrow>
               let t2 = upd_message r (beacon_message_init content (beacon_address first_interface ip) (t_self t1)) t1;
                   t3 = upd_message r set_has_promise t2
               in dispatch_receive_event r f (take_message_ownership r f t3)))"

text \<open>The client's side of a beacon.\<close>

definition server_beacon_to_address :: "server_beacon \<Rightarrow> ZstServerAddress" where
  "server_beacon_to_address b =
     \<lparr>server_name = bc_name (sb_content b),
      server_address = sb_address b @ '':'' @ to_string_int (bc_port (sb_content b))\<rparr>"

definition client_receives_beacon :: "server_beacon message_object \<Rightarrow> int \<Rightarrow> client \<Rightarrow> client outcome" where
  "client_receives_beacon msg now h =
     (case mo_buffer msg of
        None \<Rightarrow> (h, Some NullDereference)
      | Some b \<Rightarrow> server_discovery_handler (server_beacon_to_address b) now h)"

section \<open>The pool\<close>

text \<open>\<open>out\<close> are the messages that were taken from the pool and not given back.\<close>

definition pool_ok :: "'b transport_layer \<Rightarrow> msg_ref list \<Rightarrow> bool" where
  "pool_ok t out \<longleftrightarrow>
     mset (m_message_pool t) + mset out = mset [0 ..< t_next t] \<and>
     (\<forall>r\<in>set (m_message_pool t). message_test (\<lambda>m. \<not> m_response m) t r)"

lemma pool_okD:
  assumes "pool_ok t out"
  shows "distinct (m_message_pool t @ out)" and "set (m_message_pool t) \<union> set out = {0 ..< t_next t}"
    and "length (m_message_pool t) + length out = t_next t"
proof -
  have m: "mset (m_message_pool t @ out) = mset [0 ..< t_next t]" using assms by (simp add: pool_ok_def)
  show "distinct (m_message_pool t @ out)" using mset_eq_imp_distinct_iff [OF m] by simp
  show "set (m_message_pool t) \<union> set out = {0 ..< t_next t}" using mset_eq_setD [OF m] by simp
  show "length (m_message_pool t) + length out = t_next t" using mset_eq_length [OF m] by simp
qed

lemma populate_pool:
  assumes "pool_ok t out"
  shows "pool_ok (populate n t) out"
proof -
  have "mset [0 ..< t_next t + n] = mset [0 ..< t_next t] + mset [t_next t ..< t_next t + n]"
    by (simp only: upt_add_eq_append [OF le0] mset_append)
  moreover have "r < t_next t" if "r \<in> set (m_message_pool t)" for r using pool_okD(2) [OF assms] that by auto
  ultimately show ?thesis
    using assms by (auto simp: pool_ok_def populate_messages message_test_def message_new_def)
qed

lemma dequeue_pool:
  assumes "pool_ok t out" and "m_message_pool t = r # rs"
  shows "try_dequeue_msg t = (Some r, t\<lparr>m_message_pool := rs\<rparr>)" and "pool_ok (t\<lparr>m_message_pool := rs\<rparr>) (out @ [r])"
    and "message_test (\<lambda>m. \<not> m_response m) t r" and "r \<notin> set out"
  using assms pool_okD(1) [OF assms(1)] by (auto simp: try_dequeue_msg_def pool_ok_def message_test_def)

lemma get_msg_pool:
  assumes "pool_ok t out"
  obtains r ms n rs m where "get_msg t = (Some r, t\<lparr>t_messages := ms, t_next := n, m_message_pool := rs\<rparr>)"
    and "pool_ok (t\<lparr>t_messages := ms, t_next := n, m_message_pool := rs\<rparr>) (out @ [r])"
    and "ms r = Some m" and "\<not> m_response m" and "r \<notin> set out" and "\<And>q. q \<in> set out \<Longrightarrow> ms q = t_messages t q"
proof (cases "m_message_pool t")
  case (Cons r rs)
  note d = dequeue_pool [OF assms Cons]
  obtain m where "t_messages t r = Some m" "\<not> m_response m" using d(3) by (auto simp: message_test_def split: option.splits)
  moreover have "t\<lparr>m_message_pool := rs\<rparr> = t\<lparr>t_messages := t_messages t, t_next := t_next t, m_message_pool := rs\<rparr>" by simp
  ultimately show thesis using that [of r rs "t_next t" "t_messages t" m] d by (simp add: get_msg_def)
next
  case Nil
  define u where "u = populate MESSAGE_POOL_BLOCK t"
  have ok: "pool_ok u out" unfolding u_def by (rule populate_pool [OF assms])
  obtain r rs where pool: "m_message_pool u = r # rs"
    using Nil by (cases "m_message_pool u") (auto simp: u_def populate_messages(1) MESSAGE_POOL_BLOCK_def)
  note d = dequeue_pool [OF ok pool]
  obtain m where m: "t_messages u r = Some m" "\<not> m_response m" using d(3) by (auto simp: message_test_def split: option.splits)
  have u: "u\<lparr>m_message_pool := rs\<rparr> = t\<lparr>t_messages := t_messages u, t_next := t_next u, m_message_pool := rs\<rparr>"
    by (rule transport_layer.equality) (simp_all add: u_def)
  have same: "t_messages u q = t_messages t q" if "q \<in> set out" for q
  proof -
    have "q < t_next t" using pool_okD(2) [OF assms] that by (metis UnI2 atLeastLessThan_iff)
    then show ?thesis by (simp add: u_def populate_messages)
  qed
  show thesis
    using that [of r rs "t_next u" "t_messages u" m, folded u] d m same Nil by (simp add: get_msg_def try_dequeue_msg_def [of t] u_def)
qed

lemma pool_ok_cong:
  assumes "m_message_pool t' = m_message_pool t" and "t_next t' = t_next t"
    and "\<And>r. r \<in> set (m_message_pool t) \<Longrightarrow> t_messages t' r = t_messages t r"
  shows "pool_ok t out \<Longrightarrow> pool_ok t' out"
  using assms by (simp add: pool_ok_def message_test_def)

lemma transport_new_pool: "pool_ok (transport_new self) []"
  unfolding transport_new_def by (rule populate_pool) (simp add: pool_ok_def)

section \<open>Runs of a graph transport\<close>

text \<open>
  Messages arrive, each in its frame, and the event loop of the transport processes events, in any order;
  \<open>rs\<close> are the arrivals.
\<close>

definition transport_started :: "transport \<Rightarrow> adaptor list \<Rightarrow> 'b transport_layer" where
  "transport_started self adaptors = fold (\<lambda>a. upd_dispatch_events (add_adaptor a)) adaptors (transport_new self)"

inductive graph_run ::
  "transport \<Rightarrow> adaptor list \<Rightarrow> (graph_message \<times> frame) list \<Rightarrow> graph_message transport_layer \<Rightarrow> bool" for self adaptors where
  graph_starts: "graph_run self adaptors [] (transport_started self adaptors)"
| graph_arrives: "graph_run self adaptors rs t \<Longrightarrow> graph_run self adaptors (rs @ [(b, f)]) (graph_sock_recv b f t)"
| graph_processes: "graph_run self adaptors rs t \<Longrightarrow> graph_run self adaptors rs (transport_process_events t)"

definition graph_msg_object :: "transport \<Rightarrow> graph_message \<Rightarrow> graph_message message_object" where
  "graph_msg_object self b =
     \<lparr>mo_origin = 0, mo_id = 0, mo_buffer = Some b, mo_owning_transport = Some self, m_response = False\<rparr>"

definition listeners :: "adaptor list \<Rightarrow> adaptor list" where
  "listeners adaptors = fold (\<lambda>a as. if a \<in> set as then as else as @ [a]) adaptors [DefaultAdaptor]"

definition deliveries :: "transport \<Rightarrow> adaptor list \<Rightarrow> (graph_message \<times> frame) list \<Rightarrow>
    (adaptor \<times> graph_message message_object option) list" where
  "deliveries self as rs = concat (map (\<lambda>(b, _). map (\<lambda>a. (a, Some (graph_msg_object self b))) as) rs)"

lemma run_deliver_all:
  "fold (run_adaptor (\<lambda>_. True) run_receive_event e) as (t, b) =
     (t\<lparr>t_delivered := t_delivered t @ map (\<lambda>a. (a, t_messages t (fst e))) as\<rparr>, b)"
  by (induction as arbitrary: t) (simp_all add: run_adaptor_def run_receive_event_def)


lemma started_fields:
  fixes self :: transport and adaptors :: "adaptor list"
  defines "t \<equiv> transport_started self adaptors :: 'b transport_layer"
  shows "m_adaptors (m_dispatch_events t) = listeners adaptors" and "m_events (m_dispatch_events t) = []"
    and "m_response_promises t = (\<lambda>_. None)" and "m_dead_promises t = []" and "t_freed t = []" and "t_delivered t = []"
    and "t_self t = self" and "m_owned_messages t = (\<lambda>_. None)" and "pool_ok t []"
proof -
  define t0 :: "'b transport_layer" where "t0 = transport_new self"
  have new: "m_adaptors (m_dispatch_events t0) = [DefaultAdaptor]" "m_events (m_dispatch_events t0) = []"
    "m_response_promises t0 = (\<lambda>_. None)" "m_dead_promises t0 = []" "t_freed t0 = []" "t_delivered t0 = []" "t_self t0 = self"
    "m_owned_messages t0 = (\<lambda>_. None)" "pool_ok t0 []"
    using transport_new_pool by (simp_all add: t0_def transport_new_def dispatcher_new_def)
  define step :: "adaptor \<Rightarrow> 'b transport_layer \<Rightarrow> 'b transport_layer" where "step = (\<lambda>a. upd_dispatch_events (add_adaptor a))"
  have step: "m_adaptors (m_dispatch_events (fold step as t)) =
        fold (\<lambda>a as. if a \<in> set as then as else as @ [a]) as (m_adaptors (m_dispatch_events t)) \<and>
      m_events (m_dispatch_events (fold step as t)) = m_events (m_dispatch_events t) \<and>
      (\<exists>d. fold step as t = t\<lparr>m_dispatch_events := d\<rparr>)" for as t
  proof (induction as arbitrary: t)
    case Nil
    show ?case by (simp, rule exI [of _ "m_dispatch_events t"]) simp
  next
    case (Cons a as)
    show ?case using Cons [of "step a t"] by (auto simp: step_def upd_dispatch_events_def add_adaptor_def)
  qed
  have s: "t = fold step adaptors t0" by (simp add: t_def transport_started_def t0_def step_def)
  obtain d where d: "fold step adaptors t0 = t0\<lparr>m_dispatch_events := d\<rparr>" using step by blast
  show "m_adaptors (m_dispatch_events t) = listeners adaptors"
    "m_events (m_dispatch_events t) = []"
    using step [of adaptors t0] new by (simp_all add: s listeners_def)
  show "m_response_promises t = (\<lambda>_. None)" "m_dead_promises t = []"
    "t_freed t = []" "t_delivered t = []"
    "t_self t = self" "m_owned_messages t = (\<lambda>_. None)"
    using new by (simp_all add: s d)
  show "pool_ok t []"
    using new(9) unfolding s d by (rule pool_ok_cong [rotated 3]) simp_all
qed

text \<open>The invariant: after \<open>k\<close> of the arrivals were processed.\<close>

definition graph_inv ::
  "transport \<Rightarrow> adaptor list \<Rightarrow> (graph_message \<times> frame) list \<Rightarrow> nat \<Rightarrow> graph_message transport_layer \<Rightarrow> bool" where
  "graph_inv self adaptors rs k t \<longleftrightarrow>
     k \<le> length rs \<and> m_adaptors (m_dispatch_events t) = listeners adaptors \<and> t_self t = self \<and>
     m_response_promises t = (\<lambda>_. None) \<and> m_dead_promises t = [] \<and>
     pool_ok t (map fst (m_events (m_dispatch_events t))) \<and>
     map snd (m_events (m_dispatch_events t)) = map snd (drop k rs) \<and>
     map (\<lambda>e. t_messages t (fst e)) (m_events (m_dispatch_events t)) = map (\<lambda>e. Some (graph_msg_object self (fst e))) (drop k rs) \<and>
     t_freed t = map snd (take k rs) \<and> t_delivered t = deliveries self (listeners adaptors) (take k rs)"

lemma graph_arrives_inv:
  assumes "graph_inv self adaptors rs k t"
  shows "graph_inv self adaptors (rs @ [(b, f)]) k (graph_sock_recv b f t)"
proof -
  have inv: "k \<le> length rs" "pool_ok t (map fst (m_events (m_dispatch_events t)))" using assms by (simp_all add: graph_inv_def)
  obtain r ms n ps m where g: "get_msg t = (Some r, t\<lparr>t_messages := ms, t_next := n, m_message_pool := ps\<rparr>)"
      "pool_ok (t\<lparr>t_messages := ms, t_next := n, m_message_pool := ps\<rparr>) (map fst (m_events (m_dispatch_events t)) @ [r])"
      "ms r = Some m" "\<not> m_response m" "r \<notin> set (map fst (m_events (m_dispatch_events t)))"
      "\<And>q. q \<in> set (map fst (m_events (m_dispatch_events t))) \<Longrightarrow> ms q = t_messages t q"
    by (rule get_msg_pool [OF inv(2)]) blast
  have obj: "performance_message_init b (t_self t) m = graph_msg_object (t_self t) b"
    using g(4) by (cases m) (simp add: performance_message_init_def message_reset_def graph_msg_object_def)
  define t1 where "t1 = t\<lparr>t_next := n, m_message_pool := ps, t_messages := ms(r \<mapsto> graph_msg_object (t_self t) b),
      m_dispatch_events := defer_event (r, f) (m_dispatch_events t)\<rparr>"
  have t1: "graph_sock_recv b f t = t1"
    using g(1,3)
    by (simp add: t1_def graph_sock_recv_def dispatch_receive_event_def upd_dispatch_events_def upd_message_def obj)
  have "r \<notin> set ps" using pool_okD(1) [OF g(2)] by simp
  then have "pool_ok t1 (map fst (m_events (m_dispatch_events t)) @ [r])"
    using g(2) by (intro pool_ok_cong [OF _ _ _ g(2)]) (auto simp: t1_def)
  moreover have "map (\<lambda>e. t_messages t1 (fst e)) (m_events (m_dispatch_events t)) =
      map (\<lambda>e. Some (graph_msg_object self (fst e))) (drop k rs)"
  proof (rule trans)
    show "map (\<lambda>e. t_messages t1 (fst e)) (m_events (m_dispatch_events t)) =
        map (\<lambda>e. t_messages t (fst e)) (m_events (m_dispatch_events t))"
      using g(5,6) by (auto simp: t1_def)
  qed (use assms in \<open>simp add: graph_inv_def\<close>)
  moreover have "m_dispatch_events t1 = defer_event (r, f) (m_dispatch_events t)" "t_self t1 = t_self t"
    "m_response_promises t1 = m_response_promises t" "m_dead_promises t1 = m_dead_promises t" "t_freed t1 = t_freed t"
    "t_delivered t1 = t_delivered t" "t_messages t1 r = Some (graph_msg_object (t_self t) b)"
    by (simp_all add: t1_def)
  ultimately show ?thesis
    using assms unfolding t1 by (simp add: graph_inv_def defer_event_def)
qed

lemma graph_processes_inv:
  assumes "graph_inv self adaptors rs k t"
  shows "graph_inv self adaptors rs (min (Suc k) (length rs)) (transport_process_events t)"
proof -
  have clean: "cleanup_response_messages t = t" using assms by (simp add: cleanup_response_messages_def graph_inv_def)
  show ?thesis
  proof (cases "m_events (m_dispatch_events t)")
    case Nil
    then have "k = length rs" using assms by (simp add: graph_inv_def)
    then show ?thesis
      using assms Nil by (simp add: transport_process_events_def clean transport_process_one_def process_one_event_def)
  next
    case (Cons e es)
    obtain r f where e: "e = (r, f)" by (cases e)
    have "k \<noteq> length rs" using assms Cons by (auto simp: graph_inv_def)
    then have k: "k < length rs" using assms by (simp add: graph_inv_def)
    obtain b where rs: "drop k rs = (b, f) # drop (Suc k) rs"
      using assms Cons e Cons_nth_drop_Suc [OF k] by (cases "rs ! k") (auto simp: graph_inv_def)
    have now: "t_messages t r = Some (graph_msg_object self b)"
      and rest: "map (\<lambda>e. t_messages t (fst e)) es = map (\<lambda>e. Some (graph_msg_object self (fst e))) (drop (Suc k) rs)"
        "map snd es = map snd (drop (Suc k) rs)"
      using assms by (simp_all add: graph_inv_def Cons rs e)
    define u where "u = upd_dispatch_events (m_events_update (\<lambda>_. es)) t"
    define v where "v = u\<lparr>t_delivered := t_delivered t @ map (\<lambda>a. (a, Some (graph_msg_object self b))) (listeners adaptors)\<rparr>"
    have v: "m_response_promises v = (\<lambda>_. None)" "t_messages v r = Some (graph_msg_object self b)"
      using assms now by (simp_all add: v_def u_def upd_dispatch_events_def graph_inv_def)
    have step: "transport_process_events t = release r (on_complete f v)"
    proof -
      have "m_adaptors (m_dispatch_events t) = listeners adaptors" using assms by (simp add: graph_inv_def)
      then have "transport_process_one t = complete_receive_event (r, f) EV_SUCCESS v"
        using Cons now by (simp add: transport_process_one_def process_one_event_def process_event_def e u_def [symmetric] run_deliver_all v_def
            del: split_paired_Ex) (simp add: u_def upd_dispatch_events_def)
      also have "\<dots> = release r (on_complete f v)"
        using v by (simp add: complete_receive_event_def message_test_def process_message_response_def graph_msg_object_def)
      finally show ?thesis by (simp add: transport_process_events_def clean)
    qed
    have pool: "pool_ok t (r # map fst es)" using assms by (simp add: graph_inv_def Cons e)
    then have r: "r \<notin> set (map fst es)" using pool_okD(1) [OF pool] by simp
    have "pool_ok (release r (on_complete f v)) (map fst es)"
      using pool v(2) by (auto simp: pool_ok_def release_def on_complete_def upd_message_def message_reset_def graph_msg_object_def v_def u_def
          upd_dispatch_events_def message_test_def)
    moreover have "map (\<lambda>e. t_messages (release r (on_complete f v)) (fst e)) es = map (\<lambda>e. t_messages t (fst e)) es"
      using r by (auto simp: release_def on_complete_def upd_message_def v_def u_def upd_dispatch_events_def)
    moreover have "take (Suc k) rs = take k rs @ [(b, f)]"
      using rs k by (metis Cons_nth_drop_Suc list.inject take_Suc_conv_app_nth)
    ultimately show ?thesis
      using assms rest k unfolding step min_absorb1 [OF Suc_leI [OF k]]
      by (simp add: graph_inv_def release_def on_complete_def upd_message_def v_def u_def upd_dispatch_events_def deliveries_def)
  qed
qed

lemma graph_run_inv: "graph_run self adaptors rs t \<Longrightarrow> \<exists>k. graph_inv self adaptors rs k t"
proof (induction rule: graph_run.induct)
  case graph_starts
  show ?case by (rule exI [of _ 0]) (simp add: graph_inv_def started_fields deliveries_def)
qed (blast intro: graph_arrives_inv graph_processes_inv)+


text \<open>
  C23. A graph transport is a queue. Whatever the order in which messages arrive and the event loop runs, the
  messages that were processed are the first ones that arrived; each was given once, as it arrived, to every
  adaptor, in the order of arrival; the frames that are freed are theirs, each freed once; and no message object
  is lost or in two places. Processing as many events as messages arrived delivers all of them.
\<close>

theorem graph_transport_fifo:
  assumes "graph_run self adaptors rs t"
  shows "(\<exists>k\<le>length rs.
      t_delivered t = deliveries self (listeners adaptors) (take k rs) \<and> t_freed t = map snd (take k rs) \<and>
      map snd (m_events (m_dispatch_events t)) = map snd (drop k rs) \<and>
      mset (m_message_pool t) + mset (map fst (m_events (m_dispatch_events t))) = mset [0 ..< t_next t]) \<and>
    t_delivered ((transport_process_events ^^ length rs) t) = deliveries self (listeners adaptors) rs"
proof -
  obtain k where k: "graph_inv self adaptors rs k t" using graph_run_inv [OF assms] by blast
  have later: "graph_inv self adaptors rs (min (k + n) (length rs)) ((transport_process_events ^^ n) t)" for n
  proof (induction n)
    case 0
    then show ?case using k by (simp add: graph_inv_def min_absorb1)
  next
    case (Suc n)
    have "min (Suc (min (k + n) (length rs))) (length rs) = min (k + Suc n) (length rs)" by simp
    then show ?case using graph_processes_inv [OF Suc] by simp
  qed
  have "t_delivered ((transport_process_events ^^ length rs) t) = deliveries self (listeners adaptors) rs"
    using later [of "length rs"] by (simp add: graph_inv_def)
  then show ?thesis using k by (auto simp: graph_inv_def pool_ok_def)
qed

text \<open>Two messages, the first of them processed before the second arrives.\<close>

definition sample_value :: "i32 \<Rightarrow> graph_message" where
  "sample_value i = \<lparr>gm_sender = ''ada/out'', gm_value = Some (PV_IntList [i])\<rparr>"

definition sample_graph :: "graph_message transport_layer" where
  "sample_graph =
     graph_sock_recv (sample_value 2) 11
       (transport_process_events (graph_sock_recv (sample_value 1) 10 (transport_started 0 [SessionModule])))"

theorem graph_transport_fifo_witness:
  "map (\<lambda>(a, m). (a, Option.bind m mo_buffer)) (t_delivered ((transport_process_events ^^ 2) sample_graph)) =
     [(DefaultAdaptor, Some (sample_value 1)), (SessionModule, Some (sample_value 1)),
      (DefaultAdaptor, Some (sample_value 2)), (SessionModule, Some (sample_value 2))]"
proof -
  have "graph_run 0 [SessionModule] [(sample_value 1, 10)] (graph_sock_recv (sample_value 1) 10 (transport_started 0 [SessionModule]))"
    using graph_arrives [OF graph_starts [of 0 "[SessionModule]"], of "sample_value 1" 10] by simp
  then have "graph_run 0 [SessionModule] [(sample_value 1, 10), (sample_value 2, 11)] sample_graph"
    using graph_arrives [OF graph_processes, of 0 "[SessionModule]" "[(sample_value 1, 10)]" _ "sample_value 2" 11]
    by (simp add: sample_graph_def)
  from conjunct2 [OF graph_transport_fifo [OF this]] show ?thesis
    by (simp add: deliveries_def listeners_def graph_msg_object_def numeral_2_eq_2)
qed

section \<open>Runs of the service discovery\<close>

text \<open>Beacons arrive and their events are processed, in any order; \<open>bs\<close> are the arrivals with their frames.\<close>

inductive beacon_run ::
  "transport \<Rightarrow> adaptor list \<Rightarrow> (server_beacon \<times> frame) list \<Rightarrow> server_beacon transport_layer \<Rightarrow> bool" for self adaptors where
  discovery_starts: "beacon_run self adaptors [] (transport_started self adaptors)"
| beacon_arrives: "beacon_run self adaptors bs t \<Longrightarrow>
    beacon_run self adaptors (bs @ [(\<lparr>sb_address = beacon_address iface ip, sb_content = c\<rparr>, f)]) (s_handle_beacon iface (Some ip) c f t)"
| beacon_processed: "beacon_run self adaptors bs t \<Longrightarrow> beacon_run self adaptors bs (transport_process_events t)"

definition beacon_object :: "transport \<Rightarrow> server_beacon \<Rightarrow> server_beacon message_object" where
  "beacon_object self b =
     \<lparr>mo_origin = 0, mo_id = 0, mo_buffer = Some b, mo_owning_transport = Some self, m_response = True\<rparr>"

definition beacon_deliveries :: "transport \<Rightarrow> adaptor list \<Rightarrow> (server_beacon \<times> frame) list \<Rightarrow>
    (adaptor \<times> server_beacon message_object option) list" where
  "beacon_deliveries self as bs = concat (map (\<lambda>(b, _). map (\<lambda>a. (a, Some (beacon_object self b))) as) bs)"

text \<open>\<open>refs\<close> are the message objects of the arrivals, \<open>k\<close> of which were processed.\<close>

definition beacon_inv ::
  "transport \<Rightarrow> adaptor list \<Rightarrow> (server_beacon \<times> frame) list \<Rightarrow> msg_ref list \<Rightarrow> nat \<Rightarrow> server_beacon transport_layer \<Rightarrow> bool" where
  "beacon_inv self adaptors bs refs k t \<longleftrightarrow>
     k \<le> length bs \<and> length refs = length bs \<and> pool_ok t refs \<and>
     m_adaptors (m_dispatch_events t) = listeners adaptors \<and> t_self t = self \<and>
     m_events (m_dispatch_events t) = drop k (zip refs (map snd bs)) \<and>
     map (t_messages t) refs = map (\<lambda>b. Some (beacon_object self (fst b))) bs \<and>
     m_response_promises t = (\<lambda>_. None) \<and> m_dead_promises t = [] \<and> t_freed t = [] \<and>
     m_owned_messages t = (if bs = [] then (\<lambda>_. None) else [0 \<mapsto> (last refs, snd (last bs))]) \<and>
     t_delivered t = beacon_deliveries self (listeners adaptors) (take k bs)"

lemma beacon_arrives_inv:
  assumes "beacon_inv self adaptors bs refs k t" and b_def: "b = \<lparr>sb_address = beacon_address iface ip, sb_content = c\<rparr>"
  shows "\<exists>r. beacon_inv self adaptors (bs @ [(b, f)]) (refs @ [r]) k (s_handle_beacon iface (Some ip) c f t)"
proof -
  have inv: "pool_ok t refs" using assms by (simp add: beacon_inv_def)
  obtain r ms n ps m where g: "get_msg t = (Some r, t\<lparr>t_messages := ms, t_next := n, m_message_pool := ps\<rparr>)"
      "pool_ok (t\<lparr>t_messages := ms, t_next := n, m_message_pool := ps\<rparr>) (refs @ [r])"
      "ms r = Some m" "r \<notin> set refs" "\<And>q. q \<in> set refs \<Longrightarrow> ms q = t_messages t q"
    by (rule get_msg_pool [OF inv]) blast
  have obj: "set_has_promise (beacon_message_init c (beacon_address iface ip) (t_self t) m) = beacon_object (t_self t) b"
    by (cases m) (simp add: beacon_message_init_def set_has_promise_def beacon_object_def b_def)
  define t1 where "t1 = t\<lparr>t_next := n, m_message_pool := ps, t_messages := ms(r \<mapsto> beacon_object (t_self t) b),
      m_owned_messages := (m_owned_messages t)(0 \<mapsto> (r, f)), m_dispatch_events := defer_event (r, f) (m_dispatch_events t)\<rparr>"
  have t1: "s_handle_beacon iface (Some ip) c f t = t1"
    using g(1,3)
    by (simp add: t1_def s_handle_beacon_def dispatch_receive_event_def upd_dispatch_events_def upd_message_def obj
        take_message_ownership_def Let_def) (simp add: beacon_object_def)
  have "r \<notin> set ps" using pool_okD(1) [OF g(2)] by simp
  then have "pool_ok t1 (refs @ [r])" by (intro pool_ok_cong [OF _ _ _ g(2)]) (auto simp: t1_def)
  moreover have "map (t_messages t1) refs = map (\<lambda>b. Some (beacon_object self (fst b))) bs"
  proof (rule trans)
    show "map (t_messages t1) refs = map (t_messages t) refs" using g(4,5) by (auto simp: t1_def)
  qed (use assms in \<open>simp add: beacon_inv_def\<close>)
  moreover have "m_dispatch_events t1 = defer_event (r, f) (m_dispatch_events t)" "t_self t1 = t_self t"
    "m_response_promises t1 = m_response_promises t" "m_dead_promises t1 = m_dead_promises t" "t_freed t1 = t_freed t"
    "t_delivered t1 = t_delivered t" "t_messages t1 r = Some (beacon_object (t_self t) b)"
    "m_owned_messages t1 = (m_owned_messages t)(0 \<mapsto> (r, f))"
    by (simp_all add: t1_def)
  ultimately have "beacon_inv self adaptors (bs @ [(b, f)]) (refs @ [r]) k t1"
    using assms(1) by (auto simp: beacon_inv_def defer_event_def)
  then show ?thesis unfolding t1 by blast
qed

lemma beacon_processed_inv:
  assumes "beacon_inv self adaptors bs refs k t"
  shows "beacon_inv self adaptors bs refs (min (Suc k) (length bs)) (transport_process_events t)"
proof -
  have clean: "cleanup_response_messages t = t" using assms by (simp add: cleanup_response_messages_def beacon_inv_def)
  have len: "length (zip refs (map snd bs)) = length bs" using assms by (simp add: beacon_inv_def)
  show ?thesis
  proof (cases "k = length bs")
    case True
    then have "m_events (m_dispatch_events t) = []" using assms len by (simp add: beacon_inv_def)
    then show ?thesis
      using assms True by (simp add: transport_process_events_def clean transport_process_one_def process_one_event_def)
  next
    case False
    then have k: "k < length bs" using assms by (simp add: beacon_inv_def)
    then have es: "m_events (m_dispatch_events t) = (refs ! k, snd (bs ! k)) # drop (Suc k) (zip refs (map snd bs))"
      using assms Cons_nth_drop_Suc [of k "zip refs (map snd bs)"] by (simp add: beacon_inv_def)
    have held: "map (t_messages t) refs = map (\<lambda>b. Some (beacon_object self (fst b))) bs" "k < length refs"
      using assms k by (simp_all add: beacon_inv_def)
    have now: "t_messages t (refs ! k) = Some (beacon_object self (fst (bs ! k)))"
      using arg_cong [OF held(1), of "\<lambda>xs. xs ! k"] held(2) k by simp
    define v where "v = (upd_dispatch_events (m_events_update (\<lambda>_. drop (Suc k) (zip refs (map snd bs)))) t)
      \<lparr>t_delivered := t_delivered t @ map (\<lambda>a. (a, Some (beacon_object self (fst (bs ! k))))) (listeners adaptors)\<rparr>"
    have "m_adaptors (m_dispatch_events t) = listeners adaptors" using assms by (simp add: beacon_inv_def)
    then have "transport_process_one t = v"
      using es now by (simp add: transport_process_one_def process_one_event_def process_event_def run_deliver_all v_def
          complete_receive_event_def message_test_def upd_dispatch_events_def beacon_object_def)
    moreover have "take (Suc k) bs = take k bs @ [bs ! k]" by (rule take_Suc_conv_app_nth [OF k])
    moreover have "pool_ok v refs"
      using assms by (intro pool_ok_cong [of v t]) (simp_all add: v_def upd_dispatch_events_def beacon_inv_def)
    ultimately show ?thesis
      using assms k by (simp add: transport_process_events_def clean beacon_inv_def v_def upd_dispatch_events_def beacon_deliveries_def
          min_absorb1 split: prod.split)
  qed
qed

lemma beacon_run_inv: "beacon_run self adaptors bs t \<Longrightarrow> \<exists>refs k. beacon_inv self adaptors bs refs k t"
proof (induction rule: beacon_run.induct)
  case discovery_starts
  show ?case by (rule exI [of _ "[]"], rule exI [of _ 0]) (simp add: beacon_inv_def started_fields beacon_deliveries_def)
next
  case (beacon_arrives bs t iface ip c f)
  then show ?case using beacon_arrives_inv [OF _ refl] by blast
next
  case (beacon_processed bs t)
  then show ?case using beacon_processed_inv by blast
qed

text \<open>
  Every beacon is delivered, in the order of arrival, but nothing of it is ever given back: each occupies a
  message object of its own for good, so that the pool grows with the number of beacons, and no frame is freed.
  The supervisor knows only the last one, since all beacons have the nil id.
\<close>

theorem beacons_kept_forever:
  assumes "beacon_run self adaptors bs t"
  shows "t_freed t = [] \<and> t_next t = length (m_message_pool t) + length bs \<and>
    (\<exists>k\<le>length bs. t_delivered t = beacon_deliveries self (listeners adaptors) (take k bs) \<and>
       map snd (m_events (m_dispatch_events t)) = map snd (drop k bs)) \<and>
    map_option snd (m_owned_messages t 0) = (if bs = [] then None else Some (snd (last bs))) \<and>
    (\<forall>i. i \<noteq> 0 \<longrightarrow> m_owned_messages t i = None)"
proof -
  obtain refs k where inv: "beacon_inv self adaptors bs refs k t" using beacon_run_inv [OF assms] by blast
  then have "pool_ok t refs" by (simp add: beacon_inv_def)
  then have "t_next t = length (m_message_pool t) + length bs" using inv pool_okD(3) [of t refs] by (simp add: beacon_inv_def)
  moreover have "map snd (drop k (zip refs (map snd bs))) = map snd (drop k bs)"
    using inv by (simp add: beacon_inv_def drop_map [symmetric])
  ultimately show ?thesis using inv by (auto simp: beacon_inv_def)
qed

text \<open>
  The client that joined on a beacon releases it with \<open>release_owned_message\<close>. This frees the frame of the
  beacon that arrived last, whichever beacon was meant: if that one still waits to be processed, its handlers
  will read the freed frame. A second release frees nothing.
\<close>

theorem released_beacon_frees_last:
  assumes "beacon_run self adaptors bs t" and "t_messages t r = Some (beacon_object self b)" and "bs \<noteq> []"
  shows "t_freed (release_owned_message r t) = [snd (last bs)] \<and>
    (m_events (m_dispatch_events t) \<noteq> [] \<longrightarrow>
       snd (last bs) \<in> snd ` set (m_events (m_dispatch_events (release_owned_message r t)))) \<and>
    m_message_pool (release_owned_message r t) = m_message_pool t \<and>
    (\<forall>q b'. t_messages t q = Some (beacon_object self b') \<longrightarrow>
       release_owned_message q (release_owned_message r t) = release_owned_message r t)"
proof -
  obtain refs k where inv: "beacon_inv self adaptors bs refs k t" using beacon_run_inv [OF assms(1)] by blast
  define t' where "t' = (on_complete (snd (last bs)) t)\<lparr>m_owned_messages := (m_owned_messages t)(0 := None)\<rparr>"
  have own: "m_owned_messages t 0 = Some (last refs, snd (last bs))" using inv assms(3) by (simp add: beacon_inv_def)
  then have t': "release_owned_message r t = t'"
    using assms(2) by (simp add: release_owned_message_def t'_def beacon_object_def)
  have again: "release_owned_message q t' = t'" if "t_messages t q = Some (beacon_object self b')" for q b'
    using that by (simp add: release_owned_message_def t'_def on_complete_def beacon_object_def)
  have "snd (last bs) \<in> snd ` set (m_events (m_dispatch_events t'))" if "m_events (m_dispatch_events t) \<noteq> []"
  proof -
    have es: "m_events (m_dispatch_events t') = drop k (zip refs (map snd bs))" "length (zip refs (map snd bs)) = length bs"
      using inv by (simp_all add: t'_def on_complete_def beacon_inv_def)
    have "last (drop k (zip refs (map snd bs))) = last (zip refs (map snd bs))"
      using that inv by (intro last_drop) (auto simp: beacon_inv_def)
    also have "\<dots> = (last refs, snd (last bs))"
      using assms(3) es(2) inv by (simp add: last_conv_nth beacon_inv_def flip: length_greater_0_conv)
    finally show ?thesis
      using that inv last_in_set [of "drop k (zip refs (map snd bs))"] unfolding es(1) by (force simp: beacon_inv_def)
  qed
  then show ?thesis using inv again by (simp add: t' t'_def on_complete_def beacon_inv_def)
qed

text \<open>A client waits for one of two servers and is given its beacon; the beacon of the other comes in between.\<close>

definition sample_beacons :: "server_beacon transport_layer" where
  "sample_beacons =
     s_handle_beacon (Some ''10.0.0.1'') (Some ''10.0.0.1'') \<lparr>bc_name = ''b'', bc_port = 40004\<rparr> 21
       (transport_process_events
         (s_handle_beacon (Some ''10.0.0.1'') (Some ''10.0.0.2'') \<lparr>bc_name = ''a'', bc_port = 40004\<rparr> 20 (transport_started 0 [])))"

lemma sample_beacons_run:
  "beacon_run 0 []
     [(\<lparr>sb_address = ''10.0.0.2'', sb_content = \<lparr>bc_name = ''a'', bc_port = 40004\<rparr>\<rparr>, 20),
      (\<lparr>sb_address = ''localhost'', sb_content = \<lparr>bc_name = ''b'', bc_port = 40004\<rparr>\<rparr>, 21)] sample_beacons"
  using beacon_arrives [OF beacon_processed [OF beacon_arrives [OF discovery_starts [of 0 "[]"],
      of "Some ''10.0.0.1''" "''10.0.0.2''" "\<lparr>bc_name = ''a'', bc_port = 40004\<rparr>" 20]],
      of "Some ''10.0.0.1''" "''10.0.0.1''" "\<lparr>bc_name = ''b'', bc_port = 40004\<rparr>" 21]
  by (simp add: sample_beacons_def beacon_address_def)

theorem beacons_kept_forever_witness: "t_freed sample_beacons = [] \<and> map_option snd (m_owned_messages sample_beacons 0) = Some 21"
  using beacons_kept_forever [OF sample_beacons_run] by simp

theorem released_beacon_frees_last_witness:
  "\<exists>r b. t_messages sample_beacons r = Some (beacon_object 0 b) \<and> bc_name (sb_content b) = ''a'' \<and>
     t_freed (release_owned_message r sample_beacons) = [21]"
proof -
  obtain refs k where "beacon_inv 0 []
     [(\<lparr>sb_address = ''10.0.0.2'', sb_content = \<lparr>bc_name = ''a'', bc_port = 40004\<rparr>\<rparr>, 20),
      (\<lparr>sb_address = ''localhost'', sb_content = \<lparr>bc_name = ''b'', bc_port = 40004\<rparr>\<rparr>, 21)] refs k sample_beacons"
    using beacon_run_inv [OF sample_beacons_run] by blast
  then obtain r b where r: "t_messages sample_beacons r = Some (beacon_object 0 b)" "bc_name (sb_content b) = ''a''"
    by (cases refs) (auto simp: beacon_inv_def)
  have "t_freed (release_owned_message r sample_beacons) = [21]"
    using released_beacon_frees_last [OF sample_beacons_run r(1)] by simp
  with r show ?thesis by blast
qed

end
