(* ===== verification/Zst_Actor.thy ===== *)
theory Zst_Actor
  imports Zst_Datagrams
begin

text \<open>
  The actors that read sockets (\<open>ZstActor.cpp\<close>), the count of references that decides when ZeroMQ is shut down
  (\<open>ZstZMQRefCounter.cpp\<close>), and with them the opening and closing of the transports:
  \<open>ZstZMQClientTransport\<close>, \<open>ZstZMQServerTransport\<close>, the graph transports and \<open>ZstServiceDiscoveryTransport\<close>.

  The static variables of the counter are a record that every operation takes and returns. Its field
  \<open>zr_open\<close> counts the sockets and actors that the process has open in czmq, and \<open>zr_shutdowns\<close> lists that number at
  every call of \<open>zsys_shutdown\<close>, which must come when none is left. The event loops of czmq are what the code
  registers with them; whether a socket could be created is an argument.
\<close>

section \<open>The count of references\<close>

record zmq_refs =
  s_total_ref_count :: int
  s_zmq_ref_counts :: "string \<Rightarrow> int option"
  zr_open :: int
  zr_shutdowns :: "int list"

definition zmq_refs_new :: zmq_refs where
  "zmq_refs_new = \<lparr>s_total_ref_count = 0, s_zmq_ref_counts = (\<lambda>_. None), zr_open = 0, zr_shutdowns = []\<rparr>"

definition ref_count :: "zmq_refs \<Rightarrow> string \<Rightarrow> int" where
  "ref_count w ref_name = (case s_zmq_ref_counts w ref_name of None \<Rightarrow> 0 | Some n \<Rightarrow> n)"

definition zst_zmq_inc_ref_count :: "string \<Rightarrow> zmq_refs \<Rightarrow> zmq_refs" where
  "zst_zmq_inc_ref_count ref_name w =
     w\<lparr>s_total_ref_count := s_total_ref_count w + 1,
       s_zmq_ref_counts := (s_zmq_ref_counts w)(ref_name \<mapsto> ref_count w ref_name + 1)\<rparr>"

definition zst_zmq_dec_ref_count :: "string \<Rightarrow> zmq_refs \<Rightarrow> zmq_refs" where
  "zst_zmq_dec_ref_count ref_name w =
     (let w1 = w\<lparr>s_total_ref_count := s_total_ref_count w - 1,
                 s_zmq_ref_counts := (s_zmq_ref_counts w)(ref_name \<mapsto> ref_count w ref_name - 1)\<rparr>
      in if s_total_ref_count w1 \<le> 0 then w1\<lparr>zr_shutdowns := zr_shutdowns w1 @ [zr_open w1]\<rparr> else w1)"

text \<open>A socket or an actor is opened, and one is destroyed.\<close>

definition czmq_open :: "zmq_refs \<Rightarrow> zmq_refs" where
  "czmq_open w = w\<lparr>zr_open := zr_open w + 1\<rparr>"

definition czmq_close :: "zmq_refs \<Rightarrow> zmq_refs" where
  "czmq_close w = w\<lparr>zr_open := zr_open w - 1\<rparr>"

section \<open>Actors\<close>

text \<open>
  A loop of czmq is the list of the sockets it reads and the ids of its timers. The constructor leaves
  \<open>m_is_running\<close> indeterminate; its value is the argument of \<open>actor_new\<close>. \<open>'f\<close> is what a timer calls.
\<close>

record zloop =
  zl_readers :: "string list"
  zl_timers :: "int list"

record 'f actor =
  m_actor_name :: string
  m_loop :: "zloop option"
  m_is_running :: bool
  m_loop_actor :: bool
  m_timers :: "int \<Rightarrow> 'f option"

definition actor_new :: "bool \<Rightarrow> 'f actor" where
  "actor_new indeterminate =
     \<lparr>m_actor_name = '''', m_loop = None, m_is_running = indeterminate, m_loop_actor = False, m_timers = (\<lambda>_. None)\<rparr>"

definition actor_init :: "string \<Rightarrow> 'f actor \<times> zmq_refs \<Rightarrow> 'f actor \<times> zmq_refs" where
  "actor_init name aw =
     ((fst aw)\<lparr>m_actor_name := name, m_loop := Some \<lparr>zl_readers = [], zl_timers = []\<rparr>\<rparr>,
      zst_zmq_inc_ref_count name (snd aw))"

definition start_loop :: "'f actor \<times> zmq_refs \<Rightarrow> 'f actor \<times> zmq_refs" where
  "start_loop aw = ((fst aw)\<lparr>m_is_running := True, m_loop_actor := True\<rparr>, czmq_open (snd aw))"

text \<open>
  \<open>zactor_destroy\<close> sends \<open>$TERM\<close> and returns when the thread has ended, which destroys the loop.
\<close>

definition stop_loop :: "'f actor \<times> zmq_refs \<Rightarrow> 'f actor \<times> zmq_refs" where
  "stop_loop aw =
     (let (a, w) = aw
      in if m_is_running a then
           (a\<lparr>m_loop := None, m_loop_actor := False, m_is_running := False\<rparr>,
            if m_loop_actor a then zst_zmq_dec_ref_count (m_actor_name a) (czmq_close w) else w)
         else (a, w))"

definition attach_pipe_listener :: "string \<Rightarrow> 'f actor \<Rightarrow> 'f actor" where
  "attach_pipe_listener sock a =
     a\<lparr>m_loop := map_option (\<lambda>l. l\<lparr>zl_readers := zl_readers l @ [sock]\<rparr>) (m_loop a)\<rparr>"

definition remove_pipe_listener :: "string \<Rightarrow> 'f actor \<Rightarrow> 'f actor" where
  "remove_pipe_listener sock a =
     a\<lparr>m_loop := map_option (\<lambda>l. l\<lparr>zl_readers := removeAll sock (zl_readers l)\<rparr>) (m_loop a)\<rparr>"

text \<open>\<open>timer_id\<close> is the id that \<open>zloop_timer\<close> returns. Nothing removes an entry of \<open>m_timers\<close>.\<close>

definition attach_timer :: "int \<Rightarrow> 'f \<Rightarrow> 'f actor \<Rightarrow> 'f actor \<times> int" where
  "attach_timer timer_id timer_func a =
     (a\<lparr>m_loop := map_option (\<lambda>l. l\<lparr>zl_timers := zl_timers l @ [timer_id]\<rparr>) (m_loop a),
        m_timers := (m_timers a)(timer_id \<mapsto> timer_func)\<rparr>, timer_id)"

definition detach_timer :: "int \<Rightarrow> 'f actor \<Rightarrow> 'f actor" where
  "detach_timer timer_id a =
     (if m_is_running a
      then a\<lparr>m_loop := map_option (\<lambda>l. l\<lparr>zl_timers := removeAll timer_id (zl_timers l)\<rparr>) (m_loop a)\<rparr>
      else a)"

definition s_handle_timer :: "int \<Rightarrow> 'f actor \<Rightarrow> 'f option" where
  "s_handle_timer timer_id a = m_timers a timer_id"

section \<open>Commands of an actor\<close>

text \<open>
  What \<open>s_handle_actor_pipe\<close> does with a command, its socket and its message; the loop ends when the status is
  negative. Sending to no socket fails an assertion of czmq, which ends the process.
\<close>

datatype 'm pipe_effect =
    Pipe_Signal                  \<comment> \<open>the actor has ended\<close>
  | Pipe_Send string 'm          \<comment> \<open>a message is sent to a socket\<close>
  | Pipe_Pong
  | Pipe_Unknown                 \<comment> \<open>an unknown command is logged\<close>
  | Pipe_Abort

record 'm pipe_command =
  pc_command :: string
  pc_sock :: "string option"
  pc_msg :: "'m option"

definition s_handle_actor_pipe :: "'m pipe_command \<Rightarrow> int \<times> 'm pipe_effect list" where
  "s_handle_actor_pipe c =
     (if pc_command c = ''$TERM'' then (- 1, [Pipe_Signal])
      else if pc_command c = ''s'' then
        (case pc_sock c of
           None \<Rightarrow> (0, [Pipe_Abort])
         | Some sock \<Rightarrow> (case pc_msg c of None \<Rightarrow> (0, []) | Some m \<Rightarrow> (0, [Pipe_Send sock m])))
      else if pc_command c = ''PING'' then (0, [Pipe_Pong])
      else (0, [Pipe_Unknown]))"

text \<open>\<open>actor_thread_func\<close>: the loop runs the handler on each command of the pipe until one ends it.\<close>

fun actor_thread_func :: "'m pipe_command list \<Rightarrow> 'm pipe_effect list" where
  "actor_thread_func [] = []"
| "actor_thread_func (c # cs) =
     (let (status, effects) = s_handle_actor_pipe c
      in if status < 0 then effects else effects @ actor_thread_func cs)"

text \<open>\<open>send_to_socket\<close> puts a command into the pipe of a running actor.\<close>

definition send_to_socket ::
  "string \<Rightarrow> 'm \<Rightarrow> 'f actor \<Rightarrow> 'm pipe_command list \<Rightarrow> 'm pipe_command list \<times> int" where
  "send_to_socket sock msg a pipe =
     (if m_loop_actor a then (pipe @ [\<lparr>pc_command = ''s'', pc_sock = Some sock, pc_msg = Some msg\<rparr>], 0)
      else (pipe, - 1))"

definition TERM_command :: "'m pipe_command" where
  "TERM_command = \<lparr>pc_command = ''$TERM'', pc_sock = None, pc_msg = None\<rparr>"

fun send_all :: "string \<Rightarrow> 'm list \<Rightarrow> 'f actor \<Rightarrow> 'm pipe_command list \<Rightarrow> 'm pipe_command list" where
  "send_all sock [] a pipe = pipe"
| "send_all sock (m # ms) a pipe = send_all sock ms a (fst (send_to_socket sock m a pipe))"

lemma send_all_pipe:
  "m_loop_actor a \<Longrightarrow>
     send_all sock ms a pipe = pipe @ map (\<lambda>m. \<lparr>pc_command = ''s'', pc_sock = Some sock, pc_msg = Some m\<rparr>) ms"
  by (induction ms arbitrary: pipe) (auto simp: send_to_socket_def)

lemma actor_thread_sends:
  "actor_thread_func (map (\<lambda>m. \<lparr>pc_command = ''s'', pc_sock = Some sock, pc_msg = Some m\<rparr>) ms @ TERM_command # rest) =
     map (Pipe_Send sock) ms @ [Pipe_Signal]"
  by (induction ms) (auto simp: s_handle_actor_pipe_def TERM_command_def)

text \<open>
  Everything that is given to a running actor before it is stopped is sent to the socket in order before the
  actor ends, and nothing that comes later; an actor without a loop takes nothing.
\<close>

lemma actor_sends_before_stop:
  "m_loop_actor a \<Longrightarrow>
     actor_thread_func (send_all sock ms a [] @ TERM_command # rest) = map (Pipe_Send sock) ms @ [Pipe_Signal]"
  by (simp add: send_all_pipe actor_thread_sends)

lemma stopped_actor_sends_nothing:
  "\<not> m_loop_actor a \<Longrightarrow> send_all sock ms a pipe = pipe"
  by (induction ms arbitrary: pipe) (auto simp: send_to_socket_def)

lemma detached_timer_kept: "m_timers (detach_timer i a) = m_timers a"
  by (simp add: detach_timer_def)

lemma attached_timer_runs: "s_handle_timer i (fst (attach_timer i f a)) = Some f"
  by (simp add: s_handle_timer_def attach_timer_def)

section \<open>Transports with their actors\<close>

text \<open>
  \<open>ZstTransportLayerBase::init\<close> and \<open>destroy\<close> set \<open>m_is_active\<close>; the functions of czmq that set an option of
  a socket fail an assertion when there is no socket, so that the server and the TCP transport only come back from
  \<open>init\<close> with their sockets.
\<close>

record client_transport =
  ct_layer :: stage_transport
  ct_is_active :: bool
  m_client_actor :: "unit actor"
  m_server_sock :: bool
  ct_server_addr :: string
  ct_connections :: "string set"

definition client_transport_new :: "bool \<Rightarrow> transport \<Rightarrow> client_transport" where
  "client_transport_new indeterminate self =
     \<lparr>ct_layer = transport_new self, ct_is_active = False, m_client_actor = actor_new indeterminate,
      m_server_sock = False, ct_server_addr = '''', ct_connections = {}\<rparr>"

definition client_transport_init :: "bool \<Rightarrow> client_transport \<times> zmq_refs \<Rightarrow> client_transport \<times> zmq_refs" where
  "client_transport_init created tw =
     (let t = (fst tw)\<lparr>ct_is_active := True\<rparr>;
          (a, w) = actor_init ''client_actor'' (m_client_actor t, snd tw)
      in if \<not> created then (t\<lparr>m_client_actor := a, m_server_sock := False\<rparr>, w)
         else
           let (a1, w1) = start_loop (attach_pipe_listener ''server_sock'' a, czmq_open w)
           in (t\<lparr>m_client_actor := a1, m_server_sock := True\<rparr>, zst_zmq_inc_ref_count ''client_sock'' w1))"

definition client_transport_destroy :: "client_transport \<times> zmq_refs \<Rightarrow> client_transport \<times> zmq_refs" where
  "client_transport_destroy tw =
     (let t = fst tw;
          (a, w) = stop_loop (m_client_actor t, snd tw);
          (t1, w1) =
            (if m_server_sock t
             then (t\<lparr>m_client_actor := remove_pipe_listener ''server_sock'' a, m_server_sock := False, ct_connections := {}\<rparr>,
                   zst_zmq_dec_ref_count ''client_sock'' (czmq_close w))
             else (t\<lparr>m_client_actor := a\<rparr>, w))
      in (t1\<lparr>ct_is_active := False\<rparr>, w1))"

text \<open>\<open>connects\<close> says whether the address could be connected to.\<close>

definition client_transport_connect :: "bool \<Rightarrow> string \<Rightarrow> client_transport \<Rightarrow> client_transport" where
  "client_transport_connect connects address t =
     (let t1 = t\<lparr>ct_server_addr := ''tcp://'' @ address\<rparr>
      in if m_server_sock t1 \<and> connects
         then t1\<lparr>ct_connections := insert (ct_server_addr t1) (ct_connections t1),
                 ct_layer := (ct_layer t1)\<lparr>m_is_connected := True\<rparr>\<rparr>
         else t1)"

definition client_transport_disconnect :: "client_transport \<Rightarrow> client_transport" where
  "client_transport_disconnect t =
     (if m_server_sock t
      then t\<lparr>ct_connections := ct_connections t - {ct_server_addr t}, ct_layer := (ct_layer t)\<lparr>m_is_connected := False\<rparr>\<rparr>
      else t)"

record server_transport =
  st_layer :: stage_transport
  st_is_active :: bool
  m_server_actor :: "unit actor"
  m_clients_sock :: bool
  st_port :: int

definition server_transport_new :: "bool \<Rightarrow> transport \<Rightarrow> server_transport" where
  "server_transport_new indeterminate self =
     \<lparr>st_layer = transport_new self, st_is_active = False, m_server_actor = actor_new indeterminate,
      m_clients_sock = False, st_port = - 1\<rparr>"

definition server_transport_init :: "server_transport \<times> zmq_refs \<Rightarrow> server_transport \<times> zmq_refs" where
  "server_transport_init tw =
     (let t = (fst tw)\<lparr>st_is_active := True\<rparr>;
          (a, w) = actor_init ''stage_router'' (m_server_actor t, czmq_open (snd tw));
          (a1, w1) = start_loop (attach_pipe_listener ''clients_sock'' a, w)
      in (t\<lparr>m_clients_sock := True, m_server_actor := a1, st_layer := (st_layer t)\<lparr>m_is_connected := True\<rparr>\<rparr>,
          zst_zmq_inc_ref_count ''server_sock'' w1))"

definition server_transport_destroy :: "server_transport \<times> zmq_refs \<Rightarrow> server_transport \<times> zmq_refs" where
  "server_transport_destroy tw =
     (let t = fst tw;
          (a, w) = stop_loop (m_server_actor t, snd tw);
          w1 = (if m_clients_sock t then zst_zmq_dec_ref_count ''server_sock'' (czmq_close w) else w)
      in (t\<lparr>m_server_actor := a, m_clients_sock := False, st_port := - 1,
             st_layer := (st_layer t)\<lparr>m_is_connected := False\<rparr>, st_is_active := False\<rparr>, w1))"

text \<open>
  \<open>zsock_bind\<close> is what czmq returns for an endpoint: its port, or -1. The test of the source is for the socket,
  not for the port, so that a failure is not reported.
\<close>

definition server_transport_bind :: "(string \<Rightarrow> int) \<Rightarrow> string \<Rightarrow> server_transport \<Rightarrow> server_transport \<times> int" where
  "server_transport_bind zsock_bind address t =
     (let p = zsock_bind (''tcp://'' @ address) in (t\<lparr>st_port := p\<rparr>, p))"

record zmq_graph =
  zg_graph :: graph_transport
  zg_is_active :: bool
  m_graph_actor :: "unit actor"

definition zmq_graph_new :: "bool \<Rightarrow> transport \<Rightarrow> zmq_graph" where
  "zmq_graph_new indeterminate self =
     \<lparr>zg_graph = graph_transport_new self, zg_is_active = False, m_graph_actor = actor_new indeterminate\<rparr>"

definition attach_graph_refs :: "bool \<Rightarrow> bool \<Rightarrow> zmq_refs \<Rightarrow> zmq_refs" where
  "attach_graph_refs in_sock out_sock w =
     (let w1 = (if in_sock then zst_zmq_inc_ref_count ''graphsocket_in'' w else w)
      in if out_sock then zst_zmq_inc_ref_count ''graphsocket_out'' w1 else w1)"

definition destroy_graph_refs :: "graph_transport \<Rightarrow> zmq_refs \<Rightarrow> zmq_refs" where
  "destroy_graph_refs g w =
     (let w1 = (if m_graph_in g then zst_zmq_dec_ref_count ''graphsocket_in'' (czmq_close w) else w)
      in if m_graph_out g then zst_zmq_dec_ref_count ''graphsocket_out'' (czmq_close w1) else w1)"

text \<open>\<open>ZstGraphTransport::init\<close> with \<open>init_graph_sockets\<close> of the TCP and of the UDP transport.\<close>

definition tcp_graph_init ::
  "(string \<Rightarrow> string) \<Rightarrow> string list \<Rightarrow> zmq_graph \<times> zmq_refs \<Rightarrow> zmq_graph \<times> zmq_refs" where
  "tcp_graph_init last_endpoint interfaces gw =
     (let g = (fst gw)\<lparr>zg_is_active := True\<rparr>;
          (a, w) = actor_init ''graph'' (m_graph_actor g, snd gw);
          graph = tcp_init_graph_sockets last_endpoint interfaces (zg_graph g);
          w1 = attach_graph_refs True True (czmq_open (czmq_open w));
          (a1, w2) = start_loop (attach_pipe_listener ''graph_in'' a, w1)
      in (g\<lparr>zg_graph := graph, m_graph_actor := a1\<rparr>, w2))"

definition udp_graph_init ::
  "bool \<Rightarrow> bool \<Rightarrow> string list \<Rightarrow> zmq_graph \<times> zmq_refs \<Rightarrow> zmq_graph \<times> zmq_refs" where
  "udp_graph_init out_sock in_sock interfaces gw =
     (let g = (fst gw)\<lparr>zg_is_active := True\<rparr>;
          (a, w) = actor_init ''graph'' (m_graph_actor g, snd gw);
          graph = udp_init_graph_sockets out_sock in_sock interfaces (zg_graph g);
          (a1, w1) =
            (if \<not> out_sock then (a, w)
             else if \<not> in_sock then (a, czmq_open w)
             else (attach_pipe_listener ''graph_in'' a, attach_graph_refs True True (czmq_open (czmq_open w))));
          (a2, w2) = start_loop (a1, w1)
      in (g\<lparr>zg_graph := graph, m_graph_actor := a2\<rparr>, w2))"

definition zmq_graph_destroy :: "zmq_graph \<times> zmq_refs \<Rightarrow> zmq_graph \<times> zmq_refs" where
  "zmq_graph_destroy gw =
     (let g = fst gw;
          (a, w) = stop_loop (m_graph_actor g, snd gw)
      in (g\<lparr>m_graph_actor := a, zg_graph := destroy_graph_sockets (zg_graph g), zg_is_active := False\<rparr>,
          destroy_graph_refs (zg_graph g) w))"

record zmq_discovery =
  zd_discovery :: service_discovery
  zd_is_active :: bool
  m_beacon_actor :: "unit actor"

definition zmq_discovery_new :: "bool \<Rightarrow> transport \<Rightarrow> zmq_discovery" where
  "zmq_discovery_new indeterminate self =
     \<lparr>zd_discovery = service_discovery_new self, zd_is_active = False, m_beacon_actor = actor_new indeterminate\<rparr>"

definition zmq_discovery_init ::
  "string list \<Rightarrow> bool \<Rightarrow> zmq_discovery \<times> zmq_refs \<Rightarrow> zmq_discovery \<times> zmq_refs" where
  "zmq_discovery_init interfaces created dw =
     (let d = (fst dw)\<lparr>zd_is_active := True, zd_discovery := discovery_init interfaces created (zd_discovery (fst dw))\<rparr>
      in if interfaces = [] then (d, snd dw)
         else
           let (a, w) = actor_init ''beacon_actor'' (m_beacon_actor d, snd dw)
           in if \<not> created then (d\<lparr>m_beacon_actor := a\<rparr>, w)
              else
                let (a1, w1) = start_loop (attach_pipe_listener ''beacon'' a, zst_zmq_inc_ref_count ''beacon'' (czmq_open w))
                in (d\<lparr>m_beacon_actor := a1\<rparr>, w1))"

definition zmq_discovery_destroy :: "zmq_discovery \<times> zmq_refs \<Rightarrow> zmq_discovery \<times> zmq_refs" where
  "zmq_discovery_destroy dw =
     (let d = fst dw;
          (a, w) = stop_loop (m_beacon_actor d, snd dw)
      in (d\<lparr>m_beacon_actor := a, zd_discovery := discovery_destroy (zd_discovery d), zd_is_active := False\<rparr>,
          if m_beacon (zd_discovery d) then zst_zmq_dec_ref_count ''beacon'' (czmq_close w) else w))"

section \<open>The transports of a process\<close>

datatype zmq_transport =
    TClient client_transport
  | TServer server_transport
  | TTcp zmq_graph
  | TUdp zmq_graph
  | TBeacon zmq_discovery

text \<open>What \<open>init\<close> finds: whether the sockets (or the beacon) can be created, and the network.\<close>

record init_env =
  ie_created :: bool
  ie_second :: bool
  ie_interfaces :: "string list"
  ie_endpoint :: "string \<Rightarrow> string"

fun zmq_init :: "init_env \<Rightarrow> zmq_transport \<times> zmq_refs \<Rightarrow> zmq_transport \<times> zmq_refs" where
  "zmq_init e (TClient t, w) = apfst TClient (client_transport_init (ie_created e) (t, w))"
| "zmq_init e (TServer t, w) = apfst TServer (server_transport_init (t, w))"
| "zmq_init e (TTcp g, w) = apfst TTcp (tcp_graph_init (ie_endpoint e) (ie_interfaces e) (g, w))"
| "zmq_init e (TUdp g, w) = apfst TUdp (udp_graph_init (ie_created e) (ie_second e) (ie_interfaces e) (g, w))"
| "zmq_init e (TBeacon d, w) = apfst TBeacon (zmq_discovery_init (ie_interfaces e) (ie_created e) (d, w))"

fun zmq_destroy :: "zmq_transport \<times> zmq_refs \<Rightarrow> zmq_transport \<times> zmq_refs" where
  "zmq_destroy (TClient t, w) = apfst TClient (client_transport_destroy (t, w))"
| "zmq_destroy (TServer t, w) = apfst TServer (server_transport_destroy (t, w))"
| "zmq_destroy (TTcp g, w) = apfst TTcp (zmq_graph_destroy (g, w))"
| "zmq_destroy (TUdp g, w) = apfst TUdp (zmq_graph_destroy (g, w))"
| "zmq_destroy (TBeacon d, w) = apfst TBeacon (zmq_discovery_destroy (d, w))"

text \<open>A transport as its constructor makes it.\<close>

inductive zmq_new :: "zmq_transport \<Rightarrow> bool" where
  "zmq_new (TClient (client_transport_new b self))"
| "zmq_new (TServer (server_transport_new b self))"
| "zmq_new (TTcp (zmq_graph_new b self))"
| "zmq_new (TUdp (zmq_graph_new b self))"
| "zmq_new (TBeacon (zmq_discovery_new b self))"

text \<open>The sockets and actors a transport has open.\<close>

definition graph_open :: "zmq_graph \<Rightarrow> int" where
  "graph_open g =
     of_bool (m_loop_actor (m_graph_actor g)) + of_bool (m_graph_in (zg_graph g)) + of_bool (m_graph_out (zg_graph g))"

fun zmq_holds :: "zmq_transport \<Rightarrow> int" where
  "zmq_holds (TClient t) = of_bool (m_loop_actor (m_client_actor t)) + of_bool (m_server_sock t)"
| "zmq_holds (TServer t) = of_bool (m_loop_actor (m_server_actor t)) + of_bool (m_clients_sock t)"
| "zmq_holds (TTcp g) = graph_open g"
| "zmq_holds (TUdp g) = graph_open g"
| "zmq_holds (TBeacon d) = of_bool (m_loop_actor (m_beacon_actor d)) + of_bool (m_beacon (zd_discovery d))"

text \<open>
  How many references \<open>init\<close> takes that \<open>destroy\<close> will not give back: the actor of a client transport or of a
  beacon that has no socket is never started, and only an actor that runs gives its reference back. And how many
  sockets it leaves open without a reference: the output socket of a UDP transport that has no input socket.
\<close>

fun lost_refs :: "init_env \<Rightarrow> zmq_transport \<Rightarrow> int" where
  "lost_refs e (TClient t) = of_bool (\<not> ie_created e)"
| "lost_refs e (TBeacon d) = of_bool (ie_interfaces e \<noteq> [] \<and> \<not> ie_created e)"
| "lost_refs e _ = 0"

fun lost_sockets :: "init_env \<Rightarrow> zmq_transport \<Rightarrow> int" where
  "lost_sockets e (TUdp g) = of_bool (ie_created e \<and> \<not> ie_second e)"
| "lost_sockets e _ = 0"

text \<open>
  The runs of a process: transports are constructed, those that hold nothing are initialised, and any is
  destroyed. \<open>r\<close> and \<open>s\<close> count the lost references and sockets.
\<close>

inductive zmq_run :: "int \<Rightarrow> int \<Rightarrow> zmq_refs \<Rightarrow> zmq_transport list \<Rightarrow> bool" where
  run_start: "zmq_run 0 0 zmq_refs_new []"
| run_new: "zmq_run r s w ts \<Longrightarrow> zmq_new t \<Longrightarrow> zmq_run r s w (ts @ [t])"
| run_init: "zmq_run r s w ts \<Longrightarrow> i < length ts \<Longrightarrow> zmq_holds (ts ! i) = 0 \<Longrightarrow> zmq_init e (ts ! i, w) = (t', w') \<Longrightarrow>
    zmq_run (r + lost_refs e (ts ! i)) (s + lost_sockets e (ts ! i)) w' (ts[i := t'])"
| run_destroy: "zmq_run r s w ts \<Longrightarrow> i < length ts \<Longrightarrow> zmq_destroy (ts ! i, w) = (t', w') \<Longrightarrow>
    zmq_run r s w' (ts[i := t'])"

text \<open>An actor that has a thread runs.\<close>

definition actor_ok :: "'f actor \<Rightarrow> bool" where
  "actor_ok a \<longleftrightarrow> (m_loop_actor a \<longrightarrow> m_is_running a)"

fun zmq_transport_ok :: "zmq_transport \<Rightarrow> bool" where
  "zmq_transport_ok (TClient t) = actor_ok (m_client_actor t)"
| "zmq_transport_ok (TServer t) = actor_ok (m_server_actor t)"
| "zmq_transport_ok (TTcp g) = actor_ok (m_graph_actor g)"
| "zmq_transport_ok (TUdp g) = actor_ok (m_graph_actor g)"
| "zmq_transport_ok (TBeacon d) = actor_ok (m_beacon_actor d)"

lemma ref_count_fields [simp]:
  "s_total_ref_count (zst_zmq_inc_ref_count n w) = s_total_ref_count w + 1"
  "zr_open (zst_zmq_inc_ref_count n w) = zr_open w"
  "zr_shutdowns (zst_zmq_inc_ref_count n w) = zr_shutdowns w"
  "s_total_ref_count (zst_zmq_dec_ref_count n w) = s_total_ref_count w - 1"
  "zr_open (zst_zmq_dec_ref_count n w) = zr_open w"
  "s_total_ref_count (czmq_open w) = s_total_ref_count w"
  "zr_open (czmq_open w) = zr_open w + 1"
  "zr_shutdowns (czmq_open w) = zr_shutdowns w"
  "s_total_ref_count (czmq_close w) = s_total_ref_count w"
  "zr_open (czmq_close w) = zr_open w - 1"
  "zr_shutdowns (czmq_close w) = zr_shutdowns w"
  by (simp_all add: zst_zmq_inc_ref_count_def zst_zmq_dec_ref_count_def czmq_open_def czmq_close_def Let_def)

lemma dec_shutdowns:
  "zr_shutdowns (zst_zmq_dec_ref_count n w) =
     zr_shutdowns w @ (if s_total_ref_count w \<le> 1 then [zr_open w] else [])"
  by (simp add: zst_zmq_dec_ref_count_def Let_def)

lemmas actor_defs = actor_init_def start_loop_def attach_pipe_listener_def remove_pipe_listener_def actor_ok_def

lemmas close_defs = client_transport_destroy_def server_transport_destroy_def zmq_graph_destroy_def
  zmq_discovery_destroy_def destroy_graph_refs_def destroy_graph_sockets_def discovery_destroy_def
  stop_listening_def stop_broadcast_def

lemma zmq_new_holds:
  "zmq_new t \<Longrightarrow> zmq_holds t = 0 \<and> zmq_transport_ok t"
  by (induction rule: zmq_new.induct)
     (simp_all add: client_transport_new_def server_transport_new_def zmq_graph_new_def zmq_discovery_new_def
       actor_new_def graph_transport_new_def service_discovery_new_def graph_open_def actor_ok_def)

lemma zmq_holds_nonneg: "0 \<le> zmq_holds t"
  by (cases t) (simp_all add: graph_open_def)

lemma no_flags:
  "of_bool a + of_bool b = (0 :: int) \<longleftrightarrow> \<not> a \<and> \<not> b"
  "of_bool a + of_bool b + of_bool c = (0 :: int) \<longleftrightarrow> \<not> a \<and> \<not> b \<and> \<not> c"
  by (cases a; cases b; cases c; simp)+

text \<open>What opening adds to the counters: the references taken, the sockets opened.\<close>

definition opened_by :: "int \<Rightarrow> int \<Rightarrow> zmq_refs \<Rightarrow> zmq_refs \<Rightarrow> bool" where
  "opened_by refs sockets w w' \<longleftrightarrow>
     s_total_ref_count w' = s_total_ref_count w + refs \<and> zr_open w' = zr_open w + sockets \<and>
     zr_shutdowns w' = zr_shutdowns w"

lemma client_init_opens:
  assumes "client_transport_init created (t, w) = (t', w')" and "zmq_holds (TClient t) = 0"
  shows "opened_by (zmq_holds (TClient t') + of_bool (\<not> created)) (zmq_holds (TClient t')) w w' \<and> zmq_transport_ok (TClient t')"
proof -
  have off: "\<not> m_loop_actor (m_client_actor t)" "\<not> m_server_sock t"
    using assms(2) by (simp_all add: no_flags)
  show ?thesis
    using assms(1) off by (cases created) (auto simp: client_transport_init_def actor_defs opened_by_def)
qed

lemma server_init_opens:
  assumes "server_transport_init (t, w) = (t', w')"
  shows "opened_by (zmq_holds (TServer t')) (zmq_holds (TServer t')) w w' \<and> zmq_transport_ok (TServer t')"
  using assms by (auto simp: server_transport_init_def actor_defs opened_by_def)

lemma tcp_init_opens:
  assumes "tcp_graph_init endpoint interfaces (g, w) = (g', w')"
  shows "opened_by (graph_open g') (graph_open g') w w' \<and> actor_ok (m_graph_actor g')"
  using assms
  by (auto simp: tcp_graph_init_def actor_defs opened_by_def graph_open_def attach_graph_refs_def
      tcp_init_graph_sockets_def attach_graph_sockets_def)

lemma udp_init_opens:
  assumes "udp_graph_init out_sock in_sock interfaces (g, w) = (g', w')" and "graph_open g = 0"
  shows "opened_by (graph_open g') (graph_open g' + of_bool (out_sock \<and> \<not> in_sock)) w w' \<and> actor_ok (m_graph_actor g')"
proof -
  have off: "\<not> m_graph_in (zg_graph g)" "\<not> m_graph_out (zg_graph g)"
    using assms(2) by (simp_all add: graph_open_def no_flags)
  have g': "g' = fst (udp_graph_init out_sock in_sock interfaces (g, w))"
    and w': "w' = snd (udp_graph_init out_sock in_sock interfaces (g, w))"
    using assms(1) by simp_all
  show ?thesis
    unfolding g' w' using off
    by (cases out_sock; cases in_sock)
       (simp_all add: udp_graph_init_def actor_defs opened_by_def graph_open_def attach_graph_refs_def
         udp_init_graph_sockets_def attach_graph_sockets_def set_graph_addresses_def)
qed

lemma discovery_init_opens:
  assumes "zmq_discovery_init interfaces created (d, w) = (d', w')" and "zmq_holds (TBeacon d) = 0"
    and "actor_ok (m_beacon_actor d)"
  shows "opened_by (zmq_holds (TBeacon d') + of_bool (interfaces \<noteq> [] \<and> \<not> created)) (zmq_holds (TBeacon d')) w w' \<and>
    zmq_transport_ok (TBeacon d')"
proof -
  have off: "\<not> m_loop_actor (m_beacon_actor d)" "\<not> m_beacon (zd_discovery d)"
    using assms(2) by (simp_all add: no_flags)
  show ?thesis
    using assms(1,3) off
    by (cases "interfaces = []"; cases created)
       (auto simp: zmq_discovery_init_def actor_defs opened_by_def discovery_init_def)
qed

lemma zmq_init_opens:
  assumes "zmq_init e (t, w) = (t', w')" and "zmq_holds t = 0" and "zmq_transport_ok t"
  shows "opened_by (zmq_holds t' + lost_refs e t) (zmq_holds t' + lost_sockets e t) w w' \<and> zmq_transport_ok t'"
proof (cases t)
  case (TClient c)
  obtain c' where c': "client_transport_init (ie_created e) (c, w) = (c', w')" "t' = TClient c'"
    using assms(1) TClient by (cases "client_transport_init (ie_created e) (c, w)") auto
  then show ?thesis using client_init_opens[OF c'(1)] assms(2) TClient by simp
next
  case (TServer c)
  obtain c' where c': "server_transport_init (c, w) = (c', w')" "t' = TServer c'"
    using assms(1) TServer by (cases "server_transport_init (c, w)") auto
  then show ?thesis using server_init_opens[OF c'(1)] TServer by simp
next
  case (TTcp g)
  obtain g' where g': "tcp_graph_init (ie_endpoint e) (ie_interfaces e) (g, w) = (g', w')" "t' = TTcp g'"
    using assms(1) TTcp by (cases "tcp_graph_init (ie_endpoint e) (ie_interfaces e) (g, w)") auto
  then show ?thesis using tcp_init_opens[OF g'(1)] TTcp by simp
next
  case (TUdp g)
  obtain g' where g': "udp_graph_init (ie_created e) (ie_second e) (ie_interfaces e) (g, w) = (g', w')" "t' = TUdp g'"
    using assms(1) TUdp by (cases "udp_graph_init (ie_created e) (ie_second e) (ie_interfaces e) (g, w)") auto
  then show ?thesis using udp_init_opens[OF g'(1)] assms(2) TUdp by simp
next
  case (TBeacon d)
  obtain d' where d': "zmq_discovery_init (ie_interfaces e) (ie_created e) (d, w) = (d', w')" "t' = TBeacon d'"
    using assms(1) TBeacon by (cases "zmq_discovery_init (ie_interfaces e) (ie_created e) (d, w)") auto
  then show ?thesis using discovery_init_opens[OF d'(1)] assms(2,3) TBeacon by simp
qed

text \<open>
  Closing takes as many references back as it closes sockets. It shuts ZeroMQ down once, at its end, if the count
  was that of the transport.
\<close>

definition closed_by :: "int \<Rightarrow> zmq_refs \<Rightarrow> zmq_refs \<Rightarrow> bool" where
  "closed_by n w w' \<longleftrightarrow>
     s_total_ref_count w' = s_total_ref_count w - n \<and> zr_open w' = zr_open w - n \<and>
     (n \<le> s_total_ref_count w \<longrightarrow>
        zr_shutdowns w' = zr_shutdowns w @ (if 0 < n \<and> s_total_ref_count w = n then [zr_open w - n] else []))"

lemma closed_by_refl: "closed_by 0 w w"
  by (auto simp: closed_by_def)

lemma closed_by_one: "closed_by 1 w (zst_zmq_dec_ref_count n (czmq_close w))"
  by (auto simp: closed_by_def dec_shutdowns)

lemma closed_by_trans:
  assumes "closed_by m w w1" and "closed_by n w1 w2" and "0 \<le> m" and "0 \<le> n"
  shows "closed_by (m + n) w w2"
  using assms by (auto simp: closed_by_def)

lemma stop_loop_closes:
  assumes "stop_loop (a, w) = (a', w')" and "actor_ok a"
  shows "closed_by (of_bool (m_loop_actor a)) w w' \<and> \<not> m_loop_actor a'"
  using assms by (auto simp: stop_loop_def actor_ok_def closed_by_refl closed_by_one split: if_splits)

lemma close_if:
  "closed_by (of_bool b) w (if b then zst_zmq_dec_ref_count n (czmq_close w) else w)"
  by (simp add: closed_by_refl closed_by_one)

lemma destroy_graph_refs_closes:
  "closed_by (of_bool (m_graph_in g) + of_bool (m_graph_out g)) w (destroy_graph_refs g w)"
  unfolding destroy_graph_refs_def Let_def by (rule closed_by_trans[OF close_if close_if]) auto

lemma graph_destroy_closes:
  assumes "zmq_graph_destroy (g, w) = (g', w')" and "actor_ok (m_graph_actor g)"
  shows "closed_by (graph_open g) w w' \<and> graph_open g' = 0 \<and> actor_ok (m_graph_actor g')"
proof -
  obtain a w1 where l: "stop_loop (m_graph_actor g, w) = (a, w1)" by fastforce
  have s: "closed_by (of_bool (m_loop_actor (m_graph_actor g))) w w1" "\<not> m_loop_actor a"
    using stop_loop_closes[OF l assms(2)] by auto
  have "closed_by (graph_open g) w (destroy_graph_refs (zg_graph g) w1)"
    unfolding graph_open_def add.assoc by (rule closed_by_trans[OF s(1) destroy_graph_refs_closes]) auto
  then show ?thesis
    using assms(1) l s(2)
    by (auto simp: zmq_graph_destroy_def destroy_graph_sockets_def graph_open_def actor_ok_def)
qed

lemma zmq_destroy_closes:
  assumes "zmq_destroy (t, w) = (t', w')" and "zmq_transport_ok t"
  shows "closed_by (zmq_holds t) w w' \<and> zmq_holds t' = 0 \<and> zmq_transport_ok t'"
proof (cases t)
  case (TClient c)
  obtain a w1 where l: "stop_loop (m_client_actor c, w) = (a, w1)" by fastforce
  have s: "closed_by (of_bool (m_loop_actor (m_client_actor c))) w w1" "\<not> m_loop_actor a"
    using stop_loop_closes[OF l] assms(2) TClient by auto
  have "closed_by (zmq_holds t) w (if m_server_sock c then zst_zmq_dec_ref_count ''client_sock'' (czmq_close w1) else w1)"
    unfolding TClient zmq_holds.simps by (rule closed_by_trans[OF s(1) close_if]) auto
  then show ?thesis
    using assms(1) TClient l s(2)
    by (auto simp: client_transport_destroy_def remove_pipe_listener_def actor_ok_def Let_def split: if_splits)
next
  case (TServer c)
  obtain a w1 where l: "stop_loop (m_server_actor c, w) = (a, w1)" by fastforce
  have s: "closed_by (of_bool (m_loop_actor (m_server_actor c))) w w1" "\<not> m_loop_actor a"
    using stop_loop_closes[OF l] assms(2) TServer by auto
  have "closed_by (zmq_holds t) w (if m_clients_sock c then zst_zmq_dec_ref_count ''server_sock'' (czmq_close w1) else w1)"
    unfolding TServer zmq_holds.simps by (rule closed_by_trans[OF s(1) close_if]) auto
  then show ?thesis
    using assms(1) TServer l s(2) by (auto simp: server_transport_destroy_def actor_ok_def Let_def)
next
  case (TBeacon d)
  obtain a w1 where l: "stop_loop (m_beacon_actor d, w) = (a, w1)" by fastforce
  have s: "closed_by (of_bool (m_loop_actor (m_beacon_actor d))) w w1" "\<not> m_loop_actor a"
    using stop_loop_closes[OF l] assms(2) TBeacon by auto
  have "closed_by (zmq_holds t) w
      (if m_beacon (zd_discovery d) then zst_zmq_dec_ref_count ''beacon'' (czmq_close w1) else w1)"
    unfolding TBeacon zmq_holds.simps by (rule closed_by_trans[OF s(1) close_if]) auto
  then show ?thesis
    using assms(1) TBeacon l s(2)
    by (auto simp: zmq_discovery_destroy_def discovery_destroy_def actor_ok_def Let_def)
next
  case (TTcp g)
  then show ?thesis using graph_destroy_closes[of g w] assms by (cases "zmq_graph_destroy (g, w)") auto
next
  case (TUdp g)
  then show ?thesis using graph_destroy_closes[of g w] assms by (cases "zmq_graph_destroy (g, w)") auto
qed

text \<open>
  In every run the count of references is the number of open sockets and actors that the transports hold, plus the
  references that were lost.
\<close>

definition zmq_balanced :: "int \<Rightarrow> int \<Rightarrow> zmq_refs \<Rightarrow> zmq_transport list \<Rightarrow> bool" where
  "zmq_balanced r s w ts \<longleftrightarrow>
     s_total_ref_count w = sum_list (map zmq_holds ts) + r \<and> zr_open w = sum_list (map zmq_holds ts) + s \<and>
     0 \<le> r \<and> 0 \<le> s \<and> list_all zmq_transport_ok ts"

lemma sum_list_holds_update:
  "i < length ts \<Longrightarrow>
     sum_list (map zmq_holds (ts[i := t'])) = sum_list (map zmq_holds ts) - zmq_holds (ts ! i) + zmq_holds t'"
  by (induction ts arbitrary: i) (auto split: nat.splits)

lemma sum_list_holds_nonneg: "0 \<le> sum_list (map zmq_holds ts)"
  by (induction ts) (auto intro: add_nonneg_nonneg zmq_holds_nonneg)

lemma sum_list_holds_ge:
  "i < length ts \<Longrightarrow> zmq_holds (ts ! i) \<le> sum_list (map zmq_holds ts)"
proof (induction ts arbitrary: i)
  case (Cons t ts)
  then show ?case
    using sum_list_holds_nonneg[of ts] zmq_holds_nonneg[of t] by (cases i) (auto simp: add_increasing)
qed simp

lemma lost_nonneg: "0 \<le> lost_refs e t" "0 \<le> lost_sockets e t"
  by (cases t; simp)+

lemma zmq_run_balanced: "zmq_run r s w ts \<Longrightarrow> zmq_balanced r s w ts"
proof (induction rule: zmq_run.induct)
  case run_start
  then show ?case by (simp add: zmq_balanced_def zmq_refs_new_def)
next
  case (run_new r s w ts t)
  then show ?case using zmq_new_holds[of t] by (simp add: zmq_balanced_def)
next
  case (run_init r s w ts i e t' w')
  then have "zmq_transport_ok (ts ! i)" by (simp add: zmq_balanced_def list_all_length)
  note o = zmq_init_opens[OF run_init.hyps(4,3) this]
  show ?case
    using run_init o lost_nonneg[of e "ts ! i"]
    by (auto simp: zmq_balanced_def opened_by_def sum_list_holds_update list_all_length nth_list_update)
next
  case (run_destroy r s w ts i t' w')
  then have "zmq_transport_ok (ts ! i)" by (simp add: zmq_balanced_def list_all_length)
  note c = zmq_destroy_closes[OF run_destroy.hyps(3) this]
  show ?case
    using run_destroy c sum_list_holds_ge[OF run_destroy.hyps(2)]
    by (auto simp: zmq_balanced_def closed_by_def sum_list_holds_update list_all_length nth_list_update)
qed

text \<open>
  C21. In every run of a process the count of references is the number of sockets and actors its transports hold
  open plus the references that were lost. Hence ZeroMQ is shut down exactly by the call that closes the last of
  them, after it has closed it, and never again once a reference has been lost: \<open>init\<close> of a client transport or a
  beacon without a socket loses one. What is open at the shutdown are the output sockets that UDP transports without
  an input socket have lost.
\<close>

theorem zmq_shut_down_by_last:
  assumes "zmq_run r s w ts" and "i < length ts" and "zmq_destroy (ts ! i, w) = (t', w')"
  shows "s_total_ref_count w = sum_list (map zmq_holds ts) + r \<and> zr_open w = sum_list (map zmq_holds ts) + s \<and>
    zmq_holds t' = 0 \<and>
    zr_shutdowns w' = zr_shutdowns w @
      (if r = 0 \<and> 0 < zmq_holds (ts ! i) \<and> sum_list (map zmq_holds (ts[i := t'])) = 0 then [s] else [])"
proof -
  have b: "zmq_balanced r s w ts" by (rule zmq_run_balanced[OF assms(1)])
  then have ok: "zmq_transport_ok (ts ! i)" using assms(2) by (simp add: zmq_balanced_def list_all_length)
  note c = zmq_destroy_closes[OF assms(3) ok]
  have "zmq_holds (ts ! i) \<le> sum_list (map zmq_holds ts)" by (rule sum_list_holds_ge[OF assms(2)])
  then show ?thesis
    using b c assms(2) by (auto simp: zmq_balanced_def closed_by_def sum_list_holds_update)
qed

definition sample_env :: "bool \<Rightarrow> bool \<Rightarrow> init_env" where
  "sample_env created second =
     \<lparr>ie_created = created, ie_second = second, ie_interfaces = [''10.0.0.2''], ie_endpoint = id\<rparr>"

lemmas sample_zmq_defs = sample_env_def zmq_graph_new_def graph_transport_new_def actor_new_def
  udp_graph_init_def udp_init_graph_sockets_def actor_init_def start_loop_def graph_open_def
  attach_pipe_listener_def attach_graph_refs_def attach_graph_sockets_def set_graph_addresses_def

definition sample_udp :: "zmq_transport \<times> zmq_refs" where
  "sample_udp = zmq_init (sample_env True False) (TUdp (zmq_graph_new True 5), zmq_refs_new)"

lemma sample_udp_run: "zmq_run 0 1 (snd sample_udp) [fst sample_udp]"
proof -
  have "zmq_run 0 0 zmq_refs_new [TUdp (zmq_graph_new True 5)]"
    using run_new[OF run_start zmq_new.intros(4)] by simp
  moreover have "zmq_holds ([TUdp (zmq_graph_new True 5)] ! 0) = 0"
    by (simp add: graph_open_def zmq_graph_new_def graph_transport_new_def actor_new_def)
  moreover have "zmq_init (sample_env True False) ([TUdp (zmq_graph_new True 5)] ! 0, zmq_refs_new) =
      (fst sample_udp, snd sample_udp)"
    by (simp only: sample_udp_def prod.collapse nth_Cons_0)
  ultimately have "zmq_run (0 + lost_refs (sample_env True False) (TUdp (zmq_graph_new True 5)))
      (0 + lost_sockets (sample_env True False) (TUdp (zmq_graph_new True 5))) (snd sample_udp)
      ([TUdp (zmq_graph_new True 5)][0 := fst sample_udp])"
    using run_init[of 0 0 zmq_refs_new "[TUdp (zmq_graph_new True 5)]" 0] by simp
  then show ?thesis by (simp add: sample_env_def)
qed

lemma sample_udp_holds: "zmq_holds (fst sample_udp) = 1"
  by (simp add: sample_udp_def sample_zmq_defs)

theorem zmq_shut_down_by_last_witness:
  "zr_shutdowns (snd (zmq_destroy sample_udp)) = zr_shutdowns (snd sample_udp) @ [1]"
proof -
  obtain t' w' where d: "zmq_destroy sample_udp = (t', w')" by fastforce
  then have "zmq_destroy ([fst sample_udp] ! 0, snd sample_udp) = (t', w')" by simp
  from zmq_shut_down_by_last[OF sample_udp_run _ this] show ?thesis
    using d sample_udp_holds by simp
qed

end
