(* ===== verification/Zst_Websocket.thy ===== *)
theory Zst_Websocket
  imports Zst_Datagrams
begin

text \<open>
  The websocket transport of the server: \<open>ZstWebsocketSession\<close> and \<open>ZstWebsocketServerTransport\<close>
  (\<open>src/src/server\<close>). A session reads one message at a time into its buffer and hands it to the event loop
  of the transport, whose completion callback starts the next read; what it writes goes through a queue with one
  write at a time. The operations of Boost.Beast complete at any time: each completion handler is a step. The
  decoding of a message from the bytes of the buffer is an argument.
\<close>

section \<open>Sessions\<close>

type_synonym bytes = "8 word list"

text \<open>
  \<open>ws_accepting\<close>, \<open>ws_reading\<close> and \<open>ws_writing\<close> say that an operation was started and has not completed, \<open>ws_frame\<close>
  is the message in the buffer that waits to be processed, \<open>ws_posted\<close> what was posted to the executor and
  \<open>ws_written\<close> what was written.
\<close>

record ws_session =
  ws_endpoint :: uuid
  ws_accepting :: bool
  ws_reading :: bool
  m_recv_buffer :: bytes
  ws_frame :: "frame option"
  ws_posted :: "message_content list"
  m_out_messages :: "message_content list"
  ws_writing :: bool
  ws_written :: "message_content list"

definition ws_session_new :: "uuid \<Rightarrow> ws_session" where
  "ws_session_new endpoint =
     \<lparr>ws_endpoint = endpoint, ws_accepting = True, ws_reading = False, m_recv_buffer = [], ws_frame = None, ws_posted = [],
      m_out_messages = [], ws_writing = False, ws_written = []\<rparr>"

definition ws_do_read :: "ws_session \<Rightarrow> ws_session" where
  "ws_do_read s = s\<lparr>ws_reading := True\<rparr>"

text \<open>\<open>error\<close> is an error of the operation.\<close>

definition ws_session_on_accept :: "bool \<Rightarrow> ws_session \<Rightarrow> ws_session" where
  "ws_session_on_accept error s =
     (if error then s\<lparr>ws_accepting := False\<rparr> else ws_do_read (s\<lparr>ws_accepting := False\<rparr>))"

datatype ws_read = Read_Closed | Read_Error | Read_Text bytes | Read_Binary bytes

definition ws_do_write :: "message_content \<Rightarrow> ws_session \<Rightarrow> ws_session" where
  "ws_do_write msg s = s\<lparr>ws_posted := ws_posted s @ [msg]\<rparr>"

definition ws_on_send :: "ws_session \<Rightarrow> ws_session" where
  "ws_on_send s =
     (case ws_posted s of
        [] \<Rightarrow> s
      | msg # rest \<Rightarrow>
          let s1 = s\<lparr>ws_posted := rest, m_out_messages := m_out_messages s @ [msg]\<rparr>
          in if length (m_out_messages s1) > 1 then s1 else s1\<lparr>ws_writing := True\<rparr>)"

definition ws_on_write :: "bool \<Rightarrow> ws_session \<Rightarrow> ws_session" where
  "ws_on_write error s =
     (if error then s\<lparr>ws_writing := False\<rparr>
      else
        let s1 = s\<lparr>ws_written := ws_written s @ take 1 (m_out_messages s), m_out_messages := drop 1 (m_out_messages s)\<rparr>
        in s1\<lparr>ws_writing := m_out_messages s1 \<noteq> []\<rparr>)"

section \<open>The transport\<close>

record ws_transport =
  ws_layer :: stage_transport
  m_is_active :: bool
  m_sessions :: "uuid \<Rightarrow> ws_session option"

definition ws_transport_new :: "transport \<Rightarrow> ws_transport" where
  "ws_transport_new self = \<lparr>ws_layer = transport_new self, m_is_active = False, m_sessions = (\<lambda>_. None)\<rparr>"

text \<open>
  \<open>m_is_active\<close> and the thread of the event loop are set by \<open>ZstTransportLayerBase::init\<close>, which
  \<open>ZstWebsocketServerTransport::init\<close> overrides and does not call.
\<close>

definition base_init :: "ws_transport \<Rightarrow> ws_transport" where
  "base_init t = t\<lparr>m_is_active := True\<rparr>"

definition ws_init :: "ws_transport \<Rightarrow> ws_transport" where
  "ws_init t = t\<lparr>ws_layer := (ws_layer t)\<lparr>m_is_connected := True\<rparr>\<rparr>"

definition ws_destroy :: "ws_transport \<Rightarrow> ws_transport" where
  "ws_destroy t = t\<lparr>ws_layer := (ws_layer t)\<lparr>m_is_connected := False\<rparr>\<rparr>"

definition upd_session :: "uuid \<Rightarrow> (ws_session \<Rightarrow> ws_session) \<Rightarrow> ws_transport \<Rightarrow> ws_transport" where
  "upd_session u f t = t\<lparr>m_sessions := (m_sessions t)(u := map_option f (m_sessions t u))\<rparr>"

text \<open>\<open>insert\<close> keeps an entry that is there; \<open>u\<close> is what the generator of random UUIDs returns.\<close>

definition ws_on_accept :: "bool \<Rightarrow> uuid \<Rightarrow> ws_transport \<Rightarrow> ws_transport" where
  "ws_on_accept error u t =
     (if error then t
      else if m_sessions t u \<noteq> None then t
      else t\<lparr>m_sessions := (m_sessions t)(u \<mapsto> ws_session_new u)\<rparr>)"

definition ws_send_message_impl :: "message_content \<Rightarrow> ZstTransportArgs \<Rightarrow> ws_transport \<Rightarrow> ws_transport" where
  "ws_send_message_impl content args t = upd_session (target_endpoint_UUID args) (ws_do_write content) t"

text \<open>
  The end of a read. The bytes are behind those that are in the buffer already; a message gets the nil id, since
  the frames of websockets carry none.
\<close>

definition ws_on_read :: "(bytes \<Rightarrow> message_content) \<Rightarrow> uuid \<Rightarrow> ws_read \<Rightarrow> frame \<Rightarrow> ws_transport \<Rightarrow> ws_transport" where
  "ws_on_read decode u result f t =
     (case m_sessions t u of
        None \<Rightarrow> t
      | Some s \<Rightarrow>
          (case result of
             Read_Closed \<Rightarrow> upd_session u (\<lambda>s. s\<lparr>ws_reading := False\<rparr>) t
           | Read_Error \<Rightarrow> upd_session u (\<lambda>s. s\<lparr>ws_reading := False\<rparr>) t
           | Read_Text bs \<Rightarrow> upd_session u (\<lambda>s. ws_do_read (s\<lparr>m_recv_buffer := m_recv_buffer s @ bs\<rparr>)) t
           | Read_Binary bs \<Rightarrow>
               (upd_session u (\<lambda>s. s\<lparr>ws_reading := False, m_recv_buffer := m_recv_buffer s @ bs, ws_frame := Some f\<rparr>) t)
                 \<lparr>ws_layer := accept_message u 0 (decode (m_recv_buffer s @ bs)) f (ws_layer t)\<rparr>))"

text \<open>The completion callback of a message clears the buffer and reads the next one.\<close>

definition ws_message_done :: "frame set \<Rightarrow> ws_session \<Rightarrow> ws_session" where
  "ws_message_done fs s =
     (case ws_frame s of
        None \<Rightarrow> s
      | Some f \<Rightarrow> if f \<in> fs then ws_do_read (s\<lparr>m_recv_buffer := [], ws_frame := None\<rparr>) else s)"

definition ws_process_events :: "ws_transport \<Rightarrow> ws_transport" where
  "ws_process_events t =
     (let layer = transport_process_events (ws_layer t);
          done_frames = set (drop (length (t_freed (ws_layer t))) (t_freed layer))
      in t\<lparr>ws_layer := layer, m_sessions := (\<lambda>u. map_option (ws_message_done done_frames) (m_sessions t u))\<rparr>)"


definition ws_event_loop :: "ws_transport \<Rightarrow> ws_transport" where
  "ws_event_loop t = (if m_is_active t then ws_process_events t else t)"

section \<open>Writing\<close>

text \<open>The messages given to a session and its completions; \<open>failed\<close> says that a write has failed.\<close>

inductive ws_writes :: "message_content list \<Rightarrow> bool \<Rightarrow> ws_session \<Rightarrow> bool" where
  writes_start: "ws_writes [] False (ws_session_new u)"
| write_given: "ws_writes ms failed s \<Longrightarrow> ws_writes (ms @ [m]) failed (ws_do_write m s)"
| write_posted: "ws_writes ms failed s \<Longrightarrow> ws_writes ms failed (ws_on_send s)"
| write_done: "ws_writes ms failed s \<Longrightarrow> ws_writing s \<Longrightarrow> ws_writes ms (failed \<or> error) (ws_on_write error s)"
| write_other: "ws_writes ms failed s \<Longrightarrow>
    ws_writes ms failed (s\<lparr>ws_accepting := b, ws_reading := b', m_recv_buffer := bs, ws_frame := f\<rparr>)"

text \<open>
  C30. A websocket session writes the messages it is given in their order, each once, one at a time, and while any
  is queued a write is under way; but after a write that failed it never writes again: the failed message stays
  at the head of the queue, and everything it is given from then on is queued behind it.
\<close>

theorem websocket_writes_in_order:
  assumes "ws_writes ms failed s"
  shows "ws_written s @ m_out_messages s @ ws_posted s = ms \<and>
    (if failed then m_out_messages s \<noteq> [] \<and> \<not> ws_writing s else ws_writing s = (m_out_messages s \<noteq> []))"
  using assms
proof (induction rule: ws_writes.induct)
  case (write_posted ms failed s)
  then show ?case by (cases "ws_posted s"; cases "m_out_messages s") (auto simp: ws_on_send_def Let_def split: if_splits)
next
  case (write_done ms failed s error)
  then show ?case by (cases "m_out_messages s") (auto simp: ws_on_write_def Let_def split: if_splits)
qed (simp_all add: ws_session_new_def ws_do_write_def)

definition sample_failed :: ws_session where
  "sample_failed =
     ws_on_write True (ws_on_send (ws_on_send (ws_do_write (Content_SignalMessage Signal_ERR_STAGE_TIMEOUT)
       (ws_do_write (Content_SignalMessage Signal_OK) (ws_session_new 7)))))"

theorem websocket_writes_in_order_witness:
  "ws_written sample_failed @ m_out_messages sample_failed @ ws_posted sample_failed =
     [Content_SignalMessage Signal_OK, Content_SignalMessage Signal_ERR_STAGE_TIMEOUT] \<and> \<not> ws_writing sample_failed"
proof -
  have "ws_writes [Content_SignalMessage Signal_OK, Content_SignalMessage Signal_ERR_STAGE_TIMEOUT] (False \<or> True) sample_failed"
    unfolding sample_failed_def
  proof (rule write_done)
    show "ws_writes [Content_SignalMessage Signal_OK, Content_SignalMessage Signal_ERR_STAGE_TIMEOUT] False
      (ws_on_send (ws_on_send (ws_do_write (Content_SignalMessage Signal_ERR_STAGE_TIMEOUT)
         (ws_do_write (Content_SignalMessage Signal_OK) (ws_session_new 7)))))"
      using write_posted [OF write_posted [OF write_given [OF write_given [OF writes_start [of 7]]]]] by simp
  qed (simp add: ws_on_send_def ws_do_write_def ws_session_new_def Let_def)
  from websocket_writes_in_order [OF this] show ?thesis by simp
qed

section \<open>Reading\<close>

text \<open>The completions of the operations of the sessions, the messages the stage sends and the event loop.\<close>

inductive ws_step :: "(bytes \<Rightarrow> message_content) \<Rightarrow> ws_transport \<Rightarrow> ws_transport \<Rightarrow> bool" for decode t where
  client_accepted: "ws_step decode t (ws_on_accept error u t)"
| session_accepted: "m_sessions t u = Some s \<Longrightarrow> ws_accepting s \<Longrightarrow> ws_step decode t (upd_session u (ws_session_on_accept error) t)"
| read_done: "m_sessions t u = Some s \<Longrightarrow> ws_reading s \<Longrightarrow> ws_step decode t (ws_on_read decode u result f t)"
| message_sent: "ws_step decode t (ws_send_message_impl content args t)"
| message_posted: "ws_step decode t (upd_session u ws_on_send t)"
| message_written: "m_sessions t u = Some s \<Longrightarrow> ws_writing s \<Longrightarrow> ws_step decode t (upd_session u (ws_on_write error) t)"
| loop_runs: "ws_step decode t (ws_event_loop t)"
| transport_destroyed: "ws_step decode t (ws_destroy t)"

definition session_waits :: "ws_session \<Rightarrow> bool" where
  "session_waits s \<longleftrightarrow> (ws_frame s \<noteq> None \<longrightarrow> \<not> ws_reading s) \<and> (ws_frame s \<noteq> None \<or> ws_reading s \<longrightarrow> \<not> ws_accepting s)"

text \<open>The fields of a session that its reads change, and what an unread message pins down.\<close>

definition session_stuck :: "frame \<Rightarrow> bytes \<Rightarrow> ws_session \<Rightarrow> bool" where
  "session_stuck f bs s \<longleftrightarrow> ws_frame s = Some f \<and> m_recv_buffer s = bs \<and> \<not> ws_reading s \<and> \<not> ws_accepting s"

definition ws_idle :: "ws_transport \<Rightarrow> bool" where
  "ws_idle t \<longleftrightarrow> \<not> m_is_active t \<and> t_delivered (ws_layer t) = [] \<and> t_freed (ws_layer t) = [] \<and>
     (\<forall>u s. m_sessions t u = Some s \<longrightarrow> session_waits s)"

lemma get_msg_fields [simp]:
  "t_delivered (snd (get_msg t)) = t_delivered t" "t_freed (snd (get_msg t)) = t_freed t"
  by (auto simp: get_msg_def try_dequeue_msg_def split: list.split)

lemma accept_message_fields [simp]:
  "t_delivered (accept_message u i b f t) = t_delivered t" "t_freed (accept_message u i b f t) = t_freed t"
proof -
  obtain r t1 where g: "get_msg t = (r, t1)" by (cases "get_msg t")
  then have "t_delivered t1 = t_delivered t" "t_freed t1 = t_freed t" using get_msg_fields [of t] by simp_all
  then show "t_delivered (accept_message u i b f t) = t_delivered t" "t_freed (accept_message u i b f t) = t_freed t"
    by (simp_all add: accept_message_def g dispatch_receive_event_def upd_dispatch_events_def upd_message_def split: option.split)
qed

lemma session_waits_ops [simp]:
  "session_waits (ws_session_new u)" "session_waits (ws_do_write m s) = session_waits s"
  "session_waits (ws_on_send s) = session_waits s" "session_waits (ws_on_write e s) = session_waits s"
  by (auto simp: session_waits_def ws_session_new_def ws_do_write_def ws_on_send_def ws_on_write_def Let_def split: list.split)

lemma session_stuck_ops [simp]:
  "session_stuck f bs (ws_do_write m s) = session_stuck f bs s" "session_stuck f bs (ws_on_send s) = session_stuck f bs s"
  "session_stuck f bs (ws_on_write e s) = session_stuck f bs s"
  by (auto simp: session_stuck_def ws_do_write_def ws_on_send_def ws_on_write_def Let_def split: list.split)

lemma step_idle:
  assumes "ws_step decode t t'" and "ws_idle t"
  shows "ws_idle t'"
  using assms
proof cases
  case (read_done u s result f)
  have "session_waits s" using assms(2) read_done(2) by (simp add: ws_idle_def)
  then have "ws_frame s = None" "\<not> ws_accepting s" using read_done(3) by (auto simp: session_waits_def)
  then show ?thesis
    using assms(2) read_done
    by (cases result) (auto simp: ws_idle_def ws_on_read_def upd_session_def session_waits_def ws_do_read_def split: if_splits)
next
  case (session_accepted u s error)
  have "session_waits s" using assms(2) session_accepted(2) by (simp add: ws_idle_def)
  then have "session_waits (ws_session_on_accept error s)"
    using session_accepted(3) by (cases "ws_frame s") (auto simp: session_waits_def ws_session_on_accept_def ws_do_read_def)
  then show ?thesis using assms(2) session_accepted by (auto simp: ws_idle_def upd_session_def)
qed (auto simp: ws_idle_def ws_on_accept_def upd_session_def ws_send_message_impl_def ws_event_loop_def ws_destroy_def split: if_splits)

lemma step_stuck:
  assumes "ws_step decode t t'" and "ws_idle t" and "m_sessions t u = Some s" and "session_stuck f bs s"
  shows "\<exists>s'. m_sessions t' u = Some s' \<and> session_stuck f bs s'"
  using assms(1)
proof cases
  case (read_done v s' result g)
  then have "u \<noteq> v" using assms(3,4) by (auto simp: session_stuck_def)
  then show ?thesis using read_done assms(3,4) by (cases result) (auto simp: ws_on_read_def upd_session_def)
next
  case (session_accepted v s' error)
  then have "u \<noteq> v" using assms(3,4) by (auto simp: session_stuck_def)
  then show ?thesis using session_accepted assms(3,4) by (auto simp: upd_session_def)
next
  case (message_posted v)
  then show ?thesis
    using assms(3,4) by (auto simp: upd_session_def)
next
  case (message_written v s' error)
  then show ?thesis
    using assms(3,4) by (auto simp: upd_session_def)
qed (use assms(2-4) in \<open>auto simp: ws_on_accept_def upd_session_def ws_send_message_impl_def ws_idle_def ws_event_loop_def ws_destroy_def\<close>)

text \<open>
  C22. The websocket transport never processes a message, since its \<open>init\<close> does not start the event loop:
  no message that a websocket client sends reaches the modules of the stage, and a session that has read one
  message never reads another, whatever happens.
\<close>

theorem websocket_never_processes:
  assumes "(ws_step decode)\<^sup>*\<^sup>* (ws_init (ws_transport_new self)) t" and "(ws_step decode)\<^sup>*\<^sup>* t t'"
  shows "t_delivered (ws_layer t') = [] \<and>
    (\<forall>u s f. m_sessions t u = Some s \<longrightarrow> ws_frame s = Some f \<longrightarrow>
       (\<exists>s'. m_sessions t' u = Some s' \<and> ws_frame s' = Some f \<and> m_recv_buffer s' = m_recv_buffer s \<and> \<not> ws_reading s'))"
proof -
  have "t_delivered (transport_new self) = []" "t_freed (transport_new self) = []" by (simp_all add: transport_new_def)
  then have "ws_idle (ws_init (ws_transport_new self))" by (simp add: ws_idle_def ws_init_def ws_transport_new_def)
  with assms(1) have idle: "ws_idle t" by induction (auto intro: step_idle)
  have later: "ws_idle t' \<and> (\<forall>u s f. m_sessions t u = Some s \<longrightarrow> ws_frame s = Some f \<longrightarrow>
       (\<exists>s'. m_sessions t' u = Some s' \<and> session_stuck f (m_recv_buffer s) s'))"
    using assms(2)
  proof induction
    case base
    then show ?case using idle by (fastforce simp: ws_idle_def session_waits_def session_stuck_def)
  next
    case (step t1 t2)
    then show ?case using step_idle step_stuck by blast
  qed
  then show ?thesis by (fastforce simp: ws_idle_def session_stuck_def)
qed

text \<open>
  A text message, which the session refuses, stays in its buffer: the next binary message is decoded from the
  bytes of both.
\<close>

theorem websocket_text_corrupts_next:
  assumes "m_sessions t u = Some s" and "m_recv_buffer s = []" and "pool_ok (ws_layer t) (map fst (queue (ws_layer t)))"
  shows "let t' = ws_on_read decode u (Read_Binary bs) f (ws_on_read decode u (Read_Text txt) g t) in
    \<exists>r m. last (queue (ws_layer t')) = (r, f) \<and> t_messages (ws_layer t') r = Some m \<and>
      mo_buffer m = Some (decode (txt @ bs)) \<and> mo_origin m = u \<and> mo_id m = 0"
proof -
  let ?l = "ws_layer t"
  let ?t' = "ws_on_read decode u (Read_Binary bs) f (ws_on_read decode u (Read_Text txt) g t)"
  obtain r ms n ps m where g: "get_msg ?l = (Some r, ?l\<lparr>t_messages := ms, t_next := n, m_message_pool := ps\<rparr>)" "ms r = Some m"
    by (rule get_msg_pool [OF assms(3)]) blast
  have "ws_layer ?t' = accept_message u 0 (decode (txt @ bs)) f ?l"
    using assms(1,2) by (simp add: ws_on_read_def upd_session_def ws_do_read_def)
  then show ?thesis
    using g by (simp add: accept_message_def dispatch_receive_event_def upd_dispatch_events_def upd_message_def message_init_def
        defer_event_def Let_def)
qed

text \<open>A client whose connection is accepted and that sends a text and then a binary message.\<close>

definition sample_connected :: ws_transport where
  "sample_connected = upd_session 7 (ws_session_on_accept False) (ws_on_accept False 7 (ws_init (ws_transport_new 1)))"

abbreviation lengths :: "bytes \<Rightarrow> message_content" where
  "lengths bs \<equiv> (if length bs = 1 then Content_SignalMessage Signal_OK else Content_SignalMessage Signal_ERR_STAGE_TIMEOUT)"

lemma sample_connected_session:
  "\<exists>s. m_sessions sample_connected 7 = Some s \<and> ws_reading s \<and> m_recv_buffer s = []"
  "ws_layer sample_connected = (transport_new 1)\<lparr>m_is_connected := True\<rparr>"
  by (simp_all add: sample_connected_def upd_session_def ws_session_on_accept_def ws_on_accept_def ws_init_def ws_transport_new_def
      ws_session_new_def ws_do_read_def)

lemma sample_connected_reachable: "(ws_step decode)\<^sup>*\<^sup>* (ws_init (ws_transport_new 1)) sample_connected"
proof -
  have "ws_step decode (ws_init (ws_transport_new 1)) (ws_on_accept False 7 (ws_init (ws_transport_new 1)))"
    by (rule client_accepted)
  moreover have "ws_step decode (ws_on_accept False 7 (ws_init (ws_transport_new 1))) sample_connected"
    unfolding sample_connected_def
    by (rule session_accepted [of _ 7 "ws_session_new 7"]) (simp_all add: ws_on_accept_def ws_init_def ws_transport_new_def ws_session_new_def)
  ultimately show ?thesis by (meson rtranclp.rtrancl_into_rtrancl rtranclp.rtrancl_refl)
qed

theorem websocket_text_corrupts_next_witness:
  "let t' = ws_on_read lengths 7 (Read_Binary [1]) 5 (ws_on_read lengths 7 (Read_Text [2, 3]) 4 sample_connected) in
    \<exists>r m. last (queue (ws_layer t')) = (r, 5) \<and> t_messages (ws_layer t') r = Some m \<and>
      mo_buffer m = Some (Content_SignalMessage Signal_ERR_STAGE_TIMEOUT) \<and> mo_origin m = 7 \<and> mo_id m = 0"
proof -
  obtain s where s: "m_sessions sample_connected 7 = Some s" "m_recv_buffer s = []" using sample_connected_session(1) by blast
  have new: "queue (transport_new 1 :: stage_transport) = []" by (simp add: transport_new_def dispatcher_new_def)
  have "pool_ok (ws_layer sample_connected) (map fst (queue (ws_layer sample_connected)))"
    unfolding sample_connected_session(2)
    using pool_ok_cong [OF _ _ _ transport_new_pool, of "(transport_new 1)\<lparr>m_is_connected := True\<rparr>" 1] new by simp
  from websocket_text_corrupts_next [OF s this, of lengths "[1]" 5 "[2, 3]" 4] show ?thesis by simp
qed

theorem websocket_never_processes_witness:
  "let t = ws_on_read lengths 7 (Read_Binary [1]) 5 sample_connected in
    t_delivered (ws_layer (ws_event_loop t)) = [] \<and>
    (\<exists>s. m_sessions (ws_event_loop t) 7 = Some s \<and> ws_frame s = Some 5 \<and> \<not> ws_reading s)"
proof -
  define t where "t = ws_on_read lengths 7 (Read_Binary [1]) 5 sample_connected"
  obtain s where s: "m_sessions sample_connected 7 = Some s" "ws_reading s" using sample_connected_session(1) by blast
  then have "ws_step lengths sample_connected t" unfolding t_def by (rule read_done)
  with sample_connected_reachable have "(ws_step lengths)\<^sup>*\<^sup>* (ws_init (ws_transport_new 1)) t"
    by (rule rtranclp.rtrancl_into_rtrancl)
  moreover have run: "(ws_step lengths)\<^sup>*\<^sup>* t (ws_event_loop t)" by (rule r_into_rtranclp [of "ws_step lengths", OF loop_runs])
  moreover obtain s' where "m_sessions t 7 = Some s'" "ws_frame s' = Some 5"
    using s by (simp add: t_def ws_on_read_def upd_session_def)
  ultimately have "t_delivered (ws_layer (ws_event_loop t)) = [] \<and>
      (\<exists>s. m_sessions (ws_event_loop t) 7 = Some s \<and> ws_frame s = Some 5 \<and> \<not> ws_reading s)"
    using websocket_never_processes [of lengths 1 t "ws_event_loop t"] by blast
  then show ?thesis by (simp only: t_def [symmetric] Let_def)
qed

end
