(* ===== verification/Zst_Server.thy ===== *)
theory Zst_Server
  imports Zst_Actor Zst_Websocket Zst_Rounds
begin

text \<open>
  A server as a whole: \<open>ZstStage::init\<close> and \<open>destroy\<close> (\<open>src/src/server/ZstStage.cpp\<close>), which open and close
  the transports around the session of \<open>Zst_Stage\<close>, the wrapper \<open>ShowtimeServer\<close> and the standalone program
  \<open>ZstStageRunner.cpp\<close>. What the network finds (sockets, ports, interfaces) is the argument \<open>server_env\<close>; the
  counters of ZeroMQ are taken and returned as in \<open>Zst_Actor\<close>, the event loop is in \<open>Zst_Wakeup\<close>.
\<close>

section \<open>The stage and its transports\<close>

definition HEARTBEAT_DURATION_ms :: int where
  "HEARTBEAT_DURATION_ms = 1000"

definition STAGE_HEARTBEAT_CHECK :: int where
  "STAGE_HEARTBEAT_CHECK = HEARTBEAT_DURATION_ms * 2"

definition STAGE_WEBSOCKET_PORT :: int where
  "STAGE_WEBSOCKET_PORT = 40005"

text \<open>The threads of the stage, by what they run.\<close>

datatype stage_thread = EventLoopThread | TimerThread

record zst_stage =
  st_is_destroyed :: bool
  m_session :: stage
  m_router_transport :: server_transport
  m_websocket_transport :: ws_transport
  m_acceptor :: bool
    \<comment> \<open>the acceptor of the websocket transport accepts connections\<close>
  m_service_broadcast_transport :: zmq_discovery
  st_heartbeat_timer :: "int option"
    \<comment> \<open>the milliseconds of the wait that is under way\<close>
  m_session_router_events :: "transport set"
  m_hierarchy_router_events :: "transport set"
  m_threads :: "stage_thread list"

record server_env =
  se_zsock_bind :: "string \<Rightarrow> int"
  se_acceptor :: "bool list"
    \<comment> \<open>the errors of opening, binding, setting the option and listening\<close>
  se_interfaces :: "string list"
  se_beacon :: bool

definition ROUTER :: transport where "ROUTER = 0"
definition WEBSOCKET :: transport where "WEBSOCKET = 1"
definition DISCOVERY :: transport where "DISCOVERY = 2"

text \<open>The arguments are the indeterminate flags of the two actors.\<close>

definition zst_stage_new :: "bool \<Rightarrow> bool \<Rightarrow> zst_stage" where
  "zst_stage_new b b' =
     \<lparr>st_is_destroyed = False, m_session = stage_new, m_router_transport = server_transport_new b ROUTER,
      m_websocket_transport = ws_transport_new WEBSOCKET, m_acceptor = False,
      m_service_broadcast_transport = zmq_discovery_new b' DISCOVERY, st_heartbeat_timer = None,
      m_session_router_events = {}, m_hierarchy_router_events = {}, m_threads = []\<rparr>"

text \<open>\<open>ZstWebsocketServerTransport::bind\<close> returns at the first error; otherwise it starts to accept.\<close>

definition ws_bind :: "bool list \<Rightarrow> zst_stage \<Rightarrow> zst_stage \<times> int" where
  "ws_bind errors s = (if True \<in> set errors then (s, - 1) else (s\<lparr>m_acceptor := True\<rparr>, STAGE_WEBSOCKET_PORT))"

definition bind_address :: "int \<Rightarrow> string" where
  "bind_address port = ''*:'' @ (if port > 0 then digits_of (nat port) else ''*'')"

text \<open>Messages that a transport receives go to the session and to the hierarchy; what these send goes to both transports.\<close>

definition attach_modules :: "stage_transport \<Rightarrow> stage_transport" where
  "attach_modules t =
     t\<lparr>m_dispatch_events := add_adaptor HierarchyModule (add_adaptor SessionModule (m_dispatch_events t))\<rparr>"

definition attach_transport :: "transport \<Rightarrow> zst_stage \<Rightarrow> zst_stage" where
  "attach_transport t s =
     s\<lparr>m_session_router_events := insert t (m_session_router_events s),
       m_hierarchy_router_events := insert t (m_hierarchy_router_events s)\<rparr>"

definition start_broadcasting :: "string \<Rightarrow> zst_stage \<Rightarrow> zst_stage" where
  "start_broadcasting stage_name s =
     s\<lparr>m_service_broadcast_transport := (m_service_broadcast_transport s)
         \<lparr>zd_discovery := start_broadcast stage_name (word_of_int (st_port (m_router_transport s))) HEARTBEAT_DURATION_ms
            (zd_discovery (m_service_broadcast_transport s))\<rparr>\<rparr>"

definition stop_broadcasting :: "zst_stage \<Rightarrow> zst_stage" where
  "stop_broadcasting s =
     s\<lparr>m_service_broadcast_transport := (m_service_broadcast_transport s)
         \<lparr>zd_discovery := stop_broadcast (zd_discovery (m_service_broadcast_transport s))\<rparr>\<rparr>"

definition zst_stage_init ::
  "server_env \<Rightarrow> string \<Rightarrow> int \<Rightarrow> bool \<Rightarrow> zst_stage \<times> zmq_refs \<Rightarrow> zst_stage \<times> zmq_refs" where
  "zst_stage_init env name port unlisted sw =
     (let (s, w) = sw;
          (router, w1) = server_transport_init (m_router_transport s, w);
          (router1, _) = server_transport_bind (se_zsock_bind env) (bind_address port) router;
          (s1, _) = ws_bind (se_acceptor env) (s\<lparr>m_websocket_transport := ws_init (m_websocket_transport s)\<rparr>);
          (discovery, w2) = zmq_discovery_init (se_interfaces env) (se_beacon env) (m_service_broadcast_transport s, w1);
          s2 = attach_transport ROUTER
            (s1\<lparr>m_service_broadcast_transport := discovery, st_heartbeat_timer := Some STAGE_HEARTBEAT_CHECK,
                m_router_transport := router1\<lparr>st_layer := attach_modules (st_layer router1)\<rparr>\<rparr>);
          s3 = attach_transport WEBSOCKET
            (s2\<lparr>m_websocket_transport := (m_websocket_transport s2)
                  \<lparr>ws_layer := attach_modules (ws_layer (m_websocket_transport s2))\<rparr>\<rparr>);
          s4 = s3\<lparr>m_threads := [TimerThread, EventLoopThread]\<rparr>
      in (if \<not> unlisted then start_broadcasting name s4 else s4, w2))"

text \<open>
  The handler of the timer also runs when the timer is cancelled, since it does not look at the error it is given; it
  starts the timer again while the stage is not being destroyed.
\<close>

definition timer_handler :: "zst_stage \<Rightarrow> zst_stage" where
  "timer_handler s =
     s\<lparr>m_session := stage_heartbeat_timer (m_session s),
       st_heartbeat_timer := (if \<not> st_is_destroyed s then Some STAGE_HEARTBEAT_CHECK else None)\<rparr>"

definition cancel_timer :: "zst_stage \<Rightarrow> zst_stage" where
  "cancel_timer s = (if st_heartbeat_timer s \<noteq> None then timer_handler s else s)"

definition zst_stage_destroy :: "zst_stage \<times> zmq_refs \<Rightarrow> zst_stage \<times> zmq_refs" where
  "zst_stage_destroy sw =
     (let (s, w) = sw
      in if st_is_destroyed s then (s, w)
         else
           let s1 = s\<lparr>st_is_destroyed := True\<rparr>;
               s2 = stop_broadcasting (cancel_timer (s1\<lparr>m_session := send_shutdown_signal (m_session s1)\<rparr>));
               (discovery, w1) = zmq_discovery_destroy (m_service_broadcast_transport s2, w);
               (router, w2) = server_transport_destroy (m_router_transport s2, w1)
           in (s2\<lparr>m_service_broadcast_transport := discovery, m_websocket_transport := ws_destroy (m_websocket_transport s2),
                  m_router_transport := router, m_threads := []\<rparr>, w2))"

definition stage_port :: "zst_stage \<Rightarrow> int" where
  "stage_port s = st_port (m_router_transport s)"

text \<open>\<open>process_events\<close> of the stage drains the queues of the session, then its log events, which change nothing here.\<close>

definition zst_stage_process_events ::
  "float_text \<Rightarrow> (ref \<Rightarrow> ref \<Rightarrow> stage \<Rightarrow> stage) \<Rightarrow> nat \<Rightarrow> zst_stage \<Rightarrow> zst_stage option" where
  "zst_stage_process_events ft compute n s =
     map_option (\<lambda>h. s\<lparr>m_session := h\<rparr>) (stage_process_events ft compute n (m_session s))"

section \<open>The server and its program\<close>

text \<open>\<open>ShowtimeServer\<close> passes its calls on to the stage.\<close>

definition server_init ::
  "server_env \<Rightarrow> string \<Rightarrow> int \<Rightarrow> bool \<Rightarrow> zst_stage \<times> zmq_refs \<Rightarrow> zst_stage \<times> zmq_refs" where
  "server_init env name port unlisted = zst_stage_init env name port unlisted"

definition server_port :: "zst_stage \<Rightarrow> int" where
  "server_port s = stage_port s"

definition server_destroy :: "zst_stage \<times> zmq_refs \<Rightarrow> zst_stage \<times> zmq_refs" where
  "server_destroy = zst_stage_destroy"

text \<open>
  The standalone program. \<open>cxxopts\<close> is a library: \<open>parse\<close> is what it makes of the command line, \<open>None\<close> when it
  raises (outside of the \<open>try\<close> block), and \<open>so_bad\<close> says that reading an option raises. The program is given as
  what it does, in order; \<open>lines\<close> are the lines of its input up to the end of the file.
\<close>

record server_options =
  so_name :: "string option"
  so_port :: "int option"
  so_unlisted :: bool
  so_bad :: bool

datatype server_action =
    Srv_Init string int bool
  | Srv_Sleep                     \<comment> \<open>until a signal arrives\<close>
  | Srv_Read string
  | Srv_Spin                      \<comment> \<open>a loop that nothing ends\<close>
  | Srv_Destroy
  | Srv_Return int
  | Srv_Terminate                 \<comment> \<open>an exception nothing catches\<close>

text \<open>Reading behind the end of the file gives an empty line each time.\<close>

fun wait_for_term :: "string list \<Rightarrow> server_action list" where
  "wait_for_term [] = [Srv_Spin]"
| "wait_for_term (line # lines) = Srv_Read line # (if line = ''$TERM'' then [] else wait_for_term lines)"

definition s_signal_handler :: "int \<Rightarrow> bool \<Rightarrow> bool" where
  "s_signal_handler signal_value s_interrupted = (s_interrupted \<or> signal_value \<in> {2, 15, 9, 6})"

definition server_main :: "(string list \<Rightarrow> server_options option) \<Rightarrow> string list \<Rightarrow> string list \<Rightarrow> server_action list" where
  "server_main parse argv lines =
     (case parse argv of
        None \<Rightarrow> [Srv_Terminate]
      | Some opts \<Rightarrow>
          if so_bad opts then [Srv_Return 1]
          else
            let start = Srv_Init (case so_name opts of None \<Rightarrow> ''stage'' | Some n \<Rightarrow> n)
                  (case so_port opts of None \<Rightarrow> - 1 | Some p \<Rightarrow> p) (so_unlisted opts);
                run = (if length argv < 2 then [Srv_Sleep]
                       else if argv ! 1 = ''-t'' then wait_for_term lines else []);
                stop = [Srv_Destroy, Srv_Return 0]
            in start # run @ (if Srv_Spin \<in> set run then [] else stop))"

section \<open>Opening and closing a server\<close>

lemma new_transports_hold_nothing:
  "zmq_holds (TServer (server_transport_new b self)) = 0" "zmq_holds (TBeacon (zmq_discovery_new b self)) = 0"
  "actor_ok (m_beacon_actor (zmq_discovery_new b self))"
  by (simp_all add: server_transport_new_def zmq_discovery_new_def actor_new_def service_discovery_new_def actor_ok_def)

text \<open>The transports of a stage after \<open>init\<close> and after \<open>destroy\<close>.\<close>

lemma zst_stage_init_transports:
  assumes "zst_stage_init env name port unlisted (s, w) = (s1, w1)"
  obtains router discovery wr where
    "server_transport_init (m_router_transport s, w) = (router, wr)"
    "zmq_discovery_init (se_interfaces env) (se_beacon env) (m_service_broadcast_transport s, wr) = (discovery, w1)"
    "m_router_transport s1 = router\<lparr>st_port := se_zsock_bind env (''tcp://'' @ bind_address port),
       st_layer := attach_modules (st_layer router)\<rparr>"
    "m_service_broadcast_transport s1 = discovery\<lparr>zd_discovery :=
       (if unlisted then zd_discovery discovery
        else start_broadcast name (word_of_int (se_zsock_bind env (''tcp://'' @ bind_address port))) HEARTBEAT_DURATION_ms
               (zd_discovery discovery))\<rparr>"
    "m_session s1 = m_session s" "st_is_destroyed s1 = st_is_destroyed s" "st_heartbeat_timer s1 = Some STAGE_HEARTBEAT_CHECK"
proof -
  obtain router wr where r: "server_transport_init (m_router_transport s, w) = (router, wr)" by fastforce
  obtain discovery wd where d:
    "zmq_discovery_init (se_interfaces env) (se_beacon env) (m_service_broadcast_transport s, wr) = (discovery, wd)"
    by fastforce
  show thesis
    using assms r d
    by (intro that[of router wr discovery]; cases "True \<in> set (se_acceptor env)"; cases unlisted)
       (simp_all add: zst_stage_init_def server_transport_bind_def ws_bind_def attach_transport_def start_broadcasting_def Let_def, auto)
qed

lemma zst_stage_destroy_transports:
  assumes "zst_stage_destroy (s, w) = (s2, w2)" and "\<not> st_is_destroyed s"
  obtains discovery router wd where
    "zmq_discovery_destroy ((m_service_broadcast_transport s)
       \<lparr>zd_discovery := stop_broadcast (zd_discovery (m_service_broadcast_transport s))\<rparr>, w) = (discovery, wd)"
    "server_transport_destroy (m_router_transport s, wd) = (router, w2)"
    "m_router_transport s2 = router" "m_service_broadcast_transport s2 = discovery"
    "st_is_destroyed s2" "st_heartbeat_timer s2 = None" "m_threads s2 = []"
    "m_session s2 = (if st_heartbeat_timer s = None then send_shutdown_signal (m_session s)
                     else stage_heartbeat_timer (send_shutdown_signal (m_session s)))"
proof -
  obtain discovery wd where d: "zmq_discovery_destroy ((m_service_broadcast_transport s)
       \<lparr>zd_discovery := stop_broadcast (zd_discovery (m_service_broadcast_transport s))\<rparr>, w) = (discovery, wd)"
    by fastforce
  obtain router wr where r: "server_transport_destroy (m_router_transport s, wd) = (router, wr)" by fastforce
  show thesis
    using assms d r
    by (intro that[of discovery wd router]; cases "st_heartbeat_timer s")
       (simp_all add: zst_stage_destroy_def stop_broadcasting_def cancel_timer_def timer_handler_def, auto)
qed

text \<open>Starting and stopping to broadcast opens and closes nothing.\<close>

lemma zmq_holds_broadcast:
  "zmq_holds (TBeacon (d\<lparr>zd_discovery := start_broadcast name p i (zd_discovery d)\<rparr>)) = zmq_holds (TBeacon d)"
  "zmq_holds (TBeacon (d\<lparr>zd_discovery := stop_broadcast (zd_discovery d)\<rparr>)) = zmq_holds (TBeacon d)"
  by (simp_all add: start_broadcast_def stop_broadcast_def)

lemma zmq_holds_attach:
  "zmq_holds (TServer (t\<lparr>st_port := p, st_layer := l\<rparr>)) = zmq_holds (TServer t)"
  by simp

text \<open>What the server holds in czmq, and its opening and closing as one transport.\<close>

definition stage_holds :: "zst_stage \<Rightarrow> int" where
  "stage_holds s = zmq_holds (TServer (m_router_transport s)) + zmq_holds (TBeacon (m_service_broadcast_transport s))"

definition stage_actors_ok :: "zst_stage \<Rightarrow> bool" where
  "stage_actors_ok s \<longleftrightarrow> actor_ok (m_server_actor (m_router_transport s)) \<and>
     actor_ok (m_beacon_actor (m_service_broadcast_transport s))"

lemma stage_init_opens:
  assumes "zst_stage_init env name port unlisted (zst_stage_new b b', w) = (s1, w1)"
  shows "opened_by (stage_holds s1 + of_bool (se_interfaces env \<noteq> [] \<and> \<not> se_beacon env)) (stage_holds s1) w w1 \<and>
    stage_actors_ok s1"
proof -
  from assms obtain router discovery wr where
    r: "server_transport_init (server_transport_new b ROUTER, w) = (router, wr)" and
    d: "zmq_discovery_init (se_interfaces env) (se_beacon env) (zmq_discovery_new b' DISCOVERY, wr) = (discovery, w1)" and
    s1: "m_router_transport s1 = router\<lparr>st_port := se_zsock_bind env (''tcp://'' @ bind_address port),
           st_layer := attach_modules (st_layer router)\<rparr>"
      "m_service_broadcast_transport s1 = discovery\<lparr>zd_discovery :=
         (if unlisted then zd_discovery discovery
          else start_broadcast name (word_of_int (se_zsock_bind env (''tcp://'' @ bind_address port))) HEARTBEAT_DURATION_ms
                 (zd_discovery discovery))\<rparr>"
    by (rule zst_stage_init_transports) (simp add: zst_stage_new_def)
  note ro = server_init_opens[OF r] and do = discovery_init_opens[OF d new_transports_hold_nothing(2,3)]
  have "stage_holds s1 = zmq_holds (TServer router) + zmq_holds (TBeacon discovery)"
    unfolding stage_holds_def s1 zmq_holds_attach
    by (cases unlisted) (simp_all only: if_True if_False zmq_holds_broadcast, simp_all)
  moreover have "stage_actors_ok s1" using ro do s1 by (simp add: stage_actors_ok_def)
  ultimately show ?thesis using ro do by (simp add: opened_by_def)
qed

lemma stage_destroy_closes:
  assumes "zst_stage_destroy (s, w) = (s2, w2)" and "\<not> st_is_destroyed s" and "stage_actors_ok s"
  shows "closed_by (stage_holds s) w w2 \<and> stage_holds s2 = 0"
proof -
  obtain discovery router wd where
    d: "zmq_discovery_destroy ((m_service_broadcast_transport s)
       \<lparr>zd_discovery := stop_broadcast (zd_discovery (m_service_broadcast_transport s))\<rparr>, w) = (discovery, wd)" and
    r: "server_transport_destroy (m_router_transport s, wd) = (router, w2)" and
    s2: "m_router_transport s2 = router" "m_service_broadcast_transport s2 = discovery"
    by (rule zst_stage_destroy_transports[OF assms(1,2)])
  have dc: "closed_by (zmq_holds (TBeacon (m_service_broadcast_transport s))) w wd \<and> zmq_holds (TBeacon discovery) = 0"
    using zmq_destroy_closes[of "TBeacon ((m_service_broadcast_transport s)
       \<lparr>zd_discovery := stop_broadcast (zd_discovery (m_service_broadcast_transport s))\<rparr>)" w "TBeacon discovery" wd]
      d assms(3) zmq_holds_broadcast(2) by (simp add: stage_actors_ok_def)
  have rc: "closed_by (zmq_holds (TServer (m_router_transport s))) wd w2 \<and> zmq_holds (TServer router) = 0"
    using zmq_destroy_closes[of "TServer (m_router_transport s)" wd "TServer router" w2] r assms(3)
    by (simp add: stage_actors_ok_def)
  show ?thesis
    using closed_by_trans[OF conjunct1[OF dc] conjunct1[OF rc] zmq_holds_nonneg zmq_holds_nonneg] dc rc s2
    by (simp add: stage_holds_def add.commute)
qed

lemma server_destroy_port: "st_port (fst (server_transport_destroy tw)) = - 1"
  by (simp add: server_transport_destroy_def Let_def split: prod.splits)

lemma stage_init_holds:
  assumes "zst_stage_init env name port unlisted (s, w) = (s1, w1)"
  shows "0 < stage_holds s1"
proof -
  obtain router discovery wr where
    r: "server_transport_init (m_router_transport s, w) = (router, wr)" and
    s1: "m_router_transport s1 = router\<lparr>st_port := se_zsock_bind env (''tcp://'' @ bind_address port),
       st_layer := attach_modules (st_layer router)\<rparr>"
    by (rule zst_stage_init_transports[OF assms])
  have "m_clients_sock router" using r by (auto simp: server_transport_init_def Let_def split: prod.splits)
  then show ?thesis
    using s1 zmq_holds_nonneg[of "TBeacon (m_service_broadcast_transport s1)"] by (simp add: stage_holds_def)
qed

text \<open>
  C16. A server that is initialised and destroyed, whatever its session did in between, closes all it opened and
  gives back every reference, so that ZeroMQ is shut down at its end if nothing else holds a reference; only a
  reference of a beacon that could not be created is lost. The clients are told, the session sees one more
  tick of the heartbeat timer, the port is reset, and a second \<open>destroy\<close> does nothing.
\<close>

theorem server_gives_all_back:
  assumes "zst_stage_init env name port unlisted (zst_stage_new b b', w) = (s1, w1)"
    and "zst_stage_destroy (s1\<lparr>m_session := h\<rparr>, w1) = (s2, w2)" and "0 \<le> s_total_ref_count w"
    and nb: "no_beacon \<longleftrightarrow> se_interfaces env \<noteq> [] \<and> \<not> se_beacon env"
  shows "s_total_ref_count w2 = s_total_ref_count w + of_bool no_beacon \<and> zr_open w2 = zr_open w \<and>
    zr_shutdowns w2 = zr_shutdowns w @ (if s_total_ref_count w = 0 \<and> \<not> no_beacon then [zr_open w] else []) \<and>
    m_session s2 = stage_heartbeat_timer (send_shutdown_signal h) \<and> stage_port s2 = - 1 \<and>
    zst_stage_destroy (s2, w3) = (s2, w3)"
proof -
  let ?s = "s1\<lparr>m_session := h\<rparr>"
  note o = stage_init_opens[OF assms(1)]
  from assms(1) have live: "\<not> st_is_destroyed ?s" and timer: "st_heartbeat_timer ?s \<noteq> None"
    by (auto elim!: zst_stage_init_transports simp: zst_stage_new_def)
  have held: "0 < stage_holds ?s" using stage_init_holds[OF assms(1)] by (simp add: stage_holds_def)
  have "stage_actors_ok ?s" using o by (simp add: stage_actors_ok_def)
  note c = stage_destroy_closes[OF assms(2) live this]
  have "stage_holds ?s = stage_holds s1" by (simp add: stage_holds_def)
  then have counts: "s_total_ref_count w2 = s_total_ref_count w + of_bool no_beacon \<and> zr_open w2 = zr_open w \<and>
      zr_shutdowns w2 = zr_shutdowns w @ (if s_total_ref_count w = 0 \<and> \<not> no_beacon then [zr_open w] else [])"
    using o c held assms(3) nb by (auto simp: opened_by_def closed_by_def)
  obtain discovery router wd where d: "server_transport_destroy (m_router_transport ?s, wd) = (router, w2)"
    "m_router_transport s2 = router" "st_is_destroyed s2"
    "m_session s2 = (if st_heartbeat_timer ?s = None then send_shutdown_signal (m_session ?s)
       else stage_heartbeat_timer (send_shutdown_signal (m_session ?s)))"
    by (rule zst_stage_destroy_transports[OF assms(2) live])
  have "stage_port s2 = - 1"
    using d(1,2) server_destroy_port[of "(m_router_transport ?s, wd)"] by (simp add: stage_port_def)
  then show ?thesis using counts d(3,4) timer by (auto simp: zst_stage_destroy_def)
qed

text \<open>
  C29. A server that is not unlisted publishes its name with the port its router socket was bound to, where the address
  that a client makes of the beacon leads; when binding failed that port is -1, and nothing else tells.
\<close>

theorem server_announces_port:
  assumes "zst_stage_init env name port unlisted (zst_stage_new b b', w) = (s1, w1)"
    and "se_interfaces env \<noteq> []" and "se_beacon env"
    and p: "p = se_zsock_bind env (''tcp://*:'' @ (if port > 0 then digits_of (nat port) else ''*''))"
  shows "stage_port s1 = p \<and> m_is_connected (st_layer (m_router_transport s1)) \<and>
    sd_published (zd_discovery (m_service_broadcast_transport s1)) =
      (if unlisted then None else Some (\<lparr>bc_name = name, bc_port = word_of_int p\<rparr>, HEARTBEAT_DURATION_ms)) \<and>
    server_beacon_to_address \<lparr>sb_address = a, sb_content = \<lparr>bc_name = name, bc_port = word_of_int p\<rparr>\<rparr> =
      \<lparr>server_name = name, server_address = a @ '':'' @ to_string_int (word_of_int p)\<rparr>"
proof -
  obtain router discovery wr where
    r: "server_transport_init (m_router_transport (zst_stage_new b b'), w) = (router, wr)" and
    d: "zmq_discovery_init (se_interfaces env) (se_beacon env)
      (m_service_broadcast_transport (zst_stage_new b b'), wr) = (discovery, w1)" and
    s1: "m_router_transport s1 = router\<lparr>st_port := se_zsock_bind env (''tcp://'' @ bind_address port),
       st_layer := attach_modules (st_layer router)\<rparr>"
    "m_service_broadcast_transport s1 = discovery\<lparr>zd_discovery :=
       (if unlisted then zd_discovery discovery
        else start_broadcast name (word_of_int (se_zsock_bind env (''tcp://'' @ bind_address port))) HEARTBEAT_DURATION_ms
               (zd_discovery discovery))\<rparr>"
    by (rule zst_stage_init_transports[OF assms(1)])
  have "m_is_connected (st_layer router)" using r by (auto simp: server_transport_init_def Let_def split: prod.splits)
  moreover have "m_beacon (zd_discovery discovery)" "sd_published (zd_discovery discovery) = None"
    using d assms(2,3)
    by (auto simp: zmq_discovery_init_def discovery_init_def zst_stage_new_def zmq_discovery_new_def
        service_discovery_new_def Let_def split: prod.splits)
  ultimately show ?thesis
    using s1 p by (simp add: stage_port_def attach_modules_def bind_address_def start_broadcast_def
        server_beacon_to_address_def)
qed

definition sample_unbound_env :: server_env where
  "sample_unbound_env = \<lparr>se_zsock_bind = (\<lambda>_. - 1), se_acceptor = [False, True], se_interfaces = [''10.0.0.2''], se_beacon = True\<rparr>"

definition sample_unbound :: "zst_stage \<times> zmq_refs" where
  "sample_unbound = zst_stage_init sample_unbound_env ''stage'' 0 False (zst_stage_new True False, zmq_refs_new)"

theorem server_gives_all_back_witness:
  "zr_shutdowns (snd (zst_stage_destroy sample_unbound)) = [0]"
proof -
  obtain s1 w1 where i: "sample_unbound = (s1, w1)" by fastforce
  obtain s2 w2 where d: "zst_stage_destroy (s1, w1) = (s2, w2)" by fastforce
  have "zr_shutdowns w2 = [0]"
    using server_gives_all_back[OF i[unfolded sample_unbound_def], of "m_session s1" s2 w2 False] d
    by (simp add: zmq_refs_new_def sample_unbound_env_def)
  then show ?thesis using i d by simp
qed

lemma to_string_minus_one: "to_string_int (- 1) = ''-1''"
  by (simp add: to_string_int_def digits_of.simps) (simp add: char_of_def bit_Suc_0_iff)

theorem server_announces_port_witness:
  "stage_port (fst sample_unbound) = - 1 \<and>
   server_address (server_beacon_to_address \<lparr>sb_address = ''10.0.0.2'', sb_content = \<lparr>bc_name = ''stage'', bc_port = - 1\<rparr>\<rparr>) =
     ''10.0.0.2:-1''"
proof -
  obtain s1 w1 where i: "sample_unbound = (s1, w1)" by fastforce
  have e: "se_interfaces sample_unbound_env \<noteq> []" "se_beacon sample_unbound_env"
    "- 1 = se_zsock_bind sample_unbound_env (''tcp://*:'' @ (if (0 :: int) > 0 then digits_of (nat 0) else ''*''))"
    by (simp_all add: sample_unbound_env_def)
  note a = server_announces_port[OF i[unfolded sample_unbound_def] e]
  have "server_address (server_beacon_to_address \<lparr>sb_address = ''10.0.0.2'',
      sb_content = \<lparr>bc_name = ''stage'', bc_port = word_of_int (- 1)\<rparr>\<rparr>) =
    ''10.0.0.2'' @ '':'' @ to_string_int (word_of_int (- 1))"
    using a[THEN conjunct2, THEN conjunct2, THEN conjunct2] by (simp only: ZstServerAddress.simps)
  moreover have "stage_port (fst sample_unbound) = - 1" using a[THEN conjunct1] by (simp only: i fst_conv)
  ultimately show ?thesis by (simp add: to_string_minus_one)
qed

section \<open>The standalone program\<close>

text \<open>
  With any option on its command line the program ends the server as soon as it has started it: it waits for a
  signal only without options, and for its input only with \<open>-t\<close>.
\<close>

lemma server_with_options_ends:
  assumes "parse argv = Some opts" and "\<not> so_bad opts" and "2 \<le> length argv" and "argv ! 1 \<noteq> ''-t''"
  shows "\<exists>name port unlisted.
    server_main parse argv lines = [Srv_Init name port unlisted, Srv_Destroy, Srv_Return 0]"
  using assms by (simp add: server_main_def)

lemma wait_for_term_spins: "Srv_Spin \<in> set (wait_for_term lines) \<longleftrightarrow> ''$TERM'' \<notin> set lines"
  by (induction lines) auto

text \<open>In test mode it stops at the line \<open>$TERM\<close>, and spins when its input ends without one.\<close>

lemma server_test_mode:
  assumes "parse [prog, ''-t''] = Some opts" and "\<not> so_bad opts"
  shows "last (server_main parse [prog, ''-t''] lines) = (if ''$TERM'' \<in> set lines then Srv_Return 0 else Srv_Spin)"
proof -
  have "Srv_Spin \<in> set (wait_for_term lines) \<Longrightarrow> last (wait_for_term lines) = Srv_Spin"
    by (induction lines) (auto split: if_splits)
  then show ?thesis using assms wait_for_term_spins[of lines] by (cases lines) (auto simp: server_main_def)
qed

end
