(* ===== verification/Zst_Teardown.thy ===== *)
theory Zst_Teardown
  imports Zst_Requests Zst_Wakeup
begin

text \<open>
  The threads of a transport over its life: \<open>init\<close> starts the thread of events, \<open>destroy\<close> ends it and joins the
  pool of threads that send asynchronous requests (\<open>ZstTransportLayerBase.hpp\<close>). What each thread does is in
  \<open>Zst_Transport\<close>; here is when it may, what joining the pool means for the requests that are under way, and what is
  left of a transport that is initialised again.
\<close>

section \<open>The threads\<close>

text \<open>
  A \<open>boost::asio::thread_pool\<close> that has been joined has no threads: what is posted to it later is kept and not run.
\<close>

record layer_threads =
  lt_is_active :: bool
  lt_event_thread :: bool
  lt_pool_joined :: bool
  lt_condition :: ZstSemaphore

definition layer_threads_new :: layer_threads where
  "layer_threads_new =
     \<lparr>lt_is_active = False, lt_event_thread = False, lt_pool_joined = False, lt_condition = semaphore_new\<rparr>"

definition layer_init :: "layer_threads \<Rightarrow> layer_threads" where
  "layer_init th = th\<lparr>lt_is_active := True, lt_event_thread := True\<rparr>"

text \<open>
  The thread of events does not wait for the condition that \<open>destroy\<close> notifies; it ends at its next interruption point.
\<close>

definition layer_destroy :: "layer_threads \<Rightarrow> layer_threads" where
  "layer_destroy th =
     th\<lparr>lt_condition := sem_notify (lt_condition th), lt_event_thread := False, lt_pool_joined := True, lt_is_active := False\<rparr>"

definition layer_event_loop :: "layer_threads \<Rightarrow> stage_transport \<Rightarrow> stage_transport" where
  "layer_event_loop th t = (if lt_event_thread th \<and> lt_is_active th then transport_process_events t else t)"

definition layer_pool :: "layer_threads \<Rightarrow> stage_transport \<Rightarrow> zst_exn + stage_transport" where
  "layer_pool th t = (if lt_pool_joined th then Inr t else async_start t)"

section \<open>Joining the pool\<close>

text \<open>
  \<open>destroy\<close> of the two ZeroMQ transports stops the actor and closes the socket, ends the thread of events, and then
  waits for the pool. From then on no response arrives, a promise keeps the value it has, and what a thread gives to
  the actor is dropped (\<open>stopped_actor_sends_nothing\<close> in \<open>Zst_Actor\<close>); nobody posts anything, as the transport is
  not connected. The four threads of the pool still work in parallel: a thread takes the next request
  that was posted, it registers the promise of the request and begins to wait, and its wait is over. The state is
  the transport and the requests that have been taken and not been registered.
\<close>

definition promised :: "stage_transport \<Rightarrow> uuid \<Rightarrow> msg_ref option" where
  "promised t i = Option.bind (m_response_promises t i) pr_value"







lemma blocking_end_fields:
  "t_posted (blocking_send_end a msg t) = t_posted t" "t_outgoing (blocking_send_end a msg t) = t_outgoing t"
  "m_response_promises (blocking_send_end a msg t) = m_response_promises t"
  "t_responses (blocking_send_end a msg t) = t_responses t @ [\<lparr>rs_id = msg_ID a, rs_action = on_recv_response a,
     rs_message = map_option (\<lambda>r. Option.bind (t_messages t r) message_view) msg\<rparr>]"
  by (simp_all add: blocking_send_end_def release_owned_message_def on_complete_def enqueue_resolved_promise_def Let_def
      split: option.split)








section \<open>Requests are asynchronous when they are posted\<close>

lemma accept_posted: "t_posted (accept_message u j b f t) = t_posted t"
  by (simp add: accept_message_def get_msg_def try_dequeue_msg_def dispatch_receive_event_def upd_dispatch_events_def
      split: list.split prod.split option.split)

lemma process_one_posted: "t_posted (transport_process_one t) = t_posted t" for t :: "'b transport_layer"
proof -
  have "t_posted (fst (process_message_response r f v)) = t_posted v" for r f and v :: "'b transport_layer"
    by (simp add: process_message_response_def take_message_ownership_def Let_def split: option.split)
  then have "t_posted (complete_receive_event e st v) = t_posted v" for e st and v :: "'b transport_layer"
    by (auto simp: complete_receive_event_def release_def on_complete_def split: prod.split option.split)
       (metis fst_conv)+
  then have "t_posted (process_event (\<lambda>_. True) run_receive_event complete_receive_event as e v) = t_posted v"
    for as e and v :: "'b transport_layer"
    by (intro process_event_invariant [where I = "\<lambda>u. t_posted u = t_posted v"]) (simp_all add: run_receive_event_def)
  then show ?thesis
    by (simp add: transport_process_one_def process_one_event_def upd_dispatch_events_def split: list.split)
qed

lemma send_posted:
  assumes "stage_transport_send_msg i content args t = (Inr t', g)"
  shows "t_posted t' = t_posted t @
    (if m_is_connected t \<and> msg_send_behaviour args = ASYNC_REPLY
     then [(content, args\<lparr>msg_ID := (if msg_ID args = 0 then i else msg_ID args)\<rparr>)] else [])"
  using assms
  by (auto simp: stage_transport_send_msg_def begin_send_message_def send_message_impl_def blocking_send_begin_def
      register_response_def Let_def split: if_splits ZstTransportRequestBehaviour.splits)


lemma recv_posted: "t_posted (server_sock_recv u i p f t) = t_posted t" "t_posted (client_sock_recv b i p f t) = t_posted t"
  by (cases p; simp add: server_sock_recv_def client_sock_recv_def accept_posted signal_client_direct_def send_message_impl_def)+



section \<open>Closing a transport ends every request\<close>



section \<open>A transport that is initialised again\<close>

text \<open>
  The states of a transport with its threads. \<open>destroy\<close> comes back when the pool has nothing to do, or at
  once when it has no threads any more.
\<close>

inductive threaded_step :: "layer_threads \<times> stage_transport \<Rightarrow> layer_threads \<times> stage_transport \<Rightarrow> bool" where
  layer_sends: "msg_send_behaviour args = PUBLISH \<or> new_request (if msg_ID args = 0 then i else msg_ID args) t \<Longrightarrow>
    stage_transport_send_msg i content args t = (Inr t', g) \<Longrightarrow> threaded_step (th, t) (th, t')"
| layer_pool_runs: "layer_pool th t = Inr t' \<Longrightarrow> threaded_step (th, t) (th, t')"
| layer_loop_runs: "threaded_step (th, t) (th, layer_event_loop th t)"
| layer_server_receives: "new_frame f t \<Longrightarrow> threaded_step (th, t) (th, server_sock_recv u i p f t)"
| layer_client_receives: "new_frame f t \<Longrightarrow> threaded_step (th, t) (th, client_sock_recv active i p f t)"
| layer_wait_over: "a \<in> set (t_blocked t) \<Longrightarrow> threaded_step (th, t) (th, blocking_send_end a (promised t (msg_ID a)) t)"
| layer_connection: "threaded_step (th, t) (th, t\<lparr>m_is_connected := b\<rparr>)"
| layer_adaptor: "threaded_step (th, t) (th, upd_dispatch_events (add_adaptor a) t)"
| layer_initialised: "\<not> lt_event_thread th \<Longrightarrow> threaded_step (th, t) (layer_init th, t)"
| layer_destroyed: "lt_pool_joined th \<or> t_posted t = [] \<and> async_busy t = 0 \<Longrightarrow> threaded_step (th, t) (layer_destroy th, t)"

lemma threaded_steps_transport:
  "threaded_step x y \<Longrightarrow> transport_step\<^sup>*\<^sup>* (snd x) (snd y)"
proof (induction rule: threaded_step.induct)
  case (layer_pool_runs th t t')
  then show ?case by (auto simp: layer_pool_def split: if_splits intro: transport_step.pool_thread_starts)
next
  case (layer_loop_runs th t)
  have "transport_step\<^sup>*\<^sup>* t (transport_process_one (cleanup_response_messages t))"
    using promises_cleaned event_processed by (metis converse_rtranclp_into_rtranclp r_into_rtranclp)
  then show ?case by (simp add: layer_event_loop_def transport_process_events_def)
next
  case (layer_wait_over a t th)
  then show ?case
    by (cases "m_response_promises t (msg_ID a)"; cases "promised t (msg_ID a)")
       (auto simp: promised_def intro: response_ready request_times_out)
qed (auto intro: transport_step.intros r_into_rtranclp)

lemma threaded_ok:
  assumes "threaded_step\<^sup>*\<^sup>* x y" and "transport_ok (snd x)"
  shows "transport_ok (snd y)"
proof -
  have steps: "transport_step\<^sup>*\<^sup>* t t' \<Longrightarrow> transport_ok t \<Longrightarrow> transport_ok t'" for t t'
    by (induction rule: rtranclp_induct) (auto intro: transport_step_ok)
  show ?thesis
    using assms by (induction rule: rtranclp_induct) (auto dest: threaded_steps_transport intro: steps)
qed

text \<open>Without threads the pool keeps what is posted.\<close>

lemma joined_keeps_posted:
  assumes "threaded_step x y" and "lt_pool_joined (fst x)"
  shows "lt_pool_joined (fst y) \<and> set (t_posted (snd x)) \<subseteq> set (t_posted (snd y))"
  using assms
proof (induction rule: threaded_step.induct)
  case (layer_sends args i t content t' g th)
  then show ?case by (simp add: send_posted)
qed (auto simp: layer_pool_def layer_event_loop_def transport_process_events_def process_one_posted cleanup_eq recv_posted
    blocking_end_fields upd_dispatch_events_def layer_init_def layer_destroy_def)

text \<open>
  C20. A transport that was destroyed once never sends an asynchronous request again, although it can be initialised
  and connected and reports the request as sent: whatever happens, the request stays posted, and
  its callback is not called, not even for a time-out.
\<close>

theorem reinitialised_never_sends:
  assumes "threaded_step\<^sup>*\<^sup>* (layer_threads_new, transport_new self) (th, t)" and "lt_pool_joined th"
    and "m_is_connected t" and "stage_transport_send_msg i content args t = (Inr t1, g)"
    and "msg_send_behaviour args = ASYNC_REPLY" and "new_request (if msg_ID args = 0 then i else msg_ID args) t"
    and "threaded_step\<^sup>*\<^sup>* (th, t1) (th', t')"
  shows "g = Signal_OK \<and> (content, args\<lparr>msg_ID := (if msg_ID args = 0 then i else msg_ID args)\<rparr>) \<in> set (t_posted t') \<and>
    (if msg_ID args = 0 then i else msg_ID args) \<notin> rs_id ` set (t_responses t')"
proof -
  let ?j = "if msg_ID args = 0 then i else msg_ID args"
  have ok: "transport_ok t" using threaded_ok[OF assms(1)] transport_new_ok by simp
  have "threaded_step (th, t) (th, t1)" using layer_sends assms(4,6) by blast
  then have ok': "transport_ok t'" using threaded_ok[OF converse_rtranclp_into_rtranclp[OF _ assms(7)]] ok by simp
  have p1: "(content, args\<lparr>msg_ID := ?j\<rparr>) \<in> set (t_posted t1)" using send_posted[OF assms(4)] assms(3,5) by simp
  have "lt_pool_joined (fst y) \<and> set (t_posted t1) \<subseteq> set (t_posted (snd y))" if "threaded_step\<^sup>*\<^sup>* (th, t1) y" for y
    using that by (induction rule: rtranclp_induct) (use assms(2) in \<open>auto dest: joined_keeps_posted\<close>)
  from this[OF assms(7)] have p: "(content, args\<lparr>msg_ID := ?j\<rparr>) \<in> set (t_posted t')" using p1 by auto
  then have "?j \<in> (\<lambda>ca. msg_ID (snd ca)) ` set (t_posted t')" by force
  moreover have "(\<lambda>ca. msg_ID (snd ca)) ` set (t_posted t') \<inter> rs_id ` set (t_responses t') = {}"
    using ok' by (auto simp: transport_ok_def requests_ok_def request_ids_def)
  ultimately have "?j \<notin> rs_id ` set (t_responses t')" by blast
  moreover have "g = Signal_OK" using assms(4) by (simp add: stage_transport_send_msg_def)
  ultimately show ?thesis using p by blast
qed

section \<open>Concrete runs\<close>

definition sample_posted :: stage_transport where
  "sample_posted =
     (transport_new 0)\<lparr>m_is_connected := True, t_posted := [(Content_SignalMessage Signal_CLIENT_SYNC, sample_request)]\<rparr>"

lemma sample_posts:
  "stage_transport_send_msg 7 (Content_SignalMessage Signal_CLIENT_SYNC) sample_request ((transport_new 0)\<lparr>m_is_connected := True\<rparr>) =
     (Inr sample_posted, Signal_OK)"
  by (simp add: stage_transport_send_msg_def begin_send_message_def sample_posted_def)
     (simp add: sample_request_def transport_args_def)

lemma sample_connected_new: "new_request i ((transport_new 0)\<lparr>m_is_connected := True\<rparr>)"
  using sample_request_new(1) by (simp add: new_request_def request_ids_def)


theorem reinitialised_never_sends_witness:
  "(Content_SignalMessage Signal_CLIENT_SYNC, sample_request) \<in> set (t_posted (layer_event_loop (layer_init (layer_destroy layer_threads_new)) sample_posted))"
proof -
  let ?th = "layer_init (layer_destroy layer_threads_new)" and ?t = "(transport_new 0)\<lparr>m_is_connected := True\<rparr>"
  have "threaded_step (layer_threads_new, transport_new 0) (layer_destroy layer_threads_new, transport_new 0)"
    by (rule layer_destroyed) (simp add: async_busy_def)
  moreover have "threaded_step (layer_destroy layer_threads_new, transport_new 0) (?th, transport_new 0)"
    by (rule layer_initialised) (simp add: layer_destroy_def)
  moreover have "threaded_step (?th, transport_new 0) (?th, ?t)" by (rule layer_connection)
  ultimately have run: "threaded_step\<^sup>*\<^sup>* (layer_threads_new, transport_new 0) (?th, ?t)"
    by (meson converse_rtranclp_into_rtranclp r_into_rtranclp)
  have f: "lt_pool_joined ?th" "m_is_connected ?t" "msg_send_behaviour sample_request = ASYNC_REPLY" "sample_request\<lparr>msg_ID := 9\<rparr> = sample_request"
    by (simp_all add: layer_init_def layer_destroy_def sample_request_def)
  have loop: "threaded_step\<^sup>*\<^sup>* (?th, sample_posted) (?th, layer_event_loop ?th sample_posted)"
    by (rule r_into_rtranclp) (rule layer_loop_runs)
  show ?thesis
    using reinitialised_never_sends[OF run f(1,2) sample_posts f(3) sample_connected_new loop]
    by (simp add: f(4))
qed

end
