(* ===== verification/Zst_Plugins.thy ===== *)
theory Zst_Plugins
  imports Zst_Client_Invariant "HOL-Library.AList"
begin

text \<open>
  The plugins of a client (\<open>src/src/core/ZstPluginLoader.cpp\<close>, \<open>src/include/showtime/ZstPlugin.h\<close>): scanning a folder for shared
  libraries, loading them, and announcing their factories to the client.

  The file system and the libraries are arguments: \<open>folder\<close> lists the entries of a directory, \<open>lib_load\<close> is what
  Boost.DLL makes of a file without its extension. A path is given by its parts. A plugin is its name and the factories it owns, as
  references to entities of the client; calls of \<open>init\<close> of plugins are recorded.
\<close>

record path =
  p_dir :: string
  p_stem :: string
  p_extension :: string

record directory_entry =
  de_path :: path
  de_regular :: bool

record plugin =
  pl_name :: string
  m_factories :: "ref list"

datatype lib_result =
    Lib_Error                \<comment> \<open>the library cannot be loaded\<close>
  | Lib_No_Creator           \<comment> \<open>it has no function \<open>create_plugin\<close>: \<open>get_alias\<close> raises\<close>
  | Lib_Plugin plugin

record plugin_loader =
  m_plugin_events :: "(adaptor, plugin) dispatcher"
  m_loaded_plugins :: "(string \<times> plugin) list"
  m_plugin_path :: string
  m_plugin_data_path :: string
  pl_inits :: "(string \<times> string) list"

definition plugin_loader_new :: "string \<Rightarrow> plugin_loader" where
  "plugin_loader_new program_dir =
     \<lparr>m_plugin_events = dispatcher_new DefaultAdaptor, m_loaded_plugins = [], m_plugin_path = program_dir @ ''/plugins'',
      m_plugin_data_path = program_dir @ ''/plugins/plugin_data'', pl_inits = []\<rparr>"

definition set_plugin_path :: "string \<Rightarrow> plugin_loader \<Rightarrow> plugin_loader" where
  "set_plugin_path p l = l\<lparr>m_plugin_path := p\<rparr>"

definition set_plugin_data_path :: "string \<Rightarrow> plugin_loader \<Rightarrow> plugin_loader" where
  "set_plugin_data_path p l = l\<lparr>m_plugin_data_path := p\<rparr>"

text \<open>\<open>folder\<close> is \<open>None\<close> when the path does not exist; \<open>lib_suffix\<close> is that of shared libraries.\<close>

definition plugin_lib_paths :: "(string \<Rightarrow> directory_entry list option) \<Rightarrow> string \<Rightarrow> string \<Rightarrow> path list" where
  "plugin_lib_paths folder lib_suffix dir =
     (case folder dir of
        None \<Rightarrow> []
      | Some entries \<Rightarrow> map de_path (filter (\<lambda>e. de_regular e \<and> p_extension (de_path e) = lib_suffix) entries))"

definition replace_extension :: "string \<Rightarrow> path \<Rightarrow> path" where
  "replace_extension e p = p\<lparr>p_extension := e\<rparr>"

text \<open>The map from names to plugins: an entry is replaced, or added.\<close>

definition add_loaded_plugin :: "plugin \<Rightarrow> plugin_loader \<Rightarrow> plugin_loader" where
  "add_loaded_plugin p l = l\<lparr>m_loaded_plugins := AList.update (pl_name p) p (m_loaded_plugins l)\<rparr>"

definition load_plugin :: "plugin \<Rightarrow> plugin_loader \<Rightarrow> plugin_loader" where
  "load_plugin p l =
     (let l1 = l\<lparr>pl_inits := pl_inits l @ [(pl_name p, m_plugin_data_path l)]\<rparr>;
          l2 = add_loaded_plugin p l1
      in l2\<lparr>m_plugin_events := defer_event p (m_plugin_events l2)\<rparr>)"

fun load_files :: "(path \<Rightarrow> lib_result) \<Rightarrow> path list \<Rightarrow> plugin_loader \<Rightarrow> plugin_loader outcome" where
  "load_files lib_load [] l = (l, None)"
| "load_files lib_load (file # files) l =
     (case lib_load (replace_extension '''' file) of
        Lib_Error \<Rightarrow> load_files lib_load files l
      | Lib_No_Creator \<Rightarrow> (l, Some RuntimeError)
      | Lib_Plugin p \<Rightarrow> load_files lib_load files (load_plugin p l))"

definition load_plugins ::
  "(string \<Rightarrow> directory_entry list option) \<Rightarrow> string \<Rightarrow> (path \<Rightarrow> lib_result) \<Rightarrow> plugin_loader \<Rightarrow> plugin_loader outcome" where
  "load_plugins folder lib_suffix lib_load l = load_files lib_load (plugin_lib_paths folder lib_suffix (m_plugin_path l)) l"

definition get_plugins :: "plugin_loader \<Rightarrow> plugin list" where
  "get_plugins l = map snd (m_loaded_plugins l)"

text \<open>\<open>get_factories\<close> of a plugin, and \<open>add_factory\<close>, which its \<open>init\<close> uses.\<close>

definition plugin_get_factories :: "plugin \<Rightarrow> ref list" where
  "plugin_get_factories p = m_factories p"

definition add_factory :: "ref \<Rightarrow> plugin \<Rightarrow> plugin" where
  "add_factory f p = p\<lparr>m_factories := m_factories p @ [f]\<rparr>"

text \<open>
  \<open>process_events\<close> of the loader of a client: the client is the adaptor that acts on the events. What the client
  raises ends the event, a null pointer the program.
\<close>

fun announce_plugins :: "float_text \<Rightarrow> plugin list \<Rightarrow> client \<Rightarrow> client outcome" where
  "announce_plugins ft [] h = (h, None)"
| "announce_plugins ft (p # ps) h =
     (case on_plugin_loaded ft (plugin_get_factories p) h of
        (h1, exn) \<Rightarrow> if exn = Some NullDereference then (h1, exn) else announce_plugins ft ps h1)"

definition loader_process_events :: "float_text \<Rightarrow> plugin_loader \<times> client \<Rightarrow> plugin_loader \<times> client outcome" where
  "loader_process_events ft lh =
     ((fst lh)\<lparr>m_plugin_events := flush_events (m_plugin_events (fst lh))\<rparr>,
      announce_plugins ft (m_events (m_plugin_events (fst lh))) (snd lh))"

text \<open>The destructor drops the events and the plugins.\<close>

definition plugin_loader_destroy :: "plugin_loader \<Rightarrow> plugin_loader" where
  "plugin_loader_destroy l = l\<lparr>m_plugin_events := flush_events (m_plugin_events l), m_loaded_plugins := []\<rparr>"

section \<open>What loading does\<close>

text \<open>The plugins of the files up to the first that raises.\<close>

fun loadable :: "(path \<Rightarrow> lib_result) \<Rightarrow> path list \<Rightarrow> plugin list" where
  "loadable lib_load [] = []"
| "loadable lib_load (file # files) =
     (case lib_load (replace_extension '''' file) of
        Lib_Error \<Rightarrow> loadable lib_load files
      | Lib_No_Creator \<Rightarrow> []
      | Lib_Plugin p \<Rightarrow> p # loadable lib_load files)"

lemma load_files_loadable:
  "fst (load_files lib_load files l) = fold load_plugin (loadable lib_load files) l"
  by (induction lib_load files l rule: load_files.induct) (auto split: lib_result.splits)

lemma load_plugin_fields [simp]:
  "m_events (m_plugin_events (load_plugin p l)) = m_events (m_plugin_events l) @ [p]"
  "m_loaded_plugins (load_plugin p l) = AList.update (pl_name p) p (m_loaded_plugins l)"
  "pl_inits (load_plugin p l) = pl_inits l @ [(pl_name p, m_plugin_data_path l)]"
  "m_plugin_data_path (load_plugin p l) = m_plugin_data_path l"
  by (simp_all add: load_plugin_def add_loaded_plugin_def defer_event_def)

lemma fold_load_plugin:
  "m_events (m_plugin_events (fold load_plugin ps l)) = m_events (m_plugin_events l) @ ps"
  "pl_inits (fold load_plugin ps l) = pl_inits l @ map (\<lambda>p. (pl_name p, m_plugin_data_path l)) ps"
  "map_of (m_loaded_plugins (fold load_plugin ps l)) =
     map_of (m_loaded_plugins l) ++ map_of (rev (map (\<lambda>p. (pl_name p, p)) ps))"
proof (induction ps arbitrary: l)
  case (Cons p ps)
  {
    case 1
    show ?case by (simp add: Cons.IH)
  next
    case 2
    show ?case by (simp add: Cons.IH)
  next
    case 3
    show ?case by (simp add: Cons.IH update_conv map_add_upd_left map_add_def fun_eq_iff split: option.split)
  }
qed simp_all

lemma fold_load_plugin_distinct:
  "distinct (map fst (m_loaded_plugins l)) \<Longrightarrow> distinct (map fst (m_loaded_plugins (fold load_plugin ps l)))"
  by (induction ps arbitrary: l) (simp_all add: distinct_update)

lemma loadable_regular:
  "p \<in> set (loadable lib_load files) \<Longrightarrow> \<exists>file\<in>set files. lib_load (replace_extension '''' file) = Lib_Plugin p"
  by (induction files) (auto split: lib_result.splits)

text \<open>
  C34. Loading takes exactly the regular files of the folder that have the suffix of libraries, in the order of the
  folder, skips those that cannot be loaded, and stops with an exception at one that has no creator. Every plugin
  loaded is initialised with the data path and announced once, in this order; of plugins with the same name only the
  last is held, under that name.
\<close>

theorem plugins_announced_and_held:
  assumes "load_plugins folder lib_suffix lib_load l = (l', exn)" and "folder (m_plugin_path l) = Some entries"
    and "distinct (map fst (m_loaded_plugins l))"
    and files: "files = map (replace_extension '''' \<circ> de_path) (filter (\<lambda>e. de_regular e \<and> p_extension (de_path e) = lib_suffix) entries)"
    and ps: "ps = concat (map (\<lambda>f. case lib_load f of Lib_Plugin p \<Rightarrow> [p] | _ \<Rightarrow> []) (takeWhile (\<lambda>f. lib_load f \<noteq> Lib_No_Creator) files))"
  shows "exn = (if Lib_No_Creator \<in> lib_load ` set files then Some RuntimeError else None) \<and>
    m_events (m_plugin_events l') = m_events (m_plugin_events l) @ ps \<and>
    pl_inits l' = pl_inits l @ map (\<lambda>p. (pl_name p, m_plugin_data_path l)) ps \<and>
    map_of (m_loaded_plugins l') = map_of (m_loaded_plugins l) ++ map_of (rev (map (\<lambda>p. (pl_name p, p)) ps)) \<and>
    distinct (map fst (m_loaded_plugins l'))"
proof -
  let ?fs = "plugin_lib_paths folder lib_suffix (m_plugin_path l)"
  have files_eq: "files = map (replace_extension '''') ?fs"
    using assms(2) files by (simp add: plugin_lib_paths_def)
  have "loadable lib_load fs = concat (map (\<lambda>f. case lib_load f of Lib_Plugin p \<Rightarrow> [p] | _ \<Rightarrow> [])
      (takeWhile (\<lambda>f. lib_load f \<noteq> Lib_No_Creator) (map (replace_extension '''') fs)))" for fs
    by (induction fs) (auto split: lib_result.splits)
  then have ps_eq: "ps = loadable lib_load ?fs" using ps files_eq by simp
  have "snd (load_files lib_load fs k) =
      (if Lib_No_Creator \<in> lib_load ` set (map (replace_extension '''') fs) then Some RuntimeError else None)" for fs k
    by (induction lib_load fs k rule: load_files.induct) (auto split: lib_result.splits)
  then have "exn = (if Lib_No_Creator \<in> lib_load ` set files then Some RuntimeError else None)"
    using assms(1) files_eq by (metis load_plugins_def snd_conv)
  moreover have "l' = fold load_plugin ps l"
    using assms(1) load_files_loadable[of lib_load ?fs l] ps_eq by (simp add: load_plugins_def)
  ultimately show ?thesis using fold_load_plugin[of ps l] fold_load_plugin_distinct[OF assms(3)] by simp
qed

definition sample_folder :: "string \<Rightarrow> directory_entry list option" where
  "sample_folder dir =
     (if dir = ''/plugins''
      then Some (map (\<lambda>(stem, ext). \<lparr>de_path = \<lparr>p_dir = dir, p_stem = stem, p_extension = ext\<rparr>, de_regular = True\<rparr>)
             [(''a'', ''.so''), (''readme'', ''.txt''), (''b'', ''.so''), (''c'', ''.so'')])
      else None)"

definition sample_libraries :: "path \<Rightarrow> lib_result" where
  "sample_libraries p =
     (if p_stem p = ''b'' then Lib_Error
      else Lib_Plugin \<lparr>pl_name = ''maths'', m_factories = [if p_stem p = ''a'' then 5 else 6]\<rparr>)"

theorem plugins_announced_and_held_witness:
  "case load_plugins sample_folder ''.so'' sample_libraries (plugin_loader_new '''') of
     (l', exn) \<Rightarrow> exn = None \<and> map m_factories (m_events (m_plugin_events l')) = [[5], [6]] \<and>
       map_of (m_loaded_plugins l') ''maths'' = Some \<lparr>pl_name = ''maths'', m_factories = [6]\<rparr>"
proof -
  obtain l' exn where l: "load_plugins sample_folder ''.so'' sample_libraries (plugin_loader_new '''') = (l', exn)"
    by fastforce
  let ?files = "map (replace_extension '''' \<circ> de_path)
      (filter (\<lambda>e. de_regular e \<and> p_extension (de_path e) = ''.so'') (the (sample_folder ''/plugins'')))"
  let ?ps = "concat (map (\<lambda>f. case sample_libraries f of Lib_Plugin p \<Rightarrow> [p] | _ \<Rightarrow> [])
      (takeWhile (\<lambda>f. sample_libraries f \<noteq> Lib_No_Creator) ?files))"
  have ps: "?ps = [\<lparr>pl_name = ''maths'', m_factories = [5]\<rparr>, \<lparr>pl_name = ''maths'', m_factories = [6]\<rparr>]"
    by (simp add: sample_folder_def sample_libraries_def replace_extension_def)
  have none: "Lib_No_Creator \<notin> sample_libraries ` set ?files" by (auto simp: sample_libraries_def)
  have "exn = None \<and> m_events (m_plugin_events l') = ?ps \<and> map_of (m_loaded_plugins l') = map_of (rev (map (\<lambda>p. (pl_name p, p)) ?ps))"
    using plugins_announced_and_held[OF l _ _ refl refl, of "the (sample_folder ''/plugins'')"] none
    by (simp add: plugin_loader_new_def dispatcher_new_def sample_folder_def)
  then show ?thesis unfolding l ps by simp
qed

text \<open>Announcing plugins keeps the invariant of the client.\<close>

lemma announce_plugins_preserves:
  assumes "client_ok h" and "\<forall>p\<in>set ps. \<forall>f\<in>set (m_factories p). heap h f \<noteq> None"
  shows "preserves h (fst (announce_plugins ft ps h))"
  using assms
proof (induction ft ps h rule: announce_plugins.induct)
  case (2 ft p ps h)
  obtain h1 exn where r: "on_plugin_loaded ft (plugin_get_factories p) h = (h1, exn)" by fastforce
  have p: "preserves h h1"
    using plugin_loaded_preserves[of h "plugin_get_factories p" ft] 2(2,3) r by (simp add: plugin_get_factories_def)
  have live: "\<forall>q\<in>set ps. \<forall>f\<in>set (m_factories q). heap h1 f \<noteq> None" using 2(3) preserves_live[OF p] by auto
  show ?case
  proof (cases "exn = Some NullDereference")
    case False
    then show ?thesis
      using 2(1)[OF r[symmetric] False client_ok_preserves[OF p 2(2)] live] preserves_trans[OF p] r by simp
  qed (use r p in simp)
qed simp

text \<open>
  Processing the events of the loader empties its queue and keeps the invariant of the client, if the factories
  of the announced plugins exist.
\<close>

lemma plugin_events_keep_client:
  assumes "loader_process_events ft (l, h) = (l', h', exn)" and "client_inv h"
    and "\<forall>p\<in>set (m_events (m_plugin_events l)). \<forall>f\<in>set (m_factories p). heap h f \<noteq> None"
  shows "client_inv h' \<and> m_events (m_plugin_events l') = [] \<and> get_plugins l' = get_plugins l"
proof -
  have h': "h' = fst (announce_plugins ft (m_events (m_plugin_events l)) h)" and l': "l' = l\<lparr>m_plugin_events := flush_events (m_plugin_events l)\<rparr>"
    using assms(1) by (auto simp: loader_process_events_def)
  have "client_ok h" using assms(2) by (simp add: client_inv_def)
  from client_inv_preserves[OF announce_plugins_preserves[OF this assms(3)] assms(2)] h' l'
  show ?thesis by (simp add: flush_events_def get_plugins_def)
qed

end
