(* ===== verification/Zst_Client_Process.thy ===== *)
theory Zst_Client_Process
  imports Zst_Actor Zst_Plugins Zst_Client_Protocol
begin

text \<open>
  A client as a whole: \<open>ZstClient::init_client\<close> and \<open>destroy\<close> (\<open>src/src/client/ZstClient.cpp\<close>) around the modules
  of \<open>Zst_Client\<close>, with the transports of \<open>Zst_Actor\<close>, the plugins of \<open>Zst_Plugins\<close>, the thread of the timers and the pool
  in which waits for a server run. What the network and the file system have is the argument \<open>client_env\<close>.
\<close>

section \<open>Opening and closing a client\<close>

record client_process =
  cp_client :: client
  cp_transport :: client_transport
  cp_tcp :: zmq_graph
  cp_udp :: "zmq_graph option"
    \<comment> \<open>with the draft API\<close>
  cp_discovery :: zmq_discovery
  cp_plugins :: plugin_loader
  cp_timer_thread :: bool
  cp_beaconcheck :: bool
    \<comment> \<open>a wait of the timer that looks for lost servers is under way\<close>
  cp_pool_joined :: bool
  cp_api :: bool

record client_env =
  ce_socket :: bool
  ce_udp_out :: bool
  ce_udp_in :: bool
  ce_beacon :: bool
  ce_interfaces :: "string list"
  ce_endpoint :: "string \<Rightarrow> string"
  ce_folder :: "string \<Rightarrow> directory_entry list option"
  ce_suffix :: string
  ce_library :: "path \<Rightarrow> lib_result"

definition STAGE :: transport where "STAGE = 0"
definition BEACONS :: transport where "BEACONS = 3"

text \<open>\<open>b\<close> gives the indeterminate flags of the actors. The constructor starts the timer that looks for lost servers.\<close>

definition client_process_new :: "(transport \<Rightarrow> bool) \<Rightarrow> bool \<Rightarrow> string \<Rightarrow> client_process" where
  "client_process_new b draft program_dir =
     \<lparr>cp_client = client_new, cp_transport = client_transport_new (b STAGE) STAGE,
      cp_tcp = zmq_graph_new (b tcp_graph_transport) tcp_graph_transport,
      cp_udp = (if draft then Some (zmq_graph_new (b udp_graph_transport) udp_graph_transport) else None),
      cp_discovery = zmq_discovery_new (b BEACONS) BEACONS, cp_plugins = plugin_loader_new program_dir,
      cp_timer_thread = False, cp_beaconcheck = True, cp_pool_joined = False, cp_api = True\<rparr>"

text \<open>What listens to the transports: the client itself and its session, for stage messages its hierarchy as well.\<close>

definition attach_listeners :: "adaptor list \<Rightarrow> 'b transport_layer \<Rightarrow> 'b transport_layer" where
  "attach_listeners as t = fold (\<lambda>a. upd_dispatch_events (add_adaptor a)) as t"

definition listen_graph :: "zmq_graph \<Rightarrow> zmq_graph" where
  "listen_graph g = g\<lparr>zg_graph := upd_layer (attach_listeners [ClientModule, SessionModule]) (zg_graph g)\<rparr>"

definition listen_beacons :: "zmq_discovery \<Rightarrow> zmq_discovery" where
  "listen_beacons d =
     d\<lparr>zd_discovery := (start_listening (zd_discovery d))
         \<lparr>sd_layer := attach_listeners [ClientModule] (sd_layer (zd_discovery d))\<rparr>\<rparr>"

definition open_transports :: "client_env \<Rightarrow> client_process \<times> zmq_refs \<Rightarrow> client_process \<times> zmq_refs" where
  "open_transports env pw =
     (let (p, w) = pw;
          (stage, w1) = client_transport_init (ce_socket env) (cp_transport p, w);
          (tcp, w2) = tcp_graph_init (ce_endpoint env) (ce_interfaces env) (cp_tcp p, w1);
          (udp, w3) = (case cp_udp p of
                         None \<Rightarrow> (None, w2)
                       | Some g \<Rightarrow> apfst (Some \<circ> listen_graph) (udp_graph_init (ce_udp_out env) (ce_udp_in env) (ce_interfaces env) (g, w2)));
          (discovery, w4) = zmq_discovery_init (ce_interfaces env) (ce_beacon env) (cp_discovery p, w3)
      in (p\<lparr>cp_transport := stage\<lparr>ct_layer := attach_listeners [ClientModule, SessionModule, HierarchyModule] (ct_layer stage)\<rparr>,
             cp_tcp := listen_graph tcp, cp_udp := udp,
             cp_discovery := listen_beacons discovery\<rparr>, w4))"

text \<open>
  An exception of \<open>load\<close> leaves \<open>init_client\<close> before it is complete. The events of plugins come first when the
  events are processed. \<open>n\<close> is the number of events that may be processed.
\<close>

definition client_process_init ::
  "float_text \<Rightarrow> bool \<Rightarrow> (ref \<Rightarrow> ref \<Rightarrow> client \<Rightarrow> client) \<Rightarrow> nat \<Rightarrow> client_env \<Rightarrow> string \<Rightarrow> client_process \<times> zmq_refs \<Rightarrow>
   ((client_process \<times> zmq_refs) \<times> zst_exn option) option" where
  "client_process_init ft draft compute n env name pw =
     (if c_is_ending (cp_client (fst pw)) \<or> m_init_completed (cp_client (fst pw)) then Some (pw, None)
      else
        let h = client_modules_init ft name (cp_client (fst pw));
            (p, w) = open_transports env ((fst pw)\<lparr>cp_client := h, cp_timer_thread := True\<rparr>, snd pw);
            (loader, exn) = load_plugins (ce_folder env) (ce_suffix env) (ce_library env)
               ((cp_plugins p)\<lparr>m_plugin_events := add_adaptor ClientModule (m_plugin_events (cp_plugins p))\<rparr>)
        in case exn of
             Some e \<Rightarrow> Some ((p\<lparr>cp_plugins := loader\<rparr>, w), Some e)
           | None \<Rightarrow>
               (case loader_process_events ft (loader, h\<lparr>m_init_completed := True\<rparr>) of
                  (loader1, (h1, Some e)) \<Rightarrow> Some ((p\<lparr>cp_plugins := loader1, cp_client := h1\<rparr>, w), Some e)
                | (loader1, (h1, None)) \<Rightarrow>
                    map_option (\<lambda>h2. ((p\<lparr>cp_plugins := loader1, cp_client := h2\<rparr>, w), None))
                      (client_process_events ft draft compute n h1)))"

definition close_transports :: "client_process \<times> zmq_refs \<Rightarrow> client_process \<times> zmq_refs" where
  "close_transports pw =
     (let (p, w) = pw;
          (discovery, w1) = zmq_discovery_destroy (cp_discovery p, w);
          (stage, w2) = client_transport_destroy (cp_transport p, w1);
          (tcp, w3) = zmq_graph_destroy (cp_tcp p, w2);
          (udp, w4) = (case cp_udp p of None \<Rightarrow> (None, w3) | Some g \<Rightarrow> apfst Some (zmq_graph_destroy (g, w3)))
      in (p\<lparr>cp_discovery := discovery, cp_transport := stage, cp_tcp := tcp, cp_udp := udp\<rparr>, w4))"

definition client_process_destroy ::
  "float_text \<Rightarrow> bool \<Rightarrow> (ref \<Rightarrow> ref \<Rightarrow> client \<Rightarrow> client) \<Rightarrow> nat \<Rightarrow> client_process \<times> zmq_refs \<Rightarrow> (client_process \<times> zmq_refs) option" where
  "client_process_destroy ft draft compute n pw =
     (if c_is_ending (cp_client (fst pw)) \<or> c_is_destroyed (cp_client (fst pw)) then Some pw
      else
        map_option (\<lambda>h. apfst (\<lambda>p. p\<lparr>cp_client := h, cp_timer_thread := False, cp_beaconcheck := False,
              cp_pool_joined := True, cp_api := False\<rparr>) (close_transports pw))
          (client_destroy ft draft compute n (cp_client (fst pw))))"

section \<open>What opening takes closing gives back\<close>

definition client_holds :: "client_process \<Rightarrow> int" where
  "client_holds p = zmq_holds (TClient (cp_transport p)) + zmq_holds (TTcp (cp_tcp p)) +
     (case cp_udp p of None \<Rightarrow> 0 | Some g \<Rightarrow> zmq_holds (TUdp g)) + zmq_holds (TBeacon (cp_discovery p))"

definition client_actors_ok :: "client_process \<Rightarrow> bool" where
  "client_actors_ok p \<longleftrightarrow> zmq_transport_ok (TClient (cp_transport p)) \<and> zmq_transport_ok (TTcp (cp_tcp p)) \<and>
     (case cp_udp p of None \<Rightarrow> True | Some g \<Rightarrow> zmq_transport_ok (TUdp g)) \<and> zmq_transport_ok (TBeacon (cp_discovery p))"

lemma client_holds_frame [simp]:
  "client_holds (p\<lparr>cp_client := h\<rparr>) = client_holds p" "client_holds (p\<lparr>cp_plugins := l\<rparr>) = client_holds p"
  "client_holds (p\<lparr>cp_timer_thread := b\<rparr>) = client_holds p"
  "client_actors_ok (p\<lparr>cp_client := h\<rparr>) = client_actors_ok p" "client_actors_ok (p\<lparr>cp_plugins := l\<rparr>) = client_actors_ok p"
  "client_actors_ok (p\<lparr>cp_timer_thread := b\<rparr>) = client_actors_ok p"
  by (simp_all add: client_holds_def client_actors_ok_def)

text \<open>The references and the sockets that are lost when something cannot be opened.\<close>

definition refs_lost :: "client_env \<Rightarrow> int" where
  "refs_lost env = of_bool (\<not> ce_socket env) + of_bool (ce_interfaces env \<noteq> [] \<and> \<not> ce_beacon env)"

definition sockets_lost :: "client_env \<Rightarrow> client_process \<Rightarrow> int" where
  "sockets_lost env p = of_bool (cp_udp p \<noteq> None \<and> ce_udp_out env \<and> \<not> ce_udp_in env)"

lemma opened_by_trans: "opened_by a b w w1 \<Longrightarrow> opened_by c d w1 w2 \<Longrightarrow> opened_by (a + c) (b + d) w w2"
  by (simp add: opened_by_def)

lemma opened_by_refl: "opened_by 0 0 w w"
  by (simp add: opened_by_def)

lemma graph_open_listen [simp]:
  "graph_open (listen_graph g) = graph_open g" "m_graph_actor (listen_graph g) = m_graph_actor g"
  by (simp_all add: listen_graph_def graph_open_def upd_layer_def)

lemma discovery_listens [simp]:
  "m_beacon (zd_discovery (listen_beacons d)) = m_beacon (zd_discovery d)" "m_beacon_actor (listen_beacons d) = m_beacon_actor d"
  by (simp_all add: listen_beacons_def start_listening_def)

lemma open_transports_opens:
  assumes "open_transports env (p, w) = (p', w')" and "client_holds p = 0" and "client_actors_ok p"
  shows "opened_by (client_holds p' + refs_lost env) (client_holds p' + sockets_lost env p) w w' \<and> client_actors_ok p'"
proof -
  have "0 \<le> (case cp_udp p of None \<Rightarrow> 0 | Some g \<Rightarrow> zmq_holds (TUdp g))"
    by (cases "cp_udp p") (simp_all only: option.case order_refl zmq_holds_nonneg)
  then have parts: "zmq_holds (TClient (cp_transport p)) = 0 \<and> zmq_holds (TTcp (cp_tcp p)) = 0 \<and>
    (case cp_udp p of None \<Rightarrow> 0 | Some g \<Rightarrow> zmq_holds (TUdp g)) = 0 \<and> zmq_holds (TBeacon (cp_discovery p)) = 0"
    using assms(2) zmq_holds_nonneg[of "TClient (cp_transport p)"] zmq_holds_nonneg[of "TTcp (cp_tcp p)"]
      zmq_holds_nonneg[of "TBeacon (cp_discovery p)"]
    unfolding client_holds_def by linarith
  obtain stage w1 where s: "client_transport_init (ce_socket env) (cp_transport p, w) = (stage, w1)" by fastforce
  obtain tcp w2 where t: "tcp_graph_init (ce_endpoint env) (ce_interfaces env) (cp_tcp p, w1) = (tcp, w2)" by fastforce
  obtain udp w3 where u: "(case cp_udp p of None \<Rightarrow> (None, w2) | Some g \<Rightarrow> apfst (Some \<circ> listen_graph)
      (udp_graph_init (ce_udp_out env) (ce_udp_in env) (ce_interfaces env) (g, w2))) = (udp, w3)" by fastforce
  obtain discovery w4 where d: "zmq_discovery_init (ce_interfaces env) (ce_beacon env) (cp_discovery p, w3) = (discovery, w4)"
    by fastforce
  have udp: "opened_by (case udp of None \<Rightarrow> 0 | Some g \<Rightarrow> graph_open g)
      ((case udp of None \<Rightarrow> 0 | Some g \<Rightarrow> graph_open g) + sockets_lost env p) w2 w3 \<and>
      (case udp of None \<Rightarrow> True | Some g \<Rightarrow> actor_ok (m_graph_actor g))"
  proof (cases "cp_udp p")
    case None
    then show ?thesis using u by (auto simp: sockets_lost_def opened_by_refl)
  next
    case (Some g)
    obtain g' v where g': "udp_graph_init (ce_udp_out env) (ce_udp_in env) (ce_interfaces env) (g, w2) = (g', v)" by fastforce
    have "graph_open g = 0" using parts Some by simp
    moreover have "udp = Some (listen_graph g')" "w3 = v" using u Some g' by simp_all
    ultimately show ?thesis using udp_init_opens[OF g'] Some by (simp add: sockets_lost_def)
  qed
  have "actor_ok (m_beacon_actor (cp_discovery p))" using assms(3) by (simp add: client_actors_ok_def)
  note o = client_init_opens[OF s conjunct1[OF parts]] tcp_init_opens[OF t] udp
    discovery_init_opens[OF d conjunct2[OF conjunct2[OF conjunct2[OF parts]]] this]
  have p': "p' = p\<lparr>cp_transport := stage\<lparr>ct_layer := attach_listeners [ClientModule, SessionModule, HierarchyModule] (ct_layer stage)\<rparr>,
      cp_tcp := listen_graph tcp, cp_udp := udp, cp_discovery := listen_beacons discovery\<rparr>"
    and w': "w' = w4"
    using assms(1) s t u d by (simp_all add: open_transports_def)
  have "client_holds p' = zmq_holds (TClient stage) + graph_open tcp + (case udp of None \<Rightarrow> 0 | Some g \<Rightarrow> graph_open g) +
      zmq_holds (TBeacon discovery)"
    by (simp add: p' client_holds_def split: option.split)
  moreover have "client_actors_ok p'" using o by (simp add: p' client_actors_ok_def split: option.splits)
  ultimately show ?thesis
    using o unfolding w' opened_by_def refs_lost_def by simp
qed

lemma close_transports_closes:
  assumes "close_transports (p, w) = (p', w')" and "client_actors_ok p"
  shows "closed_by (client_holds p) w w' \<and> client_holds p' = 0"
proof -
  obtain discovery w1 where d: "zmq_discovery_destroy (cp_discovery p, w) = (discovery, w1)" by fastforce
  obtain stage w2 where s: "client_transport_destroy (cp_transport p, w1) = (stage, w2)" by fastforce
  obtain tcp w3 where t: "zmq_graph_destroy (cp_tcp p, w2) = (tcp, w3)" by fastforce
  obtain udp w4 where u: "(case cp_udp p of None \<Rightarrow> (None, w3) | Some g \<Rightarrow> apfst Some (zmq_graph_destroy (g, w3))) = (udp, w4)"
    by fastforce
  have p': "p' = p\<lparr>cp_discovery := discovery, cp_transport := stage, cp_tcp := tcp, cp_udp := udp\<rparr>" "w' = w4"
    using assms(1) d s t u by (simp_all add: close_transports_def)
  note ok = assms(2)[unfolded client_actors_ok_def]
  have dc: "closed_by (zmq_holds (TBeacon (cp_discovery p))) w w1 \<and> zmq_holds (TBeacon discovery) = 0"
    using zmq_destroy_closes[of "TBeacon (cp_discovery p)" w "TBeacon discovery" w1] d ok by simp
  have sc: "closed_by (zmq_holds (TClient (cp_transport p))) w1 w2 \<and> zmq_holds (TClient stage) = 0"
    using zmq_destroy_closes[of "TClient (cp_transport p)" w1 "TClient stage" w2] s ok by simp
  have tc: "closed_by (graph_open (cp_tcp p)) w2 w3 \<and> graph_open tcp = 0"
    using zmq_destroy_closes[of "TTcp (cp_tcp p)" w2 "TTcp tcp" w3] t ok by simp
  have uc: "closed_by (case cp_udp p of None \<Rightarrow> 0 | Some g \<Rightarrow> graph_open g) w3 w4 \<and>
      (case udp of None \<Rightarrow> 0 | Some g \<Rightarrow> graph_open g) = 0"
  proof (cases "cp_udp p")
    case None
    then show ?thesis using u by (auto simp: closed_by_refl)
  next
    case (Some g)
    obtain g' v where g': "zmq_graph_destroy (g, w3) = (g', v)" by fastforce
    show ?thesis using graph_destroy_closes[OF g'] ok Some u g' by auto
  qed
  have nn: "0 \<le> graph_open g" for g using zmq_holds_nonneg[of "TTcp g"] by simp
  have unn: "0 \<le> (case cp_udp p of None \<Rightarrow> 0 | Some g \<Rightarrow> graph_open g)" using nn by (simp split: option.split)
  note c1 = closed_by_trans[OF conjunct1[OF dc] conjunct1[OF sc] zmq_holds_nonneg zmq_holds_nonneg]
  note c2 = closed_by_trans[OF c1 conjunct1[OF tc] add_nonneg_nonneg[OF zmq_holds_nonneg zmq_holds_nonneg] nn]
  note c3 = closed_by_trans[OF c2 conjunct1[OF uc] add_nonneg_nonneg[OF add_nonneg_nonneg[OF zmq_holds_nonneg zmq_holds_nonneg] nn] unn]
  have "client_holds p = zmq_holds (TBeacon (cp_discovery p)) + zmq_holds (TClient (cp_transport p)) + graph_open (cp_tcp p) +
      (case cp_udp p of None \<Rightarrow> 0 | Some g \<Rightarrow> graph_open g)"
    by (simp add: client_holds_def split: option.split)
  moreover have "client_holds p' = 0" using dc sc tc uc by (cases udp) (simp_all add: p' client_holds_def)
  ultimately show ?thesis using c3 p'(2) by simp
qed

lemma process_init_transports:
  assumes "client_process_init ft draft compute n env name (p, w) = Some ((p1, w1), exn)"
    and "\<not> c_is_ending (cp_client p)" and "\<not> m_init_completed (cp_client p)"
  shows "\<exists>p0 h l. open_transports env (p\<lparr>cp_client := client_modules_init ft name (cp_client p), cp_timer_thread := True\<rparr>, w) = (p0, w1) \<and>
    p1 = p0\<lparr>cp_plugins := l, cp_client := h\<rparr>"
proof -
  define h where "h = client_modules_init ft name (cp_client p)"
  obtain p0 w0 where o: "open_transports env (p\<lparr>cp_client := h, cp_timer_thread := True\<rparr>, w) = (p0, w0)" by fastforce
  obtain l x where l: "load_plugins (ce_folder env) (ce_suffix env) (ce_library env)
      ((cp_plugins p0)\<lparr>m_plugin_events := add_adaptor ClientModule (m_plugin_events (cp_plugins p0))\<rparr>) = (l, x)" by fastforce
  obtain l1 h1 y where y: "loader_process_events ft (l, h\<lparr>m_init_completed := True\<rparr>) = (l1, (h1, y))"
    by (metis prod.collapse)
  have run: "(case x of Some e \<Rightarrow> Some ((p0\<lparr>cp_plugins := l\<rparr>, w0), Some e)
      | None \<Rightarrow> (case y of Some e \<Rightarrow> Some ((p0\<lparr>cp_plugins := l1, cp_client := h1\<rparr>, w0), Some e)
         | None \<Rightarrow> map_option (\<lambda>h2. ((p0\<lparr>cp_plugins := l1, cp_client := h2\<rparr>, w0), None)) (client_process_events ft draft compute n h1)))
      = Some ((p1, w1), exn)"
    using assms(1) unfolding client_process_init_def fst_conv snd_conv h_def[symmetric] Let_def o prod.case l y
    by (simp add: assms(2,3) cong: option.case_cong split: option.splits)
  have "w1 = w0 \<and> (\<exists>h l. p1 = p0\<lparr>cp_plugins := l, cp_client := h\<rparr>)"
  proof (cases x)
    case (Some e)
    then have "p1 = p0\<lparr>cp_plugins := l, cp_client := cp_client p0\<rparr>" "w1 = w0" using run by auto
    then show ?thesis by blast
  next
    case None
    then show ?thesis using run by (cases y) auto
  qed
  then show ?thesis using o unfolding h_def by blast
qed

lemma process_destroy_transports:
  assumes "client_process_destroy ft draft compute n (p, w) = Some (p2, w2)"
    and "\<not> c_is_ending (cp_client p)" and "\<not> c_is_destroyed (cp_client p)"
  shows "\<exists>p0 h. close_transports (p, w) = (p0, w2) \<and>
    p2 = p0\<lparr>cp_client := h, cp_timer_thread := False, cp_beaconcheck := False, cp_pool_joined := True, cp_api := False\<rparr> \<and>
    client_destroy ft draft compute n (cp_client p) = Some h"
  using assms by (cases "close_transports (p, w)") (auto simp: client_process_destroy_def)

lemma client_process_new_holds:
  "client_holds (client_process_new b d dir) = 0" "client_actors_ok (client_process_new b d dir)"
  by (simp_all add: client_process_new_def client_holds_def client_actors_ok_def client_transport_new_def zmq_graph_new_def
      zmq_discovery_new_def actor_new_def graph_transport_new_def service_discovery_new_def graph_open_def actor_ok_def)

text \<open>
  C17. A client that is initialised and destroyed, whatever its modules and its plugins did in between and whether or not a plugin
  raised, closes what it has opened and gives every reference back, but for the references of a
  stage transport without a socket and of a beacon that could not be created, and the output socket of a UDP
  transport without an input socket.
\<close>

theorem client_gives_all_back:
  assumes "client_process_init ft draft compute n env name (client_process_new b d dir, w) = Some ((p1, w1), exn)"
    and "client_process_destroy ft draft compute n' (p1\<lparr>cp_client := h, cp_plugins := l\<rparr>, w1) = Some (p2, w2)"
    and "\<not> c_is_ending h" and "\<not> c_is_destroyed h"
  shows "s_total_ref_count w2 = s_total_ref_count w +
      of_bool (\<not> ce_socket env) + of_bool (ce_interfaces env \<noteq> [] \<and> \<not> ce_beacon env) \<and>
    zr_open w2 = zr_open w + of_bool (d \<and> ce_udp_out env \<and> \<not> ce_udp_in env) \<and>
    client_holds p2 = 0"
proof -
  let ?n = "client_process_new b d dir"
  have fresh: "\<not> c_is_ending (cp_client ?n)" "\<not> m_init_completed (cp_client ?n)"
    by (simp_all add: client_process_new_def client_new_def)
  obtain p0 h0 l0 where p0:
    "open_transports env (?n\<lparr>cp_client := client_modules_init ft name (cp_client ?n), cp_timer_thread := True\<rparr>, w) = (p0, w1)"
    "p1 = p0\<lparr>cp_plugins := l0, cp_client := h0\<rparr>"
    using process_init_transports[OF assms(1) fresh] by blast
  have o: "opened_by (client_holds p0 + refs_lost env) (client_holds p0 + sockets_lost env ?n) w w1 \<and> client_actors_ok p0"
    using open_transports_opens[OF p0(1)] client_process_new_holds by (simp add: sockets_lost_def)
  obtain p3 g where c: "close_transports (p1\<lparr>cp_client := h, cp_plugins := l\<rparr>, w1) = (p3, w2)"
    "p2 = p3\<lparr>cp_client := g, cp_timer_thread := False, cp_beaconcheck := False, cp_pool_joined := True, cp_api := False\<rparr>"
    using process_destroy_transports[OF assms(2)] assms(3,4) by auto
  have "closed_by (client_holds p0) w1 w2 \<and> client_holds p3 = 0"
    using close_transports_closes[OF c(1)] o p0(2) by simp
  moreover have "client_holds p2 = client_holds p3" by (simp add: c(2) client_holds_def)
  ultimately show ?thesis
    using o by (simp add: opened_by_def closed_by_def refs_lost_def sockets_lost_def client_process_new_def)
qed

section \<open>A client that is initialised again\<close>

text \<open>
  A second \<open>init_client\<close> with another name makes a new root and deletes the old one, whose entry stays in the lookup table
  when \<open>destroy\<close> found no connection to leave.
\<close>

lemma performer_uri: "m_uri (performer_new s name) = uri_of name"
  by (cases s) (simp add: performer_new_def component_new_def entity_init_def set_entity_type_def set_component_type_def
      ZstSynchronisable.defs)

lemma reinitialised_root_dangles:
  assumes "heap h (m_root h) = Some e" and "m_root h < next_ref h" and "find_entity h (m_uri e) = Some (m_root h)"
    and "uri_path (uri_of name) \<noteq> uri_path (m_uri e)"
  shows "find_entity (client_session_init name h) (m_uri e) = Some (m_root h) \<and>
    heap (client_session_init name h) (m_root h) = None"
proof -
  define h0 where "h0 = h\<lparr>m_hierarchy_events := add_adaptor SessionModule (m_hierarchy_events h),
      m_compute_events := add_adaptor SessionModule (m_compute_events h)\<rparr>"
  define d where "d = h0\<lparr>m_hierarchy_events := add_adaptor HierarchyModule (m_hierarchy_events h0), heap := (heap h0)(m_root h0 := None)\<rparr>"
  have d: "heap d = (heap h)(m_root h := None)" "next_ref d = next_ref h" "m_entity_lookup d = m_entity_lookup h"
    by (simp_all add: d_def h0_def)
  obtain r h1 where r: "alloc_entity (\<lambda>s. performer_new s name) d = (r, h1)" by fastforce
  then obtain s where h1: "r = next_ref h" "heap h1 = (heap h)(m_root h := None, r \<mapsto> performer_new s name)"
    "m_entity_lookup h1 = m_entity_lookup h"
    by (auto simp: alloc_entity_def d Let_def split: prod.splits)
  have at: "uri_at (upd_entity r attach_hierarchy (h1\<lparr>m_root := r\<rparr>)) r = uri_of name"
    by (simp add: uri_at_def h1 performer_uri attach_hierarchy_def sync_add_adaptor_def)
  have "client_session_init name h = register_entity r (h1\<lparr>m_root := r\<rparr>)"
    unfolding client_session_init_def client_hierarchy_init_def h0_def[symmetric] d_def[symmetric] r by simp
  then show ?thesis
    using assms at h1 by (simp add: find_entity_def register_entity_def add_entity_to_lookup_def)
qed

text \<open>The timer that looks for lost servers and the pool of the auto joins do not come back.\<close>

lemma open_transports_frame:
  "cp_beaconcheck (fst (open_transports env pw)) = cp_beaconcheck (fst pw)"
  "cp_pool_joined (fst (open_transports env pw)) = cp_pool_joined (fst pw)"
  by (simp_all add: open_transports_def Let_def split: prod.splits)

lemma reinitialised_client_is_deaf:
  assumes "client_process_destroy ft draft compute n (p, w) = Some (p1, w1)"
    and "\<not> c_is_ending (cp_client p)" and "\<not> c_is_destroyed (cp_client p)"
    and "client_process_init ft draft compute n' env name (p1, w1) = Some ((p2, w2), None)"
  shows "\<not> cp_beaconcheck p2 \<and> cp_pool_joined p2"
proof -
  have p1: "\<not> cp_beaconcheck p1" "cp_pool_joined p1"
    using process_destroy_transports[OF assms(1-3)] by auto
  show ?thesis
  proof (cases "c_is_ending (cp_client p1) \<or> m_init_completed (cp_client p1)")
    case True
    then show ?thesis using assms(4) p1 by (simp add: client_process_init_def)
  next
    case False
    then show ?thesis
      using process_init_transports[OF assms(4)] p1 open_transports_frame[of env "(p1\<lparr>cp_client := client_modules_init ft name (cp_client p1), cp_timer_thread := True\<rparr>, w1)"]
      by auto
  qed
qed

section \<open>A concrete run\<close>

definition sample_client_env :: client_env where
  "sample_client_env =
     \<lparr>ce_socket = False, ce_udp_out = True, ce_udp_in = False, ce_beacon = True, ce_interfaces = [''10.0.0.2''],
      ce_endpoint = id, ce_folder = (\<lambda>_. None), ce_suffix = ''.so'', ce_library = (\<lambda>_. Lib_Error)\<rparr>"

lemma sample_loads_nothing:
  "load_plugins (ce_folder sample_client_env) s f l = (l, None)"
  by (simp add: load_plugins_def plugin_lib_paths_def sample_client_env_def)

lemma no_plugin_events:
  "m_events (m_plugin_events l) = [] \<Longrightarrow> loader_process_events ft (l, h) = (l\<lparr>m_plugin_events := flush_events (m_plugin_events l)\<rparr>, (h, None))"
  by (simp add: loader_process_events_def)

lemma sample_process_starts:
  "\<exists>p1 w1. client_process_init no_floats False idle_compute 0 sample_client_env ''ada''
     (client_process_new (\<lambda>_. False) True ''/opt'', zmq_refs_new) = Some ((p1, w1), None)"
proof -
  let ?p = "client_process_new (\<lambda>_. False) True ''/opt''" and ?h = "client_modules_init no_floats ''ada'' client_new"
  have c: "cp_client ?p = client_new" "\<not> c_is_ending client_new" "\<not> m_init_completed client_new"
    by (simp_all add: client_process_new_def client_new_def)
  have run: "client_process_events no_floats False idle_compute 0 (?h\<lparr>m_init_completed := True\<rparr>) = Some sample_started"
    using sample_starts c unfolding init_client_def by (simp only: if_False simp_thms)
  obtain p0 w0 where o: "open_transports sample_client_env (?p\<lparr>cp_client := ?h, cp_timer_thread := True\<rparr>, zmq_refs_new) = (p0, w0)"
    by fastforce
  have frame: "cp_plugins (fst (open_transports e pw)) = cp_plugins (fst pw)" for e pw
    by (simp add: open_transports_def Let_def split: prod.splits)
  have "cp_plugins p0 = plugin_loader_new ''/opt''"
    using frame[of sample_client_env "(?p\<lparr>cp_client := ?h, cp_timer_thread := True\<rparr>, zmq_refs_new)"] o
    by (simp add: client_process_new_def)
  then have e: "m_events (m_plugin_events ((cp_plugins p0)\<lparr>m_plugin_events := add_adaptor ClientModule (m_plugin_events (cp_plugins p0))\<rparr>)) = []"
    by (simp add: plugin_loader_new_def dispatcher_new_def add_adaptor_def)
  show ?thesis
    unfolding client_process_init_def fst_conv snd_conv c(1) Let_def o prod.case sample_loads_nothing option.case
      no_plugin_events[OF e] run option.map
    using c by simp
qed

theorem client_gives_all_back_witness:
  "\<exists>p1 w1 p2 w2. client_process_init no_floats False idle_compute 0 sample_client_env ''ada''
       (client_process_new (\<lambda>_. False) True ''/opt'', zmq_refs_new) = Some ((p1, w1), None) \<and>
     client_process_destroy no_floats False idle_compute 0 (p1\<lparr>cp_client := client_new\<rparr>, w1) = Some (p2, w2) \<and>
     s_total_ref_count w2 = 1 \<and> zr_open w2 = 1"
proof -
  obtain p1 w1 where i: "client_process_init no_floats False idle_compute 0 sample_client_env ''ada''
      (client_process_new (\<lambda>_. False) True ''/opt'', zmq_refs_new) = Some ((p1, w1), None)"
    using sample_process_starts by blast
  have flags: "\<not> c_is_ending client_new" "\<not> c_is_destroyed client_new" "\<not> m_connected_to_stage client_new"
    by (simp_all add: client_new_def)
  then have "client_destroy no_floats False idle_compute 0 client_new \<noteq> None" by (simp add: client_destroy_def Let_def)
  then obtain p2 w2 where d: "client_process_destroy no_floats False idle_compute 0 (p1\<lparr>cp_client := client_new, cp_plugins := cp_plugins p1\<rparr>, w1) = Some (p2, w2)"
    using flags by (cases "close_transports (p1\<lparr>cp_client := client_new\<rparr>, w1)") (auto simp: client_process_destroy_def)
  show ?thesis
    using client_gives_all_back[OF i d flags(1,2)] i d
    by (intro exI[of _ p1] exI[of _ w1] exI[of _ p2] exI[of _ w2]) (simp add: sample_client_env_def zmq_refs_new_def)
qed

end
