(* ===== verification/Zst_Ownership.thy ===== *)
theory Zst_Ownership
  imports Zst_Relay Zst_Client_Protocol
begin

text \<open>
  Who may fire an output plug: the calls of an application (\<open>ZstEntityBase::aquire_ownership\<close> and
  \<open>release_ownership\<close>, \<open>src/src/core/entities/ZstEntityBase.cpp\<close>), the request that reaches the stage, the message the stage
  broadcasts and what every client makes of it, taken together.
\<close>

section \<open>The calls\<close>

text \<open>\<open>aquire_ownership\<close> only warns about an entity that is not registered, \<open>release_ownership\<close> returns.\<close>

definition aquire_ownership :: "ref \<Rightarrow> client \<Rightarrow> client" where
  "aquire_ownership r h =
     (if entity_test (\<lambda>e. SessionModule \<in> set (m_session_adaptors e)) h r then aquire_entity_ownership r h else h)"

definition release_ownership :: "ref \<Rightarrow> client \<Rightarrow> client" where
  "release_ownership r h =
     (if \<not> entity_test m_registered h r then h
      else if entity_test (\<lambda>e. SessionModule \<in> set (m_session_adaptors e)) h r then release_entity_ownership r h else h)"

section \<open>A client\<close>

definition owned_by :: "ZstURI \<Rightarrow> bool \<Rightarrow> entity \<Rightarrow> entity" where
  "owned_by owner fires e =
     (if is_output_plug e then (e\<lparr>m_current_owner := owner\<rparr>)\<lparr>m_can_fire := fires\<rparr> else e\<lparr>m_current_owner := owner\<rparr>)"

lemma owned_by_simps [simp]:
  "is_output_plug (owned_by o' b e) = is_output_plug e" "m_uri (owned_by o' b e) = m_uri e"
  "m_hierarchy_adaptors (owned_by o' b e) = m_hierarchy_adaptors e" "m_current_owner (owned_by o' b e) = o'"
  "is_output_plug e \<Longrightarrow> m_can_fire (owned_by o' b e) = b" "owned_by o' b (owned_by o' b e) = owned_by o' b e"
  by (simp_all add: owned_by_def is_output_plug_def)

lemma client_set_owner:
  assumes "hierarchy_attached h r"
  shows "entity_set_owner (client_virtuals ft) default_last r owner h =
    upd_entity r (owned_by owner (\<not> default_last \<and> uri_equal (root_uri h) owner)) h"
proof -
  let ?f = "\<lambda>e. e\<lparr>m_current_owner := owner\<rparr>" and ?b = "\<not> default_last \<and> uri_equal (root_uri h) owner"
  let ?h = "upd_entity r ?f h"
  obtain e where e: "heap h r = Some e" "HierarchyModule \<in> set (m_hierarchy_adaptors e)"
    using assms by (auto simp: hierarchy_attached_def entity_test_def split: option.splits)
  have att: "hierarchy_attached ?h r" using e by (simp add: hierarchy_attached_def entity_test_def)
  have root: "uri_at ?h (m_root ?h) = root_uri h"
    by (simp add: root_uri_def uri_at_def upd_entity_def split: option.split)
  have out: "entity_test is_output_plug ?h r = is_output_plug e" using e by (simp add: entity_test_def is_output_plug_def)
  have "entity_set_owner (client_virtuals ft) default_last r owner h =
      (if is_output_plug e then upd_entity r (set_can_fire ?b) ?h else ?h)"
    unfolding entity_set_owner_def Let_def out using att root by auto
  also have "\<dots> = upd_entity r (owned_by owner ?b) h"
    using e by (auto simp: upd_entity_comp owned_by_def set_can_fire_def intro!: upd_entity_cong)
  finally show ?thesis .
qed

lemma client_set_owners:
  assumes "\<forall>c\<in>set cs. hierarchy_attached h c"
  shows "heap (fold (\<lambda>c. entity_set_owner (client_virtuals ft) default_last c owner) cs h) x =
    (if x \<in> set cs then map_option (owned_by owner (\<not> default_last \<and> uri_equal (root_uri h) owner)) (heap h x) else heap h x)"
  using assms
proof (induction cs arbitrary: h)
  case (Cons c cs)
  let ?h = "upd_entity c (owned_by owner (\<not> default_last \<and> uri_equal (root_uri h) owner)) h"
  have "uri_at ?h q = uri_at h q" for q by (simp add: uri_at_def split: option.split)
  moreover have "m_root ?h = m_root h" by (simp add: upd_entity_def)
  ultimately have root: "root_uri ?h = root_uri h" by (simp add: root_uri_def)
  have att: "\<forall>d\<in>set cs. hierarchy_attached ?h d"
    using Cons.prems by (auto simp: hierarchy_attached_def entity_test_def split: option.splits)
  have "entity_set_owner (client_virtuals ft) default_last c owner h = ?h" using Cons.prems by (intro client_set_owner) simp
  then show ?case
    using Cons.IH[OF att] by (auto simp: root option.map_comp comp_def)
qed simp

lemma found_attached:
  assumes "client_ok h" and "client_find_entity h u = Some r"
  shows "hierarchy_attached h r"
  using assms client_okD(6)[OF assms(1)] lookup_uri[OF client_okD(2)[OF assms(1)]]
  by (auto simp: client_find_entity_def find_entity_def split: if_splits)

text \<open>Everything below the entity has the new owner, and its output plugs fire exactly when that is this client.\<close>

lemma client_takes_owner:
  assumes "client_ok h" and "client_find_entity h (string_uri path) = Some r" and "c \<in> set (entity_and_children h r)"
  shows "entity_test (\<lambda>e. m_current_owner e = string_uri owner \<and> is_output_plug e = entity_test is_output_plug h c \<and>
      (is_output_plug e \<longrightarrow> (m_can_fire e \<longleftrightarrow> \<not> default_last \<and> uri_equal (root_uri h) (string_uri owner))))
    (client_ownership_handler ft default_last path owner h) c"
proof -
  have att: "\<forall>c\<in>set (entity_and_children h r). hierarchy_attached h c"
    using children_attached[OF assms(1) found_attached[OF assms(1,2)]] by blast
  moreover obtain e where "heap h c = Some e"
    using att assms(3) entity_test_live unfolding hierarchy_attached_def by blast
  ultimately show ?thesis
    using assms(2,3) by (simp add: client_ownership_handler_def client_set_owners entity_test_def)
qed

section \<open>The stage\<close>

lemma stage_set_owner:
  "entity_set_owner stage_virtuals b r owner s = upd_entity r (owned_by owner False) s" for s :: stage
proof (cases "heap s r")
  case (Some e)
  let ?f = "\<lambda>e. e\<lparr>m_current_owner := owner\<rparr>"
  have out: "entity_test is_output_plug (upd_entity r ?f s) r = is_output_plug e"
    using Some by (simp add: entity_test_def is_output_plug_def)
  have "entity_set_owner stage_virtuals b r owner s =
      (if is_output_plug e then upd_entity r (set_can_fire False) (upd_entity r ?f s) else upd_entity r ?f s)"
    unfolding entity_set_owner_def Let_def out by simp
  also have "\<dots> = upd_entity r (owned_by owner False) s"
    using Some by (auto simp: upd_entity_comp owned_by_def set_can_fire_def intro!: upd_entity_cong)
  finally show ?thesis .
next
  case None
  then show ?thesis by (simp add: entity_set_owner_def Let_def entity_test_def upd_entity_def)
qed

lemma connect_clients_adds: "\<exists>ms. connect_clients q p a s = sends ms s"
proof (cases "heap s q"; cases "heap s p")
  fix eo ei assume "heap s q = Some eo" "heap s p = Some ei"
  then show ?thesis by (auto simp: connect_clients_sends intro: exI[of _ "[]"])
qed (auto simp: connect_clients_def intro: exI[of _ "[]"])

lemma connect_receivers_adds: "\<exists>ms. fold (\<lambda>q. connect_clients q p a) qs s = sends ms s"
proof (induction qs arbitrary: s)
  case Nil
  show ?case by (auto intro: exI[of _ "[]"])
next
  case (Cons q qs)
  obtain ms where "connect_clients q p a s = sends ms s" using connect_clients_adds by blast
  moreover obtain ns where "fold (\<lambda>q. connect_clients q p a) qs (sends ms s) = sends ns (sends ms s)" using Cons by blast
  ultimately show ?case by auto
qed

definition ownership_message :: "stage \<Rightarrow> ref \<Rightarrow> ZstURI \<Rightarrow> message_content" where
  "ownership_message s r owner = Content_EntityTakeOwnershipRequest (uri_path (uri_at s r)) (uri_path owner)"

lemma ownership_broadcast:
  assumes "change_ownership r u p s = (s', Inr Signal_OK)"
  shows "\<exists>ms. s' = sends (ms @ map (addressed s (ownership_message s r u) transport_args) (stage_clients s)) s"
proof -
  obtain qs where "ownership_receivers s (uri_at s r) (m_cables s) [] = Inr qs"
    using assms by (auto simp: change_ownership_def split: sum.splits)
  moreover obtain ms where ms: "fold (\<lambda>receiver. connect_clients receiver q CA_None) qs s = sends (ms q) s" for q
    using connect_receivers_adds[where qs = qs and s = s and a = CA_None] by metis
  define ns where "ns = (case p of None \<Rightarrow> [] | Some q \<Rightarrow> if uri_is_empty u then [] else ms q)"
  have "s' = broadcast (ownership_message s r u) transport_args [] (sends ns s)"
    using assms calculation
    by (cases p) (simp_all add: change_ownership_def ownership_message_def Let_def ns_def ms split: if_splits)
  moreover have "stage_clients (sends ns s) = stage_clients s"
    unfolding stage_clients_def sends_simps by (intro filter_cong) simp_all
  moreover have "addressed (sends ns s) c a = addressed s c a" for c a by (intro ext) simp
  ultimately have "s' = sends (ns @ map (addressed s (ownership_message s r u) transport_args) (stage_clients s)) s"
    by (simp add: broadcast_sends)
  then show ?thesis by blast
qed

text \<open>
  The request is granted when the stage knows the entity and the owner that is named; the entity itself has the new owner on the stage,
  and the message goes to every client.
\<close>

lemma stage_grants_ownership:
  assumes "aquire_entity_ownership_handler path owner s = (s', Inr Signal_OK)"
  shows "\<exists>r o' ms. find_entity s (string_uri path) = Some r \<and>
    (if owner = [] then o' = uri_of '''' else \<exists>p. find_client s (string_uri owner) = Some p \<and> o' = uri_at s p) \<and>
    s' = sends (ms @ map (addressed s (ownership_message s r (if owner = [] then uri_empty else string_uri owner)) transport_args)
        (stage_clients s)) (upd_entity r (owned_by o' False) s)"
proof -
  let ?u = "if owner = [] then uri_empty else string_uri owner"
  obtain r p o' where r: "find_entity s (string_uri path) = Some r"
    and o': "if owner = [] then o' = uri_of '''' else \<exists>p. find_client s (string_uri owner) = Some p \<and> o' = uri_at s p"
    and ch: "change_ownership r ?u p (upd_entity r (owned_by o' False) s) = (s', Inr Signal_OK)"
    using assms unfolding aquire_entity_ownership_handler_def stage_set_owner
    by (fastforce split: option.splits if_splits)
  let ?s = "upd_entity r (owned_by o' False) s"
  have at: "uri_at ?s q = uri_at s q" for q by (simp add: uri_at_def split: option.split)
  have test: "entity_test is_stage_proxy ?s = entity_test is_stage_proxy s"
    by (intro ext) (simp add: entity_test_def owned_by_def is_stage_proxy_def split: option.split)
  have origin: "m_origin_transport (the (heap ?s q)) = m_origin_transport (the (heap s q)) \<and>
      m_origin_endpoint_UUID (the (heap ?s q)) = m_origin_endpoint_UUID (the (heap s q))" if "q \<in> set (stage_clients s)" for q
    using that entity_test_live[of is_stage_proxy s q] by (auto simp: stage_clients_def owned_by_def)
  have clients: "stage_clients ?s = stage_clients s" by (simp add: stage_clients_def test)
  have told: "map (addressed ?s c a) (stage_clients s) = map (addressed s c a) (stage_clients s)" for c a
    using origin by (intro map_cong) (simp_all add: addressed_def)
  have "ownership_message ?s r ?u = ownership_message s r ?u" by (simp add: ownership_message_def at)
  then obtain ms where "s' = sends (ms @ map (addressed s (ownership_message s r ?u) transport_args) (stage_clients s)) ?s"
    using ownership_broadcast[OF ch] unfolding clients told by auto
  then show ?thesis using r o' by blast
qed

section \<open>One client fires\<close>

text \<open>What a grant does on the stage and in the clients, whoever the owner is; the empty path is a release.\<close>

lemma ownership_granted:
  assumes "aquire_entity_ownership_handler path owner s = (s', Inr Signal_OK)"
    and "stage_ok s" and "nul_free path" and "nul_free owner"
  shows "\<exists>r ms. find_entity s (string_uri path) = Some r \<and> entity_test (\<lambda>e. uri_path (m_current_owner e) = owner) s' r \<and>
    m_outbox s' = m_outbox s @ ms @
      map (addressed s (Content_EntityTakeOwnershipRequest path owner) transport_args) (stage_clients s) \<and>
    (\<forall>h m q c. m_buffer m = Content_EntityTakeOwnershipRequest path owner \<and> client_ok h \<and>
         client_find_entity h (string_uri path) = Some q \<and> c \<in> set (entity_and_children h q) \<longrightarrow>
       entity_test (\<lambda>e. m_current_owner e = string_uri owner \<and> is_output_plug e = entity_test is_output_plug h c \<and>
           (is_output_plug e \<longrightarrow> (m_can_fire e \<longleftrightarrow> \<not> default_last \<and> uri_path (root_uri h) = owner)))
         (client_session_on_receive_msg ft default_last m h) c)"
proof -
  have ok: "hierarchy_ok s" using assms(2) by (simp add: session_ok_def)
  obtain r o' ms where r: "find_entity s (string_uri path) = Some r"
    and o': "if owner = [] then o' = uri_of '''' else \<exists>p. find_client s (string_uri owner) = Some p \<and> o' = uri_at s p"
    and s': "s' = sends (ms @ map (addressed s (ownership_message s r (if owner = [] then uri_empty else string_uri owner)) transport_args)
        (stage_clients s)) (upd_entity r (owned_by o' False) s)"
    using stage_grants_ownership[OF assms(1)] by blast
  obtain e where e: "heap s r = Some e" "uri_path (m_uri e) = path"
    using find_entity_live[OF ok r] assms(3) by auto
  have owner: "uri_path o' = owner"
  proof (cases "owner = []")
    case False
    then obtain p where p: "find_client s (string_uri owner) = Some p" "o' = uri_at s p" using o' by auto
    then have "find_entity s (string_uri owner) = Some p" by (auto simp: find_client_def find_as_def split: option.splits if_splits)
    then show ?thesis using find_entity_live[OF ok] assms(4) p(2) by (fastforce simp: uri_at_def)
  qed (use o' in \<open>simp add: cstr_def\<close>)
  have path: "uri_path (uri_at s r) = path" using e by (simp add: uri_at_def)
  have none: "uri_path uri_empty = []" by (simp add: uri_path_def uri_empty_def create_pstr_eq cstr_def)
  have told: "ownership_message s r (if owner = [] then uri_empty else string_uri owner) =
      Content_EntityTakeOwnershipRequest path owner"
    using assms(4) by (simp add: ownership_message_def path none)
  have "entity_test (\<lambda>e. uri_path (m_current_owner e) = owner) s' r" using e owner by (simp add: s' entity_test_def)
  moreover have "m_outbox s' = m_outbox s @ ms @
      map (addressed s (Content_EntityTakeOwnershipRequest path owner) transport_args) (stage_clients s)"
    by (simp add: s' told upd_entity_def)
  moreover have "entity_test (\<lambda>e. m_current_owner e = string_uri owner \<and> is_output_plug e = entity_test is_output_plug h c \<and>
           (is_output_plug e \<longrightarrow> (m_can_fire e \<longleftrightarrow> \<not> default_last \<and> uri_path (root_uri h) = owner)))
         (client_session_on_receive_msg ft default_last m h) c"
    if "m_buffer m = Content_EntityTakeOwnershipRequest path owner" "client_ok h"
      "client_find_entity h (string_uri path) = Some q" "c \<in> set (entity_and_children h q)" for h m q c
    using client_takes_owner[OF that(2-4), of owner default_last ft] that(1) assms(4)
    by (simp add: client_session_on_receive_msg_def uri_equal_path)
  ultimately show ?thesis using r by blast
qed

text \<open>
  After a release no client with a name can fire the plugs, not even the one they came from.
\<close>

lemma released_plug_silent:
  assumes "aquire_entity_ownership_handler path [] s = (s', Inr Signal_OK)" and "stage_ok s" and "nul_free path"
    and "m_buffer m = Content_EntityTakeOwnershipRequest path []" and "client_ok h" and "uri_path (root_uri h) \<noteq> []"
    and "client_find_entity h (string_uri path) = Some q" and "c \<in> set (entity_and_children h q)" and "entity_test is_output_plug h c"
  shows "entity_test (\<lambda>e. \<not> m_can_fire e) (client_session_on_receive_msg ft default_last m h) c"
proof -
  have "entity_test (\<lambda>e. m_current_owner e = string_uri [] \<and> is_output_plug e = entity_test is_output_plug h c \<and>
      (is_output_plug e \<longrightarrow> (m_can_fire e \<longleftrightarrow> \<not> default_last \<and> uri_path (root_uri h) = [])))
    (client_session_on_receive_msg ft default_last m h) c"
    using ownership_granted [OF assms(1-3), of default_last ft] assms(4,5,7,8) by (auto simp: nul_free_def)
  then show ?thesis using assms(6,9) by (auto simp: entity_test_def split: option.splits)
qed

text \<open>
  C10. When the stage grants a client's request for the ownership of an entity, it sets the owner of the entity
  and tells every client. Every client that knows the entity then gives the entity and all below it the new
  owner, and lets an output plug among them fire exactly when the client is the owner (the paths are
  equal) and the plug does not ask its default adaptor last; if it does, which the order of
  addresses in memory decides, the answer is a null pointer, and the owner cannot fire either. So of two
  clients with different names at most one can fire. A release is the case of an empty owner, for which see
  \<open>released_plug_silent\<close>.
\<close>

theorem one_owner_fires:
  assumes "aquire_entity_ownership_handler path owner s = (s', Inr Signal_OK)" and "owner \<noteq> []"
    and "stage_ok s" and "nul_free path" and "nul_free owner"
  shows "\<exists>r ms. find_entity s (string_uri path) = Some r \<and> entity_test (\<lambda>e. uri_path (m_current_owner e) = owner) s' r \<and>
    m_outbox s' = m_outbox s @ ms @
      map (addressed s (Content_EntityTakeOwnershipRequest path owner) transport_args) (stage_clients s) \<and>
    (\<forall>h m q c. m_buffer m = Content_EntityTakeOwnershipRequest path owner \<and> client_ok h \<and>
         client_find_entity h (string_uri path) = Some q \<and> c \<in> set (entity_and_children h q) \<longrightarrow>
       entity_test (\<lambda>e. m_current_owner e = string_uri owner \<and> is_output_plug e = entity_test is_output_plug h c \<and>
           (is_output_plug e \<longrightarrow> (m_can_fire e \<longleftrightarrow> \<not> default_last \<and> uri_path (root_uri h) = owner)))
         (client_session_on_receive_msg ft default_last m h) c)"
  by (rule ownership_granted [OF assms(1,3,4,5)])

text \<open>Ada has an output plug, which the stage knows; Bob asks for it, and Ada may not fire it any more.\<close>

definition fader_stage :: stage where
  "fader_stage = stage_new
     \<lparr>heap := [0 \<mapsto> attach_hierarchy (sample_client ''ada'' 1), 1 \<mapsto> attach_hierarchy (sample_client ''bob'' 2),
               2 \<mapsto> attach_hierarchy (sample_plug EC_OutputPlug OUT_JACK ''ada/out'')],
      next_ref := 3, m_proxies := [0, 1, 2], m_entity_lookup := [''ada'' \<mapsto> 0, ''bob'' \<mapsto> 1, ''ada/out'' \<mapsto> 2]\<rparr>"

definition sample_fader :: client where
  "sample_fader =
     (case alloc_entity (\<lambda>s. output_plug_new False s ''out'' VT_IntList True) sample_started of
        (c, h) \<Rightarrow> root_add_child no_floats c True h)"

lemma sample_fader_ok: "client_ok sample_fader"
proof -
  obtain c h where a: "alloc_entity (\<lambda>s. output_plug_new False s ''out'' VT_IntList True) sample_started = (c, h)" by fastforce
  have "client_ok sample_started"
    using client_reachable_inv [OF idle_compute_inv sample_started_reachable] by (simp add: client_inv_def)
  from alloc_client_ok(1,2)[OF this a] show ?thesis unfolding sample_fader_def a prod.case by (rule root_add_child_ok)
qed

lemma sample_fader_found:
  "client_find_entity sample_fader (string_uri ''ada/out'') = Some 1 \<and> entity_and_children sample_fader 1 = [1] \<and>
   entity_test (\<lambda>e. is_output_plug e) sample_fader 1 \<and> uri_path (root_uri sample_fader) = ''ada''"
  by code_simp

lemma fader_paths:
  "nul_free ''ada/out''" "nul_free ''ada''" "nul_free ''bob''" "uri_path (string_uri ''ada/out'') = ''ada/out''"
  "uri_path (string_uri ''ada'') = ''ada''" "uri_path (string_uri ''bob'') = ''bob''" "uri_path (uri_of ''ada/out'') = ''ada/out''"
  by (simp_all add: nul_free_def cstr_def)

lemma fader_stage_ok: "stage_ok fader_stage"
proof -
  have "lookup_sound fader_stage"
    by (auto simp: lookup_sound_def fader_stage_def stage_new_def fader_paths split: if_splits)
  moreover have "\<forall>r. heap fader_stage r \<noteq> None \<longrightarrow> r < next_ref fader_stage"
    by (simp add: fader_stage_def stage_new_def)
  ultimately show ?thesis
    by (simp add: session_ok_def hierarchy_ok_def) (simp add: fader_stage_def stage_new_def cables_ok_def reap_items_def sync_module_new_def)
qed

lemma attach_class: "m_class (attach_hierarchy e) = m_class e"
  by (simp add: attach_hierarchy_def sync_add_adaptor_def)

lemma bob_gets_it: "snd (aquire_entity_ownership_handler ''ada/out'' ''bob'' fader_stage) = Inr Signal_OK"
  by (simp add: aquire_entity_ownership_handler_def stage_set_owner find_entity_def find_client_def find_as_def
      change_ownership_def Let_def attach_class fader_stage_def stage_new_def fader_paths entity_test_def is_stage_proxy_def
      upd_entity_def)

theorem one_owner_fires_witness:
  "entity_test (\<lambda>e. m_current_owner e = string_uri ''bob'' \<and> is_output_plug e \<and> \<not> m_can_fire e)
     (client_session_on_receive_msg no_floats False
       \<lparr>m_origin_UUID = 0, m_id = 0, m_owning_transport = 0,
        m_buffer = Content_EntityTakeOwnershipRequest ''ada/out'' ''bob''\<rparr> sample_fader) 1"
proof -
  obtain s' where s': "aquire_entity_ownership_handler ''ada/out'' ''bob'' fader_stage = (s', Inr Signal_OK)"
    using bob_gets_it by (metis prod.collapse)
  let ?m = "\<lparr>m_origin_UUID = 0, m_id = 0, m_owning_transport = 0, m_buffer = Content_EntityTakeOwnershipRequest ''ada/out'' ''bob''\<rparr>"
  have "entity_test (\<lambda>e. m_current_owner e = string_uri ''bob'' \<and> is_output_plug e = entity_test is_output_plug sample_fader 1 \<and>
      (is_output_plug e \<longrightarrow> (m_can_fire e \<longleftrightarrow> \<not> False \<and> uri_path (root_uri sample_fader) = ''bob'')))
    (client_session_on_receive_msg no_floats False ?m sample_fader) 1"
    using one_owner_fires[OF s' list.distinct(2) fader_stage_ok fader_paths(1,3), of False no_floats] sample_fader_ok sample_fader_found
    by (elim exE conjE) (drule spec[of _ sample_fader], drule spec[of _ ?m], drule spec[of _ 1], drule spec[of _ 1], simp)
  then show ?thesis using sample_fader_found by (simp add: entity_test_def split: option.splits)
qed

end
