(* ===== verification/Zst_Logging.thy ===== *)
theory Zst_Logging
  imports Zst_Value Zst_Dispatcher
begin

text \<open>
  Logging (\<open>src/src/core/ZstLogging.cpp\<close>, \<open>src/include/showtime/ZstLogging.h\<close>): channels and levels, the one
  sink that prints records and hands them to the log events of a client or a server, and log files. The cores, filters and
  attributes of Boost.Log are a library: the number of the line, the name of the process and the thread of a record
  are arguments, a sink that has no filter takes every record, and one that has no formatter writes the message alone.
\<close>

section \<open>Records\<close>

datatype Level = Level_debug | Level_notification | Level_warn | Level_error | Levelsize

fun level_index :: "Level \<Rightarrow> nat" where
  "level_index Level_debug = 0"
| "level_index Level_notification = 1"
| "level_index Level_warn = 2"
| "level_index Level_error = 3"
| "level_index Levelsize = 4"

instantiation Level :: linorder
begin

definition less_eq_Level :: "Level \<Rightarrow> Level \<Rightarrow> bool" where
  "less_eq_Level a b \<longleftrightarrow> level_index a \<le> level_index b"

definition less_Level :: "Level \<Rightarrow> Level \<Rightarrow> bool" where
  "less_Level a b \<longleftrightarrow> level_index a < level_index b"

instance
proof
  fix a b :: Level
  show "a \<le> b \<Longrightarrow> b \<le> a \<Longrightarrow> a = b" by (cases a; cases b) (simp_all add: less_eq_Level_def)
qed (auto simp: less_eq_Level_def less_Level_def)

end

fun get_severity_str :: "Level \<Rightarrow> string" where
  "get_severity_str Level_debug = ''DEBUG''"
| "get_severity_str Level_error = ''ERROR''"
| "get_severity_str Level_notification = ''NOTIF''"
| "get_severity_str Levelsize = ''SIZE''"
| "get_severity_str Level_warn = ''WARN''"

definition ZST_LOG_APP_CHANNEL :: string where "ZST_LOG_APP_CHANNEL = ''app''"
definition ZST_LOG_NET_CHANNEL :: string where "ZST_LOG_NET_CHANNEL = ''net''"
definition ZST_LOG_SERVER_CHANNEL :: string where "ZST_LOG_SERVER_CHANNEL = ''srv''"
definition ZST_LOG_ENTITY_CHANNEL :: string where "ZST_LOG_ENTITY_CHANNEL = ''ent''"

record log_record =
  line_ID :: "32 word"
  process_name :: string
  threadID :: string
  lr_level :: Level
  lr_channel :: string
  lr_message :: string

definition my_formatter :: "log_record \<Rightarrow> string" where
  "my_formatter r =
     digits_of (unat (line_ID r)) @ '': '' @ ''['' @ process_name r @ ''] '' @ ''['' @ threadID r @ ''] '' @
     ''['' @ lr_channel r @ ''] '' @ ''<'' @ get_severity_str (lr_level r) @ ''> '' @ lr_message r"

section \<open>Sinks\<close>

text \<open>
  \<open>Backend_Sink\<close> is the sink that \<open>init_logger\<close> adds, with its minimum level and the dispatcher of log events it keeps, named by the
  client or server that owns it; \<open>File_Sink\<close> has the path and the lines written. \<open>lg_heard\<close> is what
  the adaptors of a dispatcher have been told.
\<close>

datatype log_sink = Backend_Sink Level "nat option" | File_Sink string "string list"

datatype log_callback = On_log_record log_record | On_formatted_log_record string

record logging =
  lg_logging :: bool
  lg_sinks :: "log_sink list"
  lg_console :: "string list"
  lg_events :: "nat \<Rightarrow> (nat, log_record \<times> string) dispatcher"
  lg_heard :: "nat \<Rightarrow> nat \<Rightarrow> log_callback list"

definition upd_log_events ::
  "nat \<Rightarrow> ((nat, log_record \<times> string) dispatcher \<Rightarrow> (nat, log_record \<times> string) dispatcher) \<Rightarrow> logging \<Rightarrow> logging" where
  "upd_log_events i f s = s\<lparr>lg_events := (lg_events s)(i := f (lg_events s i))\<rparr>"

definition log_filter :: "Level \<Rightarrow> log_record \<Rightarrow> bool" where
  "log_filter level r \<longleftrightarrow>
     (lr_channel r \<in> set [ZST_LOG_ENTITY_CHANNEL, ZST_LOG_NET_CHANNEL, ZST_LOG_SERVER_CHANNEL, ZST_LOG_APP_CHANNEL] \<and>
        level \<le> lr_level r) \<or> Level_error \<le> lr_level r"

text \<open>Only the first call of a process adds the sink. Its name is not used. The filter is the one that call sets.\<close>

definition init_logger :: "string \<Rightarrow> Level \<Rightarrow> nat option \<Rightarrow> logging \<Rightarrow> logging" where
  "init_logger name level log_events s =
     (if lg_logging s then s
      else s\<lparr>lg_logging := True, lg_sinks := lg_sinks s @ [Backend_Sink level log_events]\<rparr>)"

definition init_file_logging :: "string \<Rightarrow> logging \<Rightarrow> logging" where
  "init_file_logging log_file_path s = s\<lparr>lg_sinks := lg_sinks s @ [File_Sink log_file_path []]\<rparr>"

definition log_consume :: "nat option \<Rightarrow> log_record \<Rightarrow> string \<Rightarrow> logging \<Rightarrow> logging" where
  "log_consume log_events r formatted s =
     (let s1 = s\<lparr>lg_console := lg_console s @ [formatted]\<rparr>
      in case log_events of None \<Rightarrow> s1 | Some i \<Rightarrow> upd_log_events i (defer_event (r, formatted)) s1)"

text \<open>What a sink does with a record, and with what is left of itself.\<close>

fun sink_record :: "log_record \<Rightarrow> log_sink \<Rightarrow> logging \<times> log_sink list \<Rightarrow> logging \<times> log_sink list" where
  "sink_record r (Backend_Sink level log_events) (s, done_sinks) =
     ((if log_filter level r then log_consume log_events r (my_formatter r) s else s), done_sinks @ [Backend_Sink level log_events])"
| "sink_record r (File_Sink path ls) (s, done_sinks) = (s, done_sinks @ [File_Sink path (ls @ [lr_message r])])"

definition sink_message :: "log_record \<Rightarrow> logging \<Rightarrow> logging" where
  "sink_message r s = (let (s1, sinks) = fold (sink_record r) (lg_sinks s) (s, []) in s1\<lparr>lg_sinks := sinks\<rparr>)"

record log_context =
  lc_line :: "32 word"
  lc_process :: string
  lc_thread :: string

definition channel_record :: "string \<Rightarrow> log_context \<Rightarrow> Level \<Rightarrow> string \<Rightarrow> log_record" where
  "channel_record channel c level msg =
     \<lparr>line_ID = lc_line c, process_name = lc_process c, threadID = lc_thread c, lr_level = level, lr_channel = channel,
      lr_message = cstr msg\<rparr>"

definition entity_sink_message :: "log_context \<Rightarrow> Level \<Rightarrow> string \<Rightarrow> logging \<Rightarrow> logging" where
  "entity_sink_message c level msg = sink_message (channel_record ZST_LOG_ENTITY_CHANNEL c level msg)"

definition net_sink_message :: "log_context \<Rightarrow> Level \<Rightarrow> string \<Rightarrow> logging \<Rightarrow> logging" where
  "net_sink_message c level msg = sink_message (channel_record ZST_LOG_NET_CHANNEL c level msg)"

definition server_sink_message :: "log_context \<Rightarrow> Level \<Rightarrow> string \<Rightarrow> logging \<Rightarrow> logging" where
  "server_sink_message c level msg = sink_message (channel_record ZST_LOG_SERVER_CHANNEL c level msg)"

definition app_sink_message :: "log_context \<Rightarrow> Level \<Rightarrow> string \<Rightarrow> logging \<Rightarrow> logging" where
  "app_sink_message c level msg = sink_message (channel_record ZST_LOG_APP_CHANNEL c level msg)"

text \<open>The event that \<open>consume\<close> defers calls both callbacks of an adaptor; the formatted record as a C string.\<close>

definition run_log_event :: "nat \<Rightarrow> log_record \<times> string \<Rightarrow> nat \<Rightarrow> logging \<Rightarrow> logging \<times> bool" where
  "run_log_event i e a s =
     (s\<lparr>lg_heard := (lg_heard s)(i := (lg_heard s i)(a := lg_heard s i a @ [On_log_record (fst e), On_formatted_log_record (cstr (snd e))]))\<rparr>, True)"

definition log_process_events :: "nat \<Rightarrow> nat \<Rightarrow> logging \<Rightarrow> logging option" where
  "log_process_events i =
     process_events (\<lambda>s. lg_events s i) (upd_log_events i) (\<lambda>_. True) (run_log_event i) (\<lambda>_ _ s. s)"

definition logging_new :: "(nat \<Rightarrow> nat) \<Rightarrow> logging" where
  "logging_new default_adaptor =
     \<lparr>lg_logging = False, lg_sinks = [], lg_console = [], lg_events = (\<lambda>i. dispatcher_new (default_adaptor i)),
      lg_heard = (\<lambda>_ _. [])\<rparr>"

interpretation log_dispatcher:
  quiet_dispatcher "\<lambda>s. lg_events s i" "upd_log_events i" "\<lambda>_. True" "run_log_event i" "\<lambda>_ _ s. s" for i
  by unfold_locales (simp_all add: upd_log_events_def run_log_event_def)

section \<open>What reaches whom\<close>

fun backends :: "log_sink list \<Rightarrow> (Level \<times> nat option) list" where
  "backends [] = []"
| "backends (Backend_Sink level i # sinks) = (level, i) # backends sinks"
| "backends (File_Sink _ _ # sinks) = backends sinks"

fun files :: "log_sink list \<Rightarrow> (string \<times> string list) list" where
  "files [] = []"
| "files (Backend_Sink _ _ # sinks) = files sinks"
| "files (File_Sink path ls # sinks) = (path, ls) # files sinks"

lemma backends_append [simp]: "backends (xs @ ys) = backends xs @ backends ys"
  by (induction xs rule: backends.induct) simp_all

lemma files_append [simp]: "files (xs @ ys) = files xs @ files ys"
  by (induction xs rule: files.induct) simp_all

lemma fold_sink_record:
  "\<exists>sinks'. fold (sink_record r) sinks (s, ds) =
     (fold (\<lambda>(level, i) s. if log_filter level r then log_consume i r (my_formatter r) s else s) (backends sinks) s, ds @ sinks') \<and>
     backends sinks' = backends sinks \<and> files sinks' = map (apsnd (\<lambda>ls. ls @ [lr_message r])) (files sinks)"
proof (induction sinks arbitrary: s ds)
  case (Cons x sinks)
  show ?case
  proof (cases x)
    case (Backend_Sink level i)
    then show ?thesis
      using Cons[of "if log_filter level r then log_consume i r (my_formatter r) s else s" "ds @ [Backend_Sink level i]"] by fastforce
  next
    case (File_Sink path ls)
    then show ?thesis using Cons[of s "ds @ [File_Sink path (ls @ [lr_message r])]"] by fastforce
  qed
qed simp

text \<open>Draining the log events tells every adaptor of the dispatcher both forms of each event, in order.\<close>

definition callbacks :: "(log_record \<times> string) list \<Rightarrow> log_callback list" where
  "callbacks es = concat (map (\<lambda>e. [On_log_record (fst e), On_formatted_log_record (cstr (snd e))]) es)"

lemma callbacks_simps [simp]:
  "callbacks [] = []"
  "callbacks (e # es) = [On_log_record (fst e), On_formatted_log_record (cstr (snd e))] @ callbacks es"
  "callbacks (es @ es') = callbacks es @ callbacks es'"
  by (simp_all add: callbacks_def)

definition heard_after :: "nat \<Rightarrow> nat list \<Rightarrow> log_callback list \<Rightarrow> logging \<Rightarrow> logging" where
  "heard_after i as cs s = s\<lparr>lg_heard := (lg_heard s)(i := (\<lambda>a. lg_heard s i a @ (if a \<in> set as then cs else [])))\<rparr>"

lemma heard_after_fields [simp]:
  "lg_events (heard_after i as cs s) = lg_events s" "lg_sinks (heard_after i as cs s) = lg_sinks s"
  "lg_console (heard_after i as cs s) = lg_console s" "lg_logging (heard_after i as cs s) = lg_logging s"
  "lg_heard (heard_after i as cs s) = (lg_heard s)(i := (\<lambda>a. lg_heard s i a @ (if a \<in> set as then cs else [])))"
  by (simp_all add: heard_after_def)

lemma process_log_event:
  assumes "distinct as"
  shows "process_event (\<lambda>_. True) (run_log_event i) (\<lambda>_ _ s. s) as e s = heard_after i as (callbacks [e]) s"
proof -
  have "fold (run_adaptor (\<lambda>_. True) (run_log_event i) e) as (s, True) = (heard_after i as (callbacks [e]) s, True)"
    using assms
  proof (induction as arbitrary: s)
    case (Cons a as)
    then show ?case
      by (simp add: run_adaptor_def run_log_event_def heard_after_def fun_eq_iff)
  qed (simp add: heard_after_def)
  then show ?thesis by (simp add: process_event_def)
qed

lemma drained_empty: "m_events d = [] \<Longrightarrow> d\<lparr>m_events := [], m_has_event := b\<rparr> = d\<lparr>m_has_event := b\<rparr>"
  by (cases d) simp

lemma heard_nothing: "heard_after i as [] s = s"
  by (simp add: heard_after_def)

lemma log_process_drains:
  assumes "log_process_events i n s = Some s'" and "distinct (m_adaptors (lg_events s i))"
  shows "s' = upd_log_events i (\<lambda>d. d\<lparr>m_events := [], m_has_event := False\<rparr>)
    (heard_after i (m_adaptors (lg_events s i)) (callbacks (m_events (lg_events s i))) s)"
  using assms unfolding log_process_events_def
proof (induction n arbitrary: s)
  case 0
  then show ?case
    by (subst (asm) process_events.simps) (auto simp: upd_log_events_def heard_nothing drained_empty split: list.splits)
next
  case (Suc n)
  show ?case
  proof (cases "m_events (lg_events s i)")
    case Nil
    then show ?thesis using Suc.prems(1)
      by (subst (asm) process_events.simps) (simp add: upd_log_events_def heard_nothing drained_empty)
  next
    case (Cons e es)
    let ?s = "heard_after i (m_adaptors (lg_events s i)) (callbacks [e]) (upd_log_events i (m_events_update (\<lambda>_. es)) s)"
    have "process_events (\<lambda>s. lg_events s i) (upd_log_events i) (\<lambda>_. True) (run_log_event i) (\<lambda>_ _ s. s) n ?s = Some s'"
      using Suc.prems Cons by (subst (asm) process_events.simps) (simp add: process_log_event)
    moreover have "distinct (m_adaptors (lg_events ?s i))" using Suc.prems(2) by (simp add: upd_log_events_def)
    ultimately have "s' = upd_log_events i (\<lambda>d. d\<lparr>m_events := [], m_has_event := False\<rparr>)
        (heard_after i (m_adaptors (lg_events ?s i)) (callbacks (m_events (lg_events ?s i))) ?s)" by (rule Suc.IH)
    then show ?thesis using Cons by (simp add: upd_log_events_def heard_after_def fun_eq_iff)
  qed
qed

text \<open>The calls of a process: of its clients and servers, of its threads, and the polls that drain log events.\<close>

datatype log_action =
    Init_Logger string Level "nat option"
  | Init_File string
  | Log_Message log_record
  | Log_Poll nat nat

fun log_act :: "log_action \<Rightarrow> logging \<Rightarrow> logging option" where
  "log_act (Init_Logger name level i) s = Some (init_logger name level i s)"
| "log_act (Init_File path) s = Some (init_file_logging path s)"
| "log_act (Log_Message r) s = Some (sink_message r s)"
| "log_act (Log_Poll i n) s = log_process_events i n s"

primrec log_run :: "log_action list \<Rightarrow> logging \<Rightarrow> logging option" where
  "log_run [] s = Some s"
| "log_run (a # acts) s = Option.bind (log_act a s) (log_run acts)"

text \<open>
  The specification: the first logger of the process and the records it accepts from then on; every log file and the messages
  that came after it was opened.
\<close>

fun first_logger :: "(Level \<times> nat option) option \<Rightarrow> log_action list \<Rightarrow> (Level \<times> nat option) option" where
  "first_logger st [] = st"
| "first_logger st (Init_Logger name level i # acts) = first_logger (if st = None then Some (level, i) else st) acts"
| "first_logger st (_ # acts) = first_logger st acts"

fun accepted :: "(Level \<times> nat option) option \<Rightarrow> log_record \<Rightarrow> log_record list" where
  "accepted None r = []"
| "accepted (Some (level, _)) r = (if log_filter level r then [r] else [])"

fun logged :: "(Level \<times> nat option) option \<Rightarrow> log_action list \<Rightarrow> log_record list" where
  "logged st [] = []"
| "logged st (Init_Logger name level i # acts) = logged (if st = None then Some (level, i) else st) acts"
| "logged st (Log_Message r # acts) = accepted st r @ logged st acts"
| "logged st (_ # acts) = logged st acts"

definition messages :: "log_action list \<Rightarrow> string list" where
  "messages acts = concat (map (\<lambda>a. case a of Log_Message r \<Rightarrow> [lr_message r] | _ \<Rightarrow> []) acts)"

fun log_files :: "log_action list \<Rightarrow> (string \<times> string list) list" where
  "log_files [] = []"
| "log_files (Init_File path # acts) = (path, messages acts) # log_files acts"
| "log_files (_ # acts) = log_files acts"

definition log_ok :: "(nat \<Rightarrow> nat) \<Rightarrow> (Level \<times> nat option) option \<Rightarrow> logging \<Rightarrow> bool" where
  "log_ok d st s \<longleftrightarrow> (\<forall>i. m_adaptors (lg_events s i) = [d i]) \<and> (lg_logging s \<longleftrightarrow> st \<noteq> None) \<and>
     backends (lg_sinks s) = (case st of None \<Rightarrow> [] | Some x \<Rightarrow> [x])"

definition log_events_of :: "log_record list \<Rightarrow> (log_record \<times> string) list" where
  "log_events_of rs = map (\<lambda>r. (r, my_formatter r)) rs"

definition reached :: "(nat \<Rightarrow> nat) \<Rightarrow> logging \<Rightarrow> nat \<Rightarrow> log_callback list" where
  "reached d s i = lg_heard s i (d i) @ callbacks (m_events (lg_events s i))"

lemma first_logger_some: "first_logger (Some x) acts = Some x"
proof (induction acts)
  case (Cons a acts)
  then show ?case by (cases a) simp_all
qed simp

lemma sink_message_reaches:
  assumes "log_ok d st s"
  shows "log_ok d st (sink_message r s) \<and> lg_console (sink_message r s) = lg_console s @ map my_formatter (accepted st r) \<and>
    files (lg_sinks (sink_message r s)) = map (apsnd (\<lambda>ls. ls @ [lr_message r])) (files (lg_sinks s)) \<and>
    reached d (sink_message r s) i = reached d s i @
      (if map_option snd st = Some (Some i) then callbacks (log_events_of (accepted st r)) else [])"
proof -
  obtain sinks where f: "fold (sink_record r) (lg_sinks s) (s, []) =
     (fold (\<lambda>(level, i) s. if log_filter level r then log_consume i r (my_formatter r) s else s) (backends (lg_sinks s)) s, sinks)"
    and sinks: "backends sinks = backends (lg_sinks s)" "files sinks = map (apsnd (\<lambda>ls. ls @ [lr_message r])) (files (lg_sinks s))"
    using fold_sink_record[of r "lg_sinks s" s "[]"] by auto
  show ?thesis
  proof (cases st)
    case None
    then have "sink_message r s = s\<lparr>lg_sinks := sinks\<rparr>" using assms(1) by (simp add: sink_message_def f log_ok_def)
    then show ?thesis using assms(1) sinks None by (simp add: log_ok_def reached_def)
  next
    case (Some x)
    obtain level o' where x: "x = (level, o')" by fastforce
    then have "sink_message r s =
      (if log_filter level r then log_consume o' r (my_formatter r) s else s)\<lparr>lg_sinks := sinks\<rparr>"
      using assms(1) Some by (simp add: sink_message_def f log_ok_def)
    then show ?thesis using assms(1) sinks Some x
      by (cases o') (auto simp: log_ok_def reached_def log_consume_def upd_log_events_def log_events_of_def)
  qed
qed

lemma log_run_reaches:
  assumes "log_run acts s = Some s'" and "log_ok d st s"
  shows "log_ok d (first_logger st acts) s' \<and> lg_console s' = lg_console s @ map my_formatter (logged st acts) \<and>
    files (lg_sinks s') = map (apsnd (\<lambda>ls. ls @ messages acts)) (files (lg_sinks s)) @ log_files acts \<and>
    reached d s' i = reached d s i @
      (if map_option snd (first_logger st acts) = Some (Some i) then callbacks (log_events_of (logged st acts)) else [])"
  using assms
proof (induction acts arbitrary: s st)
  case Nil
  then show ?case by (simp add: messages_def log_events_of_def apsnd_def map_prod_def)
next
  case (Cons a acts)
  obtain s1 where s1: "log_act a s = Some s1" "log_run acts s1 = Some s'" using Cons.prems(1) by (auto simp: Option.bind_eq_Some_conv)
  show ?case
  proof (cases a)
    case (Init_Logger name level j)
    have ok: "log_ok d (if st = None then Some (level, j) else st) s1" and same: "lg_console s1 = lg_console s"
      "files (lg_sinks s1) = files (lg_sinks s)" "reached d s1 i = reached d s i"
      using s1(1) Init_Logger Cons.prems(2) by (auto simp: init_logger_def log_ok_def reached_def)
    show ?thesis using Cons.IH[OF s1(2) ok] Init_Logger same by (simp add: messages_def)
  next
    case (Init_File path)
    have ok: "log_ok d st s1" and same: "lg_console s1 = lg_console s" "reached d s1 i = reached d s i"
      "files (lg_sinks s1) = files (lg_sinks s) @ [(path, [])]"
      using s1(1) Init_File Cons.prems(2) by (auto simp: init_file_logging_def log_ok_def reached_def)
    show ?thesis using Cons.IH[OF s1(2) ok] Init_File same by (simp add: messages_def)
  next
    case (Log_Message r)
    have "s1 = sink_message r s" using s1(1) Log_Message by simp
    note m = sink_message_reaches[OF Cons.prems(2), of r i, folded this]
    have st: "map_option snd st = Some (Some i) \<Longrightarrow> first_logger st acts = st" by (cases st) (simp_all add: first_logger_some)
    have none: "accepted st r = [] \<or> (first_logger st acts = st)" by (cases st) (simp_all add: first_logger_some)
    show ?thesis using Cons.IH[OF s1(2) conjunct1[OF m]] m none
      by (auto simp: Log_Message messages_def log_events_of_def comp_def apsnd_def map_prod_def case_prod_unfold)
  next
    case (Log_Poll j n)
    have "distinct (m_adaptors (lg_events s j))" using Cons.prems(2) by (simp add: log_ok_def)
    then have s1': "s1 = upd_log_events j (\<lambda>d. d\<lparr>m_events := [], m_has_event := False\<rparr>)
        (heard_after j (m_adaptors (lg_events s j)) (callbacks (m_events (lg_events s j))) s)"
      using log_process_drains s1(1) Log_Poll by simp
    have ok: "log_ok d st s1" and same: "lg_console s1 = lg_console s" "reached d s1 i = reached d s i"
      "files (lg_sinks s1) = files (lg_sinks s)"
      using Cons.prems(2) by (auto simp: s1' upd_log_events_def log_ok_def reached_def)
    show ?thesis using Cons.IH[OF s1(2) ok] Log_Poll same by (simp add: messages_def)
  qed
qed

text \<open>
  Whatever the clients and servers of a process do, in any order, the first logger that is initialised takes every record its filter
  accepts: the console shows each once, in order, and the adaptor of its owner hears each once, in order, when the owner polls.
  Nobody else hears anything, whatever level the later ones ask for. A log file gets every message after it was opened, of any level
  and channel, without its format.
\<close>

theorem log_reaches_first_logger:
  assumes "log_run acts (logging_new d) = Some s"
  shows "lg_console s = map my_formatter (logged None acts) \<and> files (lg_sinks s) = log_files acts \<and>
    (\<exists>s'. log_process_events i (length (m_events (lg_events s i))) s = Some s' \<and>
       lg_heard s' i (d i) =
         (if map_option snd (first_logger None acts) = Some (Some i)
          then concat (map (\<lambda>r. [On_log_record r, On_formatted_log_record (cstr (my_formatter r))]) (logged None acts)) else []))"
proof -
  have new: "log_ok d None (logging_new d)" "reached d (logging_new d) i = []" "lg_sinks (logging_new d) = []"
    "lg_console (logging_new d) = []"
    by (simp_all add: log_ok_def logging_new_def dispatcher_new_def reached_def)
  note r = log_run_reaches[OF assms new(1), of i]
  have ad: "m_adaptors (lg_events s i) = [d i]" using r by (simp add: log_ok_def)
  obtain s' where s': "log_process_events i (length (m_events (lg_events s i))) s = Some s'"
    using log_dispatcher.process_events_fifo[of s i "length (m_events (lg_events s i))"] by (auto simp: log_process_events_def)
  have "lg_heard s' i (d i) = reached d s i"
    using log_process_drains[OF s'] ad by (simp add: upd_log_events_def reached_def)
  then show ?thesis using r s' new by (simp add: callbacks_def log_events_of_def comp_def)
qed

text \<open>A client with the level of notifications and a server in one process: the debug records of the server are lost.\<close>

lemma two_loggers_run:
  "map_option lg_console (log_run
     [Init_Logger ''ada'' Level_notification (Some 0), Init_Logger ''stage'' Level_debug (Some 1),
      Log_Message (channel_record ZST_LOG_SERVER_CHANNEL \<lparr>lc_line = 1, lc_process = ''p'', lc_thread = ''t''\<rparr> Level_debug ''started''),
      Log_Message (channel_record ZST_LOG_SERVER_CHANNEL \<lparr>lc_line = 2, lc_process = ''p'', lc_thread = ''t''\<rparr> Level_warn ''late'')]
     (logging_new (\<lambda>_. 0))) = Some [''2: [p] [t] [srv] <WARN> late'']"
  by code_simp

end
