(* ===== verification/Spec2Isabelle.thy ===== *)
theory Spec2Isabelle
  imports Zst_Links Zst_API Zst_Replication Zst_Adder Zst_Rest Zst_Server Zst_Teardown Zst_Client_Process Zst_Ownership Zst_Logging
begin

text \<open>
  A verification library for Showtime, a C++ library (\<open>src/src\<close>, \<open>src/include/showtime\<close>) that connects
  the performers of a live performance: each client owns a tree of entities (components, plugs,
  factories), cables connect output to input plugs, and a server, the stage, keeps proxies of all
  entities and cables and relays every change to the other clients.

  Parts and theories, in the order of imports:

    \<^item> \<open>Zst_Prelude\<close>: results of code that can raise, C strings, lists by index, loops as folds, the
      collections of lemmas. \<open>Zst_Ordered_Set\<close>: \<open>std::set\<close> as a sorted list, for every order that is
      given by a key; interpreted for URIs, cable addresses and cables.
    \<^item> \<open>Zst_URI\<close> (\<open>ZstURI.cpp\<close>), \<open>Zst_CableAddress\<close> (\<open>ZstCableAddress.cpp\<close>), \<open>Zst_Value\<close>
      (\<open>ZstValue.cpp\<close>): the data of the program.
    \<^item> \<open>Zst_Dispatcher\<close> (\<open>ZstEventDispatcher.hpp\<close>): the queue of deferred events. The locale
      \<open>quiet_dispatcher\<close> states when draining a queue ends; it is interpreted for the queues of the
      session and of the stage.
    \<^item> \<open>Zst_Synchronisable\<close> (\<open>ZstSynchronisable.cpp\<close>, \<open>ZstSynchronisableModule.cpp\<close>, \<open>ZstReaper.cpp\<close>):
      the activation state machine and its teardown.
    \<^item> \<open>Zst_Entity\<close>, \<open>Zst_Tree\<close> (\<open>src/src/core/entities\<close>): data and tables of entities; parents,
      children, names and the lookup table. One record holds the fields of every class of entity and
      its dynamic type. Objects live in a heap of the state, so that aliasing and deletion are explicit.
    \<^item> \<open>Zst_Message\<close>: messages, signals and arguments of sending.
    \<^item> \<open>Zst_Hierarchy\<close> (\<open>ZstHierarchy.cpp\<close>): proxies, their adoption, removal and deferred deletion.
    \<^item> \<open>Zst_Session\<close> (\<open>ZstSession.cpp\<close>, \<open>ZstCable.cpp\<close>): the set of cables.
    \<^item> \<open>Zst_Stage\<close> (\<open>src/src/server\<close>): the message handlers of the server, its events and its timer.
      \<open>Zst_Protocol\<close>: the server as a transition system and its invariant; \<open>Zst_Relay\<close>: which messages
      it sends; \<open>Zst_Rounds\<close>: its rounds of event processing end, silent clients are removed;
      \<open>Zst_Links\<close>: the cables as a refinement of a set of links.
    \<^item> \<open>Zst_Transport\<close> (\<open>ZstTransportLayerBase.hpp\<close>, \<open>ZstMessageSupervisor.cpp\<close>, \<open>ZstMessagePool.hpp\<close>,
      \<open>ZstStageTransport.cpp\<close>, the socket handlers): messages, requests and their responses, for
      every type of message, as the template of the source. \<open>Zst_Requests\<close>: the threads of a transport of
      stage messages as a transition system and its invariant; \<open>Zst_Teardown\<close>: that system with the event thread
      and the thread pool, which are started and joined. \<open>Zst_Datagrams\<close> (\<open>ZstGraphTransport.cpp\<close>
      and its two variants, \<open>ZstServiceDiscoveryTransport.cpp\<close>): the transports without requests, for the
      values of plugs and the beacons of servers. \<open>Zst_Websocket\<close> (\<open>ZstWebsocketSession.cpp\<close>,
      \<open>ZstWebsocketServerTransport.cpp\<close>): the sessions of websocket clients.
    \<^item> \<open>Zst_Actor\<close> (\<open>ZstActor.cpp\<close>, \<open>ZstZMQRefCounter.cpp\<close>, the transports of ZeroMQ): the actors that read sockets, and
      the opening and closing of transports with the count of references that shuts ZeroMQ down.
      \<open>Zst_Wakeup\<close> (\<open>ZstSemaphore.h\<close>, \<open>ZstStageModule.cpp\<close>, \<open>ZstStage::event_loop\<close>): how the event loop of the
      stage sleeps and wakes, as a transition system of threads; \<open>Zst_Rest\<close>: why it comes to rest, with the handlers of
      the stage that defer events themselves. \<open>Zst_Server\<close> (\<open>ZstStage.cpp\<close>, \<open>ShowtimeServer.cpp\<close>,
      \<open>ZstStageRunner.cpp\<close>): opening and closing a server, and the standalone program.
    \<^item> \<open>Zst_Session_Invariant\<close>: what the operations on cables and the deferred deletion keep of a session.
    \<^item> \<open>Zst_Client_Hierarchy\<close>, \<open>Zst_Client_Session\<close>, \<open>Zst_Client\<close> (\<open>ZstClientHierarchy.cpp\<close>,
      \<open>ZstClientSession.cpp\<close>, \<open>ZstClient.cpp\<close> in \<open>src/src/client\<close>): the client, its messages, requests,
      callbacks, timers and events, joining and leaving a server, the handshake with other clients, and the firing
      of output plugs. \<open>Zst_Client_Invariant\<close>, \<open>Zst_Client_Protocol\<close>: its invariant, the client as a
      transition system; \<open>Zst_Client_Behaviour\<close>, \<open>Zst_Client_Values\<close>: what it does;
      \<open>Zst_Client_Stage\<close>, \<open>Zst_Replication\<close>, \<open>Zst_Ownership\<close>: clients and server together; \<open>Zst_API\<close> (\<open>ShowtimeClient.cpp\<close>): what an
      application calls; \<open>Zst_Adder\<close> (\<open>src/src/plugins/core_entities\<close>): the component the library ships;
      \<open>Zst_Plugins\<close> (\<open>ZstPluginLoader.cpp\<close>): the loading of plugins; \<open>Zst_Client_Process\<close>
      (\<open>ZstClient::init_client\<close> and \<open>destroy\<close>): a client with its transports, plugins and timers, as it is opened
      and closed, and what a client that is initialised again lacks.
    \<^item> \<open>Zst_Logging\<close> (\<open>ZstLogging.cpp\<close>): who gets which log record.

  The state of the session extends the record of the hierarchy by the fields of the session, and that of the
  client extends it further, so that an operation on the hierarchy is at once an operation on the state of the
  stage and of the client. Where the source calls a virtual function of the module an entity belongs to, the model
  takes the record \<open>hierarchy_virtuals\<close>; \<open>stage_virtuals\<close> and \<open>client_virtuals\<close> fill it in. The locales
  \<open>hierarchy_module\<close>, \<open>hierarchy_reaper\<close> and \<open>session_module\<close> state what the operations need of it;
  they are interpreted for both. Requests of the client go to its outbox; a blocking call is cut at its wait, and
  the callback of its response, a value of \<open>client_action\<close>, is a step of its own.

  Lemmas: each theory first shows that its operations keep the invariant of its state (\<open>hierarchy_ok\<close>:
  the lookup table is sound; \<open>cables_ok\<close>: one cable for each pair of plugs; \<open>stage_ok\<close>: both, for the
  stage; \<open>client_ok\<close>: both, with the root of a client; \<open>client_inv\<close>: that and the fields that control the
  connection), then what the operations compute. \<open>stage_reachable\<close>, \<open>client_reachable\<close> and
  \<open>transport_reachable\<close> are the states the three can reach, \<open>graph_run\<close>, \<open>beacon_run\<close> and \<open>ws_step\<close> the
  runs of the other transports, \<open>zmq_run\<close> those of a process that opens and closes transports, \<open>loop_reachable\<close> the
  interleavings of the event loop of the stage with the threads that defer events. Properties are numbered C1, C2, ...; a property that has hypotheses is followed by a
  witness that applies it to a concrete state. The \<open>compute\<close> method of components is an argument of the client,
  with the hypothesis \<open>compute_inv\<close> that it keeps the invariant; it is proved of the component the library ships.

  Runs: the stage goes on after an exception that its dispatcher catches while a message is delivered
  (\<open>caught\<close>), and a null pointer or an access to a deleted object ends the process; a run of a client is one life,
  from \<open>init_client\<close> until it is initialised again.

  Bounds: URIs are built by the scan without the bound of the component array, which is exact up to 254 slashes
  (\<open>uri_init_checked\<close>); \<open>tree_depth\<close> levels of the tree of entities are visited, as many as the components a URI can
  have; event loops take the number of events they may handle and return \<open>None\<close> when more arrive.

  Not modelled: what sockets, beacons, websockets, loops and shared libraries do beyond their results; locks (one handler,
  callback or event runs at a time; a thread that waits for a response is split at the wait; the interleavings that
  \<open>Zst_Requests\<close>, \<open>Zst_Datagrams\<close> and \<open>Zst_Wakeup\<close> have are between such steps); the threads of timers and of
  Boost.Asio (\<open>ZstIOLoop.cpp\<close>); the messages that each function logs;
  copy constructors of entities, which nothing calls; the web monitor and
  the bindings to other languages. The message schemas are generated from a submodule that is not part of the
  repository; messages are a datatype with the fields the source writes and reads. The text form of floats is a
  parameter, as are the bits of a NaN that an addition gives.
\<close>

end
